(* ===== verification/Prelude.thy ===== *)
theory Prelude
  imports Main "HOL-Library.AList" "HOL-Library.Word"
begin

text \<open>
  What the component theories share.

  \<^item> Go values: byte slices and strings are \<open>string\<close> (Isabelle's \<open>char\<close> is a byte); an instant is
    an \<open>int\<close>, the nanoseconds since Go's zero time, so that \<open>IsZero\<close> is \<open>= 0\<close>, \<open>After\<close> is \<open>>\<close>;
    a Go map is an association list when it is iterated and a HOL map otherwise.
  \<^item> Go errors: sentinels, \<open>errors.New\<close>/\<open>fmt.Errorf\<close> without wrapping (\<open>Errorf\<close>, the format and
    its string arguments) and \<open>fmt.Errorf\<close> with \<open>%w\<close> (\<open>Wrapf\<close>).
  \<^item> Go calls that read or write state and may fail: the type \<open>action\<close>, a function from the state
    to an error or a value, and the next state; \<open>go_bind\<close> is "if err != nil { return err }".
  \<^item> \<open>wp\<close>, the weakest precondition of an action, with one rule per combinator.
\<close>

named_theorems go_defs \<open>the combinators of the action type\<close>
named_theorems wp_rules \<open>weakest preconditions of the combinators and of the storage primitives\<close>

section \<open>Go values\<close>

type_synonym bytes = string
type_synonym time = int

abbreviation is_zero_time :: "time \<Rightarrow> bool" where
  "is_zero_time t \<equiv> t = 0"

section \<open>Go errors\<close>

datatype error =
    ErrKeyNotFound
  | ErrEmptyStorageStep
  | ErrEmptyStepContext
  | ErrMissingWorkflowName
  | ErrMissingInstanceID
  | ErrMissingIDs
  | ErrMissingCommands
  | ErrEmptyStepCommandResult
  | ErrEmptyResultReport
  | ErrEmptyEventSubscription
  | ErrMissingEvent
  | ErrNoSuchWorkflow
  | ErrWorkflowAlreadyStarted
  | ErrEventsNotSupported
  | ErrTimeoutNotUsed
  | ErrStepResultCommandLenMismatch
  | ErrUnknownStepName
  | ErrIncorrectCommandType
  | ErrIncorrectContextType
  | ErrInvalidContext
  | ErrNilContext
  | ErrEmptyProfileName
  | ErrEmptyFilter
  | ErrProfileNotFound
  | ErrNoNames
  | ErrNoIDs
  | Errorf string "string list"
  | Wrapf string "string list" error

text \<open>\<open>errors.Is\<close>: walk the chain of wrapped errors.\<close>

fun errors_is :: "error \<Rightarrow> error \<Rightarrow> bool" where
  "errors_is (Wrapf f as e) t = (Wrapf f as e = t \<or> errors_is e t)"
| "errors_is e t = (e = t)"

type_synonym 'a result = "error + 'a"

section \<open>Fallible calls on a state\<close>

type_synonym ('w, 'a) action = "'w \<Rightarrow> 'a result \<times> 'w"

definition go_ret :: "'a \<Rightarrow> ('w, 'a) action" where
  "go_ret x = (\<lambda>w. (Inr x, w))"

definition go_fail :: "error \<Rightarrow> ('w, 'a) action" where
  "go_fail e = (\<lambda>w. (Inl e, w))"

definition go_bind :: "('w, 'a) action \<Rightarrow> ('a \<Rightarrow> ('w, 'b) action) \<Rightarrow> ('w, 'b) action" where
  "go_bind m f = (\<lambda>w. case m w of (Inl e, w') \<Rightarrow> (Inl e, w') | (Inr x, w') \<Rightarrow> f x w')"

definition go_wrap :: "string \<Rightarrow> string list \<Rightarrow> ('w, 'a) action \<Rightarrow> ('w, 'a) action" where
  "go_wrap fmt args m =
     (\<lambda>w. case m w of (Inl e, w') \<Rightarrow> (Inl (Wrapf fmt args e), w') | (Inr x, w') \<Rightarrow> (Inr x, w'))"

text \<open>A call whose error is only logged: the caller goes on with \<open>Inl\<close> or \<open>Inr\<close> in hand.\<close>

definition go_try :: "('w, 'a) action \<Rightarrow> ('w, 'a result) action" where
  "go_try m = (\<lambda>w. case m w of (r, w') \<Rightarrow> (Inr r, w'))"

definition go_lift :: "'a result \<Rightarrow> ('w, 'a) action" where
  "go_lift r = (\<lambda>w. (r, w))"

text \<open>\<open>for _, x := range xs { ... }\<close> whose body may return an error.\<close>

primrec go_for :: "'x list \<Rightarrow> ('x \<Rightarrow> ('w, unit) action) \<Rightarrow> ('w, unit) action" where
  "go_for [] f = go_ret ()"
| "go_for (x # xs) f = go_bind (f x) (\<lambda>_. go_for xs f)"

text \<open>The same loop with a variable that the body updates.\<close>

primrec go_fold :: "('x \<Rightarrow> 'acc \<Rightarrow> ('w, 'acc) action) \<Rightarrow> 'x list \<Rightarrow> 'acc \<Rightarrow> ('w, 'acc) action" where
  "go_fold f [] acc = go_ret acc"
| "go_fold f (x # xs) acc = go_bind (f x acc) (\<lambda>acc'. go_fold f xs acc')"

text \<open>A call on a part of the state, read with \<open>g\<close> and written back with \<open>u\<close>.\<close>

definition go_zoom ::
  "('w \<Rightarrow> 'v) \<Rightarrow> ('v \<Rightarrow> 'w \<Rightarrow> 'w) \<Rightarrow> ('v, 'a) action \<Rightarrow> ('w, 'a) action" where
  "go_zoom g u m = (\<lambda>w. case m (g w) of (r, v') \<Rightarrow> (r, u v' w))"

definition go_read :: "('w \<Rightarrow> 'a) \<Rightarrow> ('w, 'a) action" where
  "go_read g = (\<lambda>w. (Inr (g w), w))"

lemmas go_run_defs [go_defs] =
  go_ret_def go_fail_def go_bind_def go_wrap_def go_try_def go_lift_def go_zoom_def go_read_def

lemma go_bind_ret [simp]: "go_bind (go_ret x) f = f x"
  by (simp add: go_defs)

lemma go_bind_fail [simp]: "go_bind (go_fail e) f = go_fail e"
  by (simp add: go_defs)

lemma go_bind_assoc: "go_bind (go_bind m f) g = go_bind m (\<lambda>x. go_bind (f x) g)"
  by (auto simp: go_defs split: prod.splits sum.splits)

lemma go_for_append: "go_for (xs @ ys) f = go_bind (go_for xs f) (\<lambda>_. go_for ys f)"
  by (induction xs) (simp_all add: go_bind_assoc)

section \<open>Weakest preconditions\<close>

definition wp :: "('w, 'a) action \<Rightarrow> ('a result \<Rightarrow> 'w \<Rightarrow> bool) \<Rightarrow> 'w \<Rightarrow> bool" where
  "wp m Q w = (case m w of (r, w') \<Rightarrow> Q r w')"

lemma wp_eqD: "wp m (\<lambda>r w'. R r w') w \<Longrightarrow> m w = (r, w') \<Longrightarrow> R r w'"
  by (simp add: wp_def)

lemma wp_run: "m w = (r, w') \<Longrightarrow> Q r w' \<Longrightarrow> wp m Q w"
  by (simp add: wp_def)

lemma wp_ex: "wp m Q w \<longleftrightarrow> (\<exists>r w'. m w = (r, w') \<and> Q r w')"
  by (auto simp: wp_def split: prod.splits)

lemma wp_mono: "wp m Q w \<Longrightarrow> (\<And>r w'. Q r w' \<Longrightarrow> R r w') \<Longrightarrow> wp m R w"
  by (auto simp: wp_def split: prod.splits)

lemma wp_ret [wp_rules, simp]: "wp (go_ret x) Q w = Q (Inr x) w"
  by (simp add: wp_def go_defs)

lemma wp_fail [wp_rules, simp]: "wp (go_fail e) Q w = Q (Inl e) w"
  by (simp add: wp_def go_defs)

lemma wp_lift [simp]: "wp (go_lift r) Q w = Q r w"
  by (simp add: wp_def go_defs)

lemma wp_read [simp]: "wp (go_read g) Q w = Q (Inr (g w)) w"
  by (simp add: wp_def go_defs)

lemma wp_bind [simp]:
  "wp (go_bind m f) Q w = wp m (\<lambda>r w'. case r of Inl e \<Rightarrow> Q (Inl e) w' | Inr x \<Rightarrow> wp (f x) Q w') w"
  by (auto simp: wp_def go_defs split: prod.splits sum.splits)

lemma wp_wrap [simp]:
  "wp (go_wrap fmt as m) Q w =
     wp m (\<lambda>r w'. case r of Inl e \<Rightarrow> Q (Inl (Wrapf fmt as e)) w' | Inr x \<Rightarrow> Q (Inr x) w') w"
  by (auto simp: wp_def go_defs split: prod.splits sum.splits)

lemma wp_try [simp]: "wp (go_try m) Q w = wp m (\<lambda>r. Q (Inr r)) w"
  by (auto simp: wp_def go_defs split: prod.splits)

lemma wp_zoom [simp]: "wp (go_zoom g u m) Q w = wp m (\<lambda>r v. Q r (u v w)) (g w)"
  by (auto simp: wp_def go_defs split: prod.splits)

lemma wp_if [simp]: "wp (if b then m else m') Q w = (if b then wp m Q w else wp m' Q w)"
  by simp

text \<open>
  The loop rule: an invariant \<open>I\<close> on the items still to come; the body never fails.
\<close>

lemma wp_for:
  assumes "I xs w"
    and "\<And>y ys v. I (y # ys) v \<Longrightarrow> wp (f y) (\<lambda>r v'. r = Inr () \<and> I ys v') v"
    and "\<And>v. I [] v \<Longrightarrow> Q (Inr ()) v"
  shows "wp (go_for xs f) Q w"
  using assms(1)
proof (induction xs arbitrary: w)
  case Nil
  then show ?case by (simp add: assms(3))
next
  case (Cons x xs)
  have "wp (f x) (\<lambda>r v'. r = Inr () \<and> I xs v') w" by (rule assms(2) [OF Cons.prems])
  then show ?case by (auto elim!: wp_mono dest: Cons.IH)
qed

section \<open>Go's string functions\<close>

text \<open>\<open>strings.Join\<close>, \<open>strings.Split\<close> by one byte, \<open>strings.HasPrefix\<close>, \<open>strings.HasSuffix\<close> and the
  slice \<open>k[:len(k)-len(sfx)]\<close>.\<close>

fun join :: "char \<Rightarrow> string list \<Rightarrow> string" where
  "join c [] = []"
| "join c [s] = s"
| "join c (s # ss) = s @ c # join c ss"

fun split :: "char \<Rightarrow> string \<Rightarrow> string list" where
  "split c [] = [[]]"
| "split c (x # xs) =
     (if x = c then [] # split c xs
      else (case split c xs of [] \<Rightarrow> [[x]] | p # ps \<Rightarrow> (x # p) # ps))"

definition has_prefix :: "string \<Rightarrow> string \<Rightarrow> bool" where
  "has_prefix s p \<longleftrightarrow> length p \<le> length s \<and> take (length p) s = p"

definition has_suffix :: "string \<Rightarrow> string \<Rightarrow> bool" where
  "has_suffix s x \<longleftrightarrow> length x \<le> length s \<and> drop (length s - length x) s = x"

definition chop_suffix :: "string \<Rightarrow> string \<Rightarrow> string" where
  "chop_suffix s x = take (length s - length x) s"

lemma has_suffix_iff: "has_suffix s x \<longleftrightarrow> (\<exists>p. s = p @ x)"
proof
  assume "has_suffix s x"
  then have "s = take (length s - length x) s @ x"
    unfolding has_suffix_def by (metis append_take_drop_id)
  then show "\<exists>p. s = p @ x" by blast
qed (auto simp: has_suffix_def)

lemma chop_suffix_append [simp]: "chop_suffix (p @ x) x = p"
  by (simp add: chop_suffix_def)

lemma has_prefix_iff: "has_prefix s p \<longleftrightarrow> (\<exists>r. s = p @ r)"
proof
  assume "has_prefix s p"
  then have "s = p @ drop (length p) s"
    unfolding has_prefix_def by (metis append_take_drop_id)
  then show "\<exists>r. s = p @ r" by blast
qed (auto simp: has_prefix_def)

lemma split_nonempty [simp]: "split c s \<noteq> []"
  by (induction s) (auto split: list.splits)

lemma split_no_sep: "c \<notin> set s \<Longrightarrow> split c s = [s]"
  by (induction s) auto

lemma split_sep: "c \<notin> set s \<Longrightarrow> split c (s @ c # t) = s # split c t"
  by (induction s) auto

lemma split_join: "ss \<noteq> [] \<Longrightarrow> \<forall>s\<in>set ss. c \<notin> set s \<Longrightarrow> split c (join c ss) = ss"
  by (induction c ss rule: join.induct) (auto simp: split_no_sep split_sep)

lemma join_split: "join c (split c s) = s"
proof (induction s)
  case (Cons x s)
  then show ?case
    by (cases "split c s"; cases "tl (split c s)") auto
qed simp

lemma split_parts: "s \<in> set (split c t) \<Longrightarrow> c \<notin> set s"
  by (induction t arbitrary: s) (auto split: list.splits if_splits)

end
