(* ===== verification/Strconv.thy ===== *)
theory Strconv
  imports Prelude
begin

text \<open>
  \<open>strconv.Itoa\<close> and \<open>strconv.Atoi\<close> of Go's standard library, as the program uses them: the
  decimal text of an \<open>int\<close>, and its parser with an optional sign, which rejects anything that is
  not a decimal digit and anything outside the range of a 64-bit \<open>int\<close>.
\<close>

fun digits :: "nat \<Rightarrow> string" where
  "digits n = (if n < 10 then [char_of (48 + n)] else digits (n div 10) @ [char_of (48 + n mod 10)])"

declare digits.simps [simp del]

definition itoa :: "int \<Rightarrow> string" where
  "itoa i = (if i < 0 then CHR ''-'' # digits (nat (- i)) else digits (nat i))"

definition is_digit :: "char \<Rightarrow> bool" where
  "is_digit c \<longleftrightarrow> 48 \<le> (of_char c :: nat) \<and> (of_char c :: nat) \<le> 57"

definition digit_value :: "char \<Rightarrow> nat" where
  "digit_value c = of_char c - 48"

definition digits_value :: "string \<Rightarrow> nat" where
  "digits_value s = foldl (\<lambda>n c. 10 * n + digit_value c) 0 s"

definition min_int64 :: int where "min_int64 = - (2 ^ 63)"
definition max_int64 :: int where "max_int64 = 2 ^ 63 - 1"

definition parse_nat :: "string \<Rightarrow> nat result" where
  "parse_nat s =
     (if s = [] \<or> \<not> list_all is_digit s then Inl (Errorf ''invalid syntax'' [s])
      else Inr (digits_value s))"

definition check_int64 :: "string \<Rightarrow> int \<Rightarrow> int result" where
  "check_int64 s i =
     (if i < min_int64 \<or> max_int64 < i then Inl (Errorf ''value out of range'' [s]) else Inr i)"

definition atoi :: "string \<Rightarrow> int result" where
  "atoi s =
     (case s of
        CHR ''-'' # t \<Rightarrow> (case parse_nat t of Inl e \<Rightarrow> Inl e | Inr n \<Rightarrow> check_int64 s (- int n))
      | CHR ''+'' # t \<Rightarrow> (case parse_nat t of Inl e \<Rightarrow> Inl e | Inr n \<Rightarrow> check_int64 s (int n))
      | _ \<Rightarrow> (case parse_nat s of Inl e \<Rightarrow> Inl e | Inr n \<Rightarrow> check_int64 s (int n)))"

lemma of_char_digit: "n < 10 \<Longrightarrow> (of_char (char_of (48 + n :: nat)) :: nat) = 48 + n"
  by simp

lemma is_digit_digit: "n < 10 \<Longrightarrow> is_digit (char_of (48 + n :: nat))"
  by (simp add: is_digit_def)

lemma digit_value_digit: "n < 10 \<Longrightarrow> digit_value (char_of (48 + n :: nat)) = n"
  by (simp add: digit_value_def)

lemma digits_are_digits: "list_all is_digit (digits n)"
proof (induction n rule: digits.induct)
  case (1 n)
  then show ?case by (subst digits.simps) (simp add: is_digit_digit)
qed

lemma digits_nonempty [simp]: "digits n \<noteq> []"
  by (subst digits.simps) simp

lemma digits_value_snoc: "digits_value (s @ [c]) = 10 * digits_value s + digit_value c"
  by (simp add: digits_value_def)

lemma digits_value_digits [simp]: "digits_value (digits n) = n"
proof (induction n rule: digits.induct)
  case (1 n)
  show ?case
  proof (cases "n < 10")
    case True
    then show ?thesis by (subst digits.simps) (simp add: digits_value_def digit_value_digit)
  next
    case False
    then have "digits_value (digits n) = 10 * digits_value (digits (n div 10)) + n mod 10"
      by (subst digits.simps) (simp add: digits_value_snoc digit_value_digit)
    with 1 False show ?thesis by simp
  qed
qed

lemma parse_nat_digits [simp]: "parse_nat (digits n) = Inr n"
  by (simp add: parse_nat_def digits_are_digits)

lemma digits_hd: "digits n = c # t \<Longrightarrow> is_digit c"
  using digits_are_digits [of n] by simp

lemma not_digit_sign [simp]: "\<not> is_digit (CHR ''-'')" "\<not> is_digit (CHR ''+'')"
  by (simp_all add: is_digit_def)

lemma atoi_unsigned: "atoi (digits n) = check_int64 (digits n) (int n)"
proof (cases "digits n")
  case (Cons c t)
  then have "c \<noteq> CHR ''-''" "c \<noteq> CHR ''+''" using digits_hd [of n c t] by auto
  then have "atoi (c # t) =
      (case parse_nat (c # t) of Inl e \<Rightarrow> Inl e | Inr n \<Rightarrow> check_int64 (c # t) (int n))"
    unfolding atoi_def by (auto split: char.splits bool.splits)
  with Cons [symmetric] show ?thesis by simp
qed simp

lemma atoi_itoa:
  assumes "min_int64 \<le> i" "i \<le> max_int64"
  shows "atoi (itoa i) = Inr i"
proof (cases "i < 0")
  case True
  then have "atoi (itoa i) = check_int64 (itoa i) i"
    by (simp add: itoa_def atoi_def)
  with assms show ?thesis by (simp add: check_int64_def)
next
  case False
  with assms show ?thesis by (simp add: itoa_def atoi_unsigned check_int64_def)
qed

end
