(* ===== verification/Mdm.thy ===== *)
theory Mdm
  imports Strconv
begin

text \<open>
  \<open>mdm/mdm.go\<close>: the check-in messages of the MDM protocol. A pointer that may be nil is an option;
  the embedded \<open>Checkin\<close> and \<open>Enrollment\<close> structs come first in each record, and the \<open>MessageType\<close>
  of \<open>TokenUpdate\<close> shadows the embedded one.
\<close>

record checkin_fields =
  ck_message_type :: string

record enrollment_fields = checkin_fields +
  enr_udid :: string
  enr_user_id :: string
  enr_user_short_name :: string
  enr_user_long_name :: string
  enr_enrollment_id :: string
  enr_enrollment_user_id :: string

record authenticate = enrollment_fields +
  au_build_version :: string
  au_device_name :: string
  au_imei :: string
  au_meid :: string
  au_model :: string
  au_model_name :: string
  au_os_version :: string
  au_product_name :: string
  au_serial_number :: string
  au_topic :: string

record token_update = enrollment_fields +
  tu_awaiting_configuration :: bool
  tu_message_type :: string
  tu_not_on_console :: bool
  tu_push_magic :: string
  tu_token :: bytes
  tu_topic :: string
  tu_unlock_token :: bytes

record check_out = enrollment_fields +
  co_topic :: string

text \<open>The zero values that \<open>new\<close> allocates.\<close>

definition new_authenticate :: authenticate where
  "new_authenticate =
     \<lparr>ck_message_type = [], enr_udid = [], enr_user_id = [], enr_user_short_name = [], enr_user_long_name = [],
      enr_enrollment_id = [], enr_enrollment_user_id = [],
      au_build_version = [], au_device_name = [], au_imei = [], au_meid = [], au_model = [],
      au_model_name = [], au_os_version = [], au_product_name = [], au_serial_number = [],
      au_topic = []\<rparr>"

definition new_token_update :: token_update where
  "new_token_update =
     \<lparr>ck_message_type = [], enr_udid = [], enr_user_id = [], enr_user_short_name = [], enr_user_long_name = [],
      enr_enrollment_id = [], enr_enrollment_user_id = [], tu_awaiting_configuration = False,
      tu_message_type = [], tu_not_on_console = False, tu_push_magic = [], tu_token = [],
      tu_topic = [], tu_unlock_token = []\<rparr>"

definition new_check_out :: check_out where
  "new_check_out =
     \<lparr>ck_message_type = [], enr_udid = [], enr_user_id = [], enr_user_short_name = [], enr_user_long_name = [],
      enr_enrollment_id = [], enr_enrollment_user_id = [], co_topic = []\<rparr>"

text \<open>
  The dynamic types that \<open>MDMCheckinEvent\<close> switches on; \<open>TokenUpdateEnrolling\<close> wraps a pointer that
  may be nil, and any other type falls through the switch.
\<close>

datatype checkin =
    Authenticate authenticate
  | TokenUpdate token_update
  | TokenUpdateEnrolling "token_update option" bool
  | CheckOut check_out
  | OtherCheckin

definition token_update_enrolling_valid :: "(token_update option \<times> bool) option \<Rightarrow> bool" where
  "token_update_enrolling_valid tue \<longleftrightarrow> (case tue of None \<Rightarrow> False | Some (tu, _) \<Rightarrow> tu \<noteq> None)"

definition new_checkin_from_message_type :: "string \<Rightarrow> checkin option" where
  "new_checkin_from_message_type t =
     (if t = ''Authenticate'' then Some (Authenticate new_authenticate)
      else if t = ''TokenUpdate'' then Some (TokenUpdate new_token_update)
      else if t = ''CheckOut'' then Some (CheckOut new_check_out)
      else None)"

end
