(* ===== verification/WorkflowTypes.thy ===== *)
theory WorkflowTypes
  imports Mdm
begin

text \<open>
  The \<open>workflow\<close> package: event flags (\<open>workflow/event.go\<close>), contexts (\<open>workflow/context.go\<close>,
  and the two context types that workflows add, \<open>workflow/profile/context.go\<close> and
  \<open>workflow/certprof/context.go\<close>), configuration (\<open>workflow/config.go\<close>), steps
  (\<open>workflow/step.go\<close>) and the workflow interface (\<open>workflow/workflow.go\<close>) as a record of
  actions on an abstract world \<open>'w\<close>. \<open>'c\<close> is the type of MDM commands and \<open>'r\<close> that of MDM
  responses, both from a package outside the repository.
\<close>

unbundle bit_operations_syntax

section \<open>Event flags\<close>

text \<open>\<open>type EventFlag uint\<close>: a bit mask, kept at its 64 bits; the constants are \<open>1 << iota\<close>.\<close>

type_synonym event_flag = "64 word"

definition event_all_command_response :: event_flag where "event_all_command_response = push_bit 0 1"
definition event_authenticate :: event_flag where "event_authenticate = push_bit 1 1"
definition event_token_update :: event_flag where "event_token_update = push_bit 2 1"
definition event_enrollment :: event_flag where "event_enrollment = push_bit 3 1"
definition event_check_out :: event_flag where "event_check_out = push_bit 4 1"
definition event_idle :: event_flag where "event_idle = push_bit 5 1"
definition event_idle_not_started_since :: event_flag where
  "event_idle_not_started_since = push_bit 6 1"
definition max_event_flag :: event_flag where "max_event_flag = push_bit 7 1"

lemmas event_flag_defs =
  event_all_command_response_def event_authenticate_def event_token_update_def
  event_enrollment_def event_check_out_def event_idle_def event_idle_not_started_since_def
  max_event_flag_def

definition event_flag_valid :: "event_flag \<Rightarrow> bool" where
  "event_flag_valid e \<longleftrightarrow> e > 0 \<and> e < max_event_flag"

definition event_flag_string :: "event_flag \<Rightarrow> string" where
  "event_flag_string e =
     (if e = event_all_command_response then ''AllCommandResponse''
      else if e = event_authenticate then ''Authenticate''
      else if e = event_token_update then ''TokenUpdate''
      else if e = event_enrollment then ''Enrollment''
      else if e = event_check_out then ''CheckOut''
      else if e = event_idle then ''Idle''
      else if e = event_idle_not_started_since then ''IdleNotStartedSince''
      else ''unknown event type: '' @ digits (unat e))"

definition event_flag_for_string :: "string \<Rightarrow> event_flag" where
  "event_flag_for_string s =
     (if s = ''AllCommandResponse'' then event_all_command_response
      else if s = ''Authenticate'' then event_authenticate
      else if s = ''TokenUpdate'' then event_token_update
      else if s = ''Enrollment'' then event_enrollment
      else if s = ''CheckOut'' then event_check_out
      else if s = ''Idle'' then event_idle
      else if s = ''IdleNotStartedSince'' then event_idle_not_started_since
      else 0)"

definition single_event_flags :: "event_flag list" where
  "single_event_flags =
     [event_all_command_response, event_authenticate, event_token_update, event_enrollment,
      event_check_out, event_idle, event_idle_not_started_since]"

lemma event_flag_values:
  "event_all_command_response = 1" "event_authenticate = 2" "event_token_update = 4"
  "event_enrollment = 8" "event_check_out = 16" "event_idle = 32"
  "event_idle_not_started_since = 64" "max_event_flag = 128"
  by (simp_all add: event_flag_defs)

text \<open>Which flags \<open>Valid\<close> accepts for a name, and the round trip of the names.\<close>

lemma event_flag_for_string_valid:
  "event_flag_valid (event_flag_for_string s) \<longleftrightarrow> event_flag_for_string s \<noteq> 0"
  by (simp add: event_flag_for_string_def event_flag_valid_def event_flag_values)

lemma event_flag_string_for_string:
  "event_flag_for_string s \<noteq> 0 \<Longrightarrow> event_flag_string (event_flag_for_string s) = s"
  by (auto simp: event_flag_for_string_def event_flag_string_def event_flag_values split: if_splits)

lemma event_flag_for_string_string:
  "event_flag_for_string (event_flag_string e) = (if e \<in> set single_event_flags then e else 0)"
  by (simp add: event_flag_for_string_def event_flag_string_def event_flag_values
      single_event_flags_def)

section \<open>Contexts\<close>

text \<open>
  \<open>workflow.ContextMarshaler\<close> is an interface over pointers; the receiver is \<open>None\<close> for a nil
  pointer. \<open>UnmarshalBinary\<close> stores into its receiver: the model returns the new value.
\<close>

definition string_context_marshal :: "string option \<Rightarrow> bytes result" where
  "string_context_marshal c =
     (case c of None \<Rightarrow> Inl (Errorf ''nil value'' []) | Some s \<Rightarrow> Inr s)"

definition string_context_unmarshal :: "string option \<Rightarrow> bytes \<Rightarrow> string result" where
  "string_context_unmarshal c d =
     (case c of None \<Rightarrow> Inl (Errorf ''nil value'' []) | Some _ \<Rightarrow> Inr d)"

definition int_context_marshal :: "int option \<Rightarrow> bytes result" where
  "int_context_marshal c =
     (case c of None \<Rightarrow> Inl (Errorf ''nil value'' []) | Some i \<Rightarrow> Inr (itoa i))"

definition int_context_unmarshal :: "int option \<Rightarrow> bytes \<Rightarrow> int result" where
  "int_context_unmarshal c d =
     (case c of None \<Rightarrow> Inl (Errorf ''nil value'' []) | Some _ \<Rightarrow> atoi d)"

definition comma_context_marshal :: "string list option \<Rightarrow> bytes result" where
  "comma_context_marshal c =
     (case c of None \<Rightarrow> Inl (Errorf ''nil value'' []) | Some ss \<Rightarrow> Inr (join (CHR '','') ss))"

definition comma_context_unmarshal :: "string list option \<Rightarrow> bytes \<Rightarrow> string list result" where
  "comma_context_unmarshal c d =
     (case c of None \<Rightarrow> Inl (Errorf ''nil value'' []) | Some _ \<Rightarrow> Inr (split (CHR '','') d))"

text \<open>The context of the \<open>certprof\<close> workflow; its text is JSON.\<close>

record cert_filter =
  cn_prefix :: string
  allow_non_identity :: bool

record cert_criteria =
  always_replace :: bool
  until_expiry_seconds :: int

record certprof_context =
  no_managed_only :: bool
  cp_profile :: string
  text_replacements :: "(string \<times> string) list"
  cp_filter :: "cert_filter option"
  cp_criteria :: "cert_criteria option"

definition certprof_context_validate :: "certprof_context option \<Rightarrow> unit result" where
  "certprof_context_validate c =
     (case c of
        None \<Rightarrow> Inl ErrNilContext
      | Some c \<Rightarrow>
          if cp_profile c = [] then Inl ErrEmptyProfileName
          else if cp_filter c = None then Inl ErrEmptyFilter
          else Inr ())"

text \<open>The context values the repository's workflows use, and the zero values behind \<open>new\<close>.\<close>

datatype ctx_value =
    StringContext string
  | IntContext int
  | CommaStringSliceContext "string list"
  | CertProfContext certprof_context

definition empty_certprof_context :: certprof_context where
  "empty_certprof_context =
     \<lparr>no_managed_only = False, cp_profile = [], text_replacements = [], cp_filter = None,
      cp_criteria = None\<rparr>"

text \<open>\<open>encoding/json\<close> on the certprof context: a pair of functions, the model's parameter.\<close>

record json_codec =
  json_marshal :: "certprof_context \<Rightarrow> bytes result"
  json_unmarshal :: "certprof_context \<Rightarrow> bytes \<Rightarrow> certprof_context result"

fun marshal_binary :: "json_codec \<Rightarrow> ctx_value \<Rightarrow> bytes result" where
  "marshal_binary J (StringContext s) = string_context_marshal (Some s)"
| "marshal_binary J (IntContext i) = int_context_marshal (Some i)"
| "marshal_binary J (CommaStringSliceContext ss) = comma_context_marshal (Some ss)"
| "marshal_binary J (CertProfContext c) = json_marshal J c"

fun unmarshal_binary :: "json_codec \<Rightarrow> ctx_value \<Rightarrow> bytes \<Rightarrow> ctx_value result" where
  "unmarshal_binary J (StringContext s) d = map_sum id StringContext (string_context_unmarshal (Some s) d)"
| "unmarshal_binary J (IntContext i) d = map_sum id IntContext (int_context_unmarshal (Some i) d)"
| "unmarshal_binary J (CommaStringSliceContext ss) d =
     map_sum id CommaStringSliceContext (comma_context_unmarshal (Some ss) d)"
| "unmarshal_binary J (CertProfContext c) d = map_sum id CertProfContext (json_unmarshal J c d)"

text \<open>
  When a stored context comes back equal: any string; an \<open>int\<close> of 64 bits; a comma list that is not
  empty and whose names hold no comma.
\<close>

fun ctx_roundtrips :: "ctx_value \<Rightarrow> bool" where
  "ctx_roundtrips (StringContext s) = True"
| "ctx_roundtrips (IntContext i) = (min_int64 \<le> i \<and> i \<le> max_int64)"
| "ctx_roundtrips (CommaStringSliceContext ss) = (ss \<noteq> [] \<and> (\<forall>s\<in>set ss. CHR '','' \<notin> set s))"
| "ctx_roundtrips (CertProfContext c) = False"

fun same_ctx_type :: "ctx_value \<Rightarrow> ctx_value \<Rightarrow> bool" where
  "same_ctx_type (StringContext _) (StringContext _) = True"
| "same_ctx_type (IntContext _) (IntContext _) = True"
| "same_ctx_type (CommaStringSliceContext _) (CommaStringSliceContext _) = True"
| "same_ctx_type (CertProfContext _) (CertProfContext _) = True"
| "same_ctx_type _ _ = False"

lemma unmarshal_marshal:
  assumes "ctx_roundtrips v" "same_ctx_type r v"
  shows "\<exists>d. marshal_binary J v = Inr d \<and> unmarshal_binary J r d = Inr v"
  using assms
  by (cases v; cases r)
    (auto simp: string_context_marshal_def string_context_unmarshal_def int_context_marshal_def
      int_context_unmarshal_def comma_context_marshal_def comma_context_unmarshal_def
      atoi_itoa split_join)

section \<open>Configuration\<close>

text \<open>\<open>type Exclusivity uint\<close>; a \<open>Duration\<close> is an \<open>int64\<close> of nanoseconds.\<close>

type_synonym exclusivity = "64 word"

definition exclusive :: exclusivity where "exclusive = 0"
definition multiple_simultaneous :: exclusivity where "multiple_simultaneous = 1"
definition max_exclusivity :: exclusivity where "max_exclusivity = 2"

definition exclusivity_valid :: "exclusivity \<Rightarrow> bool" where
  "exclusivity_valid e \<longleftrightarrow> e < max_exclusivity"

record config =
  cfg_timeout :: int
  cfg_exclusivity :: exclusivity
  cfg_all_command_response_request_types :: "string list"
  cfg_events :: event_flag

section \<open>Steps\<close>

type_synonym params = "string \<rightharpoonup> string"

record wf_step_context =
  wsc_params :: params
  wsc_instance_id :: string
  wsc_name :: string
  wsc_context :: "ctx_value option"

definition new_for_enqueue :: "('a) wf_step_context_scheme \<Rightarrow> wf_step_context" where
  "new_for_enqueue c =
     \<lparr>wsc_params = Map.empty, wsc_instance_id = wsc_instance_id c, wsc_name = [],
      wsc_context = None\<rparr>"

text \<open>A command of a step is a Go \<open>interface{}\<close>: \<open>None\<close> is the nil interface.\<close>

record 'c wf_step_enqueueing = wf_step_context +
  wse_ids :: "string list"
  wse_commands :: "'c option list"
  wse_timeout :: time
  wse_not_until :: time

text \<open>The data of an event (\<open>Event.EventData\<close>): the check-in messages of \<open>mdm/mdm.go\<close> that the engine
  dispatches, or a command response.\<close>

datatype 'r event_data =
    NoEventData
  | AuthenticateData authenticate
  | TokenUpdateData "token_update option"
  | CheckOutData check_out
  | ResponseData 'r

record 'r event =
  ev_flag :: event_flag
  ev_data :: "'r event_data"

record 'r wf_step_start = wf_step_context +
  ss_event :: "'r event option"
  ss_ids :: "string list"

record 'r wf_step_result = wf_step_context +
  sr_id :: string
  sr_command_results :: "'r option list"

definition step_enqueueing_of :: "wf_step_context \<Rightarrow> string list \<Rightarrow> 'c wf_step_enqueueing" where
  "step_enqueueing_of c ids =
     wf_step_context.extend c
       (wf_step_enqueueing.fields ids [] 0 0)"

definition start_new_step_enqueueing :: "'r wf_step_start \<Rightarrow> 'c wf_step_enqueueing" where
  "start_new_step_enqueueing step = step_enqueueing_of (new_for_enqueue step) (ss_ids step)"

definition result_new_step_enqueueing :: "'r wf_step_result \<Rightarrow> 'c wf_step_enqueueing" where
  "result_new_step_enqueueing step = step_enqueueing_of (new_for_enqueue step) [sr_id step]"

lemma step_enqueueing_of_sel [simp]:
  "wsc_params (step_enqueueing_of c ids) = wsc_params c"
  "wsc_instance_id (step_enqueueing_of c ids) = wsc_instance_id c"
  "wsc_name (step_enqueueing_of c ids) = wsc_name c"
  "wsc_context (step_enqueueing_of c ids) = wsc_context c"
  "wse_ids (step_enqueueing_of c ids) = ids"
  "wse_commands (step_enqueueing_of c ids) = []"
  "wse_timeout (step_enqueueing_of c ids) = 0"
  "wse_not_until (step_enqueueing_of c ids) = 0"
  by (simp_all add: step_enqueueing_of_def wf_step_context.defs wf_step_enqueueing.defs)

lemma new_for_enqueue_sel [simp]:
  "wsc_instance_id (new_for_enqueue c) = wsc_instance_id c"
  "wsc_name (new_for_enqueue c) = []"
  "wsc_context (new_for_enqueue c) = None"
  by (simp_all add: new_for_enqueue_def)

section \<open>The workflow interface\<close>

record ('w, 'r) workflow =
  wf_name :: string
  wf_config :: "config option"
  wf_new_context_value :: "string \<Rightarrow> ctx_value option"
  wf_start :: "'r wf_step_start \<Rightarrow> ('w, unit) action"
  wf_step_completed :: "'r wf_step_result \<Rightarrow> ('w, unit) action"
  wf_step_timeout :: "'r wf_step_result \<Rightarrow> ('w, unit) action"
  wf_event :: "'r event \<Rightarrow> string \<Rightarrow> params option \<Rightarrow> ('w, unit) action"

end
