(* ===== verification/StorageTypes.thy ===== *)
theory StorageTypes
  imports WorkflowTypes
begin

text \<open>
  \<open>engine/storage/storage.go\<close>: the serialized forms of steps and commands with their
  validation, event subscriptions, and the storage interfaces of the engine and the worker as a
  record of actions on an abstract world. Struct embedding is record extension.
\<close>

section \<open>Steps and commands in storage\<close>

record step_context =
  ctx_workflow_name :: string
  ctx_instance_id :: string
  ctx_name :: string
  ctx_context :: bytes

definition validate_step_context :: "('a) step_context_scheme option \<Rightarrow> unit result" where
  "validate_step_context sc =
     (case sc of
        None \<Rightarrow> Inl ErrEmptyStepContext
      | Some sc \<Rightarrow>
          if ctx_workflow_name sc = [] then Inl ErrMissingWorkflowName
          else if ctx_instance_id sc = [] then Inl ErrMissingInstanceID
          else Inr ())"

record command_result =
  cr_uuid :: string
  cr_request_type :: string
  cr_report :: bytes
  cr_completed :: bool

definition validate_command_result :: "command_result option \<Rightarrow> unit result" where
  "validate_command_result sc =
     (case sc of
        None \<Rightarrow> Inl ErrEmptyStepCommandResult
      | Some sc \<Rightarrow> if length (cr_report sc) < 1 then Inl ErrEmptyResultReport else Inr ())"

record command_raw =
  raw_uuid :: string
  raw_request_type :: string
  raw_command :: bytes

record step_enqueueing = step_context +
  enq_ids :: "string list"
  enq_commands :: "command_raw list"

definition validate_step_enqueueing :: "('a) step_enqueueing_scheme option \<Rightarrow> unit result" where
  "validate_step_enqueueing se =
     (case se of
        None \<Rightarrow> Inl ErrEmptyStorageStep
      | Some s \<Rightarrow>
          (case validate_step_context (Some s) of
             Inl e \<Rightarrow> Inl (Wrapf ''storage step context invalid'' [] e)
           | Inr _ \<Rightarrow>
               if length (enq_ids s) < 1 then Inl ErrMissingIDs
               else if length (enq_commands s) < 1 then Inl ErrMissingCommands
               else Inr ()))"

record step_config = step_enqueueing +
  cfg_not_until :: time
  cfg_step_timeout :: time

definition validate_step_config :: "step_config option \<Rightarrow> unit result" where
  "validate_step_config se =
     (case se of None \<Rightarrow> Inl ErrEmptyStorageStep | Some s \<Rightarrow> validate_step_enqueueing (Some s))"

record step_result = step_context +
  res_ids :: "string list"
  res_commands :: "command_result list"

lemma validate_step_config_iff:
  "validate_step_config (Some s) = Inr () \<longleftrightarrow>
     ctx_workflow_name s \<noteq> [] \<and> ctx_instance_id s \<noteq> [] \<and> enq_ids s \<noteq> [] \<and> enq_commands s \<noteq> []"
  by (simp add: validate_step_config_def validate_step_enqueueing_def validate_step_context_def
      Suc_le_eq)

text \<open>The engine only accepts a response that carries a report.\<close>

lemma validate_command_result_iff:
  "validate_command_result (Some c) = Inr () \<longleftrightarrow> cr_report c \<noteq> []"
  by (simp add: validate_command_result_def Suc_le_eq)

section \<open>Event subscriptions\<close>

record event_subscription =
  es_event :: string
  es_workflow :: string
  es_context :: string
  es_event_context :: string

definition validate_event_subscription :: "event_subscription option \<Rightarrow> unit result" where
  "validate_event_subscription es =
     (case es of
        None \<Rightarrow> Inl ErrEmptyEventSubscription
      | Some es \<Rightarrow>
          if es_event es = [] then Inl ErrMissingEvent
          else if \<not> event_flag_valid (event_flag_for_string (es_event es))
            then Inl (Errorf ''invalid event type: %s'' [es_event es])
          else if es_workflow es = [] then Inl ErrMissingWorkflowName
          else Inr ())"

definition event_names :: "string list" where
  "event_names =
     [''AllCommandResponse'', ''Authenticate'', ''TokenUpdate'', ''Enrollment'', ''CheckOut'',
      ''Idle'', ''IdleNotStartedSince'']"

lemma event_flag_for_string_nonzero: "event_flag_for_string s \<noteq> 0 \<longleftrightarrow> s \<in> set event_names"
  by (simp add: event_flag_for_string_def event_flag_values event_names_def)

lemma validate_event_subscription_iff:
  "validate_event_subscription (Some es) = Inr () \<longleftrightarrow>
     es_event es \<in> set event_names \<and> es_workflow es \<noteq> []"
  by (auto simp: validate_event_subscription_def event_flag_for_string_valid
      event_flag_for_string_nonzero) (auto simp: event_names_def)

section \<open>Instants in storage\<close>

text \<open>\<open>MarshalText\<close> fails outside the years 0 to 9999; the model's instants start at year 1.\<close>

definition max_go_time :: time where
  "max_go_time = 3652059 * 86400 * 1000000000"

definition go_time :: "time \<Rightarrow> bool" where
  "go_time t \<longleftrightarrow> 0 \<le> t \<and> t < max_go_time"

lemma go_time_0 [simp]: "go_time 0"
  by (simp add: go_time_def max_go_time_def)

section \<open>The storage interfaces\<close>

text \<open>
  \<open>storage.Storage\<close> (with \<open>WorkflowStatusStorage\<close>), \<open>storage.WorkerStorage\<close> and
  \<open>storage.ReadEventSubscriptionStorage\<close>. A nil \<open>*StepResult\<close> is \<open>None\<close>.
\<close>

record 'w storage =
  st_retrieve_command_request_type :: "string \<Rightarrow> string \<Rightarrow> ('w, string \<times> bool) action"
  st_store_command_response ::
    "string \<Rightarrow> command_result \<Rightarrow> ('w, step_result option) action"
  st_store_step :: "step_config option \<Rightarrow> time \<Rightarrow> ('w, unit) action"
  st_retrieve_outstanding :: "string \<Rightarrow> string list \<Rightarrow> ('w, string list) action"
  st_cancel_steps :: "string \<Rightarrow> string \<Rightarrow> ('w, unit) action"
  st_retrieve_workflow_started :: "string \<Rightarrow> string \<Rightarrow> ('w, time) action"
  st_record_workflow_started :: "string list \<Rightarrow> string \<Rightarrow> time \<Rightarrow> ('w, unit) action"
  st_clear_workflow_status :: "string \<Rightarrow> ('w, unit) action"

record 'w worker_storage =
  st_retrieve_steps_to_enqueue :: "time \<Rightarrow> ('w, step_enqueueing list) action"
  st_retrieve_timed_out_steps :: "('w, step_result list) action"
  st_retrieve_and_mark_repushed :: "time \<Rightarrow> time \<Rightarrow> ('w, string list) action"

text \<open>
  A Go method that fails may return a slice beside the error. \<open>RetrieveEventSubscriptionsByEvent\<close> is the one
  whose caller looks at it: \<open>st_subscriptions_before_error\<close> is that slice.
\<close>

record 'w event_storage =
  st_retrieve_event_subscriptions_by_event ::
    "event_flag \<Rightarrow> ('w, event_subscription list) action"
  st_subscriptions_before_error :: "event_flag \<Rightarrow> 'w \<Rightarrow> event_subscription list"

end
