(* ===== verification/KVBucket.thy ===== *)
theory KVBucket
  imports StorageTypes
begin

text \<open>
  What the key-value backend (\<open>engine/storage/kv\<close>, and the subsystems' \<open>storage/kv\<close>) uses of code
  that is not in the repository: the bucket interfaces and helpers of \<open>nanolib/storage/kv\<close>
  (\<open>Has\<close>, \<open>Get\<close>, \<open>Set\<close>, \<open>Delete\<close>, \<open>Keys\<close>, \<open>KeysPrefix\<close>, \<open>SetMap\<close>, \<open>GetMap\<close>, \<open>DeleteSlice\<close>), the text form of
  \<open>time.Time\<close> and the generator of unique IDs. They are the fields of a record, an argument of every
  definition that uses them. The locale \<open>kv_laws\<close> states what a working bucket does, over a
  function \<open>view\<close> that reads a bucket as a map; its interpretation \<open>inmem\<close> is the model of the
  in-memory store that \<open>engine/storage/inmem/inmem.go\<close> builds.
\<close>

record 'b kv_env =
  bk_has :: "string \<Rightarrow> 'b \<Rightarrow> bool result"
  bk_get :: "string \<Rightarrow> 'b \<Rightarrow> bytes result"
  bk_set :: "string \<Rightarrow> bytes \<Rightarrow> ('b, unit) action"
  bk_delete :: "string \<Rightarrow> ('b, unit) action"
  bk_keys :: "'b \<Rightarrow> string list"
  bk_keys_prefix :: "string \<Rightarrow> 'b \<Rightarrow> string list"
  bk_set_map :: "(string \<times> bytes) list \<Rightarrow> ('b, unit) action"
  bk_get_map :: "string list \<Rightarrow> 'b \<Rightarrow> (string \<rightharpoonup> bytes) result"
  bk_delete_slice :: "string list \<Rightarrow> ('b, unit) action"
  marshal_time :: "time \<Rightarrow> bytes result"
  unmarshal_time :: "bytes \<Rightarrow> time result"
  new_uuid :: "nat \<Rightarrow> string"

definition b_has :: "'b kv_env \<Rightarrow> string \<Rightarrow> ('b, bool) action" where
  "b_has E k = (\<lambda>b. (bk_has E k b, b))"

definition b_get :: "'b kv_env \<Rightarrow> string \<Rightarrow> ('b, bytes) action" where
  "b_get E k = (\<lambda>b. (bk_get E k b, b))"

definition b_get_map :: "'b kv_env \<Rightarrow> string list \<Rightarrow> ('b, string \<rightharpoonup> bytes) action" where
  "b_get_map E ks = (\<lambda>b. (bk_get_map E ks b, b))"

locale kv_laws =
  fixes E :: "'b kv_env" and view :: "'b \<Rightarrow> string \<rightharpoonup> bytes"
  assumes has_law: "bk_has E k b = Inr (view b k \<noteq> None)"
    and get_law: "bk_get E k b = (case view b k of None \<Rightarrow> Inl ErrKeyNotFound | Some v \<Rightarrow> Inr v)"
    and set_law: "\<exists>b'. bk_set E k v b = (Inr (), b') \<and> view b' = (view b)(k \<mapsto> v)"
    and delete_law:
      "view b k \<noteq> None \<Longrightarrow> \<exists>b'. bk_delete E k b = (Inr (), b') \<and> view b' = (view b)(k := None)"
    and keys_law: "distinct (bk_keys E b)" "set (bk_keys E b) = dom (view b)"
    and set_map_law:
      "distinct (map fst kvs) \<Longrightarrow>
        \<exists>b'. bk_set_map E kvs b = (Inr (), b') \<and> view b' = view b ++ map_of kvs"
    and get_map_law:
      "set ks \<subseteq> dom (view b) \<Longrightarrow> bk_get_map E ks b = Inr (view b |` set ks)"
      "\<not> set ks \<subseteq> dom (view b) \<Longrightarrow> bk_get_map E ks b = Inl ErrKeyNotFound"
    and delete_slice_law:
      "set ks \<subseteq> dom (view b) \<Longrightarrow>
        \<exists>b'. bk_delete_slice E ks b = (Inr (), b') \<and> view b' = view b |` (- set ks)"
    and time_law:
      "go_time t \<Longrightarrow> \<exists>s. marshal_time E t = Inr s \<and> s \<noteq> [] \<and> unmarshal_time E s = Inr t"
    and uuid_law: "inj (new_uuid E)"
    and keys_prefix_law: "distinct (bk_keys_prefix E p b)"
      "set (bk_keys_prefix E p b) = {k \<in> dom (view b). has_prefix k p}"
begin

lemma wp_has [simp]: "wp (b_has E k) Q b = Q (Inr (view b k \<noteq> None)) b"
  by (simp add: wp_def b_has_def has_law)

lemma wp_get [simp]:
  "wp (b_get E k) Q b = Q (case view b k of None \<Rightarrow> Inl ErrKeyNotFound | Some v \<Rightarrow> Inr v) b"
  by (simp add: wp_def b_get_def get_law)

lemma set_run: "bk_set E k v b = (Inr (), snd (bk_set E k v b))"
  using set_law [of k v b] by auto

lemma view_set [simp]: "view (snd (bk_set E k v b)) = (view b)(k \<mapsto> v)"
  using set_law [of k v b] by auto

lemma wp_set [simp]: "wp (bk_set E k v) Q b = Q (Inr ()) (snd (bk_set E k v b))"
  by (subst wp_def, subst set_run) simp

lemma view_delete [simp]:
  "view b k \<noteq> None \<Longrightarrow> view (snd (bk_delete E k b)) = (view b)(k := None)"
  using delete_law [of b k] by auto

lemma wp_delete [simp]:
  assumes "view b k \<noteq> None"
  shows "wp (bk_delete E k) Q b = Q (Inr ()) (snd (bk_delete E k b))"
proof -
  have "bk_delete E k b = (Inr (), snd (bk_delete E k b))" using delete_law [OF assms] by auto
  then show ?thesis by (metis wp_run wp_ex prod.inject)
qed

lemma view_set_map [simp]:
  "distinct (map fst kvs) \<Longrightarrow> view (snd (bk_set_map E kvs b)) = view b ++ map_of kvs"
  using set_map_law [of kvs b] by auto

lemma wp_set_map [simp]:
  assumes "distinct (map fst kvs)"
  shows "wp (bk_set_map E kvs) Q b = Q (Inr ()) (snd (bk_set_map E kvs b))"
proof -
  have "bk_set_map E kvs b = (Inr (), snd (bk_set_map E kvs b))"
    using set_map_law [OF assms, of b] by auto
  then show ?thesis by (metis wp_run wp_ex prod.inject)
qed

lemma wp_get_map:
  "wp (b_get_map E ks) Q b =
     Q (if set ks \<subseteq> dom (view b) then Inr (view b |` set ks) else Inl ErrKeyNotFound) b"
  by (simp add: wp_def b_get_map_def get_map_law)

lemma wp_delete_slice:
  assumes "set ks \<subseteq> dom (view b)"
    and "\<And>b'. view b' = view b |` (- set ks) \<Longrightarrow> Q (Inr ()) b'"
  shows "wp (bk_delete_slice E ks) Q b"
  using delete_slice_law [OF assms(1)] assms(2) by (auto simp: wp_def)

definition time_text :: "time \<Rightarrow> bytes" where
  "time_text t = projr (marshal_time E t)"

lemma time_text_props:
  assumes "go_time t"
  shows marshal_time_text: "marshal_time E t = Inr (time_text t)"
    and time_text_nonempty: "time_text t \<noteq> []"
    and unmarshal_time_text: "unmarshal_time E (time_text t) = Inr t"
  using time_law [OF assms] by (auto simp: time_text_def)

end

section \<open>The in-memory instance\<close>

text \<open>
  A bucket as an association list, read by \<open>map_of\<close>; a text form of instants for the instance (a
  nonempty decimal), and decimal IDs behind a letter. It interprets the interface, so the laws can
  hold, and it runs the witnesses.
\<close>

type_synonym mem_bucket = "(string \<times> bytes) list"

definition mem_set_map :: "(string \<times> bytes) list \<Rightarrow> mem_bucket \<Rightarrow> mem_bucket" where
  "mem_set_map kvs b = kvs @ b"

definition mem_delete_slice :: "string list \<Rightarrow> mem_bucket \<Rightarrow> mem_bucket" where
  "mem_delete_slice ks b = filter (\<lambda>(k, v). k \<notin> set ks) b"

definition inmem_env :: "mem_bucket kv_env" where
  "inmem_env =
     \<lparr>bk_has = (\<lambda>k b. Inr (map_of b k \<noteq> None)),
      bk_get = (\<lambda>k b. case map_of b k of None \<Rightarrow> Inl ErrKeyNotFound | Some v \<Rightarrow> Inr v),
      bk_set = (\<lambda>k v b. (Inr (), AList.update k v b)),
      bk_delete = (\<lambda>k b. if map_of b k = None then (Inl ErrKeyNotFound, b)
                          else (Inr (), AList.delete k b)),
      bk_keys = (\<lambda>b. remdups (map fst b)),
      bk_keys_prefix = (\<lambda>p b. filter (\<lambda>k. has_prefix k p) (remdups (map fst b))),
      bk_set_map = (\<lambda>kvs b. (Inr (), mem_set_map kvs b)),
      bk_get_map = (\<lambda>ks b. if list_all (\<lambda>k. map_of b k \<noteq> None) ks then Inr (map_of b |` set ks)
                            else Inl ErrKeyNotFound),
      bk_delete_slice = (\<lambda>ks b. (Inr (), mem_delete_slice ks b)),
      marshal_time = (\<lambda>t. if go_time t then Inr (itoa t) else Inl (Errorf ''year outside of range'' [])),
      unmarshal_time = (\<lambda>s. Inr (int (digits_value s))),
      new_uuid = (\<lambda>n. CHR ''u'' # digits n)\<rparr>"

lemma map_of_delete_slice: "map_of (mem_delete_slice ks b) = map_of b |` (- set ks)"
proof
  fix k
  show "map_of (mem_delete_slice ks b) k = (map_of b |` (- set ks)) k"
    by (induction b) (auto simp: mem_delete_slice_def restrict_map_def)
qed

lemma digits_inj: "inj digits"
  by (metis digits_value_digits injI)

interpretation inmem: kv_laws inmem_env map_of
proof (unfold_locales, goal_cases)
  case (4 b k)
  then show ?case by (auto simp: inmem_env_def delete_conv')
next
  case (5 b)
  then show ?case by (simp add: inmem_env_def)
next
  case (6 b)
  then show ?case by (simp add: inmem_env_def dom_map_of_conv_image_fst)
next
  case (8 ks b)
  then show ?case by (auto simp: inmem_env_def list_all_iff subset_iff dom_def)
next
  case (9 ks b)
  then show ?case by (auto simp: inmem_env_def list_all_iff subset_iff dom_def)
next
  case (11 t)
  then show ?case by (auto simp: inmem_env_def itoa_def go_time_def)
next
  case 12
  then show ?case using digits_inj by (auto simp: inmem_env_def inj_def)
next
  case (14 p b)
  then show ?case by (auto simp: inmem_env_def dom_map_of_conv_image_fst)
qed (simp_all add: inmem_env_def update_conv' mem_set_map_def map_add_def map_of_delete_slice)

end
