(* ===== verification/KVPrim.thy ===== *)
theory KVPrim
  imports KVBucket
begin

text \<open>
  \<open>engine/storage/kv/prim.go\<close>: the key scheme of the step bucket (step ID and a suffix) and of the
  id-command bucket (enrollment ID, command UUID and a suffix), and the primitives that read and
  write one step or one command. Every definition is an action on one bucket, except
  \<open>kv_delete_step_if_all_ids_complete\<close>, which works on the pair of the step bucket and the
  id-command bucket.
\<close>

section \<open>Keys\<close>

definition step_suffixes :: "string list" where
  "step_suffixes = [''.meta'', ''.ids'', ''.ctx'', ''.cmds'', ''.notuntil'', ''.timeout'']"

definition cmd_suffixes :: "string list" where
  "cmd_suffixes = [''.step'', ''.reqtype'', ''.raw'', ''.lastpush'', ''.result'', ''.done'', ''.id'']"

definition marshal_strings :: "string list \<Rightarrow> bytes" where
  "marshal_strings s = join (CHR '','') s"

definition unmarshal_strings :: "bytes \<Rightarrow> string list" where
  "unmarshal_strings b = split (CHR '','') b"

abbreviation no_comma :: "string \<Rightarrow> bool" where
  "no_comma s \<equiv> CHR '','' \<notin> set s"

lemma unmarshal_marshal_strings:
  "ss \<noteq> [] \<Longrightarrow> \<forall>s\<in>set ss. no_comma s \<Longrightarrow> unmarshal_strings (marshal_strings ss) = ss"
  by (simp add: marshal_strings_def unmarshal_strings_def split_join)

lemma unmarshal_strings_nonempty [simp]: "unmarshal_strings b \<noteq> []"
  by (simp add: unmarshal_strings_def)

section \<open>Steps\<close>

definition step_entries ::
  "string \<Rightarrow> step_config \<Rightarrow> bytes \<Rightarrow> bytes \<Rightarrow> (string \<times> bytes) list" where
  "step_entries stepID step not_until_bytes timeout_bytes =
     [(stepID @ ''.meta'',
         marshal_strings [ctx_instance_id step, ctx_workflow_name step, ctx_name step]),
      (stepID @ ''.ids'', marshal_strings (enq_ids step)),
      (stepID @ ''.cmds'', marshal_strings (map raw_uuid (enq_commands step)))]
     @ (if length (ctx_context step) > 0 then [(stepID @ ''.ctx'', ctx_context step)] else [])
     @ (if length not_until_bytes > 0 then [(stepID @ ''.notuntil'', not_until_bytes)] else [])
     @ (if length timeout_bytes > 0 then [(stepID @ ''.timeout'', timeout_bytes)] else [])"

definition kv_set_step :: "'b kv_env \<Rightarrow> string \<Rightarrow> step_config option \<Rightarrow> ('b, unit) action" where
  "kv_set_step E stepID step =
     go_bind (go_wrap ''validating step: %w'' [] (go_lift (validate_step_config step))) (\<lambda>_.
     case step of None \<Rightarrow> go_ret () | Some step \<Rightarrow>
     go_bind (if \<not> is_zero_time (cfg_not_until step)
              then go_wrap ''marshal not until time: %w'' []
                     (go_lift (marshal_time E (cfg_not_until step)))
              else go_ret []) (\<lambda>not_until_bytes.
     go_bind (if \<not> is_zero_time (cfg_step_timeout step)
              then go_wrap ''marshal timeout time: %w'' []
                     (go_lift (marshal_time E (cfg_step_timeout step)))
              else go_ret []) (\<lambda>timeout_bytes.
     go_wrap ''writing step records: %w'' []
       (bk_set_map E (step_entries stepID step not_until_bytes timeout_bytes)))))"

definition kv_get_step_cmds :: "'b kv_env \<Rightarrow> string \<Rightarrow> ('b, string list) action" where
  "kv_get_step_cmds E stepID =
     go_bind (b_get E (stepID @ ''.cmds'')) (\<lambda>v. go_ret (unmarshal_strings v))"

definition kv_get_step_ids :: "'b kv_env \<Rightarrow> string \<Rightarrow> ('b, string list) action" where
  "kv_get_step_ids E stepID =
     go_bind (b_get E (stepID @ ''.ids'')) (\<lambda>v. go_ret (unmarshal_strings v))"

definition meta_fields :: "bytes \<Rightarrow> (string \<times> string \<times> string) result" where
  "meta_fields b =
     (case unmarshal_strings b of
        [inst, wname, name] \<Rightarrow> Inr (inst, wname, name)
      | _ \<Rightarrow> Inl (Errorf ''invalid step metadata length'' []))"

definition kv_get_step_result :: "'b kv_env \<Rightarrow> string \<Rightarrow> ('b, step_result) action" where
  "kv_get_step_result E stepID =
     go_bind (go_wrap ''getting step meta: %w'' [] (b_get E (stepID @ ''.meta''))) (\<lambda>meta_bytes.
     go_bind (go_lift (meta_fields meta_bytes)) (\<lambda>(inst, wname, name).
     go_bind (go_wrap ''checking context: %w'' [] (b_has E (stepID @ ''.ctx''))) (\<lambda>ok.
     go_bind (if ok then go_wrap ''reading context: %w'' [] (b_get E (stepID @ ''.ctx''))
              else go_ret []) (\<lambda>ctx.
     go_ret \<lparr>ctx_workflow_name = wname, ctx_instance_id = inst, ctx_name = name, ctx_context = ctx,
             res_ids = [], res_commands = []\<rparr>))))"

section \<open>Commands of an enrollment\<close>

definition kv_get_id_cmd_req_type ::
  "'b kv_env \<Rightarrow> string \<Rightarrow> string \<Rightarrow> ('b, string \<times> bool) action" where
  "kv_get_id_cmd_req_type E eid cmdUUID =
     go_bind (go_wrap ''getting request type for %s: %w'' [cmdUUID]
                (b_get E (eid @ cmdUUID @ ''.reqtype''))) (\<lambda>val.
     go_ret (val, True))"

definition id_cmd_entries ::
  "string \<Rightarrow> string \<Rightarrow> command_raw \<Rightarrow> bytes \<Rightarrow> bool \<Rightarrow> (string \<times> bytes) list" where
  "id_cmd_entries stepID eid sc last_push_bytes save_raw =
     [(eid @ raw_uuid sc @ ''.step'', stepID),
      (eid @ raw_uuid sc @ ''.reqtype'', raw_request_type sc),
      (eid @ raw_uuid sc @ ''.id'', eid)]
     @ (if save_raw \<and> length (raw_command sc) > 0
        then [(eid @ raw_uuid sc @ ''.raw'', raw_command sc)] else [])
     @ [(eid @ raw_uuid sc @ ''.lastpush'', last_push_bytes)]"

definition kv_set_id_cmd ::
  "'b kv_env \<Rightarrow> string \<Rightarrow> string \<Rightarrow> command_raw \<Rightarrow> time \<Rightarrow> bool \<Rightarrow> ('b, unit) action" where
  "kv_set_id_cmd E stepID eid sc last_push save_raw =
     go_bind (go_wrap ''marshal last push time: %w'' [] (go_lift (marshal_time E last_push)))
       (\<lambda>last_push_bytes.
     go_wrap ''writing command records: %w'' []
       (bk_set_map E (id_cmd_entries stepID eid sc last_push_bytes save_raw)))"

definition kv_id_cmd_exists :: "'b kv_env \<Rightarrow> string \<Rightarrow> string \<Rightarrow> ('b, bool) action" where
  "kv_id_cmd_exists E eid cmdUUID = b_has E (eid @ cmdUUID @ ''.step'')"

definition kv_id_cmd_is_complete :: "'b kv_env \<Rightarrow> string \<Rightarrow> string \<Rightarrow> ('b, bool) action" where
  "kv_id_cmd_is_complete E eid cmdUUID = b_has E (eid @ cmdUUID @ ''.done'')"

definition kv_get_id_cmd_result :: "'b kv_env \<Rightarrow> string \<Rightarrow> string \<Rightarrow> ('b, bytes) action" where
  "kv_get_id_cmd_result E eid cmdUUID = b_get E (eid @ cmdUUID @ ''.result'')"

definition kv_set_id_cmd_update ::
  "'b kv_env \<Rightarrow> string \<Rightarrow> command_result \<Rightarrow> ('b, unit) action" where
  "kv_set_id_cmd_update E eid sc =
     bk_set_map E
       ([(eid @ cr_uuid sc @ ''.result'', cr_report sc)]
        @ (if cr_completed sc then [(eid @ cr_uuid sc @ ''.done'', ''1'')] else []))"

definition kv_get_id_cmd_step_id :: "'b kv_env \<Rightarrow> string \<Rightarrow> string \<Rightarrow> ('b, string) action" where
  "kv_get_id_cmd_step_id E eid cmdUUID = b_get E (eid @ cmdUUID @ ''.step'')"

definition kv_delete_keys_if_exists :: "'b kv_env \<Rightarrow> string list \<Rightarrow> ('b, unit) action" where
  "kv_delete_keys_if_exists E keys =
     go_for keys (\<lambda>k.
       go_bind (go_wrap ''checking key %s: %w'' [k] (b_has E k)) (\<lambda>ok.
       if \<not> ok then go_ret ()
       else go_wrap ''delete key %s: %w'' [k] (bk_delete E k)))"

definition kv_delete_id_cmd :: "'b kv_env \<Rightarrow> string \<Rightarrow> string \<Rightarrow> ('b, unit) action" where
  "kv_delete_id_cmd E eid cmdUUID =
     kv_delete_keys_if_exists E (map (\<lambda>k. eid @ cmdUUID @ k) cmd_suffixes)"

definition kv_delete_step :: "'b kv_env \<Rightarrow> string \<Rightarrow> ('b, unit) action" where
  "kv_delete_step E stepID = kv_delete_keys_if_exists E (map (\<lambda>k. stepID @ k) step_suffixes)"

definition kv_delete_step_not_until :: "'b kv_env \<Rightarrow> string \<Rightarrow> ('b, unit) action" where
  "kv_delete_step_not_until E stepID = kv_delete_keys_if_exists E [stepID @ ''.notuntil'']"

text \<open>
  The scan over all keys for the steps of a workflow that target one of \<open>ids\<close>. The index \<open>[1]\<close> into
  the metadata panics when there is no second field.
\<close>

definition kv_find_workflow_steps_body ::
  "'b kv_env \<Rightarrow> string \<Rightarrow> string list \<Rightarrow> string \<Rightarrow> string list \<Rightarrow> ('b, string list) action" where
  "kv_find_workflow_steps_body E name ids k stepIDs =
     (if \<not> has_suffix k ''.meta'' then go_ret stepIDs
      else
        go_bind (go_wrap ''getting step meta for %s: %w'' [k] (b_get E k)) (\<lambda>meta_bytes.
        let stepID = chop_suffix k ''.meta'' in
        case unmarshal_strings meta_bytes of
          _ # wname # _ \<Rightarrow>
            (if wname \<noteq> name then go_ret stepIDs
             else
               go_bind (go_wrap ''getting step ids for %s: %w'' [k] (kv_get_step_ids E stepID))
                 (\<lambda>step_enr_ids.
               if list_ex (\<lambda>step_enr_id. list_ex (\<lambda>eid. step_enr_id = eid) ids) step_enr_ids
               then go_ret (stepIDs @ [stepID]) else go_ret stepIDs))
        | _ \<Rightarrow> go_fail (Errorf ''panic: index out of range'' [])))"

definition kv_find_workflow_steps_with_ids ::
  "'b kv_env \<Rightarrow> string \<Rightarrow> string list \<Rightarrow> ('b, string list) action" where
  "kv_find_workflow_steps_with_ids E name ids =
     (\<lambda>b. go_fold (kv_find_workflow_steps_body E name ids) (bk_keys E b) [] b)"

text \<open>
  The step goes away once no command of it is left incomplete for any of its enrollments. The loop
  collects the commands to delete, or stops at an incomplete one (\<open>None\<close>).
\<close>

primrec kv_collect_complete_cmds ::
  "'b kv_env \<Rightarrow> (string \<times> string) list \<Rightarrow> (string \<times> string) list
    \<Rightarrow> ('b, (string \<times> string) list option) action" where
  "kv_collect_complete_cmds E [] acc = go_ret (Some acc)"
| "kv_collect_complete_cmds E (p # ps) acc =
     go_bind (go_wrap ''checking command exists for %s: %w'' [snd p]
                (kv_id_cmd_exists E (fst p) (snd p))) (\<lambda>ok.
     if \<not> ok then kv_collect_complete_cmds E ps acc
     else
       go_bind (go_wrap ''checking command complete for %s: %w'' [snd p]
                  (kv_id_cmd_is_complete E (fst p) (snd p))) (\<lambda>ok.
       if \<not> ok then go_ret None
       else kv_collect_complete_cmds E ps (acc @ [p])))"

definition fst_upd :: "'a \<Rightarrow> 'a \<times> 'b \<Rightarrow> 'a \<times> 'b" where
  "fst_upd x p = (x, snd p)"

definition snd_upd :: "'b \<Rightarrow> 'a \<times> 'b \<Rightarrow> 'a \<times> 'b" where
  "snd_upd x p = (fst p, x)"

definition kv_delete_step_if_all_ids_complete ::
  "'b kv_env \<Rightarrow> string \<Rightarrow> string list \<Rightarrow> ('b \<times> 'b, unit) action" where
  "kv_delete_step_if_all_ids_complete E stepID cmdUUIDs =
     go_bind (go_wrap ''getting step IDs for step %s: %w'' [stepID]
                (go_zoom fst fst_upd (kv_get_step_ids E stepID))) (\<lambda>step_enr_ids.
     go_bind (go_zoom snd snd_upd
                (kv_collect_complete_cmds E (List.product step_enr_ids cmdUUIDs) [])) (\<lambda>found.
     case found of
       None \<Rightarrow> go_ret ()
     | Some cmds_to_delete \<Rightarrow>
         go_bind (go_for cmds_to_delete (\<lambda>(eid, uuid).
                    go_wrap ''deleting command for %s: %w'' [uuid]
                      (go_zoom snd snd_upd (kv_delete_id_cmd E eid uuid)))) (\<lambda>_.
         go_wrap ''deleting step for %s: %w'' [stepID]
           (go_zoom fst fst_upd (kv_delete_step E stepID)))))"

section \<open>What the primitives do to a bucket that obeys the laws\<close>

lemma step_suffix_decomp:
  assumes "a @ x = b @ y" "x \<in> set step_suffixes" "y \<in> set step_suffixes"
  shows "a = b \<and> x = y"
proof -
  from assms(1) have "rev x @ rev a = rev y @ rev b" by (metis rev_append)
  with assms(2,3) show ?thesis by (auto simp: step_suffixes_def)
qed

lemma cmd_suffix_decomp:
  assumes "a @ x = b @ y" "x \<in> set cmd_suffixes" "y \<in> set cmd_suffixes"
  shows "a = b \<and> x = y"
proof -
  from assms(1) have "rev x @ rev a = rev y @ rev b" by (metis rev_append)
  with assms(2,3) show ?thesis by (auto simp: cmd_suffixes_def)
qed

context kv_laws
begin

text \<open>The combinators evaluated: what a run of an action returns, over \<open>view\<close>.\<close>

lemma wp_get_step_cmds [simp]:
  "wp (kv_get_step_cmds E sid) Q b =
     Q (case view b (sid @ ''.cmds'') of None \<Rightarrow> Inl ErrKeyNotFound
        | Some v \<Rightarrow> Inr (unmarshal_strings v)) b"
  by (simp add: kv_get_step_cmds_def split: option.splits)

lemma wp_get_step_ids [simp]:
  "wp (kv_get_step_ids E sid) Q b =
     Q (case view b (sid @ ''.ids'') of None \<Rightarrow> Inl ErrKeyNotFound
        | Some v \<Rightarrow> Inr (unmarshal_strings v)) b"
  by (simp add: kv_get_step_ids_def split: option.splits)

lemma wp_id_cmd_exists [simp]:
  "wp (kv_id_cmd_exists E eid u) Q b = Q (Inr (view b (eid @ u @ ''.step'') \<noteq> None)) b"
  by (simp add: kv_id_cmd_exists_def)

lemma wp_id_cmd_is_complete [simp]:
  "wp (kv_id_cmd_is_complete E eid u) Q b = Q (Inr (view b (eid @ u @ ''.done'') \<noteq> None)) b"
  by (simp add: kv_id_cmd_is_complete_def)

lemma wp_get_id_cmd_result [simp]:
  "wp (kv_get_id_cmd_result E eid u) Q b =
     Q (case view b (eid @ u @ ''.result'') of None \<Rightarrow> Inl ErrKeyNotFound | Some v \<Rightarrow> Inr v) b"
  by (simp add: kv_get_id_cmd_result_def)

lemma wp_get_id_cmd_step_id [simp]:
  "wp (kv_get_id_cmd_step_id E eid u) Q b =
     Q (case view b (eid @ u @ ''.step'') of None \<Rightarrow> Inl ErrKeyNotFound | Some v \<Rightarrow> Inr v) b"
  by (simp add: kv_get_id_cmd_step_id_def)

lemma wp_get_id_cmd_req_type [simp]:
  "wp (kv_get_id_cmd_req_type E eid u) Q b =
     Q (case view b (eid @ u @ ''.reqtype'') of
          None \<Rightarrow> Inl (Wrapf ''getting request type for %s: %w'' [u] ErrKeyNotFound)
        | Some v \<Rightarrow> Inr (v, True)) b"
  by (simp add: kv_get_id_cmd_req_type_def split: option.splits)

lemma wp_delete_keys_if_exists:
  assumes "\<And>b'. view b' = view b |` (- set ks) \<Longrightarrow> Q (Inr ()) b'"
  shows "wp (kv_delete_keys_if_exists E ks) Q b"
  unfolding kv_delete_keys_if_exists_def
  by (rule wp_for [where I = "\<lambda>ys v. \<exists>xs. ks = xs @ ys \<and> view v = view b |` (- set xs)"])
    (force simp: assms restrict_map_def fun_eq_iff)+

lemma wp_delete_id_cmd:
  assumes "\<And>b'. view b' = view b |` (- {eid @ u @ x | x. x \<in> set cmd_suffixes}) \<Longrightarrow> Q (Inr ()) b'"
  shows "wp (kv_delete_id_cmd E eid u) Q b"
  unfolding kv_delete_id_cmd_def
  by (rule wp_delete_keys_if_exists) (auto intro!: assms simp: image_def Setcompr_eq_image)

lemma wp_delete_step:
  assumes "\<And>b'. view b' = view b |` (- {sid @ x | x. x \<in> set step_suffixes}) \<Longrightarrow> Q (Inr ()) b'"
  shows "wp (kv_delete_step E sid) Q b"
  unfolding kv_delete_step_def
  by (rule wp_delete_keys_if_exists) (auto intro!: assms simp: image_def Setcompr_eq_image)

lemma wp_set_id_cmd_update:
  assumes "\<And>b'. view b' = (if cr_completed sc then (view b)(eid @ cr_uuid sc @ ''.result'' \<mapsto> cr_report sc,
                              eid @ cr_uuid sc @ ''.done'' \<mapsto> ''1'')
                           else (view b)(eid @ cr_uuid sc @ ''.result'' \<mapsto> cr_report sc))
                  \<Longrightarrow> Q (Inr ()) b'"
  shows "wp (kv_set_id_cmd_update E eid sc) Q b"
  unfolding kv_set_id_cmd_update_def
  by (auto intro!: assms simp: fun_eq_iff map_add_def)

lemma wp_set_id_cmd:
  assumes "go_time lp"
    and "\<And>b'. view b' = view b ++ map_of (id_cmd_entries sid eid sc (time_text lp) raw) \<Longrightarrow> Q (Inr ()) b'"
  shows "wp (kv_set_id_cmd E sid eid sc lp raw) Q b"
proof -
  have "distinct (map fst (id_cmd_entries sid eid sc (time_text lp) raw))"
    by (auto simp: id_cmd_entries_def)
  with assms show ?thesis by (simp add: kv_set_id_cmd_def marshal_time_text)
qed

definition opt_time_text :: "time \<Rightarrow> bytes" where
  "opt_time_text t = (if t = 0 then [] else time_text t)"

lemma wp_set_step:
  assumes "validate_step_config (Some s) = Inr ()" "go_time (cfg_not_until s)"
    "go_time (cfg_step_timeout s)"
    and "\<And>b'. view b' = view b ++ map_of (step_entries sid s (opt_time_text (cfg_not_until s))
                                      (opt_time_text (cfg_step_timeout s))) \<Longrightarrow> Q (Inr ()) b'"
  shows "wp (kv_set_step E sid (Some s)) Q b"
proof -
  have "distinct (map fst (step_entries sid s n t))" for n t
    by (auto simp: step_entries_def)
  with assms show ?thesis by (simp add: kv_set_step_def marshal_time_text opt_time_text_def)
qed

lemma wp_set_step_invalid:
  assumes "validate_step_config so = Inl e"
  shows "wp (kv_set_step E sid so) Q b = Q (Inl (Wrapf ''validating step: %w'' [] e)) b"
  using assms by (simp add: kv_set_step_def)

end

end
