(* ===== verification/KVStore.thy ===== *)
theory KVStore
  imports KVPrim
begin

text \<open>
  \<open>engine/storage/kv/kv.go\<close>: the key-value backend of the workflow engine, operation by operation.
  The struct holds four buckets and an ID generator; the model's record adds the number of IDs the
  generator has handed out and the wall clock that \<open>time.Now\<close> reads. The mutex serialises the
  operations on steps and commands, so each is one atomic action; those on the started workflows take no lock,
  and each is run as a whole.
\<close>

record 'b kv_store =
  step_store :: 'b
  id_cmd_store :: 'b
  event_store :: 'b
  status_store :: 'b
  ids_issued :: nat
  wall_clock :: time

definition in_steps :: "('b, 'a) action \<Rightarrow> ('b kv_store, 'a) action" where
  "in_steps = go_zoom step_store (\<lambda>b s. s\<lparr>step_store := b\<rparr>)"

definition in_cmds :: "('b, 'a) action \<Rightarrow> ('b kv_store, 'a) action" where
  "in_cmds = go_zoom id_cmd_store (\<lambda>b s. s\<lparr>id_cmd_store := b\<rparr>)"

definition in_steps_cmds :: "('b \<times> 'b, 'a) action \<Rightarrow> ('b kv_store, 'a) action" where
  "in_steps_cmds =
     go_zoom (\<lambda>s. (step_store s, id_cmd_store s))
       (\<lambda>(b, c) s. s\<lparr>step_store := b, id_cmd_store := c\<rparr>)"

definition in_events :: "('b, 'a) action \<Rightarrow> ('b kv_store, 'a) action" where
  "in_events = go_zoom event_store (\<lambda>b s. s\<lparr>event_store := b\<rparr>)"

definition in_status :: "('b, 'a) action \<Rightarrow> ('b kv_store, 'a) action" where
  "in_status = go_zoom status_store (\<lambda>b s. s\<lparr>status_store := b\<rparr>)"

definition ider_id :: "'b kv_env \<Rightarrow> ('b kv_store, string) action" where
  "ider_id E = (\<lambda>s. (Inr (new_uuid E (ids_issued s)), s\<lparr>ids_issued := Suc (ids_issued s)\<rparr>))"

definition time_now :: "('b kv_store, time) action" where
  "time_now = go_read wall_clock"

section \<open>Request type of a command\<close>

definition retrieve_command_request_type ::
  "'b kv_env \<Rightarrow> string \<Rightarrow> string \<Rightarrow> ('b kv_store, string \<times> bool) action" where
  "retrieve_command_request_type E eid cmdUUID =
     (if eid = [] \<or> cmdUUID = [] then go_fail (Errorf ''empty id or command uuid'' [])
      else
        go_bind (go_wrap ''checking command exists for %s: %w'' [cmdUUID]
                   (in_cmds (kv_id_cmd_exists E eid cmdUUID))) (\<lambda>ok.
        if \<not> ok then go_ret ([], False)
        else in_cmds (kv_get_id_cmd_req_type E eid cmdUUID)))"

section \<open>Storing a command response\<close>

text \<open>
  The loop over the commands of the step: \<open>None\<close> as soon as one is not complete, else the results.
  The response at hand is used as it is; the others are looked up.
\<close>

definition kv_command_result ::
  "'b kv_env \<Rightarrow> string \<Rightarrow> command_result \<Rightarrow> string \<Rightarrow> ('b, command_result) action" where
  "kv_command_result E eid sc uuid =
     go_bind (if uuid = cr_uuid sc then go_ret (cr_request_type sc, cr_report sc)
              else go_bind (go_wrap ''getting result for %s: %w'' [uuid]
                              (kv_get_id_cmd_result E eid uuid)) (\<lambda>report. go_ret ([], report)))
       (\<lambda>(req_type, report).
     go_bind (if req_type = []
              then go_bind (go_wrap ''getting request type for %s: %w'' [uuid]
                              (kv_get_id_cmd_req_type E eid uuid)) (\<lambda>(rt, _). go_ret rt)
              else go_ret req_type) (\<lambda>req_type.
     go_ret \<lparr>cr_uuid = uuid, cr_request_type = req_type, cr_report = report,
             cr_completed = True\<rparr>))"

primrec kv_collect_results ::
  "'b kv_env \<Rightarrow> string \<Rightarrow> command_result \<Rightarrow> string list \<Rightarrow> command_result list
    \<Rightarrow> ('b, command_result list option) action" where
  "kv_collect_results E eid sc [] commands = go_ret (Some commands)"
| "kv_collect_results E eid sc (uuid # uuids) commands =
     go_bind (if uuid \<noteq> cr_uuid sc
              then go_wrap ''checking complete status for %s: %w'' [uuid]
                     (kv_id_cmd_is_complete E eid uuid)
              else go_ret True) (\<lambda>complete.
     if \<not> complete then go_ret None
     else
       go_bind (kv_command_result E eid sc uuid) (\<lambda>r.
       kv_collect_results E eid sc uuids (commands @ [r])))"

definition kv_complete_step ::
  "'b kv_env \<Rightarrow> string \<Rightarrow> string \<Rightarrow> string list \<Rightarrow> command_result list
    \<Rightarrow> ('b kv_store, step_result option) action" where
  "kv_complete_step E eid stepID step_cmd_uuids commands =
     go_bind (go_wrap ''retrieving step result: %w'' [] (in_steps (kv_get_step_result E stepID)))
       (\<lambda>step.
     go_bind (go_for step_cmd_uuids (\<lambda>uuid.
                go_wrap ''deleting command %s: %w'' [uuid] (in_cmds (kv_delete_id_cmd E eid uuid))))
       (\<lambda>_.
     go_bind (go_wrap ''step deletion: %w'' []
                (in_steps_cmds (kv_delete_step_if_all_ids_complete E stepID step_cmd_uuids))) (\<lambda>_.
     go_ret (Some (step\<lparr>res_ids := [eid], res_commands := commands\<rparr>)))))"

definition store_command_response ::
  "'b kv_env \<Rightarrow> string \<Rightarrow> command_result \<Rightarrow> ('b kv_store, step_result option) action" where
  "store_command_response E eid sc =
     go_bind (go_wrap ''checking command exists for %s: %w'' [cr_uuid sc]
                (in_cmds (kv_id_cmd_exists E eid (cr_uuid sc)))) (\<lambda>ok.
     if \<not> ok then go_fail (Errorf ''command not found: %s'' [cr_uuid sc])
     else
       go_bind (go_wrap ''setting command result: %w'' []
                  (in_cmds (kv_set_id_cmd_update E eid sc))) (\<lambda>_.
       if \<not> cr_completed sc then go_ret None
       else
         go_bind (go_wrap ''getting step ID for %s: %w'' [cr_uuid sc]
                    (in_cmds (kv_get_id_cmd_step_id E eid (cr_uuid sc)))) (\<lambda>stepID.
         go_bind (go_wrap ''reading step commands: %w'' []
                    (in_steps (kv_get_step_cmds E stepID))) (\<lambda>step_cmd_uuids.
         go_bind (in_cmds (kv_collect_results E eid sc step_cmd_uuids [])) (\<lambda>found.
         case found of
           None \<Rightarrow> go_ret None
         | Some commands \<Rightarrow> kv_complete_step E eid stepID step_cmd_uuids commands)))))"

section \<open>Storing a step\<close>

text \<open>
  The duplicate check: the pairs of a command and an enrollment in loop order, with the set of
  concatenations seen so far, then a lookup in the store.
\<close>

definition check_duplicates_body ::
  "'b kv_env \<Rightarrow> string \<times> string \<Rightarrow> string list \<Rightarrow> ('b, string list) action" where
  "check_duplicates_body E p seen =
     (let uuid = fst p; eid = snd p in
      if eid @ uuid \<in> set seen
      then go_fail (Errorf ''duplicate command (id=%s, uuid=%s)'' [eid, uuid])
      else
        go_bind (go_wrap ''checking duplicate commands: %w'' [] (kv_id_cmd_exists E eid uuid)) (\<lambda>ok.
        if ok then go_fail (Errorf ''duplicate command (id=%s, uuid=%s)'' [eid, uuid])
        else go_ret ((eid @ uuid) # seen)))"

definition check_duplicates :: "'b kv_env \<Rightarrow> step_config \<Rightarrow> ('b, unit) action" where
  "check_duplicates E step =
     go_bind (go_fold (check_duplicates_body E)
                (List.product (map raw_uuid (enq_commands step)) (enq_ids step)) []) (\<lambda>_.
     go_ret ())"

definition store_step_command ::
  "'b kv_env \<Rightarrow> string \<Rightarrow> step_config \<Rightarrow> time \<Rightarrow> command_raw \<Rightarrow> ('b, unit) action" where
  "store_step_command E stepID step last_push sc =
     go_bind (if \<not> is_zero_time (cfg_not_until step)
              then go_wrap ''writing step not until command records: %w'' []
                     (kv_set_id_cmd E stepID stepID sc 0 True)
              else go_ret ()) (\<lambda>_.
     go_for (enq_ids step) (\<lambda>eid.
       go_wrap ''writing command records: %w'' []
         (kv_set_id_cmd E stepID eid sc last_push False)))"

definition store_step ::
  "'b kv_env \<Rightarrow> step_config option \<Rightarrow> time \<Rightarrow> ('b kv_store, unit) action" where
  "store_step E step push_time =
     go_bind (ider_id E) (\<lambda>stepID.
     go_bind (case step of None \<Rightarrow> go_ret () | Some s \<Rightarrow> in_cmds (check_duplicates E s)) (\<lambda>_.
     go_bind (go_wrap ''setting step record: %w'' [] (in_steps (kv_set_step E stepID step))) (\<lambda>_.
     case step of None \<Rightarrow> go_ret () | Some s \<Rightarrow>
     go_bind (if is_zero_time (cfg_not_until s) then time_now else go_ret 0) (\<lambda>last_push.
     go_for (enq_commands s) (\<lambda>sc. in_cmds (store_step_command E stepID s last_push sc))))))"

section \<open>Outstanding steps and cancellation\<close>

text \<open>Whether \<open>eid\<close> has an incomplete command among \<open>uuids\<close>.\<close>

primrec kv_any_incomplete :: "'b kv_env \<Rightarrow> string \<Rightarrow> string list \<Rightarrow> ('b, bool) action" where
  "kv_any_incomplete E eid [] = go_ret False"
| "kv_any_incomplete E eid (uuid # uuids) =
     go_bind (go_wrap ''checking command exists for %s: %w'' [uuid] (kv_id_cmd_exists E eid uuid))
       (\<lambda>ok.
     if \<not> ok then kv_any_incomplete E eid uuids
     else
       go_bind (go_wrap ''getting command complete status for %s: %w'' [uuid]
                  (kv_id_cmd_is_complete E eid uuid)) (\<lambda>ok.
       if \<not> ok then go_ret True else kv_any_incomplete E eid uuids))"

definition outstanding_id_body ::
  "'b kv_env \<Rightarrow> string list \<Rightarrow> string \<Rightarrow> string list \<Rightarrow> ('b, string list) action" where
  "outstanding_id_body E uuids eid acc =
     (if eid \<in> set acc then go_ret acc
      else go_bind (kv_any_incomplete E eid uuids) (\<lambda>found.
           go_ret (if found then acc @ [eid] else acc)))"

definition outstanding_step_body ::
  "'b kv_env \<Rightarrow> string list \<Rightarrow> string \<Rightarrow> string list \<Rightarrow> ('b kv_store, string list) action" where
  "outstanding_step_body E ids stepID acc =
     go_bind (go_wrap ''getting step commands for %s: %w'' [stepID]
                (in_steps (kv_get_step_cmds E stepID))) (\<lambda>cmd_uuids.
     in_cmds (go_fold (outstanding_id_body E cmd_uuids) ids acc))"

definition retrieve_outstanding_workflow_status ::
  "'b kv_env \<Rightarrow> string \<Rightarrow> string list \<Rightarrow> ('b kv_store, string list) action" where
  "retrieve_outstanding_workflow_status E name ids =
     go_bind (go_wrap ''finding workflow steps: %w'' []
                (in_steps (kv_find_workflow_steps_with_ids E name ids))) (\<lambda>stepIDs.
     go_fold (outstanding_step_body E ids) stepIDs [])"

definition cancel_step :: "'b kv_env \<Rightarrow> string \<Rightarrow> string \<Rightarrow> ('b kv_store, unit) action" where
  "cancel_step E eid stepID =
     go_bind (go_wrap ''getting step commands for %s: %w'' [stepID]
                (in_steps (kv_get_step_cmds E stepID))) (\<lambda>cmd_uuids.
     go_bind (go_for cmd_uuids (\<lambda>uuid.
                go_wrap ''deleting commands for %s: %w'' [uuid]
                  (in_cmds (kv_delete_id_cmd E eid uuid)))) (\<lambda>_.
     go_wrap ''deleting step for %s: %w'' [stepID] (in_steps (kv_delete_step E stepID))))"

definition cancel_steps :: "'b kv_env \<Rightarrow> string \<Rightarrow> string \<Rightarrow> ('b kv_store, unit) action" where
  "cancel_steps E eid name =
     go_bind (go_wrap ''finding workflow steps: %w'' []
                (in_steps (kv_find_workflow_steps_with_ids E name [eid]))) (\<lambda>stepIDs.
     go_for stepIDs (cancel_step E eid))"

section \<open>Workflow status\<close>

definition workflow_status_key :: "string \<Rightarrow> string \<Rightarrow> string" where
  "workflow_status_key eid name = eid @ ''.'' @ name"

definition retrieve_workflow_started ::
  "'b kv_env \<Rightarrow> string \<Rightarrow> string \<Rightarrow> ('b kv_store, time) action" where
  "retrieve_workflow_started E eid name =
     go_bind (go_wrap ''status not found for id=%s workflow=%s: %w'' [eid, name]
                (in_status (b_has E (workflow_status_key eid name)))) (\<lambda>found.
     if \<not> found then go_ret 0
     else
       go_bind (go_wrap ''getting workflow status: %w'' []
                  (in_status (b_get E (workflow_status_key eid name)))) (\<lambda>b.
       go_wrap ''unmarshaling workflow status: %w'' [] (go_lift (unmarshal_time E b))))"

definition record_workflow_started ::
  "'b kv_env \<Rightarrow> string list \<Rightarrow> string \<Rightarrow> time \<Rightarrow> ('b kv_store, unit) action" where
  "record_workflow_started E ids name started =
     go_bind (go_wrap ''marshaling workflow status: %w'' [] (go_lift (marshal_time E started))) (\<lambda>b.
     go_for ids (\<lambda>eid.
       go_wrap ''setting workflow status for id=%s workflow=%s: %w'' [eid, name]
         (in_status (bk_set E (workflow_status_key eid name) b))))"

definition clear_workflow_status :: "'b kv_env \<Rightarrow> string \<Rightarrow> ('b kv_store, unit) action" where
  "clear_workflow_status E eid =
     (\<lambda>s. let to_delete = filter (\<lambda>k. has_prefix k (eid @ ''.'')) (bk_keys E (status_store s))
          in in_status (bk_delete_slice E to_delete) s)"

end
