(* ===== verification/KVSpec.thy ===== *)
theory KVSpec
  imports KVStore
begin

text \<open>
  What a workflow storage backend keeps, without keys and encodings: the steps by step ID, and the
  commands by enrollment ID and command UUID. \<open>rep\<close> relates a store of the key-value backend to it,
  key by key; its update lemmas carry the refinement proofs of the operations.
\<close>

section \<open>Abstract steps and commands\<close>

record astep =
  as_workflow :: string
  as_instance :: string
  as_name :: string
  as_context :: bytes
  as_ids :: "string list"
  as_uuids :: "string list"
  as_not_until :: time
  as_timeout :: time

record acmd =
  ac_step :: string
  ac_request_type :: string
  ac_raw :: "bytes option"
  ac_last_push :: time
  ac_report :: "bytes option"
  ac_done :: bool

record astore =
  a_steps :: "string \<rightharpoonup> astep"
  a_cmds :: "string \<times> string \<rightharpoonup> acmd"

definition astep_of :: "step_config \<Rightarrow> astep" where
  "astep_of s =
     \<lparr>as_workflow = ctx_workflow_name s, as_instance = ctx_instance_id s, as_name = ctx_name s,
      as_context = ctx_context s, as_ids = enq_ids s, as_uuids = map raw_uuid (enq_commands s),
      as_not_until = cfg_not_until s, as_timeout = cfg_step_timeout s\<rparr>"

definition new_acmd :: "string \<Rightarrow> command_raw \<Rightarrow> time \<Rightarrow> bool \<Rightarrow> acmd" where
  "new_acmd sid sc lp save_raw =
     \<lparr>ac_step = sid, ac_request_type = raw_request_type sc,
      ac_raw = (if save_raw \<and> raw_command sc \<noteq> [] then Some (raw_command sc) else None),
      ac_last_push = lp, ac_report = None, ac_done = False\<rparr>"

section \<open>The representation of a store\<close>

text \<open>
  All command UUIDs have one length \<open>n\<close> (36 for real ones): then the concatenation of an enrollment
  ID, a command UUID and a suffix determines its parts.
\<close>

lemma cmd_key_decomp:
  assumes "i @ u @ x = i' @ u' @ y" "length u = length u'"
    "x \<in> set cmd_suffixes" "y \<in> set cmd_suffixes"
  shows "i = i' \<and> u = u' \<and> x = y"
proof -
  from assms(1) have "(i @ u) @ x = (i' @ u') @ y" by simp
  from cmd_suffix_decomp [OF this assms(3,4)] have "i @ u = i' @ u'" "x = y" by auto
  with assms(2) show ?thesis by (simp add: append_eq_append_conv2) (auto simp: append_eq_append_conv2)
qed

definition acmd_ok :: "acmd \<Rightarrow> bool" where
  "acmd_ok c \<longleftrightarrow> go_time (ac_last_push c) \<and> (ac_done c \<longrightarrow> ac_report c \<noteq> None)"

definition astep_ok :: "nat \<Rightarrow> astep \<Rightarrow> bool" where
  "astep_ok n st \<longleftrightarrow>
     no_comma (as_workflow st) \<and> no_comma (as_instance st) \<and> no_comma (as_name st) \<and>
     as_workflow st \<noteq> [] \<and>
     as_ids st \<noteq> [] \<and> (\<forall>i\<in>set (as_ids st). no_comma i) \<and>
     as_uuids st \<noteq> [] \<and> (\<forall>u\<in>set (as_uuids st). no_comma u \<and> length u = n) \<and>
     go_time (as_not_until st) \<and> go_time (as_timeout st)"

context kv_laws
begin

definition enc_cmd :: "string \<Rightarrow> acmd \<Rightarrow> string \<Rightarrow> bytes option" where
  "enc_cmd i c x =
     (if x = ''.step'' then Some (ac_step c)
      else if x = ''.reqtype'' then Some (ac_request_type c)
      else if x = ''.raw'' then ac_raw c
      else if x = ''.lastpush'' then Some (time_text (ac_last_push c))
      else if x = ''.result'' then ac_report c
      else if x = ''.done'' then (if ac_done c then Some ''1'' else None)
      else if x = ''.id'' then Some i
      else None)"

definition enc_step :: "astep \<Rightarrow> string \<Rightarrow> bytes option" where
  "enc_step st x =
     (if x = ''.meta'' then Some (marshal_strings [as_instance st, as_workflow st, as_name st])
      else if x = ''.ids'' then Some (marshal_strings (as_ids st))
      else if x = ''.cmds'' then Some (marshal_strings (as_uuids st))
      else if x = ''.ctx'' then (if as_context st = [] then None else Some (as_context st))
      else if x = ''.notuntil'' then
        (if as_not_until st = 0 then None else Some (time_text (as_not_until st)))
      else if x = ''.timeout'' then
        (if as_timeout st = 0 then None else Some (time_text (as_timeout st)))
      else None)"

definition crep :: "nat \<Rightarrow> (string \<rightharpoonup> bytes) \<Rightarrow> (string \<times> string \<rightharpoonup> acmd) \<Rightarrow> bool" where
  "crep n V m \<longleftrightarrow>
     (\<forall>i u. length u = n \<longrightarrow> (\<forall>x\<in>set cmd_suffixes.
        V (i @ u @ x) = (case m (i, u) of None \<Rightarrow> None | Some c \<Rightarrow> enc_cmd i c x))) \<and>
     (\<forall>k\<in>dom V. \<exists>i u x. k = i @ u @ x \<and> length u = n \<and> x \<in> set cmd_suffixes) \<and>
     (\<forall>i u. m (i, u) \<noteq> None \<longrightarrow> length u = n) \<and>
     (\<forall>p c. m p = Some c \<longrightarrow> acmd_ok c)"

definition srep :: "nat \<Rightarrow> (string \<rightharpoonup> bytes) \<Rightarrow> (string \<rightharpoonup> astep) \<Rightarrow> bool" where
  "srep n V m \<longleftrightarrow>
     (\<forall>sid. \<forall>x\<in>set step_suffixes.
        V (sid @ x) = (case m sid of None \<Rightarrow> None | Some st \<Rightarrow> enc_step st x)) \<and>
     (\<forall>k\<in>dom V. \<exists>sid x. k = sid @ x \<and> x \<in> set step_suffixes) \<and>
     (\<forall>sid st. m sid = Some st \<longrightarrow> astep_ok n st)"

definition rep :: "nat \<Rightarrow> 'b kv_store \<Rightarrow> astore \<Rightarrow> bool" where
  "rep n s a \<longleftrightarrow>
     srep n (view (step_store s)) (a_steps a) \<and>
     crep n (view (id_cmd_store s)) (a_cmds a) \<and>
     (\<forall>j \<ge> ids_issued s. a_steps a (new_uuid E j) = None \<and>
        (\<forall>u. a_cmds a (new_uuid E j, u) = None))"

lemma crep_get:
  assumes "crep n V m" "length u = n" "x \<in> set cmd_suffixes"
  shows "V (i @ u @ x) = (case m (i, u) of None \<Rightarrow> None | Some c \<Rightarrow> enc_cmd i c x)"
  using assms by (simp add: crep_def)

lemma crep_length: "crep n V m \<Longrightarrow> m (i, u) = Some c \<Longrightarrow> length u = n"
  unfolding crep_def by (metis option.distinct(1))

lemma crep_ok: "crep n V m \<Longrightarrow> m p = Some c \<Longrightarrow> acmd_ok c"
  unfolding crep_def by blast

lemma crep_update:
  assumes V: "crep n V m" and u: "length u = n"
    and off: "\<And>k. \<forall>x\<in>set cmd_suffixes. k \<noteq> i @ u @ x \<Longrightarrow> V' k = V k"
    and on: "\<And>x. x \<in> set cmd_suffixes \<Longrightarrow>
               V' (i @ u @ x) = (case oc of None \<Rightarrow> None | Some c \<Rightarrow> enc_cmd i c x)"
    and time: "\<And>c. oc = Some c \<Longrightarrow> acmd_ok c"
  shows "crep n V' (m((i, u) := oc))"
proof -
  have "V' (i' @ u' @ x) = (case (m((i, u) := oc)) (i', u') of None \<Rightarrow> None | Some c \<Rightarrow> enc_cmd i' c x)"
    if x: "x \<in> set cmd_suffixes" and u': "length u' = n" for i' u' x
  proof (cases "i' = i \<and> u' = u")
    case True
    with on [OF x] show ?thesis by auto
  next
    case False
    then have "\<forall>y\<in>set cmd_suffixes. i' @ u' @ x \<noteq> i @ u @ y"
      using cmd_key_decomp x u u' by blast
    from off [OF this] False show ?thesis using crep_get [OF V u' x] by auto
  qed
  moreover have "\<exists>i u x. k = i @ u @ x \<and> length u = n \<and> x \<in> set cmd_suffixes" if "k \<in> dom V'" for k
  proof (cases "\<forall>x\<in>set cmd_suffixes. k \<noteq> i @ u @ x")
    case True
    from off [OF this] that V show ?thesis unfolding crep_def by (metis domIff)
  next
    case False
    with u show ?thesis by blast
  qed
  ultimately show ?thesis
    using V u time unfolding crep_def by (auto split: if_splits)
qed

lemma srep_get:
  assumes "srep n V m" "x \<in> set step_suffixes"
  shows "V (sid @ x) = (case m sid of None \<Rightarrow> None | Some st \<Rightarrow> enc_step st x)"
  using assms by (simp add: srep_def)

lemma srep_ok: "srep n V m \<Longrightarrow> m sid = Some st \<Longrightarrow> astep_ok n st"
  by (simp add: srep_def)

lemma srep_update:
  assumes V: "srep n V m"
    and off: "\<And>k. \<forall>x\<in>set step_suffixes. k \<noteq> sid @ x \<Longrightarrow> V' k = V k"
    and on: "\<And>x. x \<in> set step_suffixes \<Longrightarrow>
               V' (sid @ x) = (case os of None \<Rightarrow> None | Some st \<Rightarrow> enc_step st x)"
    and ok: "\<And>st. os = Some st \<Longrightarrow> astep_ok n st"
  shows "srep n V' (m(sid := os))"
proof -
  have "V' (sid' @ x) = (case (m(sid := os)) sid' of None \<Rightarrow> None | Some st \<Rightarrow> enc_step st x)"
    if x: "x \<in> set step_suffixes" for sid' x
  proof (cases "sid' = sid")
    case True
    with on [OF x] show ?thesis by simp
  next
    case False
    then have "\<forall>y\<in>set step_suffixes. sid' @ x \<noteq> sid @ y"
      using step_suffix_decomp x by blast
    from off [OF this] False show ?thesis using srep_get [OF V x] by auto
  qed
  moreover have "\<exists>i x. k = i @ x \<and> x \<in> set step_suffixes" if "k \<in> dom V'" for k
  proof (cases "\<forall>x\<in>set step_suffixes. k \<noteq> sid @ x")
    case True
    from off [OF this] that V show ?thesis unfolding srep_def by (metis domIff)
  next
    case False
    then show ?thesis by blast
  qed
  ultimately show ?thesis
    using V ok unfolding srep_def by (auto split: if_splits)
qed

lemma crep_delete:
  assumes "crep n V m" "length u = n"
  shows "crep n (V |` (- {i @ u @ x | x. x \<in> set cmd_suffixes})) (m((i, u) := None))"
  by (rule crep_update [OF assms]) (auto simp: restrict_map_def)

lemma srep_delete:
  assumes "srep n V m"
  shows "srep n (V |` (- {sid @ x | x. x \<in> set step_suffixes})) (m(sid := None))"
  by (rule srep_update [OF assms]) (auto simp: restrict_map_def)

lemma crep_set:
  assumes V: "crep n V m" and fresh: "m (i, raw_uuid sc) = None" and u: "length (raw_uuid sc) = n"
    and time: "go_time lp"
  shows "crep n (V ++ map_of (id_cmd_entries sid i sc (time_text lp) save_raw))
           (m((i, raw_uuid sc) \<mapsto> new_acmd sid sc lp save_raw))"
proof (rule crep_update [OF V u])
  show "(V ++ map_of (id_cmd_entries sid i sc (time_text lp) save_raw)) k = V k"
    if "\<forall>x\<in>set cmd_suffixes. k \<noteq> i @ raw_uuid sc @ x" for k
    using that by (auto simp: id_cmd_entries_def map_add_def cmd_suffixes_def)
  show "(V ++ map_of (id_cmd_entries sid i sc (time_text lp) save_raw)) (i @ raw_uuid sc @ x) =
          (case Some (new_acmd sid sc lp save_raw) of None \<Rightarrow> None | Some c \<Rightarrow> enc_cmd i c x)"
    if "x \<in> set cmd_suffixes" for x
    using that crep_get [OF V u that, of i] fresh
    by (auto simp: id_cmd_entries_def map_add_def cmd_suffixes_def enc_cmd_def new_acmd_def)
qed (use time in \<open>simp add: new_acmd_def acmd_ok_def\<close>)

lemma srep_set:
  assumes V: "srep n V m" and fresh: "m sid = None" and ok: "astep_ok n (astep_of s)"
  shows "srep n (V ++ map_of (step_entries sid s (opt_time_text (cfg_not_until s))
                                (opt_time_text (cfg_step_timeout s)))) (m(sid \<mapsto> astep_of s))"
proof (rule srep_update [OF V])
  show "(V ++ map_of (step_entries sid s (opt_time_text (cfg_not_until s))
           (opt_time_text (cfg_step_timeout s)))) k = V k"
    if "\<forall>x\<in>set step_suffixes. k \<noteq> sid @ x" for k
    using that by (auto simp: step_entries_def map_add_def step_suffixes_def)
  show "(V ++ map_of (step_entries sid s (opt_time_text (cfg_not_until s))
           (opt_time_text (cfg_step_timeout s)))) (sid @ x) =
          (case Some (astep_of s) of None \<Rightarrow> None | Some st \<Rightarrow> enc_step st x)"
    if "x \<in> set step_suffixes" for x
    using that srep_get [OF V that, of sid] fresh ok
    by (auto simp: step_entries_def map_add_def step_suffixes_def enc_step_def astep_of_def
        astep_ok_def opt_time_text_def time_text_nonempty)
qed (use ok in simp)

end

end
