(* ===== verification/KVRefine.thy ===== *)
theory KVRefine
  imports KVSpec
begin

text \<open>
  The key-value backend refines the abstract store: for each operation of \<open>kv.go\<close> and
  \<open>worker.go\<close>, an abstract operation on steps and commands, and a lemma that a store which
  represents an abstract state represents the next one after the operation, with the same answer.
\<close>


lemma wp_in_steps [simp]:
  "wp (in_steps m) Q s = wp m (\<lambda>r b. Q r (s\<lparr>step_store := b\<rparr>)) (step_store s)"
  by (simp add: in_steps_def)

lemma wp_in_cmds [simp]:
  "wp (in_cmds m) Q s = wp m (\<lambda>r b. Q r (s\<lparr>id_cmd_store := b\<rparr>)) (id_cmd_store s)"
  by (simp add: in_cmds_def)

lemma wp_in_steps_cmds [simp]:
  "wp (in_steps_cmds m) Q s =
     wp m (\<lambda>r p. Q r (s\<lparr>step_store := fst p, id_cmd_store := snd p\<rparr>)) (step_store s, id_cmd_store s)"
  by (simp add: in_steps_cmds_def case_prod_unfold)

lemma wp_in_status [simp]:
  "wp (in_status m) Q s = wp m (\<lambda>r b. Q r (s\<lparr>status_store := b\<rparr>)) (status_store s)"
  by (simp add: in_status_def)

lemma wp_ider_id [simp]:
  "wp (ider_id E) Q s = Q (Inr (new_uuid E (ids_issued s))) (s\<lparr>ids_issued := Suc (ids_issued s)\<rparr>)"
  by (simp add: ider_id_def wp_def)

lemma wp_time_now [simp]: "wp time_now Q s = Q (Inr (wall_clock s)) s"
  by (simp add: time_now_def)

lemma distinct_product_iff:
  assumes "xs \<noteq> []" "ys \<noteq> []"
  shows "distinct (List.product xs ys) \<longleftrightarrow> distinct xs \<and> distinct ys"
proof
  assume "distinct (List.product xs ys)"
  then have "card (set xs) * card (set ys) = length xs * length ys"
    by (metis distinct_card length_product set_product card_cartesian_product)
  moreover have "card (set xs) \<le> length xs" "card (set ys) \<le> length ys"
    "0 < card (set xs)" "0 < card (set ys)"
    using assms by (auto simp: card_length card_gt_0_iff)
  ultimately have "card (set xs) = length xs \<and> card (set ys) = length ys"
    by (metis le_antisym mult_le_cancel2 mult_le_mono2 nat_mult_le_cancel_disj order_less_le_trans not_less0 le_less)
  then show "distinct xs \<and> distinct ys" by (simp add: card_distinct)
qed (simp add: distinct_product)

section \<open>The duplicate check\<close>

text \<open>What the scan computes: the first pair that was seen before or is in the store.\<close>

definition pair_key :: "string \<times> string \<Rightarrow> string" where
  "pair_key p = snd p @ fst p"

fun dup_scan :: "(string \<rightharpoonup> bytes) \<Rightarrow> (string \<times> string) list \<Rightarrow> string list \<Rightarrow> string list result" where
  "dup_scan V [] seen = Inr seen"
| "dup_scan V (p # ps) seen =
     (if pair_key p \<in> set seen \<or> V (pair_key p @ ''.step'') \<noteq> None
      then Inl (Errorf ''duplicate command (id=%s, uuid=%s)'' [snd p, fst p])
      else dup_scan V ps (pair_key p # seen))"

lemma dup_scan_iff:
  "(\<exists>r. dup_scan V ps seen = Inr r) \<longleftrightarrow>
     distinct (map pair_key ps) \<and> (\<forall>p\<in>set ps. pair_key p \<notin> set seen) \<and>
     (\<forall>p\<in>set ps. V (pair_key p @ ''.step'') = None)"
  by (induction V ps seen rule: dup_scan.induct) (auto simp del: split_paired_All split_paired_Ex simp: image_iff)

lemma dup_scan_error:
  "dup_scan V ps seen = Inl e \<Longrightarrow>
     \<exists>p\<in>set ps. e = Errorf ''duplicate command (id=%s, uuid=%s)'' [snd p, fst p]"
  by (induction V ps seen rule: dup_scan.induct) (auto split: if_splits)

context kv_laws
begin

lemma wp_dup_fold:
  "wp (go_fold (check_duplicates_body E) ps seen) Q b = Q (dup_scan (view b) ps seen) b"
proof (induction ps arbitrary: seen)
  case (Cons p ps)
  then show ?case by (cases p) (simp add: check_duplicates_body_def Let_def pair_key_def)
qed simp

definition step_pairs :: "step_config \<Rightarrow> (string \<times> string) list" where
  "step_pairs s = List.product (map raw_uuid (enq_commands s)) (enq_ids s)"

lemma wp_check_duplicates:
  "wp (check_duplicates E s) Q b =
     Q (case dup_scan (view b) (step_pairs s) [] of Inl e \<Rightarrow> Inl e | Inr _ \<Rightarrow> Inr ()) b"
  by (simp add: check_duplicates_def wp_dup_fold step_pairs_def split: sum.splits)

end

definition fresh_pairs :: "step_config \<Rightarrow> astore \<Rightarrow> bool" where
  "fresh_pairs s a \<longleftrightarrow>
     distinct (enq_ids s) \<and> distinct (map raw_uuid (enq_commands s)) \<and>
     (\<forall>i\<in>set (enq_ids s). \<forall>c\<in>set (enq_commands s). a_cmds a (i, raw_uuid c) = None)"

context kv_laws
begin

lemma dup_scan_fresh:
  assumes V: "crep n V (a_cmds a)" and u: "\<forall>c\<in>set (enq_commands s). length (raw_uuid c) = n"
    and ne: "enq_ids s \<noteq> []" "enq_commands s \<noteq> []"
  shows "(\<exists>r. dup_scan V (step_pairs s) [] = Inr r) \<longleftrightarrow> fresh_pairs s a"
proof -
  have inj: "inj_on pair_key (set (step_pairs s))"
    using u by (auto simp: inj_on_def step_pairs_def pair_key_def)
  have "distinct (step_pairs s) \<longleftrightarrow> distinct (enq_ids s) \<and> distinct (map raw_uuid (enq_commands s))"
    using ne by (auto simp: step_pairs_def distinct_product_iff)
  moreover have "V (i @ raw_uuid c @ ''.step'') = None \<longleftrightarrow> a_cmds a (i, raw_uuid c) = None"
    if "c \<in> set (enq_commands s)" for i c
    using crep_get [OF V, of "raw_uuid c" "''.step''" i] u that
    by (auto simp: cmd_suffixes_def enc_cmd_def split: option.splits)
  ultimately show ?thesis
    unfolding dup_scan_iff fresh_pairs_def distinct_map using inj
    by (auto simp: step_pairs_def pair_key_def)
qed

end



section \<open>Storing a step\<close>

definition spec_store_command ::
  "string \<Rightarrow> step_config \<Rightarrow> time \<Rightarrow> command_raw \<Rightarrow> (string \<times> string \<rightharpoonup> acmd) \<Rightarrow> (string \<times> string \<rightharpoonup> acmd)"
where
  "spec_store_command sid s lp sc m =
     foldl (\<lambda>m i. m((i, raw_uuid sc) \<mapsto> new_acmd sid sc lp False))
       (if cfg_not_until s = 0 then m
        else m((sid, raw_uuid sc) \<mapsto> new_acmd sid sc 0 True)) (enq_ids s)"

definition spec_store_step :: "string \<Rightarrow> time \<Rightarrow> step_config \<Rightarrow> astore \<Rightarrow> astore" where
  "spec_store_step sid now s a =
     a\<lparr>a_steps := (a_steps a)(sid \<mapsto> astep_of s),
       a_cmds := foldl (\<lambda>m sc. spec_store_command sid s
                          (if cfg_not_until s = 0 then now else 0) sc m)
                   (a_cmds a) (enq_commands s)\<rparr>"

lemma foldl_upd:
  "foldl (\<lambda>m i. m((i, v) \<mapsto> c)) m is p =
     (if snd p = v \<and> fst p \<in> set is then Some c else m p)"
  by (induction "is" arbitrary: m) auto

lemma spec_store_command_eq:
  "spec_store_command sid s lp sc m (i, u) =
     (if u \<noteq> raw_uuid sc then m (i, u)
      else if i \<in> set (enq_ids s) then Some (new_acmd sid sc lp False)
      else if i = sid \<and> cfg_not_until s \<noteq> 0 then Some (new_acmd sid sc 0 True)
      else m (i, u))"
  by (auto simp: spec_store_command_def foldl_upd)

text \<open>The commands after a step is stored, in one equation.\<close>

lemma foldl_store:
  assumes "distinct (map raw_uuid cs)"
  shows "foldl (\<lambda>m sc. spec_store_command sid s lp sc m) m cs (i, u) =
     (case map_of (map (\<lambda>c. (raw_uuid c, c)) cs) u of
        None \<Rightarrow> m (i, u)
      | Some c \<Rightarrow>
          if i \<in> set (enq_ids s) then Some (new_acmd sid c lp False)
          else if i = sid \<and> cfg_not_until s \<noteq> 0 then Some (new_acmd sid c 0 True)
          else m (i, u))"
  using assms
proof (induction cs arbitrary: m)
  case (Cons d cs)
  then show ?case
  proof (cases "u = raw_uuid d")
    case True
    with Cons.prems have "map_of (map (\<lambda>c. (raw_uuid c, c)) cs) u = None"
      by (auto simp: map_of_eq_None_iff)
    with Cons True show ?thesis by (simp add: spec_store_command_eq)
  qed (auto simp: spec_store_command_eq split: option.split)
qed simp

section \<open>The refinement of \<open>store_step\<close>\<close>

definition storable :: "nat \<Rightarrow> 'b kv_env \<Rightarrow> step_config \<Rightarrow> bool" where
  "storable n E s \<longleftrightarrow>
     validate_step_config (Some s) = Inr () \<and> astep_ok n (astep_of s) \<and>
     (\<forall>i\<in>set (enq_ids s). \<forall>j. i \<noteq> new_uuid E j)"

context kv_laws
begin

lemma wp_store_ids:
  assumes "crep n (view b) m" "go_time lp" "length (raw_uuid sc) = n" "distinct is"
    "\<forall>i\<in>set is. m (i, raw_uuid sc) = None"
    and Q: "\<And>b'. crep n (view b') (foldl (\<lambda>m i. m((i, raw_uuid sc) \<mapsto> new_acmd sid sc lp False)) m is)
              \<Longrightarrow> Q (Inr ()) b'"
  shows "wp (go_for is (\<lambda>i. go_wrap fmt [] (kv_set_id_cmd E sid i sc lp False))) Q b"
  using assms(1,4,5) Q
proof (induction "is" arbitrary: b m)
  case (Cons i "is")
  have "wp (kv_set_id_cmd E sid i sc lp False)
          (\<lambda>r b'. r = Inr () \<and> crep n (view b') (m((i, raw_uuid sc) \<mapsto> new_acmd sid sc lp False))) b"
    using Cons.prems(1,3) assms(2,3) by (intro wp_set_id_cmd) (auto intro: crep_set)
  then have "wp (kv_set_id_cmd E sid i sc lp False)
          (\<lambda>r b'. r = Inr () \<and>
             wp (go_for is (\<lambda>i. go_wrap fmt [] (kv_set_id_cmd E sid i sc lp False))) Q b') b"
  proof (rule wp_mono, goal_cases)
    case (1 r b')
    then show ?case
      using Cons.prems by (intro conjI Cons.IH [of b' "m((i, raw_uuid sc) \<mapsto> new_acmd sid sc lp False)"])
        (simp_all del: fun_upd_apply, auto)
  qed
  then show ?case by (auto elim!: wp_mono)
qed simp

lemma wp_store_step_command:
  assumes "crep n (view b) m" "go_time lp" "length (raw_uuid sc) = n" "distinct (enq_ids s)"
    "\<forall>i\<in>set (enq_ids s). m (i, raw_uuid sc) = None" "m (sid, raw_uuid sc) = None"
    "sid \<notin> set (enq_ids s)"
    and Q: "\<And>b'. crep n (view b') (spec_store_command sid s lp sc m) \<Longrightarrow> Q (Inr ()) b'"
  shows "wp (store_step_command E sid s lp sc) Q b"
proof (cases "cfg_not_until s = 0")
  case True
  with assms show ?thesis
    by (simp add: store_step_command_def) (rule wp_store_ids, auto simp: spec_store_command_def)
next
  case False
  let ?m = "m((sid, raw_uuid sc) \<mapsto> new_acmd sid sc 0 True)"
  have "wp (kv_set_id_cmd E sid sid sc 0 True) (\<lambda>r b'. r = Inr () \<and> crep n (view b') ?m) b"
    using assms by (intro wp_set_id_cmd) (auto intro: crep_set)
  then have "wp (kv_set_id_cmd E sid sid sc 0 True)
     (\<lambda>r b'. r = Inr () \<and> wp (go_for (enq_ids s) (\<lambda>i. go_wrap ''writing command records: %w'' []
                               (kv_set_id_cmd E sid i sc lp False))) Q b') b"
  proof (rule wp_mono, goal_cases)
    case (1 r b')
    then show ?case
      using assms False by (intro conjI wp_store_ids [where m = ?m]) (auto simp: spec_store_command_def)
  qed
  with False show ?thesis by (auto simp: store_step_command_def elim!: wp_mono)
qed

lemma wp_store_commands:
  assumes "crep n (view (id_cmd_store s)) m" "go_time lp" "\<forall>c\<in>set cs. length (raw_uuid c) = n"
    "distinct (enq_ids st)" "distinct (map raw_uuid cs)" "sid \<notin> set (enq_ids st)"
    "\<forall>c\<in>set cs. m (sid, raw_uuid c) = None \<and> (\<forall>i\<in>set (enq_ids st). m (i, raw_uuid c) = None)"
    and Q: "\<And>b'. crep n (view b') (foldl (\<lambda>m sc. spec_store_command sid st lp sc m) m cs)
              \<Longrightarrow> Q (Inr ()) (s\<lparr>id_cmd_store := b'\<rparr>)"
  shows "wp (go_for cs (\<lambda>sc. in_cmds (store_step_command E sid st lp sc))) Q s"
  using assms(1,3,5,7) Q
proof (induction cs arbitrary: s m)
  case Nil
  then have "Q (Inr ()) (s\<lparr>id_cmd_store := id_cmd_store s\<rparr>)" by (metis foldl_Nil)
  then show ?case by simp
next
  case (Cons c cs)
  let ?m = "spec_store_command sid st lp c m"
  have "wp (store_step_command E sid st lp c)
     (\<lambda>r b'. r = Inr () \<and> wp (go_for cs (\<lambda>sc. in_cmds (store_step_command E sid st lp sc))) Q
                             (s\<lparr>id_cmd_store := b'\<rparr>)) (id_cmd_store s)"
    using Cons.prems assms(2,4,6)
    by (intro wp_store_step_command [where m = m] conjI Cons.IH [where m = ?m])
      (auto simp: spec_store_command_eq image_iff)
  then show ?case by (auto elim!: wp_mono)
qed

lemma storableD:
  assumes "storable n E st"
  shows "enq_ids st \<noteq> []" "enq_commands st \<noteq> []" "\<forall>c\<in>set (enq_commands st). length (raw_uuid c) = n"
    "go_time (cfg_not_until st)" "go_time (cfg_step_timeout st)" "astep_ok n (astep_of st)"
    "validate_step_config (Some st) = Inr ()" "new_uuid E j \<notin> set (enq_ids st)"
  using assms by (auto simp: storable_def validate_step_config_iff astep_ok_def astep_of_def)

lemma rep_spec_store_step:
  assumes rep: "rep n s a" and st: "storable n E st" "fresh_pairs st a"
    and steps: "srep n V (a_steps (spec_store_step (new_uuid E (ids_issued s)) now st a))"
    and cmds: "crep n W (a_cmds (spec_store_step (new_uuid E (ids_issued s)) now st a))"
    and s': "view (step_store s') = V" "view (id_cmd_store s') = W" "ids_issued s' = Suc (ids_issued s)"
  shows "rep n s' (spec_store_step (new_uuid E (ids_issued s)) now st a)"
proof -
  have ne: "new_uuid E j \<noteq> new_uuid E (ids_issued s)" if "j \<ge> Suc (ids_issued s)" for j
    using that uuid_law by (metis injD not_less_eq_eq order_refl)
  have "a_cmds (spec_store_step (new_uuid E (ids_issued s)) now st a) (new_uuid E j, u) =
        a_cmds a (new_uuid E j, u)" if "j \<ge> Suc (ids_issued s)" for j u
    using st ne [OF that] storableD(8) [OF st(1), of j]
    by (simp add: spec_store_step_def foldl_store fresh_pairs_def split: option.split)
  with assms ne show ?thesis
    by (auto simp: rep_def spec_store_step_def)
qed

text \<open>A valid step without duplicates is stored, and the store then represents the new state.\<close>

lemma store_step_refines:
  assumes rep: "rep n s a" and st: "storable n E st" "fresh_pairs st a" and now: "go_time (wall_clock s)"
    and Q: "\<And>s'. rep n s' (spec_store_step (new_uuid E (ids_issued s)) (wall_clock s) st a) \<Longrightarrow>
              ids_issued s' = Suc (ids_issued s) \<Longrightarrow> wall_clock s' = wall_clock s \<Longrightarrow>
              event_store s' = event_store s \<Longrightarrow> status_store s' = status_store s \<Longrightarrow> Q (Inr ()) s'"
  shows "wp (store_step E (Some st) pt) Q s"
proof -
  let ?sid = "new_uuid E (ids_issued s)"
  let ?lp = "if cfg_not_until st = 0 then wall_clock s else 0"
  note st' = storableD [OF st(1)]
  from rep have c: "crep n (view (id_cmd_store s)) (a_cmds a)" and ss: "srep n (view (step_store s)) (a_steps a)"
    and f: "a_steps a ?sid = None" "\<And>u. a_cmds a (?sid, u) = None" by (auto simp: rep_def)
  obtain r where r: "dup_scan (view (id_cmd_store s)) (step_pairs st) [] = Inr r"
    using dup_scan_fresh [OF c st'(3,1,2)] st(2) by auto
  have rest: "wp (go_bind (if cfg_not_until st = 0 then time_now else go_ret 0) (\<lambda>lp.
                go_for (enq_commands st) (\<lambda>sc. in_cmds (store_step_command E ?sid st lp sc)))) Q
                (s\<lparr>ids_issued := Suc (ids_issued s), step_store := b'\<rparr>)" (is "wp ?m Q ?s")
    if b': "view b' = view (step_store s) ++ map_of (step_entries ?sid st (opt_time_text (cfg_not_until st))
                                      (opt_time_text (cfg_step_timeout st)))" for b'
  proof -
    have "wp (go_for (enq_commands st) (\<lambda>sc. in_cmds (store_step_command E ?sid st ?lp sc))) Q ?s"
    proof (rule wp_store_commands [where m = "a_cmds a" and n = n])
      fix c
      assume "crep n (view c) (foldl (\<lambda>m sc. spec_store_command ?sid st ?lp sc m) (a_cmds a) (enq_commands st))"
      then show "Q (Inr ()) (?s\<lparr>id_cmd_store := c\<rparr>)"
        using srep_set [OF ss f(1) st'(6)] b'
        by (intro Q rep_spec_store_step [OF rep st]) (auto simp: spec_store_step_def)
    qed (use c st' st(2) f now in \<open>auto simp: fresh_pairs_def\<close>)
    then show ?thesis by (simp split: if_splits)
  qed
  show ?thesis
    unfolding store_step_def
    apply (simp add: wp_check_duplicates r split del: if_split)
    apply (rule wp_set_step [OF st'(7,4,5)])
    apply (drule rest)
    apply (simp del: wp_bind wp_if split del: if_split)
    done
qed

end

end
