(* ===== verification/KVResponse.thy ===== *)
theory KVResponse
  imports KVRefine
begin

text \<open>
  Storing a command response: the abstract operation and the refinement of
  \<open>store_command_response\<close> (\<open>StoreCommandResponse\<close> of \<open>engine/storage/kv/kv.go\<close>) to it. A response is
  kept with its command; once every command of the step is complete for the enrollment the step's
  result is returned and the enrollment's commands are dropped; once this holds for all of its
  enrollments the step is dropped too.
\<close>

section \<open>Storing a command response\<close>

definition set_response :: "command_result \<Rightarrow> acmd \<Rightarrow> acmd" where
  "set_response r c =
     c\<lparr>ac_report := Some (cr_report r), ac_done := ac_done c \<or> cr_completed r\<rparr>"

definition cmd_done :: "(string \<times> string \<rightharpoonup> acmd) \<Rightarrow> string \<Rightarrow> string \<Rightarrow> bool" where
  "cmd_done m i u = (case m (i, u) of None \<Rightarrow> False | Some c \<Rightarrow> ac_done c)"

definition spec_result ::
  "(string \<times> string \<rightharpoonup> acmd) \<Rightarrow> string \<Rightarrow> command_result \<Rightarrow> string \<Rightarrow> command_result" where
  "spec_result m i r u =
     \<lparr>cr_uuid = u,
      cr_request_type = (if u = cr_uuid r \<and> cr_request_type r \<noteq> [] then cr_request_type r
                         else ac_request_type (the (m (i, u)))),
      cr_report = the (ac_report (the (m (i, u)))),
      cr_completed = True\<rparr>"

definition all_accounted :: "(string \<times> string \<rightharpoonup> acmd) \<Rightarrow> astep \<Rightarrow> bool" where
  "all_accounted m st \<longleftrightarrow>
     list_all (\<lambda>p. m p = None \<or> cmd_done m (fst p) (snd p)) (List.product (as_ids st) (as_uuids st))"

definition remove_cmds :: "(string \<times> string) set \<Rightarrow> (string \<times> string \<rightharpoonup> acmd) \<Rightarrow> (string \<times> string \<rightharpoonup> acmd)"
where
  "remove_cmds A m = (\<lambda>p. if p \<in> A then None else m p)"

definition spec_finish_step ::
  "string \<Rightarrow> string \<Rightarrow> astep \<Rightarrow> astore \<Rightarrow> astore" where
  "spec_finish_step i sid st a =
     (let m = remove_cmds ({i} \<times> set (as_uuids st)) (a_cmds a) in
      if all_accounted m st
      then a\<lparr>a_steps := (a_steps a)(sid := None),
             a_cmds := remove_cmds (set (as_ids st) \<times> set (as_uuids st)) m\<rparr>
      else a\<lparr>a_cmds := m\<rparr>)"

definition spec_step_result ::
  "(string \<times> string \<rightharpoonup> acmd) \<Rightarrow> string \<Rightarrow> command_result \<Rightarrow> astep \<Rightarrow> step_result" where
  "spec_step_result m i r st =
     \<lparr>ctx_workflow_name = as_workflow st, ctx_instance_id = as_instance st, ctx_name = as_name st,
      ctx_context = as_context st, res_ids = [i],
      res_commands = map (spec_result m i r) (as_uuids st)\<rparr>"

definition spec_store_response ::
  "string \<Rightarrow> command_result \<Rightarrow> astore \<Rightarrow> step_result option result \<times> astore" where
  "spec_store_response i r a =
     (case a_cmds a (i, cr_uuid r) of
        None \<Rightarrow> (Inl (Errorf ''command not found: %s'' [cr_uuid r]), a)
      | Some c \<Rightarrow>
          (let a = a\<lparr>a_cmds := (a_cmds a)((i, cr_uuid r) \<mapsto> set_response r c)\<rparr> in
           if \<not> cr_completed r then (Inr None, a)
           else
             (case a_steps a (ac_step c) of
                None \<Rightarrow> (Inl (Wrapf ''reading step commands: %w'' [] ErrKeyNotFound), a)
              | Some st \<Rightarrow>
                  if list_all (cmd_done (a_cmds a) i) (as_uuids st)
                  then (Inr (Some (spec_step_result (a_cmds a) i r st)),
                        spec_finish_step i (ac_step c) st a)
                  else (Inr None, a))))"

lemma remove_cmds_empty [simp]: "remove_cmds {} m = m"
  by (simp add: remove_cmds_def)

lemma remove_cmds_upd: "(remove_cmds A m)(p := None) = remove_cmds (insert p A) m"
  by (auto simp: remove_cmds_def)

lemma remove_cmds_remove: "remove_cmds A (remove_cmds B m) = remove_cmds (A \<union> B) m"
  by (auto simp: remove_cmds_def)

lemma remove_cmds_None: "(\<And>p. p \<in> A \<Longrightarrow> p \<notin> B \<Longrightarrow> m p = None) \<Longrightarrow> B \<subseteq> A \<Longrightarrow> remove_cmds B m = remove_cmds A m"
  by (auto simp: remove_cmds_def fun_eq_iff subset_iff)

text \<open>What such an operation leaves alone.\<close>

definition same_others :: "'b kv_store \<Rightarrow> 'b kv_store \<Rightarrow> bool" where
  "same_others s s' \<longleftrightarrow>
     event_store s' = event_store s \<and> status_store s' = status_store s \<and>
     ids_issued s' = ids_issued s \<and> wall_clock s' = wall_clock s"

context kv_laws
begin

lemma crep_done:
  assumes "crep n V m" "length u = n"
  shows "V (i @ u @ ''.done'') \<noteq> None \<longleftrightarrow> cmd_done m i u"
  using crep_get [OF assms, of "''.done''" i]
  by (auto simp: cmd_suffixes_def cmd_done_def enc_cmd_def split: option.splits)

lemma crep_exists:
  assumes "crep n V m" "length u = n"
  shows "V (i @ u @ ''.step'') \<noteq> None \<longleftrightarrow> m (i, u) \<noteq> None"
  using crep_get [OF assms, of "''.step''" i]
  by (auto simp: cmd_suffixes_def enc_cmd_def split: option.splits)

lemma crep_response:
  assumes V: "crep n V m" and c: "m (i, cr_uuid r) = Some c"
    and V': "V' = (if cr_completed r then V(i @ cr_uuid r @ ''.result'' \<mapsto> cr_report r,
                                        i @ cr_uuid r @ ''.done'' \<mapsto> ''1'')
                  else V(i @ cr_uuid r @ ''.result'' \<mapsto> cr_report r))"
  shows "crep n V' (m((i, cr_uuid r) \<mapsto> set_response r c))"
proof (rule crep_update [OF V crep_length [OF V c]])
  show "V' k = V k" if "\<forall>x\<in>set cmd_suffixes. k \<noteq> i @ cr_uuid r @ x" for k
    using that by (auto simp: V' cmd_suffixes_def)
  show "V' (i @ cr_uuid r @ x) = (case Some (set_response r c) of None \<Rightarrow> None | Some c \<Rightarrow> enc_cmd i c x)"
    if "x \<in> set cmd_suffixes" for x
  proof -
    have "V (i @ cr_uuid r @ x) = enc_cmd i c x"
      using crep_get [OF V crep_length [OF V c] that, of i] c by simp
    with that show ?thesis
      by (simp add: V' cmd_suffixes_def) (elim disjE; simp add: enc_cmd_def set_response_def)
  qed
  show "acmd_ok c'" if "Some (set_response r c) = Some c'" for c'
    using that crep_ok [OF V c] by (auto simp: acmd_ok_def set_response_def)
qed

lemma wp_collect_results:
  assumes V: "crep n (view b) m" and us: "\<forall>u\<in>set us. length u = n"
    and c: "m (i, cr_uuid r) = Some c" "ac_done c" "ac_report c = Some (cr_report r)"
  shows "wp (kv_collect_results E i r us acc) Q b =
           Q (Inr (if list_all (cmd_done m i) us then Some (acc @ map (spec_result m i r) us)
                   else None)) b"
  using us
proof (induction us arbitrary: acc)
  case (Cons u us)
  then have u: "length u = n" by simp
  show ?case
  proof (cases "cmd_done m i u")
    case True
    then obtain d where d: "m (i, u) = Some d" "ac_done d" by (auto simp: cmd_done_def split: option.splits)
    with crep_ok [OF V d(1)] obtain rep where rep: "ac_report d = Some rep" by (auto simp: acmd_ok_def)
    from crep_get [OF V u, of "''.result''" i] crep_get [OF V u, of "''.reqtype''" i] d rep
    have g: "view b (i @ u @ ''.result'') = Some rep" "view b (i @ u @ ''.reqtype'') = Some (ac_request_type d)"
      by (simp_all add: cmd_suffixes_def enc_cmd_def)
    have dn: "view b (i @ u @ ''.done'') \<noteq> None" using crep_done [OF V u] True by simp
    have k: "wp (kv_command_result E i r u) R b = R (Inr (spec_result m i r u)) b" for R
      using d rep g c by (cases "u = cr_uuid r") (auto simp: kv_command_result_def spec_result_def)
    show ?thesis
      using Cons True dn k by (cases "u = cr_uuid r") simp_all
  next
    case False
    with c have "u \<noteq> cr_uuid r" by (auto simp: cmd_done_def)
    with False crep_done [OF V u] show ?thesis by simp
  qed
qed simp

lemma wp_delete_cmds:
  assumes "crep n (view (id_cmd_store s)) m" "\<forall>u\<in>set us. length u = n"
    and Q: "\<And>b'. crep n (view b') (remove_cmds ({i} \<times> set us) m) \<Longrightarrow> Q (Inr ()) (s\<lparr>id_cmd_store := b'\<rparr>)"
  shows "wp (go_for us (\<lambda>u. go_wrap (fmt u) (as u) (in_cmds (kv_delete_id_cmd E i u)))) Q s"
proof (rule wp_for [where I = "\<lambda>ys v. (\<exists>xs b. us = xs @ ys \<and> v = s\<lparr>id_cmd_store := b\<rparr> \<and>
                          crep n (view b) (remove_cmds ({i} \<times> set xs) m))"])
  show "\<exists>xs b. us = xs @ us \<and> s = s\<lparr>id_cmd_store := b\<rparr> \<and> crep n (view b) (remove_cmds ({i} \<times> set xs) m)"
    using assms(1) by (intro exI [of _ "[]"] exI [of _ "id_cmd_store s"]) simp
next
  fix u ys v
  assume "\<exists>xs b. us = xs @ u # ys \<and> v = s\<lparr>id_cmd_store := b\<rparr> \<and> crep n (view b) (remove_cmds ({i} \<times> set xs) m)"
  then obtain xs b where *: "us = xs @ u # ys" "v = s\<lparr>id_cmd_store := b\<rparr>"
    "crep n (view b) (remove_cmds ({i} \<times> set xs) m)" by blast
  have ins: "remove_cmds ({i} \<times> set (xs @ [u])) m = (remove_cmds ({i} \<times> set xs) m)((i, u) := None)"
    by (auto simp: remove_cmds_def)
  have "wp (kv_delete_id_cmd E i u)
      (\<lambda>r b'. r = Inr () \<and> crep n (view b') (remove_cmds ({i} \<times> set (xs @ [u])) m)) b"
    unfolding ins using crep_delete [OF *(3), of u i] assms(2) *(1)
    by (intro wp_delete_id_cmd) simp
  then show "wp (go_wrap (fmt u) (as u) (in_cmds (kv_delete_id_cmd E i u)))
     (\<lambda>r v'. r = Inr () \<and> (\<exists>xs b. us = xs @ ys \<and> v' = s\<lparr>id_cmd_store := b\<rparr> \<and>
        crep n (view b) (remove_cmds ({i} \<times> set xs) m))) v"
    unfolding *(2)
    by (simp, erule_tac wp_mono) (auto intro!: exI [of _ "xs @ [u]"] simp: *(1))
next
  fix v
  assume "\<exists>xs b. us = xs @ [] \<and> v = s\<lparr>id_cmd_store := b\<rparr> \<and> crep n (view b) (remove_cmds ({i} \<times> set xs) m)"
  then show "Q (Inr ()) v" using Q by auto
qed


lemma wp_collect_complete:
  assumes V: "crep n (view b) m" and ps: "\<forall>p\<in>set ps. length (snd p) = n"
  shows "wp (kv_collect_complete_cmds E ps acc) Q b =
           Q (Inr (if list_all (\<lambda>p. m p = None \<or> cmd_done m (fst p) (snd p)) ps
                   then Some (acc @ filter (\<lambda>p. m p \<noteq> None) ps) else None)) b"
  using ps
proof (induction ps arbitrary: acc)
  case (Cons p ps)
  then have u: "length (snd p) = n" by simp
  show ?case
    using Cons crep_exists [OF V u, of "fst p"] crep_done [OF V u, of "fst p"]
    by (cases "m p"; cases "cmd_done m (fst p) (snd p)") auto
qed simp

lemma wp_delete_pairs:
  assumes "crep n (view (snd w)) m" "\<forall>p\<in>set ps. length (snd p) = n"
    and Q: "\<And>c. crep n (view c) (remove_cmds (set ps) m) \<Longrightarrow> Q (Inr ()) (fst w, c)"
  shows "wp (go_for ps (\<lambda>(eid, uuid). go_wrap fmt (as uuid)
             (go_zoom snd snd_upd (kv_delete_id_cmd E eid uuid)))) Q w"
  using assms
proof (induction ps arbitrary: w m)
  case Nil
  then show ?case by (metis go_for.simps(1) list.set(1) remove_cmds_empty surjective_pairing wp_ret)
next
  case (Cons p ps)
  let ?f = "\<lambda>(eid, uuid). go_wrap fmt (as uuid) (go_zoom snd snd_upd (kv_delete_id_cmd E eid uuid))"
  have "wp (kv_delete_id_cmd E (fst p) (snd p))
          (\<lambda>r b'. r = Inr () \<and> wp (go_for ps ?f) Q (fst w, b')) (snd w)"
  proof (rule wp_delete_id_cmd, rule conjI [OF refl], rule Cons.IH)
    fix b'
    assume b': "view b' = view (snd w) |` (- {fst p @ snd p @ x | x. x \<in> set cmd_suffixes})"
    show "crep n (view (snd (fst w, b'))) (m(p := None))"
      using crep_delete [OF Cons.prems(1), of "snd p" "fst p"] Cons.prems(2) b' by simp
    show "Q (Inr ()) (fst (fst w, b'), c)" if "crep n (view c) (remove_cmds (set ps) (m(p := None)))" for c
    proof -
      have "remove_cmds (set ps) (m(p := None)) = remove_cmds (set (p # ps)) m"
        by (auto simp: remove_cmds_def)
      with that Cons.prems(3) show ?thesis by simp
    qed
  qed (use Cons.prems in auto)
  then show ?case by (cases p) (auto simp: snd_upd_def [of _ w] elim!: wp_mono)
qed

lemma wp_get_step_result:
  assumes "srep n (view b) S" "S sid = Some st"
  shows "wp (kv_get_step_result E sid) Q b =
     Q (Inr \<lparr>ctx_workflow_name = as_workflow st, ctx_instance_id = as_instance st,
              ctx_name = as_name st, ctx_context = as_context st, res_ids = [],
              res_commands = []\<rparr>) b"
proof -
  have "view b (sid @ ''.meta'') = Some (marshal_strings [as_instance st, as_workflow st, as_name st])"
    "view b (sid @ ''.ctx'') = (if as_context st = [] then None else Some (as_context st))"
    using srep_get [OF assms(1), of _ sid] assms(2) by (auto simp: step_suffixes_def enc_step_def)
  moreover have "unmarshal_strings (marshal_strings [as_instance st, as_workflow st, as_name st]) =
     [as_instance st, as_workflow st, as_name st]"
    using srep_ok [OF assms] by (intro unmarshal_marshal_strings) (auto simp: astep_ok_def)
  ultimately show ?thesis by (auto simp: kv_get_step_result_def meta_fields_def)
qed

lemma srep_lists:
  assumes "srep n V S" "S sid = Some st"
  shows "V (sid @ ''.cmds'') = Some (marshal_strings (as_uuids st))"
    "V (sid @ ''.ids'') = Some (marshal_strings (as_ids st))"
    "unmarshal_strings (marshal_strings (as_uuids st)) = as_uuids st"
    "unmarshal_strings (marshal_strings (as_ids st)) = as_ids st"
  using srep_get [OF assms(1), of _ sid] srep_ok [OF assms] assms(2)
  by (auto simp: step_suffixes_def enc_step_def astep_ok_def unmarshal_marshal_strings)

lemma wp_delete_if_all:
  assumes S: "srep n (view (fst w)) S" "S sid = Some st" and m: "crep n (view (snd w)) m"
    and yes: "\<And>b c. all_accounted m st \<Longrightarrow> srep n (view b) (S(sid := None)) \<Longrightarrow>
               crep n (view c) (remove_cmds (set (as_ids st) \<times> set (as_uuids st)) m) \<Longrightarrow>
               Q (Inr ()) (b, c)"
    and no: "\<not> all_accounted m st \<Longrightarrow> Q (Inr ()) w"
  shows "wp (kv_delete_step_if_all_ids_complete E sid (as_uuids st)) Q w"
proof -
  let ?ps = "List.product (as_ids st) (as_uuids st)"
  have u: "\<forall>p\<in>set ?ps. length (snd p) = n"
    using srep_ok [OF S] by (auto simp: astep_ok_def)
  note S' = srep_lists [OF S]
  show ?thesis
  proof (cases "all_accounted m st")
    case False
    then show ?thesis
      using no S' m u by (simp add: kv_delete_step_if_all_ids_complete_def fst_upd_def snd_upd_def
          wp_collect_complete all_accounted_def)
  next
    case True
    have "wp (go_for (filter (\<lambda>p. m p \<noteq> None) ?ps) (\<lambda>(eid, uuid). go_wrap ''deleting command for %s: %w'' [uuid]
             (go_zoom snd snd_upd (kv_delete_id_cmd E eid uuid))))
          (\<lambda>r w'. r = Inr () \<and> wp (kv_delete_step E sid) (\<lambda>r' b'. r' = Inr () \<and> Q (Inr ()) (b', snd w')) (fst w')) w"
    proof (rule wp_delete_pairs [OF m])
      fix c
      assume "crep n (view c) (remove_cmds (set (filter (\<lambda>p. m p \<noteq> None) ?ps)) m)"
      moreover have "remove_cmds (set (filter (\<lambda>p. m p \<noteq> None) ?ps)) m =
                     remove_cmds (set (as_ids st) \<times> set (as_uuids st)) m"
        by (auto simp: remove_cmds_def fun_eq_iff)
      ultimately show "Inr () = Inr () \<and> wp (kv_delete_step E sid)
          (\<lambda>r' b'. r' = Inr () \<and> Q (Inr ()) (b', snd (fst w, c))) (fst (fst w, c))"
        using yes [OF True] srep_delete [OF S(1), of sid] by (auto intro!: wp_delete_step)
    qed (use u in auto)
    with True show ?thesis
      using S' m u
      by (simp add: kv_delete_step_if_all_ids_complete_def fst_upd_def snd_upd_def
          wp_collect_complete all_accounted_def) (auto elim!: wp_mono simp: fst_upd_def)
  qed
qed


lemma same_others_refl [simp]: "same_others s s"
  by (simp add: same_others_def)

lemma same_others_trans: "same_others s t \<Longrightarrow> same_others t u \<Longrightarrow> same_others s u"
  by (simp add: same_others_def)

lemma rep_same:
  "rep n s a \<Longrightarrow> view (step_store s') = view (step_store s) \<Longrightarrow>
     view (id_cmd_store s') = view (id_cmd_store s) \<Longrightarrow> ids_issued s' = ids_issued s \<Longrightarrow> rep n s' a"
  by (simp add: rep_def)

lemma rep_shrink:
  assumes "rep n s a" "srep n (view (step_store s')) (a_steps a')" "crep n (view (id_cmd_store s')) (a_cmds a')"
    "ids_issued s' = ids_issued s"
    "\<And>sid. a_steps a sid = None \<Longrightarrow> a_steps a' sid = None"
    "\<And>p. a_cmds a p = None \<Longrightarrow> a_cmds a' p = None"
  shows "rep n s' a'"
  using assms by (simp add: rep_def)

lemma wp_complete_step:
  assumes S: "srep n (view (step_store s)) S" "S sid = Some st" and m: "crep n (view (id_cmd_store s)) m"
    and a': "a' = spec_finish_step i sid st \<lparr>a_steps = S, a_cmds = m\<rparr>"
    and Q: "\<And>b c. srep n (view b) (a_steps a') \<Longrightarrow> crep n (view c) (a_cmds a') \<Longrightarrow>
              Q (Inr (Some \<lparr>ctx_workflow_name = as_workflow st, ctx_instance_id = as_instance st,
                 ctx_name = as_name st, ctx_context = as_context st, res_ids = [i],
                 res_commands = cmds\<rparr>)) (s\<lparr>step_store := b, id_cmd_store := c\<rparr>)"
  shows "wp (kv_complete_step E i sid (as_uuids st) cmds) Q s"
proof -
  let ?m = "remove_cmds ({i} \<times> set (as_uuids st)) m"
  let ?res = "\<lparr>ctx_workflow_name = as_workflow st, ctx_instance_id = as_instance st,
                 ctx_name = as_name st, ctx_context = as_context st, res_ids = [i],
                 res_commands = cmds\<rparr>"
  have len: "\<forall>u\<in>set (as_uuids st). length u = n" using srep_ok [OF S] by (simp add: astep_ok_def)
  have del: "wp (kv_delete_step_if_all_ids_complete E sid (as_uuids st))
      (\<lambda>r w. r = Inr () \<and> Q (Inr (Some ?res)) (s\<lparr>step_store := fst w, id_cmd_store := snd w\<rparr>))
      (step_store s, c)" if c: "crep n (view c) ?m" for c
    by (rule wp_delete_if_all [where S = S and st = st and m = ?m and n = n])
      (use S c Q [unfolded a' spec_finish_step_def Let_def] Q [of "step_store s" c, unfolded a' spec_finish_step_def Let_def]
       in \<open>auto split: if_splits\<close>)
  have "wp (go_for (as_uuids st) (\<lambda>uuid. go_wrap ''deleting command %s: %w'' [uuid]
                                     (in_cmds (kv_delete_id_cmd E i uuid))))
      (\<lambda>r s'. r = Inr () \<and> (\<exists>c. s' = s\<lparr>id_cmd_store := c\<rparr> \<and> crep n (view c) ?m)) s"
    by (rule wp_delete_cmds [OF m len]) auto
  then show ?thesis
    by (simp add: kv_complete_step_def wp_get_step_result [OF S], elim wp_mono)
      (auto elim!: wp_mono [OF del])
qed

text \<open>Storing a command response does what the abstract operation does.\<close>

lemma store_command_response_refines:
  assumes rep: "rep n s a" and u: "length (cr_uuid r) = n"
    and Q: "\<And>s'. rep n s' (snd (spec_store_response i r a)) \<Longrightarrow>
              same_others s s' \<Longrightarrow>
              Q (fst (spec_store_response i r a)) s'"
  shows "wp (store_command_response E i r) Q s"
proof (cases "a_cmds a (i, cr_uuid r)")
  case None
  have "view (id_cmd_store s) (i @ cr_uuid r @ ''.step'') = None"
    using rep None crep_exists [of n _ "a_cmds a" "cr_uuid r" i] u by (auto simp: rep_def)
  with None Q [of s] rep show ?thesis
    by (simp add: store_command_response_def spec_store_response_def)
next
  case (Some c)
  let ?m = "(a_cmds a)((i, cr_uuid r) \<mapsto> set_response r c)"
  from rep have S: "srep n (view (step_store s)) (a_steps a)" and m: "crep n (view (id_cmd_store s)) (a_cmds a)"
    by (auto simp: rep_def)
  from crep_get [OF m u, of "''.step''" i] Some
  have st: "view (id_cmd_store s) (i @ cr_uuid r @ ''.step'') = Some (ac_step c)"
    by (simp add: cmd_suffixes_def enc_cmd_def)
  have upd: "wp (kv_set_id_cmd_update E i r) R (id_cmd_store s)"
    if "\<And>b. crep n (view b) ?m \<Longrightarrow> view b (i @ cr_uuid r @ ''.step'') = Some (ac_step c) \<Longrightarrow> R (Inr ()) b" for R
    by (rule wp_set_id_cmd_update, rule that) (use crep_response [OF m Some] st in auto)
  let ?a = "a\<lparr>a_cmds := ?m\<rparr>"
  have Q': "Q (fst (spec_store_response i r a)) (s\<lparr>step_store := b, id_cmd_store := c\<rparr>)"
    if "srep n (view b) (a_steps (snd (spec_store_response i r a)))"
      "crep n (view c) (a_cmds (snd (spec_store_response i r a)))" for b c
    by (rule Q, rule rep_shrink [OF rep])
      (use that Some in \<open>auto simp: same_others_def spec_store_response_def spec_finish_step_def remove_cmds_def Let_def
          split: option.splits if_splits\<close>)
  show ?thesis
  proof (cases "cr_completed r")
    case False
    have "Q (Inr None) (s\<lparr>id_cmd_store := b\<rparr>)" if "crep n (view b) ?m" for b
      using Q' [of "step_store s" b] that S False Some by (simp add: spec_store_response_def)
    with False st show ?thesis
      by (simp add: store_command_response_def upd)
  next
    case True
    note resp_defs = set_response_def [of r c]
    show ?thesis
    proof (cases "a_steps a (ac_step c)")
      case None
      then have "view (step_store s) (ac_step c @ ''.cmds'') = None"
        using srep_get [OF S, of "''.cmds''"] by (simp add: step_suffixes_def)
      moreover have "Q (Inl (Wrapf ''reading step commands: %w'' [] ErrKeyNotFound)) (s\<lparr>id_cmd_store := b\<rparr>)"
        if "crep n (view b) ?m" for b
        using Q' [of "step_store s" b] that S True Some None by (simp add: spec_store_response_def)
      ultimately show ?thesis
        using True st by (simp add: store_command_response_def upd)
    next
      case st': (Some st)
      have len: "\<forall>u\<in>set (as_uuids st). length u = n" using srep_ok [OF S st'] by (simp add: astep_ok_def)
      note res = wp_collect_results [OF _ len, where m = ?m and c = "set_response r c" and i = i and r = r]
      have incomplete: "Q (Inr None) (s\<lparr>id_cmd_store := b\<rparr>)"
        if "crep n (view b) ?m" "\<not> list_all (cmd_done ?m i) (as_uuids st)" for b
        using Q' [of "step_store s" b] that S True Some st' by (simp add: spec_store_response_def)
      have complete: "wp (kv_complete_step E i (ac_step c) (as_uuids st) (map (spec_result ?m i r) (as_uuids st)))
           Q (s\<lparr>id_cmd_store := b\<rparr>)"
        if "crep n (view b) ?m" "list_all (cmd_done ?m i) (as_uuids st)" for b
        by (rule wp_complete_step [where S = "a_steps a" and m = ?m, OF _ st' _ refl])
          (use that S Q' True Some st' in \<open>auto simp: spec_store_response_def spec_step_result_def
            spec_finish_step_def Let_def split: if_splits\<close>)
      show ?thesis
        using True st srep_lists [OF S st'] incomplete complete
        by (auto simp: store_command_response_def res resp_defs intro!: upd)
    qed
  qed
qed

end

end
