(* ===== verification/KVQuery.thy ===== *)
theory KVQuery
  imports KVResponse
begin

text \<open>
  The scans over the keys of a bucket, and the operations of \<open>kv.go\<close> that start with one: the
  outstanding workflow status and the cancellation of steps. A scan visits the keys in the order the
  bucket gives them, and Go map order is arbitrary, so the results are stated as sets.
\<close>

section \<open>Scans for a key suffix\<close>

definition suffix_scan :: "string \<Rightarrow> (string \<Rightarrow> bool) \<Rightarrow> string list \<Rightarrow> string list" where
  "suffix_scan sfx P ks =
     map (\<lambda>k. chop_suffix k sfx) (filter (\<lambda>k. has_suffix k sfx \<and> P (chop_suffix k sfx)) ks)"

lemma set_suffix_scan: "set (suffix_scan sfx P ks) = {p. p @ sfx \<in> set ks \<and> P p}"
  by (force simp: suffix_scan_def has_suffix_iff image_iff)

lemma distinct_suffix_scan: "distinct ks \<Longrightarrow> distinct (suffix_scan sfx P ks)"
  by (auto simp: suffix_scan_def distinct_map inj_on_def has_suffix_iff)

lemma wp_suffix_scan:
  assumes "\<And>k acc R. k \<in> set ks \<Longrightarrow> wp (f k acc) R b =
             R (Inr (if has_suffix k sfx \<and> P (chop_suffix k sfx) then acc @ [chop_suffix k sfx] else acc)) b"
  shows "wp (go_fold f ks acc) Q b = Q (Inr (acc @ suffix_scan sfx P ks)) b"
  using assms
proof (induction ks arbitrary: acc)
  case (Cons k ks)
  have "wp (f k acc) R b =
          R (Inr (if has_suffix k sfx \<and> P (chop_suffix k sfx) then acc @ [chop_suffix k sfx] else acc)) b" for R
    by (rule Cons.prems) simp
  with Cons show ?case by (simp add: suffix_scan_def)
qed (simp add: suffix_scan_def)

section \<open>The steps of a workflow\<close>

definition wf_step_of :: "astore \<Rightarrow> string \<Rightarrow> string list \<Rightarrow> string \<Rightarrow> bool" where
  "wf_step_of a name ids sid \<longleftrightarrow>
     (case a_steps a sid of None \<Rightarrow> False
      | Some st \<Rightarrow> as_workflow st = name \<and> set ids \<inter> set (as_ids st) \<noteq> {})"

context kv_laws
begin

lemma step_key_iff:
  assumes "srep n (view b) S" "x \<in> set step_suffixes"
  shows "sid @ x \<in> set (bk_keys E b) \<longleftrightarrow> (\<exists>st. S sid = Some st \<and> enc_step st x \<noteq> None)"
  using srep_get [OF assms] by (auto simp: keys_law domIff split: option.splits)

lemma wp_find_workflow_steps:
  assumes "srep n (view (step_store s)) (a_steps a)"
    and Q: "\<And>sids. distinct sids \<Longrightarrow> set sids = {sid. wf_step_of a name ids sid} \<Longrightarrow>
              Q (Inr sids) (step_store s)"
  shows "wp (kv_find_workflow_steps_with_ids E name ids) Q (step_store s)"
proof -
  let ?b = "step_store s"
  have body: "wp (kv_find_workflow_steps_body E name ids k acc) R ?b =
     R (Inr (if has_suffix k ''.meta'' \<and> wf_step_of a name ids (chop_suffix k ''.meta'')
             then acc @ [chop_suffix k ''.meta''] else acc)) ?b" if "k \<in> set (bk_keys E ?b)" for k acc R
  proof (cases "has_suffix k ''.meta''")
    case True
    then obtain sid where k: "k = sid @ ''.meta''" by (auto simp: has_suffix_iff)
    with step_key_iff [OF assms(1), of "''.meta''" sid] that
    obtain st where st: "a_steps a sid = Some st" by (auto simp: step_suffixes_def)
    then have "view ?b k = Some (marshal_strings [as_instance st, as_workflow st, as_name st])"
      using srep_get [OF assms(1), of "''.meta''" sid] by (simp add: k step_suffixes_def enc_step_def)
    moreover have "unmarshal_strings (marshal_strings [as_instance st, as_workflow st, as_name st]) =
       [as_instance st, as_workflow st, as_name st]"
      using srep_ok [OF assms(1) st] by (intro unmarshal_marshal_strings) (auto simp: astep_ok_def)
    ultimately show ?thesis
      using True st srep_lists [OF assms(1) st]
      by (auto simp: k kv_find_workflow_steps_body_def wf_step_of_def list_ex_iff)
  qed (simp add: kv_find_workflow_steps_body_def)
  have "wp (go_fold (kv_find_workflow_steps_body E name ids) (bk_keys E ?b) []) Q ?b"
    by (subst wp_suffix_scan [where sfx = "''.meta''" and P = "wf_step_of a name ids"], erule body,
        unfold append_Nil, rule Q) (use step_key_iff [OF assms(1), of "''.meta''"] in
        \<open>auto simp: distinct_suffix_scan keys_law(1) set_suffix_scan wf_step_of_def step_suffixes_def
           enc_step_def split: option.splits\<close>)
  then show ?thesis by (simp add: kv_find_workflow_steps_with_ids_def wp_def)
qed

end

section \<open>Outstanding workflow status\<close>

definition incomplete :: "astore \<Rightarrow> string \<Rightarrow> string \<Rightarrow> bool" where
  "incomplete a i u \<longleftrightarrow> (case a_cmds a (i, u) of None \<Rightarrow> False | Some c \<Rightarrow> \<not> ac_done c)"

definition outstanding :: "astore \<Rightarrow> string \<Rightarrow> string list \<Rightarrow> string \<Rightarrow> bool" where
  "outstanding a name ids i \<longleftrightarrow>
     i \<in> set ids \<and>
     (\<exists>sid st. a_steps a sid = Some st \<and> wf_step_of a name ids sid \<and> (\<exists>u\<in>set (as_uuids st). incomplete a i u))"

context kv_laws
begin

lemma wp_any_incomplete:
  assumes "crep n (view b) (a_cmds a)" "\<forall>u\<in>set us. length u = n"
  shows "wp (kv_any_incomplete E i us) Q b = Q (Inr (\<exists>u\<in>set us. incomplete a i u)) b"
  using assms(2)
proof (induction us)
  case (Cons u us)
  then have u: "length u = n" by simp
  show ?case
    using Cons crep_exists [OF assms(1) u, of i] crep_done [OF assms(1) u, of i]
    by (cases "a_cmds a (i, u)") (auto simp: incomplete_def cmd_done_def)
qed simp

lemma wp_outstanding_ids:
  assumes "crep n (view b) (a_cmds a)" "\<forall>u\<in>set us. length u = n" "distinct acc"
    and Q: "\<And>r. distinct r \<Longrightarrow> set r = set acc \<union> {i\<in>set ids. \<exists>u\<in>set us. incomplete a i u} \<Longrightarrow> Q (Inr r) b"
  shows "wp (go_fold (outstanding_id_body E us) ids acc) Q b"
  using assms(3) Q
proof (induction ids arbitrary: acc)
  case (Cons i ids)
  have body: "wp (outstanding_id_body E us i acc) R b =
     R (Inr (if i \<notin> set acc \<and> (\<exists>u\<in>set us. incomplete a i u) then acc @ [i] else acc)) b" for R
    by (simp add: outstanding_id_body_def wp_any_incomplete [OF assms(1,2)])
  show ?case
  proof (simp only: go_fold.simps wp_bind body sum.case, rule Cons.IH, goal_cases)
    case (2 r)
    then have "set r = set acc \<union> {j\<in>set (i # ids). \<exists>u\<in>set us. incomplete a j u}"
      by (simp split: if_splits) blast+
    with 2(1) show ?case by (rule Cons.prems(2))
  qed (use Cons.prems(1) in simp)
qed simp

lemma wp_outstanding_steps:
  assumes rep: "rep n s a" and sids: "\<forall>sid\<in>set sids. a_steps a sid \<noteq> None" and "distinct acc"
    and Q: "\<And>r. distinct r \<Longrightarrow> set r = set acc \<union> {i\<in>set ids. \<exists>sid\<in>set sids. \<exists>u\<in>set (as_uuids (the (a_steps a sid))). incomplete a i u}
              \<Longrightarrow> Q (Inr r) s"
  shows "wp (go_fold (outstanding_step_body E ids) sids acc) Q s"
  using sids assms(3) Q
proof (induction sids arbitrary: acc)
  case (Cons sid sids)
  from rep have S: "srep n (view (step_store s)) (a_steps a)" and c: "crep n (view (id_cmd_store s)) (a_cmds a)"
    by (auto simp: rep_def)
  from Cons.prems(1) obtain st where st: "a_steps a sid = Some st" by auto
  have len: "\<forall>u\<in>set (as_uuids st). length u = n" using srep_ok [OF S st] by (simp add: astep_ok_def)
  have "wp (go_fold (outstanding_id_body E (as_uuids st)) ids acc)
     (\<lambda>r b. b = id_cmd_store s \<and> (\<exists>x. r = Inr x \<and> wp (go_fold (outstanding_step_body E ids) sids x) Q s))
     (id_cmd_store s)"
  proof (rule wp_outstanding_ids [OF c len Cons.prems(2)], intro conjI exI, rule refl, rule refl)
    fix r
    assume r: "distinct r" "set r = set acc \<union> {i\<in>set ids. \<exists>u\<in>set (as_uuids st). incomplete a i u}"
    show "wp (go_fold (outstanding_step_body E ids) sids r) Q s"
    proof (rule Cons.IH [OF _ r(1)], goal_cases)
      case (2 q)
      have "set q = set acc \<union> {i\<in>set ids. \<exists>sid\<in>set (sid # sids).
                     \<exists>u\<in>set (as_uuids (the (a_steps a sid))). incomplete a i u}"
        unfolding 2(2) r(2) using st by (simp add: Un_assoc) blast
      with 2(1) show ?case by (rule Cons.prems(3))
    qed (use Cons.prems(1) in simp)
  qed
  with srep_lists [OF S st] show ?case
    by (auto simp: outstanding_step_body_def [of E ids sid acc] elim!: wp_mono)
qed simp

text \<open>The outstanding status: exactly the given enrollments with an incomplete command in a step of
  the workflow.\<close>

lemma outstanding_exact:
  assumes rep: "rep n s a"
    and Q: "\<And>r. distinct r \<Longrightarrow> set r = {i. outstanding a name ids i} \<Longrightarrow> Q (Inr r) s"
  shows "wp (retrieve_outstanding_workflow_status E name ids) Q s"
proof -
  from rep have S: "srep n (view (step_store s)) (a_steps a)" by (auto simp: rep_def)
  have "wp (kv_find_workflow_steps_with_ids E name ids)
     (\<lambda>r b. b = step_store s \<and> (\<exists>x. r = Inr x \<and> wp (go_fold (outstanding_step_body E ids) x []) Q s)) (step_store s)"
  proof (rule wp_find_workflow_steps [OF S], intro conjI exI, rule refl, rule refl)
    fix sids
    assume sids: "set sids = {sid. wf_step_of a name ids sid}"
    show "wp (go_fold (outstanding_step_body E ids) sids []) Q s"
    proof (rule wp_outstanding_steps [OF rep], goal_cases)
      case (3 r)
      have "set r = {i. outstanding a name ids i}"
        unfolding 3(2) sids outstanding_def by (force simp: wf_step_of_def split: option.splits)
      with 3(1) show ?case by (rule Q)
    qed (auto simp: sids wf_step_of_def split: option.splits)
  qed
  then show ?thesis by (auto simp: retrieve_outstanding_workflow_status_def elim!: wp_mono)
qed

end

section \<open>Cancelling steps\<close>

definition spec_cancel_step :: "string \<Rightarrow> string \<Rightarrow> astore \<Rightarrow> astore" where
  "spec_cancel_step i sid a =
     (case a_steps a sid of None \<Rightarrow> a
      | Some st \<Rightarrow> a\<lparr>a_steps := (a_steps a)(sid := None),
                     a_cmds := remove_cmds ({i} \<times> set (as_uuids st)) (a_cmds a)\<rparr>)"

text \<open>Every step of the workflow that has \<open>i\<close> among its enrollments goes, with the commands of \<open>i\<close>.\<close>

definition spec_cancel :: "string \<Rightarrow> string \<Rightarrow> astore \<Rightarrow> astore" where
  "spec_cancel i name a =
     a\<lparr>a_steps := (\<lambda>sid. if wf_step_of a name [i] sid then None else a_steps a sid),
       a_cmds := (\<lambda>(j, u). if j = i \<and> (\<exists>sid st. a_steps a sid = Some st \<and> wf_step_of a name [i] sid \<and>
                                        u \<in> set (as_uuids st))
                           then None else a_cmds a (j, u))\<rparr>"

lemma spec_cancel_fold:
  assumes "distinct sids" "set sids = {sid. wf_step_of a name [i] sid}"
  shows "foldl (\<lambda>a sid. spec_cancel_step i sid a) a sids = spec_cancel i name a"
proof -
  have "foldl (\<lambda>a sid. spec_cancel_step i sid a) a sids =
     a\<lparr>a_steps := (\<lambda>sid. if sid \<in> set sids then None else a_steps a sid),
       a_cmds := (\<lambda>(j, u). if j = i \<and> (\<exists>sid\<in>set sids. \<exists>st. a_steps a sid = Some st \<and> u \<in> set (as_uuids st))
                           then None else a_cmds a (j, u))\<rparr>"
    if "distinct sids" for sids
    using that
  proof (induction sids rule: rev_induct)
    case (snoc sid sids)
    then show ?case
      by (intro astore.equality) (auto simp: spec_cancel_step_def remove_cmds_def fun_eq_iff split: option.splits)
  qed simp
  from this [OF assms(1)] show ?thesis
    unfolding spec_cancel_def assms(2) by (intro astore.equality) (auto simp: fun_eq_iff)
qed

context kv_laws
begin

lemma cancel_step_refines:
  assumes rep: "rep n s a" and st: "a_steps a sid = Some st"
    and Q: "\<And>s'. rep n s' (spec_cancel_step i sid a) \<Longrightarrow>
              same_others s s' \<Longrightarrow> Q (Inr ()) s'"
  shows "wp (cancel_step E i sid) Q s"
proof -
  from rep have S: "srep n (view (step_store s)) (a_steps a)" and m: "crep n (view (id_cmd_store s)) (a_cmds a)"
    by (auto simp: rep_def)
  have len: "\<forall>u\<in>set (as_uuids st). length u = n" using srep_ok [OF S st] by (simp add: astep_ok_def)
  let ?m = "remove_cmds ({i} \<times> set (as_uuids st)) (a_cmds a)"
  have "Q (Inr ()) (s\<lparr>id_cmd_store := c, step_store := b\<rparr>)"
    if "srep n (view b) ((a_steps a)(sid := None))" "crep n (view c) ?m" for b c
    by (rule Q, rule rep_shrink [OF rep])
      (use that st in \<open>auto simp: same_others_def spec_cancel_step_def remove_cmds_def\<close>)
  then have del: "wp (kv_delete_step E sid)
        (\<lambda>r b. r = Inr () \<and> Q (Inr ()) (s\<lparr>id_cmd_store := c, step_store := b\<rparr>)) (step_store s)"
    if "crep n (view c) ?m" for c
    using that srep_delete [OF S, of sid] by (intro wp_delete_step) simp
  have "wp (go_for (as_uuids st) (\<lambda>uuid. go_wrap ''deleting commands for %s: %w'' [uuid]
                                     (in_cmds (kv_delete_id_cmd E i uuid))))
      (\<lambda>r s'. r = Inr () \<and> (\<exists>c. s' = s\<lparr>id_cmd_store := c\<rparr> \<and> crep n (view c) ?m)) s"
    by (rule wp_delete_cmds [OF m len]) auto
  then show ?thesis
    by (simp add: cancel_step_def srep_lists [OF S st], elim wp_mono) (auto elim!: wp_mono [OF del])
qed

lemma wp_cancel_fold:
  assumes "rep n s a" "distinct sids" "\<forall>sid\<in>set sids. a_steps a sid \<noteq> None"
    and Q: "\<And>s'. rep n s' (foldl (\<lambda>a sid. spec_cancel_step i sid a) a sids) \<Longrightarrow>
              same_others s s' \<Longrightarrow> Q (Inr ()) s'"
  shows "wp (go_for sids (cancel_step E i)) Q s"
  using assms
proof (induction sids arbitrary: s a)
  case (Cons sid sids)
  then obtain st where st: "a_steps a sid = Some st" by auto
  have "wp (cancel_step E i sid) (\<lambda>r s'. r = Inr () \<and> wp (go_for sids (cancel_step E i)) Q s') s"
  proof (rule cancel_step_refines [OF Cons.prems(1) st], rule conjI [OF refl], rule Cons.IH, assumption, goal_cases)
    case (3 s' s'')
    then show ?case by (intro Cons.prems(4)) (auto intro: same_others_trans)
  qed (use Cons.prems in \<open>auto simp: spec_cancel_step_def st\<close>)
  then show ?case by (auto elim!: wp_mono)
qed simp

lemma cancel_steps_refines:
  assumes rep: "rep n s a"
    and Q: "\<And>s'. rep n s' (spec_cancel i name a) \<Longrightarrow>
              same_others s s' \<Longrightarrow> Q (Inr ()) s'"
  shows "wp (cancel_steps E i name) Q s"
proof -
  from rep have S: "srep n (view (step_store s)) (a_steps a)" by (auto simp: rep_def)
  have "wp (kv_find_workflow_steps_with_ids E name [i])
     (\<lambda>r b. b = step_store s \<and> (\<exists>x. r = Inr x \<and> wp (go_for x (cancel_step E i)) Q s)) (step_store s)"
  proof (rule wp_find_workflow_steps [OF S], intro conjI exI, rule refl, rule refl)
    fix sids
    assume sids: "distinct sids" "set sids = {sid. wf_step_of a name [i] sid}"
    show "wp (go_for sids (cancel_step E i)) Q s"
      by (rule wp_cancel_fold [OF rep sids(1)])
        (use sids(2) in \<open>auto simp: wf_step_of_def spec_cancel_fold [OF sids] split: option.splits intro!: Q\<close>)
  qed
  then show ?thesis by (auto simp: cancel_steps_def elim!: wp_mono)
qed

end

section \<open>Rejected steps, and the request type of a stored command\<close>

context kv_laws
begin

text \<open>An invalid step, or one with a duplicate command, is rejected: only an ID is used up.\<close>

lemma store_step_rejects:
  assumes rep: "rep n s a"
    and bad: "validate_step_config so \<noteq> Inr () \<or>
              (\<exists>st. so = Some st \<and> \<not> fresh_pairs st a \<and> (\<forall>c\<in>set (enq_commands st). length (raw_uuid c) = n))"
  shows "\<exists>e. store_step E so pt s = (Inl e, s\<lparr>ids_issued := Suc (ids_issued s)\<rparr>)"
proof -
  let ?s = "s\<lparr>ids_issued := Suc (ids_issued s)\<rparr>"
  have "wp (store_step E so pt) (\<lambda>r s'. (\<exists>e. r = Inl e) \<and> s' = ?s) s"
  proof (cases "validate_step_config so")
    case (Inl e)
    then show ?thesis
      by (cases so) (simp_all add: store_step_def wp_set_step_invalid wp_check_duplicates split: sum.split)
  next
    case (Inr u)
    with bad obtain st where st: "so = Some st" "\<not> fresh_pairs st a"
      "\<forall>c\<in>set (enq_commands st). length (raw_uuid c) = n" by auto
    with Inr have "enq_ids st \<noteq> []" "enq_commands st \<noteq> []"
      by (auto simp: validate_step_config_iff)
    with dup_scan_fresh [OF _ st(3), of "view (id_cmd_store s)" a] st(2) rep
    obtain e where "dup_scan (view (id_cmd_store s)) (step_pairs st) [] = Inl e"
      by (cases "dup_scan (view (id_cmd_store s)) (step_pairs st) []") (auto simp: rep_def)
    with st(1) show ?thesis by (simp add: store_step_def wp_check_duplicates)
  qed
  then show ?thesis by (auto simp: wp_def split: prod.splits)
qed

lemma request_type_refines:
  assumes rep: "rep n s a" and u: "length u = n"
  shows "wp (retrieve_command_request_type E i u) Q s =
    Q (if i = [] \<or> u = [] then Inl (Errorf ''empty id or command uuid'' [])
       else case a_cmds a (i, u) of None \<Rightarrow> Inr ([], False) | Some c \<Rightarrow> Inr (ac_request_type c, True)) s"
proof -
  from rep have m: "crep n (view (id_cmd_store s)) (a_cmds a)" by (simp add: rep_def)
  from crep_get [OF m u, of "''.step''" i] crep_get [OF m u, of "''.reqtype''" i]
  show ?thesis
    by (auto simp: retrieve_command_request_type_def cmd_suffixes_def enc_cmd_def split: option.splits)
qed

end

end
