(* ===== verification/KVWorker.thy ===== *)
theory KVWorker
  imports KVQuery
begin

text \<open>
  \<open>engine/storage/kv/worker.go\<close> and \<open>worker_prim.go\<close>: the operations of the engine's worker on the
  key-value backend, and their refinement: delayed steps that have come due, steps that have timed
  out, and commands to push again.
\<close>

section \<open>Scans and reads\<close>

text \<open>One body for the two scans: the suffix of the key whose instant is compared with now.\<close>

definition kv_due_body ::
  "'b kv_env \<Rightarrow> string \<Rightarrow> time \<Rightarrow> string \<Rightarrow> string list \<Rightarrow> ('b, string list) action" where
  "kv_due_body E sfx now k stepIDs =
     (if \<not> has_suffix k sfx then go_ret stepIDs
      else
        go_bind (go_wrap ''getting step meta for %s: %w'' [k] (b_get E k)) (\<lambda>bs.
        go_bind (go_wrap ''unmarshal not until time: %w'' [] (go_lift (unmarshal_time E bs))) (\<lambda>t.
        if t > now \<or> is_zero_time t then go_ret stepIDs
        else go_ret (stepIDs @ [chop_suffix k sfx]))))"

definition kv_find_not_until_steps :: "'b kv_env \<Rightarrow> time \<Rightarrow> ('b, string list) action" where
  "kv_find_not_until_steps E now =
     (\<lambda>b. go_fold (kv_due_body E ''.notuntil'' now) (bk_keys E b) [] b)"

definition kv_find_timed_out_step_ids :: "'b kv_env \<Rightarrow> time \<Rightarrow> ('b, string list) action" where
  "kv_find_timed_out_step_ids E now =
     (\<lambda>b. go_fold (kv_due_body E ''.timeout'' now) (bk_keys E b) [] b)"

definition raw_of_map :: "string \<Rightarrow> string \<Rightarrow> (string \<rightharpoonup> bytes) \<Rightarrow> command_raw" where
  "raw_of_map eid cmdUUID cr =
     \<lparr>raw_uuid = cmdUUID,
      raw_request_type = (case cr (eid @ cmdUUID @ ''.reqtype'') of None \<Rightarrow> [] | Some v \<Rightarrow> v),
      raw_command = (case cr (eid @ cmdUUID @ ''.raw'') of None \<Rightarrow> [] | Some v \<Rightarrow> v)\<rparr>"

definition kv_get_id_cmd_raw :: "'b kv_env \<Rightarrow> string \<Rightarrow> string \<Rightarrow> ('b, command_raw) action" where
  "kv_get_id_cmd_raw E eid cmdUUID =
     go_bind (b_get_map E [eid @ cmdUUID @ ''.reqtype'', eid @ cmdUUID @ ''.raw'']) (\<lambda>cr.
     go_ret (raw_of_map eid cmdUUID cr))"

definition step_enqueueing_body ::
  "'b kv_env \<Rightarrow> string \<Rightarrow> string \<Rightarrow> command_raw list \<Rightarrow> ('b, command_raw list) action" where
  "step_enqueueing_body E stepID uuid cmds =
     go_bind (go_wrap ''getting command queue data for %s: %w'' [uuid]
                (kv_get_id_cmd_raw E stepID uuid)) (\<lambda>sc.
     go_bind (go_wrap ''deleting command for %s: %w'' [stepID] (kv_delete_id_cmd E stepID uuid)) (\<lambda>_.
     go_ret (cmds @ [sc])))"

definition kv_get_step_enqueueing ::
  "'b kv_env \<Rightarrow> string \<Rightarrow> ('b kv_store, step_enqueueing) action" where
  "kv_get_step_enqueueing E stepID =
     go_bind (go_wrap ''getting step meta: %w'' [] (in_steps (b_get E (stepID @ ''.meta'')))) (\<lambda>meta_bytes.
     go_bind (go_lift (meta_fields meta_bytes)) (\<lambda>(inst, wname, name).
     go_bind (go_wrap ''getting step enrollment ID for %s: %w'' [stepID]
                (in_steps (b_get E (stepID @ ''.ids'')))) (\<lambda>ids_bytes.
     go_bind (go_wrap ''getting step commands for %s: %w'' [stepID]
                (in_steps (kv_get_step_cmds E stepID))) (\<lambda>uuids.
     go_bind (in_cmds (go_fold (step_enqueueing_body E stepID) uuids [])) (\<lambda>cmds.
     go_bind (go_wrap ''deleting not now for %s: %w'' [stepID]
                (in_steps (bk_delete E (stepID @ ''.notuntil'')))) (\<lambda>_.
     go_ret \<lparr>ctx_workflow_name = wname, ctx_instance_id = inst, ctx_name = name, ctx_context = [],
             enq_ids = unmarshal_strings ids_bytes, enq_commands = cmds\<rparr>))))))"

definition kv_set_id_cmd_last_push ::
  "'b kv_env \<Rightarrow> string \<Rightarrow> string \<Rightarrow> time \<Rightarrow> ('b, unit) action" where
  "kv_set_id_cmd_last_push E eid cmdUUID last_push =
     go_bind (go_wrap ''marshal last push: %w'' [] (go_lift (marshal_time E last_push))) (\<lambda>bs.
     bk_set E (eid @ cmdUUID @ ''.lastpush'') bs)"

text \<open>\<open>None\<close> when the command does not exist (and the check is not skipped).\<close>

definition kv_get_id_cmd_step_result ::
  "'b kv_env \<Rightarrow> string \<Rightarrow> string \<Rightarrow> bool \<Rightarrow> ('b, command_result option) action" where
  "kv_get_id_cmd_step_result E eid cmdUUID no_check_exists =
     go_bind (if no_check_exists then go_ret True
              else go_wrap ''checking command exists for %s: %w'' [cmdUUID]
                     (kv_id_cmd_exists E eid cmdUUID)) (\<lambda>ok.
     if \<not> ok then go_ret None
     else
       go_bind (go_wrap ''checking command completed for %s: %w'' [cmdUUID]
                  (kv_id_cmd_is_complete E eid cmdUUID)) (\<lambda>completed.
       go_bind (go_wrap ''getting command req type for %s: %w'' [cmdUUID]
                  (kv_get_id_cmd_req_type E eid cmdUUID)) (\<lambda>(req_type, _).
       go_bind (go_wrap ''checking result exists for %s: %w'' [cmdUUID]
                  (b_has E (eid @ cmdUUID @ ''.result''))) (\<lambda>ok.
       go_bind (if ok then go_wrap ''getting command result for %s: %w'' [cmdUUID]
                             (kv_get_id_cmd_result E eid cmdUUID)
                else go_ret []) (\<lambda>report.
       go_ret (Some \<lparr>cr_uuid = cmdUUID, cr_request_type = req_type, cr_report = report,
                     cr_completed = completed\<rparr>))))))"

text \<open>
  The scan for commands to push again collects enrollment IDs and the last-push records to write.
\<close>

definition kv_re_push_body ::
  "'b kv_env \<Rightarrow> time \<Rightarrow> time \<Rightarrow> string \<Rightarrow> string list \<times> (string \<times> bytes) list
    \<Rightarrow> ('b, string list \<times> (string \<times> bytes) list) action" where
  "kv_re_push_body E if_before set_to k acc =
     (if \<not> has_suffix k ''.lastpush'' then go_ret acc
      else
        go_bind (go_wrap ''getting step meta for %s: %w'' [k] (b_get E k)) (\<lambda>bs.
        go_bind (go_wrap ''unmarshal not until time: %w'' [] (go_lift (unmarshal_time E bs))) (\<lambda>last_push.
        if is_zero_time last_push \<or> last_push > if_before then go_ret acc
        else
          (let id_cmd = chop_suffix k ''.lastpush'' in
           go_bind (go_wrap ''getting command for %s: %w'' [id_cmd] (b_get E (id_cmd @ ''.id''))) (\<lambda>eid.
           go_bind (go_wrap ''marshal now: %w'' [] (go_lift (marshal_time E set_to))) (\<lambda>bs.
           go_ret (fst acc @ [eid], AList.update k bs (snd acc))))))))"

definition kv_find_commands_to_re_push ::
  "'b kv_env \<Rightarrow> time \<Rightarrow> time \<Rightarrow> ('b, string list) action" where
  "kv_find_commands_to_re_push E if_before set_to =
     go_bind (\<lambda>b. go_fold (kv_re_push_body E if_before set_to) (bk_keys E b) ([], []) b)
       (\<lambda>(ids, resets).
     go_bind (go_wrap ''resetting pushes: %w'' [] (bk_set_map E resets)) (\<lambda>_.
     go_ret ids))"

section \<open>The worker's operations\<close>

definition reset_pushes_body ::
  "'b kv_env \<Rightarrow> time \<Rightarrow> string \<times> command_raw \<Rightarrow> ('b, unit) action" where
  "reset_pushes_body E push_time p =
     go_wrap ''setting last push for %s: %w'' [raw_uuid (snd p)]
       (kv_set_id_cmd_last_push E (fst p) (raw_uuid (snd p)) push_time)"

definition steps_to_enqueue_body ::
  "'b kv_env \<Rightarrow> time \<Rightarrow> string \<Rightarrow> step_enqueueing list \<Rightarrow> ('b kv_store, step_enqueueing list) action" where
  "steps_to_enqueue_body E push_time stepID ret =
     go_bind (go_wrap ''getting step enqueueing for %s: %w'' [stepID]
                (kv_get_step_enqueueing E stepID)) (\<lambda>se.
     go_bind (go_wrap ''deleting step not until for %s: %w'' [stepID]
                (in_steps (kv_delete_step_not_until E stepID))) (\<lambda>_.
     go_bind (in_cmds (go_for (List.product (enq_ids se) (enq_commands se))
                         (reset_pushes_body E push_time))) (\<lambda>_.
     go_ret (ret @ [se]))))"

definition retrieve_steps_to_enqueue ::
  "'b kv_env \<Rightarrow> time \<Rightarrow> ('b kv_store, step_enqueueing list) action" where
  "retrieve_steps_to_enqueue E push_time =
     go_bind time_now (\<lambda>now.
     go_bind (go_wrap ''finding not util steps: %w'' []
                (in_steps (kv_find_not_until_steps E now))) (\<lambda>stepIDs.
     go_fold (steps_to_enqueue_body E push_time) stepIDs []))"

definition timed_out_cmd_body ::
  "'b kv_env \<Rightarrow> string \<Rightarrow> string \<Rightarrow> command_result list \<Rightarrow> ('b, command_result list) action" where
  "timed_out_cmd_body E eid uuid cmds =
     go_bind (go_wrap ''retrieving command result for %s: %w'' [uuid]
                (kv_get_id_cmd_step_result E eid uuid False)) (\<lambda>result.
     case result of
       None \<Rightarrow> go_ret cmds
     | Some r \<Rightarrow>
         go_bind (go_wrap ''retrieving command result for %s: %w'' [uuid]
                    (kv_delete_id_cmd E eid uuid)) (\<lambda>_.
         go_ret (cmds @ [r])))"

definition timed_out_id_body ::
  "'b kv_env \<Rightarrow> step_result \<Rightarrow> string list \<Rightarrow> string \<Rightarrow> step_result list \<Rightarrow> ('b, step_result list) action" where
  "timed_out_id_body E step uuids eid steps =
     go_bind (go_fold (timed_out_cmd_body E eid) uuids []) (\<lambda>cmds.
     go_ret (if length cmds > 0 then steps @ [step\<lparr>res_ids := [eid], res_commands := cmds\<rparr>] else steps))"

definition timed_out_step_body ::
  "'b kv_env \<Rightarrow> string \<Rightarrow> step_result list \<Rightarrow> ('b kv_store, step_result list) action" where
  "timed_out_step_body E stepID steps =
     go_bind (go_wrap ''retrieving step result: %w'' [] (in_steps (kv_get_step_result E stepID))) (\<lambda>step.
     go_bind (go_wrap ''retrieving step enrollment IDs: %w'' [] (in_steps (kv_get_step_ids E stepID))) (\<lambda>ids.
     go_bind (go_wrap ''retrieving step enrollment IDs: %w'' [] (in_steps (kv_get_step_cmds E stepID))) (\<lambda>uuids.
     go_bind (in_cmds (go_fold (timed_out_id_body E step uuids) ids steps)) (\<lambda>steps.
     go_bind (go_wrap ''deleting step for %s: %w'' [stepID] (in_steps (kv_delete_step E stepID))) (\<lambda>_.
     go_ret steps)))))"

definition retrieve_timed_out_steps :: "'b kv_env \<Rightarrow> ('b kv_store, step_result list) action" where
  "retrieve_timed_out_steps E =
     go_bind time_now (\<lambda>now.
     go_bind (go_wrap ''finding timeout steps: %w'' []
                (in_steps (kv_find_timed_out_step_ids E now))) (\<lambda>stepIDs.
     go_fold (timed_out_step_body E) stepIDs []))"

definition retrieve_and_mark_re_pushed ::
  "'b kv_env \<Rightarrow> time \<Rightarrow> time \<Rightarrow> ('b kv_store, string list) action" where
  "retrieve_and_mark_re_pushed E if_before set_to =
     in_cmds (kv_find_commands_to_re_push E if_before set_to)"

section \<open>The abstract operations\<close>

text \<open>Due: an instant is set and has come.\<close>

definition due :: "time \<Rightarrow> time \<Rightarrow> bool" where
  "due now t \<longleftrightarrow> t \<noteq> 0 \<and> t \<le> now"

definition due_steps :: "(astep \<Rightarrow> time) \<Rightarrow> time \<Rightarrow> astore \<Rightarrow> string set" where
  "due_steps f now a = {sid. \<exists>st. a_steps a sid = Some st \<and> due now (f st)}"

definition raw_of :: "(string \<times> string \<rightharpoonup> acmd) \<Rightarrow> string \<Rightarrow> string \<Rightarrow> command_raw" where
  "raw_of m sid u =
     \<lparr>raw_uuid = u, raw_request_type = ac_request_type (the (m (sid, u))),
      raw_command = the (ac_raw (the (m (sid, u))))\<rparr>"

definition enqueueing_of :: "astore \<Rightarrow> string \<Rightarrow> step_enqueueing" where
  "enqueueing_of a sid =
     (let st = the (a_steps a sid) in
      \<lparr>ctx_workflow_name = as_workflow st, ctx_instance_id = as_instance st, ctx_name = as_name st,
       ctx_context = [], enq_ids = as_ids st, enq_commands = map (raw_of (a_cmds a) sid) (as_uuids st)\<rparr>)"

definition mark_pushed :: "time \<Rightarrow> (string \<times> string) set \<Rightarrow> (string \<times> string \<rightharpoonup> acmd) \<Rightarrow> (string \<times> string \<rightharpoonup> acmd)"
where
  "mark_pushed t A m = (\<lambda>p. if p \<in> A then map_option (\<lambda>c. c\<lparr>ac_last_push := t\<rparr>) (m p) else m p)"

definition spec_release_step :: "time \<Rightarrow> string \<Rightarrow> astore \<Rightarrow> astore" where
  "spec_release_step t sid a =
     (let st = the (a_steps a sid) in
      a\<lparr>a_steps := (a_steps a)(sid \<mapsto> st\<lparr>as_not_until := 0\<rparr>),
        a_cmds := mark_pushed t (set (as_ids st) \<times> set (as_uuids st))
                    (remove_cmds ({sid} \<times> set (as_uuids st)) (a_cmds a))\<rparr>)"

definition timed_out_cmd :: "(string \<times> string \<rightharpoonup> acmd) \<Rightarrow> string \<Rightarrow> string \<Rightarrow> command_result" where
  "timed_out_cmd m i u =
     (let c = the (m (i, u)) in
      \<lparr>cr_uuid = u, cr_request_type = ac_request_type c,
       cr_report = (case ac_report c of None \<Rightarrow> [] | Some r \<Rightarrow> r), cr_completed = ac_done c\<rparr>)"

definition timed_out_results :: "(string \<times> string \<rightharpoonup> acmd) \<Rightarrow> astep \<Rightarrow> step_result list" where
  "timed_out_results m st =
     map (\<lambda>i. \<lparr>ctx_workflow_name = as_workflow st, ctx_instance_id = as_instance st,
               ctx_name = as_name st, ctx_context = as_context st, res_ids = [i],
               res_commands = map (timed_out_cmd m i) (filter (\<lambda>u. m (i, u) \<noteq> None) (as_uuids st))\<rparr>)
       (filter (\<lambda>i. \<exists>u\<in>set (as_uuids st). m (i, u) \<noteq> None) (as_ids st))"

definition spec_time_out_step :: "string \<Rightarrow> astore \<Rightarrow> astore" where
  "spec_time_out_step sid a =
     (let st = the (a_steps a sid) in
      a\<lparr>a_steps := (a_steps a)(sid := None),
        a_cmds := remove_cmds (set (as_ids st) \<times> set (as_uuids st)) (a_cmds a)\<rparr>)"

text \<open>
  A step may be released when the raw commands are stored under the step's ID and every enrollment's
  commands are there; no step ID is an enrollment ID.
\<close>

definition has_raw :: "(string \<times> string \<rightharpoonup> acmd) \<Rightarrow> string \<times> string \<Rightarrow> bool" where
  "has_raw m p \<longleftrightarrow> (case m p of None \<Rightarrow> False | Some c \<Rightarrow> ac_raw c \<noteq> None)"

lemma has_raw_iff: "has_raw m p \<longleftrightarrow> (\<exists>c. m p = Some c \<and> ac_raw c \<noteq> None)"
  by (auto simp: has_raw_def split: option.splits)

definition releasable :: "astore \<Rightarrow> string \<Rightarrow> bool" where
  "releasable a sid \<longleftrightarrow>
     (case a_steps a sid of None \<Rightarrow> False
      | Some st \<Rightarrow>
          distinct (as_uuids st) \<and>
          (\<forall>i\<in>set (as_ids st). a_steps a i = None) \<and>
          (\<forall>u\<in>set (as_uuids st).
             has_raw (a_cmds a) (sid, u) \<and>
             (\<forall>i\<in>set (as_ids st). a_cmds a (i, u) \<noteq> None)))"

text \<open>All released steps at once.\<close>

definition step_cmds_of :: "astore \<Rightarrow> string set \<Rightarrow> (string \<times> string) set" where
  "step_cmds_of a D = {(i, u). \<exists>sid\<in>D. \<exists>st. a_steps a sid = Some st \<and> i \<in> set (as_ids st) \<and> u \<in> set (as_uuids st)}"

definition raw_cmds_of :: "astore \<Rightarrow> string set \<Rightarrow> (string \<times> string) set" where
  "raw_cmds_of a D = {(sid, u). sid \<in> D \<and> (\<exists>st. a_steps a sid = Some st \<and> u \<in> set (as_uuids st))}"

definition spec_release :: "time \<Rightarrow> string set \<Rightarrow> astore \<Rightarrow> astore" where
  "spec_release t D a =
     a\<lparr>a_steps := (\<lambda>sid. if sid \<in> D then map_option (\<lambda>st. st\<lparr>as_not_until := 0\<rparr>) (a_steps a sid)
                         else a_steps a sid),
       a_cmds := mark_pushed t (step_cmds_of a D) (remove_cmds (raw_cmds_of a D) (a_cmds a))\<rparr>"

lemma releasableD:
  assumes "releasable a sid"
  obtains st where "a_steps a sid = Some st" "distinct (as_uuids st)" "\<forall>i\<in>set (as_ids st). a_steps a i = None"
    "\<forall>u\<in>set (as_uuids st). \<exists>c. a_cmds a (sid, u) = Some c \<and> ac_raw c \<noteq> None"
    "\<forall>u\<in>set (as_uuids st). \<forall>i\<in>set (as_ids st). a_cmds a (i, u) \<noteq> None"
  using assms by (auto simp: releasable_def has_raw_iff split: option.splits)

lemma release_keeps:
  assumes "releasable a sid" "releasable a sid'" "sid' \<noteq> sid"
  shows "releasable (spec_release_step t sid a) sid' \<and>
         enqueueing_of (spec_release_step t sid a) sid' = enqueueing_of a sid' \<and>
         a_steps (spec_release_step t sid a) sid' = a_steps a sid'"
proof -
  from assms(1) obtain st where st: "a_steps a sid = Some st" "\<forall>i\<in>set (as_ids st). a_steps a i = None"
    by (rule releasableD)
  from assms(2) obtain st' where st': "a_steps a sid' = Some st'" "distinct (as_uuids st')"
    "\<forall>i\<in>set (as_ids st'). a_steps a i = None"
    "\<forall>u\<in>set (as_uuids st'). \<exists>c. a_cmds a (sid', u) = Some c \<and> ac_raw c \<noteq> None"
    "\<forall>u\<in>set (as_uuids st'). \<forall>i\<in>set (as_ids st'). a_cmds a (i, u) \<noteq> None" by (rule releasableD)
  let ?a = "spec_release_step t sid a"
  have own: "a_cmds ?a (sid', u) = a_cmds a (sid', u)" for u
    using st st'(1) assms(3) by (auto simp: spec_release_step_def mark_pushed_def remove_cmds_def)
  have ids: "a_cmds ?a (i, u) \<noteq> None" if "i \<in> set (as_ids st')" "u \<in> set (as_uuids st')" for i u
    using st st' that by (auto simp: spec_release_step_def mark_pushed_def remove_cmds_def)
  have steps: "a_steps ?a sid' = a_steps a sid'" "\<And>i. a_steps ?a i = None \<longleftrightarrow> a_steps a i = None"
    using assms(3) st(1) by (auto simp: spec_release_step_def Let_def)
  show ?thesis
    using st' own ids steps by (auto simp: releasable_def has_raw_iff enqueueing_of_def raw_of_def Let_def)
qed

lemma spec_release_fold:
  assumes "distinct sids" "\<forall>sid\<in>set sids. releasable a sid"
  shows "foldl (\<lambda>a sid. spec_release_step t sid a) a sids = spec_release t (set sids) a"
  using assms
proof (induction sids rule: rev_induct)
  case Nil
  show ?case by (intro astore.equality) (auto simp: spec_release_def mark_pushed_def remove_cmds_def step_cmds_of_def raw_cmds_of_def)
next
  case (snoc sid sids)
  let ?a = "spec_release t (set sids) a"
  have r: "releasable a sid" using snoc.prems by simp
  then obtain st where st: "a_steps a sid = Some st" "\<forall>i\<in>set (as_ids st). a_steps a i = None"
    by (rule releasableD)
  have nr: "a_steps a i = None" if "i \<in> set (as_ids st')" "a_steps a sid' = Some st'" "sid' \<in> set (sids @ [sid])" for sid' st' i
    using snoc.prems(2) that by (auto simp: releasable_def)
  have sets: "step_cmds_of a (set (sids @ [sid])) = set (as_ids st) \<times> set (as_uuids st) \<union> step_cmds_of a (set sids)"
    "raw_cmds_of a (set (sids @ [sid])) = {sid} \<times> set (as_uuids st) \<union> raw_cmds_of a (set sids)"
    using st(1) by (auto simp: step_cmds_of_def raw_cmds_of_def)
  have False if "sid' \<in> set sids" "a_steps a sid' = Some st'" "sid \<in> set (as_ids st')" for sid' st'
    using nr [OF that(3,2)] that(1) st(1) by simp
  then have "({sid} \<times> set (as_uuids st)) \<inter> step_cmds_of a (set sids) = {}"
    by (auto simp: step_cmds_of_def)
  then have swap: "mark_pushed t A (remove_cmds ({sid} \<times> set (as_uuids st)) (mark_pushed t (step_cmds_of a (set sids)) m)) =
             mark_pushed t (A \<union> step_cmds_of a (set sids)) (remove_cmds ({sid} \<times> set (as_uuids st)) m)" for A m
    unfolding mark_pushed_def remove_cmds_def
    by (intro ext) (simp add: option.map_comp comp_def disjoint_iff)
  have "a_steps ?a sid = Some st" using snoc.prems st by (simp add: spec_release_def)
  then have "spec_release_step t sid ?a = spec_release t (set (sids @ [sid])) a"
    unfolding spec_release_step_def spec_release_def sets
    by (intro astore.equality) (simp_all add: swap remove_cmds_remove st(1) fun_eq_iff)
  with snoc show ?case by simp
qed

section \<open>The scans\<close>

context kv_laws
begin

lemma wp_due_scan:
  assumes S: "srep n (view b) S"
    and x: "x \<in> set step_suffixes" "\<And>st. enc_step st x = (if f st = 0 then None else Some (time_text (f st)))"
    and f: "\<And>st. astep_ok n st \<Longrightarrow> go_time (f st)"
    and Q: "\<And>sids. distinct sids \<Longrightarrow> set sids = {sid. \<exists>st. S sid = Some st \<and> due now (f st)} \<Longrightarrow>
              Q (Inr sids) b"
  shows "wp (go_fold (kv_due_body E x now) (bk_keys E b) []) Q b"
proof -
  let ?P = "\<lambda>sid. \<exists>st. S sid = Some st \<and> due now (f st)"
  have body: "wp (kv_due_body E x now k acc) R b =
     R (Inr (if has_suffix k x \<and> ?P (chop_suffix k x) then acc @ [chop_suffix k x] else acc)) b"
    if "k \<in> set (bk_keys E b)" for k acc R
  proof (cases "has_suffix k x")
    case True
    then obtain sid where k: "k = sid @ x" by (auto simp: has_suffix_iff)
    with step_key_iff [OF S x(1), of sid] that
    obtain st where st: "S sid = Some st" "f st \<noteq> 0" by (auto simp: x(2) split: if_splits)
    then have "view b k = Some (time_text (f st))"
      using srep_get [OF S x(1), of sid] by (simp add: k x(2))
    moreover have "unmarshal_time E (time_text (f st)) = Inr (f st)"
      using srep_ok [OF S st(1)] by (intro unmarshal_time_text f)
    ultimately show ?thesis
      using True st by (auto simp: k kv_due_body_def due_def)
  qed (simp add: kv_due_body_def)
  show ?thesis
    by (subst wp_suffix_scan [where sfx = x and P = ?P], erule body, unfold append_Nil, rule Q)
      (use step_key_iff [OF S x(1)] in \<open>auto simp: distinct_suffix_scan keys_law(1) set_suffix_scan x(2) due_def\<close>)
qed

lemma wp_find_not_until:
  assumes "srep n (view b) S"
    and "\<And>sids. distinct sids \<Longrightarrow> set sids = {sid. \<exists>st. S sid = Some st \<and> due now (as_not_until st)} \<Longrightarrow>
              Q (Inr sids) b"
  shows "wp (kv_find_not_until_steps E now) Q b"
proof -
  have "wp (go_fold (kv_due_body E ''.notuntil'' now) (bk_keys E b) []) Q b"
    by (rule wp_due_scan [OF assms(1), where f = as_not_until])
      (auto simp: step_suffixes_def enc_step_def astep_ok_def assms(2))
  then show ?thesis by (simp add: kv_find_not_until_steps_def wp_def)
qed

lemma wp_find_timed_out:
  assumes "srep n (view b) S"
    and "\<And>sids. distinct sids \<Longrightarrow> set sids = {sid. \<exists>st. S sid = Some st \<and> due now (as_timeout st)} \<Longrightarrow>
              Q (Inr sids) b"
  shows "wp (kv_find_timed_out_step_ids E now) Q b"
proof -
  have "wp (go_fold (kv_due_body E ''.timeout'' now) (bk_keys E b) []) Q b"
    by (rule wp_due_scan [OF assms(1), where f = as_timeout])
      (auto simp: step_suffixes_def enc_step_def astep_ok_def assms(2))
  then show ?thesis by (simp add: kv_find_timed_out_step_ids_def wp_def)
qed

section \<open>Releasing a delayed step\<close>

lemma wp_get_id_cmd_raw:
  assumes m: "crep n (view b) m" and u: "length u = n" and c: "m (i, u) = Some c" "ac_raw c \<noteq> None"
  shows "wp (kv_get_id_cmd_raw E i u) Q b = Q (Inr (raw_of m i u)) b"
proof -
  have "view b (i @ u @ ''.reqtype'') = Some (ac_request_type c)" "view b (i @ u @ ''.raw'') = ac_raw c"
    using crep_get [OF m u, of _ i] c(1) by (auto simp: cmd_suffixes_def enc_cmd_def)
  with c show ?thesis
    by (auto simp: kv_get_id_cmd_raw_def wp_get_map raw_of_map_def raw_of_def)
qed

lemma raw_of_remove: "u \<notin> set xs \<Longrightarrow> raw_of (remove_cmds ({i} \<times> set xs) m) i u = raw_of m i u"
  by (simp add: raw_of_def remove_cmds_def)

lemma wp_take_raws:
  assumes "crep n (view b) m" "\<forall>u\<in>set us. length u = n" "distinct us"
    "\<forall>u\<in>set us. \<exists>c. m (sid, u) = Some c \<and> ac_raw c \<noteq> None"
    and Q: "\<And>b'. crep n (view b') (remove_cmds ({sid} \<times> set us) m) \<Longrightarrow>
              Q (Inr (acc @ map (raw_of m sid) us)) b'"
  shows "wp (go_fold (step_enqueueing_body E sid) us acc) Q b"
  using assms
proof (induction us arbitrary: b m acc)
  case Nil
  then show ?case by simp
next
  case (Cons u us)
  then obtain c where c: "m (sid, u) = Some c" "ac_raw c \<noteq> None" and u: "length u = n" by auto
  have "wp (kv_delete_id_cmd E sid u)
      (\<lambda>r b'. r = Inr () \<and> wp (go_fold (step_enqueueing_body E sid) us (acc @ [raw_of m sid u])) Q b') b"
  proof (rule wp_delete_id_cmd, rule conjI [OF refl], rule Cons.IH [where m = "m((sid, u) := None)"], goal_cases)
    case (1 b')
    then show ?case using crep_delete [OF Cons.prems(1) u, of sid] by (simp del: fun_upd_apply)
  next
    case (5 b' b'')
    have "remove_cmds ({sid} \<times> set us) (m((sid, u) := None)) = remove_cmds ({sid} \<times> set (u # us)) m"
      by (auto simp: remove_cmds_def)
    moreover have "map (raw_of (m((sid, u) := None)) sid) us = map (raw_of m sid) us"
      using Cons.prems(3) by (auto simp: raw_of_def)
    ultimately show ?case using 5 Cons.prems(5) [of b''] by (simp del: fun_upd_apply cong: map_cong)
  qed (use Cons.prems in auto)
  then show ?case
    by (auto simp: step_enqueueing_body_def [of E sid u acc] wp_get_id_cmd_raw [OF Cons.prems(1) u c]
        elim!: wp_mono)
qed

lemma wp_get_step_enqueueing:
  assumes rep: "rep n s a" and st: "a_steps a sid = Some st" "as_not_until st \<noteq> 0" and ok: "releasable a sid"
    and Q: "\<And>b c. srep n (view b) ((a_steps a)(sid \<mapsto> st\<lparr>as_not_until := 0\<rparr>)) \<Longrightarrow>
              crep n (view c) (remove_cmds ({sid} \<times> set (as_uuids st)) (a_cmds a)) \<Longrightarrow>
              Q (Inr (enqueueing_of a sid)) (s\<lparr>id_cmd_store := c, step_store := b\<rparr>)"
  shows "wp (kv_get_step_enqueueing E sid) Q s"
proof -
  from rep have S: "srep n (view (step_store s)) (a_steps a)" and m: "crep n (view (id_cmd_store s)) (a_cmds a)"
    by (auto simp: rep_def)
  let ?b = "step_store s"
  have sok: "astep_ok n st" by (rule srep_ok [OF S st(1)])
  have meta: "view ?b (sid @ ''.meta'') = Some (marshal_strings [as_instance st, as_workflow st, as_name st])"
    and nu: "view ?b (sid @ ''.notuntil'') = Some (time_text (as_not_until st))"
    using srep_get [OF S, of _ sid] st by (auto simp: step_suffixes_def enc_step_def)
  have un: "unmarshal_strings (marshal_strings [as_instance st, as_workflow st, as_name st]) =
     [as_instance st, as_workflow st, as_name st]"
    using sok by (intro unmarshal_marshal_strings) (auto simp: astep_ok_def)
  have del: "srep n (view (snd (bk_delete E (sid @ ''.notuntil'') ?b)))
               ((a_steps a)(sid \<mapsto> st\<lparr>as_not_until := 0\<rparr>))"
  proof (rule srep_update [OF S])
    fix x
    assume x: "x \<in> set step_suffixes"
    have "view ?b (sid @ x) = enc_step st x" using srep_get [OF S x, of sid] st by simp
    with x nu show "view (snd (bk_delete E (sid @ ''.notuntil'') ?b)) (sid @ x) =
        (case Some (st\<lparr>as_not_until := 0\<rparr>) of None \<Rightarrow> None | Some st \<Rightarrow> enc_step st x)"
      by (simp add: step_suffixes_def) (elim disjE; simp add: enc_step_def)
  qed (use nu sok in \<open>auto simp: step_suffixes_def astep_ok_def\<close>)
  have len: "\<forall>u\<in>set (as_uuids st). length u = n" using sok by (simp add: astep_ok_def)
  have rel: "distinct (as_uuids st)" "\<forall>u\<in>set (as_uuids st). \<exists>c. a_cmds a (sid, u) = Some c \<and> ac_raw c \<noteq> None"
    using ok st(1) by (auto simp: releasable_def has_raw_iff)
  have "wp (go_fold (step_enqueueing_body E sid) (as_uuids st) [])
      (\<lambda>r c. r = Inr (enq_commands (enqueueing_of a sid)) \<and>
             crep n (view c) (remove_cmds ({sid} \<times> set (as_uuids st)) (a_cmds a))) (id_cmd_store s)"
    by (rule wp_take_raws [OF m len rel]) (simp add: enqueueing_of_def Let_def st(1))
  then have "wp (go_fold (step_enqueueing_body E sid) (as_uuids st) [])
      (\<lambda>r c. r = Inr (enq_commands (enqueueing_of a sid)) \<and>
             Q (Inr (enqueueing_of a sid))
               (s\<lparr>id_cmd_store := c, step_store := snd (bk_delete E (sid @ ''.notuntil'') ?b)\<rparr>)) (id_cmd_store s)"
    by (rule wp_mono) (use Q [OF del] in simp)
  then show ?thesis
    using meta un nu srep_lists [OF S st(1)] st
    by (auto simp: kv_get_step_enqueueing_def meta_fields_def enqueueing_of_def Let_def elim!: wp_mono)
qed

lemma crep_mark:
  assumes V: "crep n V m" and c: "m (i, u) = Some c" and t: "go_time t"
  shows "crep n (V(i @ u @ ''.lastpush'' \<mapsto> time_text t)) (m((i, u) \<mapsto> c\<lparr>ac_last_push := t\<rparr>))"
proof (rule crep_update [OF V crep_length [OF V c]])
  fix x
  assume x: "x \<in> set cmd_suffixes"
  have "V (i @ u @ x) = enc_cmd i c x"
    using crep_get [OF V crep_length [OF V c] x, of i] c by simp
  with x show "(V(i @ u @ ''.lastpush'' \<mapsto> time_text t)) (i @ u @ x) =
      (case Some (c\<lparr>ac_last_push := t\<rparr>) of None \<Rightarrow> None | Some c \<Rightarrow> enc_cmd i c x)"
    by (simp add: cmd_suffixes_def) (elim disjE; simp add: enc_cmd_def)
qed (use crep_ok [OF V c] t in \<open>auto simp: cmd_suffixes_def acmd_ok_def\<close>)

lemma wp_mark_pushed:
  assumes "crep n (view b) m" "go_time t" "\<forall>p\<in>set ps. m (fst p, raw_uuid (snd p)) \<noteq> None"
    and Q: "\<And>b'. crep n (view b') (mark_pushed t ((\<lambda>p. (fst p, raw_uuid (snd p))) ` set ps) m) \<Longrightarrow> Q (Inr ()) b'"
  shows "wp (go_for ps (reset_pushes_body E t)) Q b"
  using assms(1,3) Q
proof (induction ps arbitrary: b m)
  case Nil
  then show ?case by (simp add: mark_pushed_def)
next
  case (Cons p ps)
  let ?k = "(fst p, raw_uuid (snd p))"
  from Cons.prems obtain c where c: "m ?k = Some c" by auto
  have "wp (go_for ps (reset_pushes_body E t)) Q
     (snd (bk_set E (fst p @ raw_uuid (snd p) @ ''.lastpush'') (time_text t) b))"
  proof (rule Cons.IH [where m = "m(?k \<mapsto> c\<lparr>ac_last_push := t\<rparr>)"], goal_cases)
    case 1
    show ?case using crep_mark [OF Cons.prems(1) c assms(2)] by (simp del: fun_upd_apply)
  next
    case (3 b')
    have "mark_pushed t ((\<lambda>p. (fst p, raw_uuid (snd p))) ` set ps) (m(?k \<mapsto> c\<lparr>ac_last_push := t\<rparr>)) =
          mark_pushed t ((\<lambda>p. (fst p, raw_uuid (snd p))) ` set (p # ps)) m"
      using c by (auto simp: mark_pushed_def fun_eq_iff)
    with 3 show ?case by (intro Cons.prems(3)) metis
  qed (use Cons.prems(2) in auto)
  then show ?case
    by (simp add: reset_pushes_body_def [of E t p] kv_set_id_cmd_last_push_def marshal_time_text [OF assms(2)])
qed

lemma release_step_refines:
  assumes rep: "rep n s a" and st: "a_steps a sid = Some st" "as_not_until st \<noteq> 0" and ok: "releasable a sid"
    and t: "go_time t"
    and Q: "\<And>s'. rep n s' (spec_release_step t sid a) \<Longrightarrow> same_others s s' \<Longrightarrow>
              Q (Inr (ret @ [enqueueing_of a sid])) s'"
  shows "wp (steps_to_enqueue_body E t sid ret) Q s"
proof -
  let ?m = "remove_cmds ({sid} \<times> set (as_uuids st)) (a_cmds a)"
  let ?ps = "List.product (as_ids st) (map (raw_of (a_cmds a) sid) (as_uuids st))"
  let ?S = "(a_steps a)(sid \<mapsto> st\<lparr>as_not_until := 0\<rparr>)"
  from rep have S: "srep n (view (step_store s)) (a_steps a)" and m: "crep n (view (id_cmd_store s)) (a_cmds a)"
    by (auto simp: rep_def)
  have ps: "(\<lambda>p. (fst p, raw_uuid (snd p))) ` set ?ps = set (as_ids st) \<times> set (as_uuids st)"
    by (force simp: raw_of_def)
  have dom: "\<forall>p\<in>set ?ps. ?m (fst p, raw_uuid (snd p)) \<noteq> None"
    using ok st(1) by (auto simp: releasable_def remove_cmds_def raw_of_def split: option.splits)
  have marks: "wp (go_for ?ps (reset_pushes_body E t))
     (\<lambda>r c'. r = Inr () \<and> Q (Inr (ret @ [enqueueing_of a sid])) (s\<lparr>step_store := b, id_cmd_store := c'\<rparr>)) c"
    if b: "srep n (view b) ?S" and c: "crep n (view c) ?m" for b c
  proof (rule wp_mark_pushed [OF c t dom], rule conjI [OF refl], rule Q, rule rep_shrink [OF rep], goal_cases)
    case (2 c')
    then show ?case unfolding ps by (simp add: spec_release_step_def st(1))
  qed (use b st ok in \<open>auto simp: spec_release_step_def same_others_def mark_pushed_def remove_cmds_def\<close>)
  have clear: "wp (kv_delete_step_not_until E sid) R b"
    if b: "srep n (view b) ?S" and R: "\<And>b'. srep n (view b') ?S \<Longrightarrow> R (Inr ()) b'" for R b
    unfolding kv_delete_step_not_until_def
  proof (rule wp_delete_keys_if_exists, rule R)
    fix b'
    assume "view b' = view b |` (- set [sid @ ''.notuntil''])"
    moreover have "view b (sid @ ''.notuntil'') = None"
      using srep_get [OF b, of "''.notuntil''" sid] by (simp add: step_suffixes_def enc_step_def)
    ultimately have "view b' = view b" by (auto simp: restrict_map_def fun_eq_iff)
    with b show "srep n (view b') ?S" by simp
  qed
  note rest = clear [where R = "\<lambda>r b'. r = Inr () \<and> wp (go_for ?ps (reset_pushes_body E t))
     (\<lambda>r c'. r = Inr () \<and> Q (Inr (ret @ [enqueueing_of a sid])) (s\<lparr>step_store := b', id_cmd_store := c'\<rparr>)) c" for c,
     OF _ conjI [OF refl marks]]
  have enq: "enq_ids (enqueueing_of a sid) = as_ids st"
    "enq_commands (enqueueing_of a sid) = map (raw_of (a_cmds a) sid) (as_uuids st)"
    by (simp_all add: enqueueing_of_def st(1))
  have "wp (kv_get_step_enqueueing E sid)
    (\<lambda>r s'. r = Inr (enqueueing_of a sid) \<and> (\<exists>b c. s' = s\<lparr>id_cmd_store := c, step_store := b\<rparr> \<and>
        srep n (view b) ?S \<and> crep n (view c) ?m)) s"
    by (rule wp_get_step_enqueueing [OF rep st ok]) auto
  then have "wp (kv_get_step_enqueueing E sid)
    (\<lambda>r s'. r = Inr (enqueueing_of a sid) \<and> (\<exists>b c. s' = s\<lparr>id_cmd_store := c, step_store := b\<rparr> \<and>
        wp (kv_delete_step_not_until E sid) (\<lambda>r b'. r = Inr () \<and> wp (go_for ?ps (reset_pushes_body E t))
           (\<lambda>r c'. r = Inr () \<and> Q (Inr (ret @ [enqueueing_of a sid])) (s\<lparr>step_store := b', id_cmd_store := c'\<rparr>)) c) b)) s"
    by (rule wp_mono) (use rest in blast)
  then show ?thesis
    unfolding steps_to_enqueue_body_def by (auto simp: enq elim!: wp_mono)
qed

lemma wp_release_steps:
  assumes "rep n s a" "distinct sids" "go_time t"
    "\<forall>sid\<in>set sids. releasable a sid \<and> as_not_until (the (a_steps a sid)) \<noteq> 0"
    and Q: "\<And>s'. rep n s' (foldl (\<lambda>a sid. spec_release_step t sid a) a sids) \<Longrightarrow> same_others s s' \<Longrightarrow>
              Q (Inr (ret @ map (enqueueing_of a) sids)) s'"
  shows "wp (go_fold (steps_to_enqueue_body E t) sids ret) Q s"
  using assms
proof (induction sids arbitrary: s a ret)
  case (Cons sid sids)
  then obtain st where st: "a_steps a sid = Some st" "as_not_until st \<noteq> 0" and ok: "releasable a sid"
    by (auto simp: releasable_def split: option.splits)
  let ?a = "spec_release_step t sid a"
  have keeps: "releasable ?a sid' \<and> enqueueing_of ?a sid' = enqueueing_of a sid' \<and> a_steps ?a sid' = a_steps a sid'"
    if "sid' \<in> set sids" for sid'
    using release_keeps [OF ok] that Cons.prems(2,4) by auto
  have "wp (steps_to_enqueue_body E t sid ret)
      (\<lambda>r s'. r = Inr (ret @ [enqueueing_of a sid]) \<and>
         wp (go_fold (steps_to_enqueue_body E t) sids (ret @ [enqueueing_of a sid])) Q s') s"
  proof (rule release_step_refines [OF Cons.prems(1) st ok Cons.prems(3)], rule conjI [OF refl],
      rule Cons.IH, assumption, goal_cases)
    case (4 s' s'')
    have e: "map (enqueueing_of ?a) sids = map (enqueueing_of a) sids" using keeps by simp
    show ?case unfolding e using 4 Cons.prems(5) [of s''] by (auto intro: same_others_trans)
  qed (use Cons.prems keeps in auto)
  then show ?case by (auto elim!: wp_mono)
qed simp

text \<open>The steps handed out are the ones that are due, each with its stored commands.\<close>

lemma steps_to_enqueue_refines:
  assumes rep: "rep n s a" and t: "go_time t"
    and ok: "\<forall>sid\<in>due_steps as_not_until (wall_clock s) a. releasable a sid"
    and Q: "\<And>s' sids. distinct sids \<Longrightarrow> set sids = due_steps as_not_until (wall_clock s) a \<Longrightarrow>
              rep n s' (spec_release t (set sids) a) \<Longrightarrow> same_others s s' \<Longrightarrow>
              Q (Inr (map (enqueueing_of a) sids)) s'"
  shows "wp (retrieve_steps_to_enqueue E t) Q s"
proof -
  from rep have S: "srep n (view (step_store s)) (a_steps a)" by (auto simp: rep_def)
  have "wp (kv_find_not_until_steps E (wall_clock s))
     (\<lambda>r b. b = step_store s \<and> (\<exists>x. r = Inr x \<and> wp (go_fold (steps_to_enqueue_body E t) x []) Q s)) (step_store s)"
  proof (rule wp_find_not_until [OF S], intro conjI exI, rule refl, rule refl)
    fix sids
    assume d: "distinct sids" and "set sids = {sid. \<exists>st. a_steps a sid = Some st \<and> due (wall_clock s) (as_not_until st)}"
    then have sids: "set sids = due_steps as_not_until (wall_clock s) a" by (simp add: due_steps_def)
    show "wp (go_fold (steps_to_enqueue_body E t) sids []) Q s"
    proof (rule wp_release_steps [OF rep d t], goal_cases)
      case 1
      show ?case using ok by (auto simp: sids due_steps_def due_def)
    next
      case (2 s')
      then show ?case using Q [OF d sids] spec_release_fold [OF d] ok sids by simp
    qed
  qed
  then show ?thesis by (auto simp: retrieve_steps_to_enqueue_def elim!: wp_mono)
qed

end

section \<open>Timed-out steps\<close>

text \<open>Steps that share no command, and name each enrollment and command once.\<close>

definition steps_apart :: "astore \<Rightarrow> bool" where
  "steps_apart a \<longleftrightarrow>
     (\<forall>sid st. a_steps a sid = Some st \<longrightarrow> distinct (as_ids st) \<and> distinct (as_uuids st)) \<and>
     (\<forall>sid st sid' st'. a_steps a sid = Some st \<longrightarrow> a_steps a sid' = Some st' \<longrightarrow> sid \<noteq> sid' \<longrightarrow>
        set (as_ids st) \<times> set (as_uuids st) \<inter> set (as_ids st') \<times> set (as_uuids st') = {})"

definition spec_time_out :: "string set \<Rightarrow> astore \<Rightarrow> astore" where
  "spec_time_out D a =
     a\<lparr>a_steps := (\<lambda>sid. if sid \<in> D then None else a_steps a sid),
       a_cmds := remove_cmds (step_cmds_of a D) (a_cmds a)\<rparr>"

definition result_of :: "step_result \<Rightarrow> (string \<times> string \<rightharpoonup> acmd) \<Rightarrow> string list \<Rightarrow> string \<Rightarrow> step_result" where
  "result_of step m us i =
     step\<lparr>res_ids := [i], res_commands := map (timed_out_cmd m i) (filter (\<lambda>u. m (i, u) \<noteq> None) us)\<rparr>"

lemma timed_out_results_cong:
  assumes "\<And>i u. i \<in> set (as_ids st) \<Longrightarrow> u \<in> set (as_uuids st) \<Longrightarrow> m (i, u) = m' (i, u)"
  shows "timed_out_results m st = timed_out_results m' st"
proof -
  have "filter (\<lambda>u. m (i, u) \<noteq> None) (as_uuids st) = filter (\<lambda>u. m' (i, u) \<noteq> None) (as_uuids st)"
    if "i \<in> set (as_ids st)" for i
    using assms that by (auto cong: filter_cong)
  moreover have "(\<exists>u\<in>set (as_uuids st). m (i, u) \<noteq> None) \<longleftrightarrow> (\<exists>u\<in>set (as_uuids st). m' (i, u) \<noteq> None)"
    if "i \<in> set (as_ids st)" for i
    using assms that by auto
  ultimately show ?thesis
    unfolding timed_out_results_def using assms
    by (intro map_cong filter_cong refl) (auto simp: timed_out_cmd_def)
qed

lemma spec_time_out_fold:
  assumes "distinct sids" "\<forall>sid\<in>set sids. a_steps a sid \<noteq> None"
  shows "foldl (\<lambda>a sid. spec_time_out_step sid a) a sids = spec_time_out (set sids) a"
  using assms
proof (induction sids rule: rev_induct)
  case Nil
  show ?case by (intro astore.equality) (auto simp: spec_time_out_def remove_cmds_def step_cmds_of_def)
next
  case (snoc sid sids)
  then obtain st where st: "a_steps a sid = Some st" by auto
  have "step_cmds_of a (set (sids @ [sid])) = set (as_ids st) \<times> set (as_uuids st) \<union> step_cmds_of a (set sids)"
    using st by (auto simp: step_cmds_of_def)
  moreover have "a_steps (spec_time_out (set sids) a) sid = Some st"
    using snoc.prems st by (simp add: spec_time_out_def)
  ultimately have "spec_time_out_step sid (spec_time_out (set sids) a) = spec_time_out (set (sids @ [sid])) a"
    unfolding spec_time_out_step_def
    by (intro astore.equality) (simp_all add: spec_time_out_def remove_cmds_remove fun_eq_iff)
  with snoc show ?case by simp
qed

context kv_laws
begin

lemma wp_get_id_cmd_step_result:
  assumes m: "crep n (view b) m" and u: "length u = n"
  shows "wp (kv_get_id_cmd_step_result E i u False) Q b =
           Q (Inr (if m (i, u) = None then None else Some (timed_out_cmd m i u))) b"
proof -
  note get = crep_get [OF m u, of _ i]
  show ?thesis
    using get [of "''.step''"] get [of "''.done''"] get [of "''.reqtype''"] get [of "''.result''"]
    by (cases "m (i, u)")
      (auto simp: kv_get_id_cmd_step_result_def cmd_suffixes_def enc_cmd_def timed_out_cmd_def Let_def
        split: option.split)
qed

lemma wp_timed_out_cmds:
  assumes "crep n (view b) m" "\<forall>u\<in>set us. length u = n" "distinct us"
    and Q: "\<And>b'. crep n (view b') (remove_cmds ({i} \<times> set us) m) \<Longrightarrow>
              Q (Inr (acc @ map (timed_out_cmd m i) (filter (\<lambda>u. m (i, u) \<noteq> None) us))) b'"
  shows "wp (go_fold (timed_out_cmd_body E i) us acc) Q b"
  using assms
proof (induction us arbitrary: b m acc)
  case (Cons u us)
  then have u: "length u = n" by simp
  show ?case
  proof (cases "m (i, u) = None")
    case True
    have "remove_cmds ({i} \<times> set (u # us)) m = remove_cmds ({i} \<times> set us) m"
      using True by (auto simp: remove_cmds_def)
    then have "wp (go_fold (timed_out_cmd_body E i) us acc) Q b"
      using Cons.prems True by (intro Cons.IH [where m = m]) auto
    with True show ?thesis
      by (simp add: timed_out_cmd_body_def [of E i u acc] wp_get_id_cmd_step_result [OF Cons.prems(1) u])
  next
    case False
    let ?acc = "acc @ [timed_out_cmd m i u]"
    have "wp (kv_delete_id_cmd E i u)
      (\<lambda>r b'. r = Inr () \<and> wp (go_fold (timed_out_cmd_body E i) us ?acc) Q b') b"
    proof (rule wp_delete_id_cmd, rule conjI [OF refl], rule Cons.IH [where m = "m((i, u) := None)"], goal_cases)
      case (1 b')
      then show ?case using crep_delete [OF Cons.prems(1) u, of i] by (simp del: fun_upd_apply)
    next
      case (4 b' b'')
      have e: "remove_cmds ({i} \<times> set us) (m((i, u) := None)) = remove_cmds ({i} \<times> set (u # us)) m"
        by (auto simp: remove_cmds_def)
      have f: "filter (\<lambda>v. (m((i, u) := None)) (i, v) \<noteq> None) us = filter (\<lambda>v. m (i, v) \<noteq> None) us"
        "map (timed_out_cmd (m((i, u) := None)) i) (filter (\<lambda>v. m (i, v) \<noteq> None) us) =
         map (timed_out_cmd m i) (filter (\<lambda>v. m (i, v) \<noteq> None) us)"
        using Cons.prems(3) by (auto simp: timed_out_cmd_def intro!: filter_cong map_cong)
      show ?case unfolding f using Cons.prems(4) [of b''] 4(2) False unfolding e by simp
    qed (use Cons.prems in auto)
    with False show ?thesis
      by (auto simp: timed_out_cmd_body_def [of E i u acc] wp_get_id_cmd_step_result [OF Cons.prems(1) u]
          elim!: wp_mono)
  qed
qed simp

lemma wp_timed_out_ids:
  assumes "crep n (view b) m" "\<forall>u\<in>set us. length u = n" "distinct us" "distinct ids"
    and Q: "\<And>b'. crep n (view b') (remove_cmds (set ids \<times> set us) m) \<Longrightarrow>
              Q (Inr (acc @ map (result_of step m us) (filter (\<lambda>i. \<exists>u\<in>set us. m (i, u) \<noteq> None) ids))) b'"
  shows "wp (go_fold (timed_out_id_body E step us) ids acc) Q b"
  using assms
proof (induction ids arbitrary: b m acc)
  case Nil
  then show ?case by simp
next
  case (Cons i ids)
  let ?m = "remove_cmds ({i} \<times> set us) m"
  let ?acc = "if \<exists>u\<in>set us. m (i, u) \<noteq> None then acc @ [result_of step m us i] else acc"
  have "wp (go_fold (timed_out_cmd_body E i) us [])
     (\<lambda>r b'. r = Inr (map (timed_out_cmd m i) (filter (\<lambda>u. m (i, u) \<noteq> None) us)) \<and>
             wp (go_fold (timed_out_id_body E step us) ids ?acc) Q b') b"
  proof (rule wp_timed_out_cmds [OF Cons.prems(1-3)], intro conjI, simp, rule Cons.IH [where m = ?m], assumption, goal_cases)
    case (4 b' b'')
    have e: "remove_cmds (set ids \<times> set us) ?m = remove_cmds (set (i # ids) \<times> set us) m"
      by (auto simp: remove_cmds_def)
    have k: "?m (j, u) = m (j, u)" if "j \<in> set ids" for j u
      using that Cons.prems(4) by (auto simp: remove_cmds_def)
    have f: "filter (\<lambda>j. \<exists>u\<in>set us. ?m (j, u) \<noteq> None) ids = filter (\<lambda>j. \<exists>u\<in>set us. m (j, u) \<noteq> None) ids"
      by (rule filter_cong) (auto simp: k)
    have g: "map (result_of step ?m us) (filter P ids) = map (result_of step m us) (filter P ids)" for P
      by (rule map_cong) (auto simp: result_of_def k timed_out_cmd_def cong: map_cong filter_cong)
    show ?case unfolding f g using Cons.prems(5) [of b''] 4(2) unfolding e
      by (cases "\<exists>u\<in>set us. m (i, u) \<noteq> None") auto
  qed (use Cons.prems in auto)
  then show ?case
    by (cases "\<exists>u\<in>set us. m (i, u) \<noteq> None")
      (auto simp: timed_out_id_body_def [of E step us i acc] result_of_def filter_empty_conv elim!: wp_mono)
qed

lemma time_out_step_refines:
  assumes rep: "rep n s a" and st: "a_steps a sid = Some st" "distinct (as_ids st)" "distinct (as_uuids st)"
    and Q: "\<And>s'. rep n s' (spec_time_out_step sid a) \<Longrightarrow> same_others s s' \<Longrightarrow>
              Q (Inr (ret @ timed_out_results (a_cmds a) st)) s'"
  shows "wp (timed_out_step_body E sid ret) Q s"
proof -
  from rep have S: "srep n (view (step_store s)) (a_steps a)" and m: "crep n (view (id_cmd_store s)) (a_cmds a)"
    by (auto simp: rep_def)
  let ?m = "remove_cmds (set (as_ids st) \<times> set (as_uuids st)) (a_cmds a)"
  let ?step = "\<lparr>ctx_workflow_name = as_workflow st, ctx_instance_id = as_instance st, ctx_name = as_name st,
                ctx_context = as_context st, res_ids = [], res_commands = []\<rparr>"
  let ?ret = "ret @ timed_out_results (a_cmds a) st"
  have len: "\<forall>u\<in>set (as_uuids st). length u = n" using srep_ok [OF S st(1)] by (simp add: astep_ok_def)
  have del: "wp (kv_delete_step E sid)
      (\<lambda>r b. r = Inr () \<and> Q (Inr ?ret) (s\<lparr>id_cmd_store := c, step_store := b\<rparr>)) (step_store s)"
    if c: "crep n (view c) ?m" for c
  proof (rule wp_delete_step, rule conjI [OF refl], rule Q, rule rep_shrink [OF rep], goal_cases)
    case (1 b')
    then show ?case using srep_delete [OF S, of sid] by (simp add: spec_time_out_step_def Let_def)
  qed (use c st(1) in \<open>auto simp: spec_time_out_step_def remove_cmds_def same_others_def\<close>)
  have res: "map (result_of ?step (a_cmds a) (as_uuids st))
      (filter (\<lambda>i. \<exists>u\<in>set (as_uuids st). a_cmds a (i, u) \<noteq> None) (as_ids st)) = timed_out_results (a_cmds a) st"
    by (simp add: result_of_def timed_out_results_def)
  have "wp (go_fold (timed_out_id_body E ?step (as_uuids st)) (as_ids st) ret)
     (\<lambda>r c. r = Inr ?ret \<and> wp (kv_delete_step E sid)
        (\<lambda>r b. r = Inr () \<and> Q (Inr ?ret) (s\<lparr>id_cmd_store := c, step_store := b\<rparr>)) (step_store s)) (id_cmd_store s)"
    by (rule wp_timed_out_ids [OF m len st(3,2)], unfold res) (simp add: del)
  then show ?thesis
    by (auto simp: timed_out_step_body_def [of E sid ret] wp_get_step_result [OF S st(1)] srep_lists [OF S st(1)] elim!: wp_mono)
qed

lemma wp_time_out_steps:
  assumes "rep n s a" "distinct sids" "steps_apart a" "\<forall>sid\<in>set sids. a_steps a sid \<noteq> None"
    and Q: "\<And>s'. rep n s' (foldl (\<lambda>a sid. spec_time_out_step sid a) a sids) \<Longrightarrow> same_others s s' \<Longrightarrow>
              Q (Inr (ret @ concat (map (\<lambda>sid. timed_out_results (a_cmds a) (the (a_steps a sid))) sids))) s'"
  shows "wp (go_fold (timed_out_step_body E) sids ret) Q s"
  using assms
proof (induction sids arbitrary: s a ret)
  case (Cons sid sids)
  then obtain st where st: "a_steps a sid = Some st" by auto
  let ?a = "spec_time_out_step sid a"
  have steps: "a_steps ?a = (a_steps a)(sid := None)" by (simp add: spec_time_out_step_def Let_def)
  have apart: "steps_apart ?a" using Cons.prems(3) unfolding steps_apart_def steps by (auto split: if_splits)
  have same: "timed_out_results (a_cmds ?a) (the (a_steps ?a sid')) = timed_out_results (a_cmds a) (the (a_steps a sid'))"
    if sid': "sid' \<in> set sids" for sid'
  proof -
    from sid' Cons.prems(2,4) obtain st' where st': "a_steps a sid' = Some st'" "sid' \<noteq> sid" by auto
    with st Cons.prems(3) have "set (as_ids st) \<times> set (as_uuids st) \<inter> set (as_ids st') \<times> set (as_uuids st') = {}"
      by (metis steps_apart_def)
    then have "timed_out_results (a_cmds ?a) st' = timed_out_results (a_cmds a) st'"
      by (intro timed_out_results_cong) (auto simp: spec_time_out_step_def st remove_cmds_def)
    with st' steps show ?thesis by simp
  qed
  have "wp (timed_out_step_body E sid ret)
     (\<lambda>r s'. r = Inr (ret @ timed_out_results (a_cmds a) st) \<and>
             wp (go_fold (timed_out_step_body E) sids (ret @ timed_out_results (a_cmds a) st)) Q s') s"
  proof (rule time_out_step_refines [OF Cons.prems(1) st], goal_cases)
    case (3 s')
    note o = 3(2)
    show ?case
    proof (rule conjI [OF refl], rule Cons.IH [OF 3(1) _ apart], goal_cases)
      case (3 s'')
      have e: "map (\<lambda>sid. timed_out_results (a_cmds ?a) (the (a_steps ?a sid))) sids =
               map (\<lambda>sid. timed_out_results (a_cmds a) (the (a_steps a sid))) sids"
        using same by simp
      show ?case unfolding e
        using Cons.prems(5) [of s''] 3(1) same_others_trans [OF o 3(2)] st by simp
    qed (use Cons.prems steps in auto)
  qed (use Cons.prems(3) st in \<open>auto simp: steps_apart_def\<close>)
  then show ?case by (auto elim!: wp_mono)
qed simp

text \<open>The timed-out steps: each is delivered, once for every enrollment with a command left, and gone.\<close>

lemma timed_out_steps_refines:
  assumes rep: "rep n s a" and ok: "steps_apart a"
    and Q: "\<And>s' sids. distinct sids \<Longrightarrow> set sids = due_steps as_timeout (wall_clock s) a \<Longrightarrow>
              rep n s' (spec_time_out (set sids) a) \<Longrightarrow> same_others s s' \<Longrightarrow>
              Q (Inr (concat (map (\<lambda>sid. timed_out_results (a_cmds a) (the (a_steps a sid))) sids))) s'"
  shows "wp (retrieve_timed_out_steps E) Q s"
proof -
  from rep have S: "srep n (view (step_store s)) (a_steps a)" by (auto simp: rep_def)
  have "wp (kv_find_timed_out_step_ids E (wall_clock s))
     (\<lambda>r b. b = step_store s \<and> (\<exists>x. r = Inr x \<and> wp (go_fold (timed_out_step_body E) x []) Q s)) (step_store s)"
  proof (rule wp_find_timed_out [OF S], intro conjI exI, rule refl, rule refl)
    fix sids
    assume d: "distinct sids" and "set sids = {sid. \<exists>st. a_steps a sid = Some st \<and> due (wall_clock s) (as_timeout st)}"
    then have sids: "set sids = due_steps as_timeout (wall_clock s) a" by (simp add: due_steps_def)
    have "\<forall>sid\<in>set sids. a_steps a sid \<noteq> None" by (auto simp: sids due_steps_def)
    note this [simp]
    show "wp (go_fold (timed_out_step_body E) sids []) Q s"
      by (rule wp_time_out_steps [OF rep d ok]) (use Q [OF d sids] spec_time_out_fold [OF d] in auto)
  qed
  then show ?thesis by (auto simp: retrieve_timed_out_steps_def elim!: wp_mono)
qed

end

section \<open>Pushing again\<close>

definition due_cmds :: "time \<Rightarrow> astore \<Rightarrow> (string \<times> string) set" where
  "due_cmds t a = {p. \<exists>c. a_cmds a p = Some c \<and> due t (ac_last_push c)}"

definition push_key :: "string \<times> string \<Rightarrow> string" where
  "push_key p = fst p @ snd p @ ''.lastpush''"

lemma update_new: "k \<notin> fst ` set al \<Longrightarrow> AList.update k v al = al @ [(k, v)]"
  by (induction al) auto

context kv_laws
begin

lemma cmd_key_iff:
  assumes "crep n (view b) m" "x \<in> set cmd_suffixes" "length u = n"
  shows "i @ u @ x \<in> set (bk_keys E b) \<longleftrightarrow> (\<exists>c. m (i, u) = Some c \<and> enc_cmd i c x \<noteq> None)"
  using crep_get [OF assms(1,3,2)] by (auto simp: keys_law domIff split: option.splits)

lemma crep_key:
  assumes "crep n (view b) m" "k \<in> set (bk_keys E b)" "has_suffix k x" "x \<in> set cmd_suffixes"
  obtains i u c where "k = i @ u @ x" "length u = n" "m (i, u) = Some c" "enc_cmd i c x \<noteq> None"
proof -
  obtain i u y where k: "k = i @ u @ y" "length u = n" "y \<in> set cmd_suffixes"
    using assms(1,2) unfolding crep_def keys_law(2) by blast
  moreover from assms(3) obtain q where "k = q @ x" by (auto simp: has_suffix_iff)
  ultimately have "x = y" using cmd_suffix_decomp [of q x "i @ u" y] assms(4) by simp
  with k cmd_key_iff [OF assms(1) k(3,2), of i] assms(2) that show ?thesis by blast
qed

lemma wp_re_push_scan:
  assumes m: "crep n (view b) m" and t: "go_time t" and ks: "distinct ks" "set ks \<subseteq> set (bk_keys E b)"
    and new: "\<forall>k\<in>set ks. k \<notin> fst ` set rs"
    and Q: "\<And>ps. distinct ps \<Longrightarrow> set ps = {p. push_key p \<in> set ks \<and> length (snd p) = n \<and>
                (\<exists>c. m p = Some c \<and> due before (ac_last_push c))} \<Longrightarrow>
              Q (Inr (ids @ map fst ps, rs @ map (\<lambda>p. (push_key p, time_text t)) ps)) b"
  shows "wp (go_fold (kv_re_push_body E before t) ks (ids, rs)) Q b"
  using ks new Q
proof (induction ks arbitrary: ids rs)
  case (Cons k ks)
  show ?case
  proof (cases "\<exists>i u c. k = i @ u @ ''.lastpush'' \<and> length u = n \<and> m (i, u) = Some c \<and> due before (ac_last_push c)")
    case True
    then obtain i u c where k: "k = i @ u @ ''.lastpush''" "length u = n" "m (i, u) = Some c" "due before (ac_last_push c)"
      by blast
    have v: "view b (i @ u @ ''.lastpush'') = Some (time_text (ac_last_push c))" "view b (i @ u @ ''.id'') = Some i"
      using crep_get [OF m k(2), of _ i] k(3) by (auto simp: cmd_suffixes_def enc_cmd_def)
    have g: "go_time (ac_last_push c)" using crep_ok [OF m k(3)] by (simp add: acmd_ok_def)
    have sfx: "has_suffix (i @ u @ ''.lastpush'') ''.lastpush''" "chop_suffix (i @ u @ ''.lastpush'') ''.lastpush'' = i @ u"
      using chop_suffix_append [of "i @ u" "''.lastpush''"] by (auto simp: has_suffix_iff simp del: chop_suffix_append)
    have "wp (kv_re_push_body E before t k (ids, rs)) R b = R (Inr (ids @ [i], rs @ [(k, time_text t)])) b" for R
      using k(4) v sfx Cons.prems(3)
      by (simp add: kv_re_push_body_def k(1) unmarshal_time_text [OF g] marshal_time_text [OF t] due_def update_new)
    moreover have "wp (go_fold (kv_re_push_body E before t) ks (ids @ [i], rs @ [(k, time_text t)])) Q b"
    proof (rule Cons.IH, goal_cases)
      case (4 ps)
      have dec: "push_key p = k \<longleftrightarrow> p = (i, u)" if "length (snd p) = n" for p
        using that k(1,2) by (cases p) (auto simp: push_key_def)
      have "Q (Inr (ids @ map fst ((i, u) # ps), rs @ map (\<lambda>p. (push_key p, time_text t)) ((i, u) # ps))) b"
      proof (rule Cons.prems(4))
        show "distinct ((i, u) # ps)" using 4 Cons.prems(1) k(1) by (auto simp: push_key_def)
        show "set ((i, u) # ps) = {p. push_key p \<in> set (k # ks) \<and> length (snd p) = n \<and>
                (\<exists>c. m p = Some c \<and> due before (ac_last_push c))}"
          using 4(2) k(2-4) dec by auto
      qed
      then show ?case by (simp add: push_key_def k(1))
    qed (use Cons.prems k(1) in auto)
    ultimately show ?thesis by simp
  next
    case False
    have "wp (kv_re_push_body E before t k (ids, rs)) R b = R (Inr (ids, rs)) b" for R
    proof (cases "has_suffix k ''.lastpush''")
      case True
      have "k \<in> set (bk_keys E b)" "''.lastpush'' \<in> set cmd_suffixes"
        using Cons.prems(2) by (simp_all add: cmd_suffixes_def)
      from crep_key [OF m this(1) True this(2)] obtain i u c where
        k: "k = i @ u @ ''.lastpush''" "length u = n" "m (i, u) = Some c" .
      have v: "view b (i @ u @ ''.lastpush'') = Some (time_text (ac_last_push c))"
        using crep_get [OF m k(2), of _ i] k(3) by (auto simp: cmd_suffixes_def enc_cmd_def)
      have g: "go_time (ac_last_push c)" using crep_ok [OF m k(3)] by (simp add: acmd_ok_def)
      from False k have "\<not> due before (ac_last_push c)" by blast
      with v True show ?thesis
        by (auto simp: kv_re_push_body_def k(1) unmarshal_time_text [OF g] due_def)
    qed (simp add: kv_re_push_body_def)
    moreover have "wp (go_fold (kv_re_push_body E before t) ks (ids, rs)) Q b"
    proof (rule Cons.IH, goal_cases)
      case (4 ps)
      have "set ps = {p. push_key p \<in> set (k # ks) \<and> length (snd p) = n \<and>
                (\<exists>c. m p = Some c \<and> due before (ac_last_push c))}"
        using 4(2) False by (auto simp: push_key_def)
      with 4(1) show ?case by (rule Cons.prems(4))
    qed (use Cons.prems in auto)
    ultimately show ?thesis by simp
  qed
qed simp

lemma crep_mark_list:
  assumes m: "crep n V m" and t: "go_time t" and ps: "\<forall>p\<in>set ps. m p \<noteq> None" "distinct ps"
  shows "crep n (V ++ map_of (map (\<lambda>p. (push_key p, time_text t)) ps)) (mark_pushed t (set ps) m)"
  using ps
proof (induction ps)
  case Nil
  with m show ?case by (simp add: mark_pushed_def)
next
  case (Cons p ps)
  then obtain c where c: "m p = Some c" by auto
  have "mark_pushed t (set ps) m (fst p, snd p) = Some c"
    using Cons.prems(2) c by (simp add: mark_pushed_def)
  moreover have "crep n (V ++ map_of (map (\<lambda>p. (push_key p, time_text t)) ps)) (mark_pushed t (set ps) m)"
    using Cons by simp
  ultimately have "crep n ((V ++ map_of (map (\<lambda>p. (push_key p, time_text t)) ps))(push_key p \<mapsto> time_text t))
      ((mark_pushed t (set ps) m)((fst p, snd p) \<mapsto> c\<lparr>ac_last_push := t\<rparr>))"
    unfolding push_key_def by (intro crep_mark t)
  moreover have "(mark_pushed t (set ps) m)((fst p, snd p) \<mapsto> c\<lparr>ac_last_push := t\<rparr>) = mark_pushed t (set (p # ps)) m"
    using c by (auto simp: mark_pushed_def fun_eq_iff)
  ultimately show ?case by (simp del: fun_upd_apply)
qed

text \<open>
  The enrollments of exactly the commands whose last push is set and not after \<open>before\<close>, one entry
  for each command; those commands count as pushed at \<open>t\<close>, nothing else changes.
\<close>

lemma re_push_refines:
  assumes rep: "rep n s a" and t: "go_time t"
    and Q: "\<And>s' ps. distinct ps \<Longrightarrow> set ps = due_cmds before a \<Longrightarrow>
              rep n s' (a\<lparr>a_cmds := mark_pushed t (set ps) (a_cmds a)\<rparr>) \<Longrightarrow> same_others s s' \<Longrightarrow>
              step_store s' = step_store s \<Longrightarrow> Q (Inr (map fst ps)) s'"
  shows "wp (retrieve_and_mark_re_pushed E before t) Q s"
proof -
  let ?b = "id_cmd_store s"
  from rep have m: "crep n (view ?b) (a_cmds a)" by (simp add: rep_def)
  have scan: "wp (go_fold (kv_re_push_body E before t) (bk_keys E ?b) ([], []))
     (\<lambda>r b. b = ?b \<and> (\<exists>ps. r = Inr (map fst ps, map (\<lambda>p. (push_key p, time_text t)) ps) \<and>
                        distinct ps \<and> set ps = due_cmds before a)) ?b"
  proof (rule wp_re_push_scan [OF m t], goal_cases)
    case (4 ps)
    have "push_key (i, u) \<in> set (bk_keys E ?b)" if "a_cmds a (i, u) = Some c" for i u c
      using cmd_key_iff [OF m _ crep_length [OF m that], of "''.lastpush''" i] that
      by (simp add: push_key_def cmd_suffixes_def enc_cmd_def)
    then have "set ps = due_cmds before a"
      using 4(2) crep_length [OF m] by (auto simp: due_cmds_def)
    with 4(1) show ?case by auto
  qed (auto simp: keys_law)
  have set: "wp (bk_set_map E (map (\<lambda>p. (push_key p, time_text t)) ps)) (\<lambda>r b. r = Inr () \<and> Q (Inr (map fst ps)) (s\<lparr>id_cmd_store := b\<rparr>)) ?b"
    if ps: "distinct ps" "set ps = due_cmds before a" for ps
  proof -
    have "inj_on push_key (set ps)"
    proof (rule inj_onI)
      fix p q
      assume "p \<in> set ps" "q \<in> set ps" "push_key p = push_key q"
      moreover then have "length (snd p) = n" "length (snd q) = n"
        using ps(2) crep_length [OF m, of "fst p" "snd p"] crep_length [OF m, of "fst q" "snd q"]
        by (auto simp: due_cmds_def)
      ultimately show "p = q" by (simp add: push_key_def prod_eq_iff)
    qed
    then have d: "distinct (map fst (map (\<lambda>p. (push_key p, time_text t)) ps))"
      using ps(1) by (simp add: distinct_map comp_def)
    have "\<forall>p\<in>set ps. a_cmds a p \<noteq> None" using ps(2) by (auto simp: due_cmds_def)
    then have "crep n (view (snd (bk_set_map E (map (\<lambda>p. (push_key p, time_text t)) ps) ?b)))
                 (mark_pushed t (set ps) (a_cmds a))"
      using crep_mark_list [OF m t _ ps(1)] d by simp
    then have "Q (Inr (map fst ps)) (s\<lparr>id_cmd_store := snd (bk_set_map E (map (\<lambda>p. (push_key p, time_text t)) ps) ?b)\<rparr>)"
      using rep by (intro Q [OF ps] rep_shrink [OF rep]) (auto simp: rep_def same_others_def mark_pushed_def)
    then show ?thesis unfolding wp_set_map [OF d] by simp
  qed
  from scan have "wp (go_fold (kv_re_push_body E before t) (bk_keys E ?b) ([], []))
     (\<lambda>r b. \<exists>ps. r = Inr (map fst ps, map (\<lambda>p. (push_key p, time_text t)) ps) \<and>
        wp (bk_set_map E (map (\<lambda>p. (push_key p, time_text t)) ps))
           (\<lambda>r b. r = Inr () \<and> Q (Inr (map fst ps)) (s\<lparr>id_cmd_store := b\<rparr>)) b) ?b"
    by (rule wp_mono) (use set in blast)
  then have "wp (\<lambda>b. go_fold (kv_re_push_body E before t) (bk_keys E b) ([], []) b)
     (\<lambda>r b. \<exists>ps. r = Inr (map fst ps, map (\<lambda>p. (push_key p, time_text t)) ps) \<and>
        wp (bk_set_map E (map (\<lambda>p. (push_key p, time_text t)) ps))
           (\<lambda>r b. r = Inr () \<and> Q (Inr (map fst ps)) (s\<lparr>id_cmd_store := b\<rparr>)) b) ?b"
    by (simp add: wp_def)
  then show ?thesis
    unfolding retrieve_and_mark_re_pushed_def kv_find_commands_to_re_push_def wp_in_cmds wp_bind
    by (rule wp_mono) (auto elim!: wp_mono)
qed

end

end
