(* ===== verification/KVEvent.thy ===== *)
theory KVEvent
  imports KVWorker
begin

text \<open>
  \<open>engine/storage/kv/event.go\<close>: event subscriptions in the key-value backend, with their refinement
  to a map from names to subscriptions; and the refinement of the workflow status operations of
  \<open>kv.go\<close> to a map from status keys to instants.
\<close>

section \<open>Event subscription records\<close>

definition event_suffixes :: "string list" where
  "event_suffixes = [''.flag'', ''.name'', ''.ctx'', ''.evctx'']"

text \<open>\<open>int(f)\<close> of a 64-bit \<open>uint\<close>, and back.\<close>

definition flag_int :: "event_flag \<Rightarrow> int" where
  "flag_int f = sint f"

definition int_flag :: "int \<Rightarrow> event_flag" where
  "int_flag i = word_of_int i"

definition event_entries :: "string \<Rightarrow> event_subscription \<Rightarrow> (string \<times> bytes) list" where
  "event_entries name es =
     [(name @ ''.name'', es_workflow es),
      (name @ ''.flag'', itoa (flag_int (event_flag_for_string (es_event es))))]
     @ (if length (es_context es) > 0 then [(name @ ''.ctx'', es_context es)] else [])
     @ (if length (es_event_context es) > 0 then [(name @ ''.evctx'', es_event_context es)] else [])"

definition kv_event_set :: "'b kv_env \<Rightarrow> string \<Rightarrow> event_subscription option \<Rightarrow> ('b, unit) action" where
  "kv_event_set E name es =
     (if name = [] then go_fail (Errorf ''invalid'' [])
      else
        go_bind (go_wrap ''validating: %w'' [] (go_lift (validate_event_subscription es))) (\<lambda>_.
        case es of None \<Rightarrow> go_ret () | Some es \<Rightarrow> bk_set_map E (event_entries name es)))"

definition or_empty :: "bytes option \<Rightarrow> bytes" where
  "or_empty v = (case v of None \<Rightarrow> [] | Some v \<Rightarrow> v)"

definition kv_event_context :: "'b kv_env \<Rightarrow> string \<Rightarrow> string \<Rightarrow> string \<Rightarrow> ('b, bytes) action" where
  "kv_event_context E k check_msg get_msg =
     go_bind (go_wrap check_msg [] (b_has E k)) (\<lambda>ok.
     if ok then go_wrap get_msg [] (b_get E k) else go_ret [])"

definition kv_event_get :: "'b kv_env \<Rightarrow> string \<Rightarrow> ('b, event_subscription) action" where
  "kv_event_get E name =
     (if name = [] then go_fail (Errorf ''invalid'' [])
      else
        go_bind (b_get_map E [name @ ''.name'', name @ ''.flag'']) (\<lambda>m.
        go_bind (go_wrap ''getting event flag: %w'' [] (go_lift (atoi (or_empty (m (name @ ''.flag'')))))) (\<lambda>flag.
        go_bind (kv_event_context E (name @ ''.ctx'')
                   ''checking event context: %w'' ''getting event context: %w'') (\<lambda>ctx.
        go_bind (kv_event_context E (name @ ''.evctx'')
                   ''checking event event_context: %w'' ''getting event event_context: %w'') (\<lambda>evctx.
        go_ret \<lparr>es_event = event_flag_string (int_flag flag), es_workflow = or_empty (m (name @ ''.name'')),
                es_context = ctx, es_event_context = evctx\<rparr>)))))"

section \<open>The operations\<close>

definition event_subs_body ::
  "'b kv_env \<Rightarrow> string \<Rightarrow> (string \<rightharpoonup> event_subscription) \<Rightarrow> ('b, string \<rightharpoonup> event_subscription) action" where
  "event_subs_body E name ret =
     go_bind (go_wrap ''getting event subscription record for %s: %w'' [name] (kv_event_get E name)) (\<lambda>es.
     go_ret (ret(name \<mapsto> es)))"

definition retrieve_event_subscriptions ::
  "'b kv_env \<Rightarrow> string list \<Rightarrow> ('b kv_store, string \<rightharpoonup> event_subscription) action" where
  "retrieve_event_subscriptions E names =
     (if length names < 1 then go_fail (Errorf ''no names specified'' [])
      else in_events (go_fold (event_subs_body E) names (\<lambda>_. None)))"

definition find_event_body ::
  "'b kv_env \<Rightarrow> event_flag \<Rightarrow> string \<Rightarrow> string list \<Rightarrow> ('b, string list) action" where
  "find_event_body E f k names =
     (if \<not> has_suffix k ''.flag'' then go_ret names
      else
        go_bind (b_get E k) (\<lambda>bs.
        case atoi bs of
          Inl _ \<Rightarrow> go_ret names
        | Inr flag \<Rightarrow> if flag \<noteq> flag_int f then go_ret names
                     else go_ret (names @ [chop_suffix k ''.flag''])))"

definition kv_find_event_sub_names_by_event :: "'b kv_env \<Rightarrow> event_flag \<Rightarrow> ('b, string list) action" where
  "kv_find_event_sub_names_by_event E f = (\<lambda>b. go_fold (find_event_body E f) (bk_keys E b) [] b)"

definition event_by_name_body ::
  "'b kv_env \<Rightarrow> string \<Rightarrow> event_subscription list \<Rightarrow> ('b, event_subscription list) action" where
  "event_by_name_body E name ret =
     go_bind (go_wrap ''getting event subscription for %s: %w'' [name] (kv_event_get E name)) (\<lambda>es.
     go_ret (ret @ [es]))"

definition retrieve_event_subscriptions_by_event ::
  "'b kv_env \<Rightarrow> event_flag \<Rightarrow> ('b kv_store, event_subscription list) action" where
  "retrieve_event_subscriptions_by_event E f =
     (if f < 1 then go_fail (Errorf ''invalid event flag'' [])
      else
        go_bind (go_wrap ''finding event subscriptions: %w'' []
                   (in_events (kv_find_event_sub_names_by_event E f))) (\<lambda>names.
        in_events (go_fold (event_by_name_body E) names [])))"

text \<open>
  The slice that is returned beside an error: the subscriptions read before the name that cannot be read.
\<close>

primrec events_before_error :: "'b kv_env \<Rightarrow> string list \<Rightarrow> 'b \<Rightarrow> event_subscription list" where
  "events_before_error E [] b = []"
| "events_before_error E (n # ns) b =
     (case kv_event_get E n b of
        (Inl _, _) \<Rightarrow> []
      | (Inr es, b') \<Rightarrow> es # events_before_error E ns b')"

definition subscriptions_before_error ::
  "'b kv_env \<Rightarrow> event_flag \<Rightarrow> 'b kv_store \<Rightarrow> event_subscription list" where
  "subscriptions_before_error E f s =
     (if f < 1 then []
      else case in_events (kv_find_event_sub_names_by_event E f) s of
        (Inl _, _) \<Rightarrow> []
      | (Inr names, s') \<Rightarrow> events_before_error E names (event_store s'))"

lemma events_before_error_all:
  "go_fold (event_by_name_body E) names acc b = (Inr xs, b') \<Longrightarrow> xs = acc @ events_before_error E names b"
proof (induction names arbitrary: acc b)
  case (Cons n names)
  obtain r b2 where get: "kv_event_get E n b = (r, b2)" by fastforce
  show ?case
  proof (cases r)
    case (Inl e)
    then show ?thesis using Cons.prems get
      by (simp add: event_by_name_body_def go_bind_def go_wrap_def)
  next
    case (Inr es)
    then have "event_by_name_body E n acc b = (Inr (acc @ [es]), b2)"
      using get by (simp add: event_by_name_body_def go_bind_def go_wrap_def go_ret_def)
    then have "go_fold (event_by_name_body E) names (acc @ [es]) b2 = (Inr xs, b')"
      using Cons.prems by (simp add: go_bind_def)
    from Cons.IH [OF this] show ?thesis using Inr get by simp
  qed
qed (simp add: go_ret_def)

text \<open>Without an error the two agree.\<close>

lemma subscriptions_before_error_all:
  assumes "retrieve_event_subscriptions_by_event E f s = (Inr xs, s')"
  shows "subscriptions_before_error E f s = xs"
proof -
  have f: "\<not> f < 1" using assms by (auto simp: retrieve_event_subscriptions_by_event_def go_fail_def split: if_splits)
  with assms obtain names s1 where 1: "in_events (kv_find_event_sub_names_by_event E f) s = (Inr names, s1)"
    by (auto simp: retrieve_event_subscriptions_by_event_def go_bind_def go_wrap_def split: prod.splits sum.splits)
  then have "in_events (go_fold (event_by_name_body E) names []) s1 = (Inr xs, s')"
    using assms f by (simp add: retrieve_event_subscriptions_by_event_def go_bind_def go_wrap_def)
  then obtain b' where "go_fold (event_by_name_body E) names [] (event_store s1) = (Inr xs, b')"
    by (auto simp: in_events_def go_zoom_def split: prod.splits)
  then have "xs = events_before_error E names (event_store s1)" using events_before_error_all by fastforce
  with f 1 show ?thesis by (simp add: subscriptions_before_error_def)
qed

definition store_event_subscription ::
  "'b kv_env \<Rightarrow> string \<Rightarrow> event_subscription option \<Rightarrow> ('b kv_store, unit) action" where
  "store_event_subscription E name es =
     go_wrap ''setting event subscription record for %s: %w'' [name] (in_events (kv_event_set E name es))"

definition delete_event_subscription :: "'b kv_env \<Rightarrow> string \<Rightarrow> ('b kv_store, unit) action" where
  "delete_event_subscription E name =
     in_events (kv_delete_keys_if_exists E (map (\<lambda>x. name @ x) event_suffixes))"

section \<open>The abstract subscriptions\<close>

definition enc_event :: "event_subscription \<Rightarrow> string \<Rightarrow> bytes option" where
  "enc_event es x =
     (if x = ''.name'' then Some (es_workflow es)
      else if x = ''.flag'' then Some (itoa (flag_int (event_flag_for_string (es_event es))))
      else if x = ''.ctx'' then (if es_context es = [] then None else Some (es_context es))
      else if x = ''.evctx'' then (if es_event_context es = [] then None else Some (es_event_context es))
      else None)"

definition event_ok :: "event_subscription \<Rightarrow> bool" where
  "event_ok es \<longleftrightarrow> validate_event_subscription (Some es) = Inr ()"

definition erep :: "(string \<rightharpoonup> bytes) \<Rightarrow> (string \<rightharpoonup> event_subscription) \<Rightarrow> bool" where
  "erep V m \<longleftrightarrow>
     (\<forall>name. \<forall>x\<in>set event_suffixes.
        V (name @ x) = (case m name of None \<Rightarrow> None | Some es \<Rightarrow> enc_event es x)) \<and>
     (\<forall>name es. m name = Some es \<longrightarrow> name \<noteq> [] \<and> event_ok es)"

text \<open>
  What a store does when the name is taken: the records of contexts that the new subscription does
  not have stay.
\<close>

definition merge_event :: "event_subscription option \<Rightarrow> event_subscription \<Rightarrow> event_subscription" where
  "merge_event old es =
     (case old of None \<Rightarrow> es
      | Some o' \<Rightarrow>
          es\<lparr>es_context := if es_context es = [] then es_context o' else es_context es,
             es_event_context := if es_event_context es = [] then es_event_context o' else es_event_context es\<rparr>)"

lemma event_suffix_decomp:
  assumes "a @ x = b @ y" "x \<in> set event_suffixes" "y \<in> set event_suffixes"
  shows "a = b \<and> x = y"
proof -
  from assms(1) have "rev x @ rev a = rev y @ rev b" by (metis rev_append)
  with assms(2,3) show ?thesis by (auto simp: event_suffixes_def)
qed

lemma flag_for_string_cases:
  "event_ok es \<Longrightarrow> event_flag_for_string (es_event es) \<in> set single_event_flags"
  by (auto simp: event_ok_def validate_event_subscription_iff event_names_def event_flag_for_string_def
      single_event_flags_def)

lemma flag_text:
  assumes "event_ok es"
  shows "atoi (itoa (flag_int (event_flag_for_string (es_event es)))) =
           Inr (flag_int (event_flag_for_string (es_event es)))"
    "event_flag_string (int_flag (flag_int (event_flag_for_string (es_event es)))) = es_event es"
proof -
  show "atoi (itoa (flag_int (event_flag_for_string (es_event es)))) =
           Inr (flag_int (event_flag_for_string (es_event es)))"
    by (rule atoi_itoa) (use flag_for_string_cases [OF assms] in
      \<open>auto simp: single_event_flags_def event_flag_values flag_int_def min_int64_def max_int64_def\<close>)
  have "event_flag_for_string (es_event es) \<noteq> 0"
    using flag_for_string_cases [OF assms] by (auto simp: single_event_flags_def event_flag_values)
  then show "event_flag_string (int_flag (flag_int (event_flag_for_string (es_event es)))) = es_event es"
    by (simp add: int_flag_def flag_int_def event_flag_string_for_string)
qed

lemma erep_get: "erep V m \<Longrightarrow> x \<in> set event_suffixes \<Longrightarrow>
    V (name @ x) = (case m name of None \<Rightarrow> None | Some es \<Rightarrow> enc_event es x)"
  by (simp add: erep_def)

lemma erep_update:
  assumes V: "erep V m"
    and off: "\<And>k. \<forall>x\<in>set event_suffixes. k \<noteq> name @ x \<Longrightarrow> V' k = V k"
    and on: "\<And>x. x \<in> set event_suffixes \<Longrightarrow>
               V' (name @ x) = (case oe of None \<Rightarrow> None | Some es \<Rightarrow> enc_event es x)"
    and ok: "\<And>es. oe = Some es \<Longrightarrow> name \<noteq> [] \<and> event_ok es"
  shows "erep V' (m(name := oe))"
proof -
  have "V' (n @ x) = (case (m(name := oe)) n of None \<Rightarrow> None | Some es \<Rightarrow> enc_event es x)"
    if x: "x \<in> set event_suffixes" for n x
  proof (cases "n = name")
    case True
    with on [OF x] show ?thesis by simp
  next
    case False
    then have "\<forall>y\<in>set event_suffixes. n @ x \<noteq> name @ y" using event_suffix_decomp x by blast
    from off [OF this] False show ?thesis using erep_get [OF V x] by auto
  qed
  with V ok show ?thesis unfolding erep_def by (auto split: if_splits)
qed

lemma event_record:
  "\<lparr>es_event = es_event es, es_workflow = es_workflow es, es_context = es_context es,
    es_event_context = es_event_context es\<rparr> = es"
  by simp

lemma or_empty_opt: "or_empty (if c = [] then None else Some c) = c"
  by (simp add: or_empty_def)

lemma or_empty_some: "or_empty (Some v) = v"
  by (simp add: or_empty_def)

context kv_laws
begin

lemma wp_in_events [simp]:
  "wp (in_events m) Q s = wp m (\<lambda>r b. Q r (s\<lparr>event_store := b\<rparr>)) (event_store s)"
  by (simp add: in_events_def)

lemma event_entries_distinct: "distinct (map fst (event_entries name es))"
  by (auto simp: event_entries_def)

text \<open>Storing: a valid subscription is merged into the record of its name.\<close>

lemma store_event_refines:
  assumes rep: "erep (view (event_store s)) m" and ok: "name \<noteq> []" "event_ok es"
    and Q: "\<And>b. erep (view b) (m(name \<mapsto> merge_event (m name) es)) \<Longrightarrow> Q (Inr ()) (s\<lparr>event_store := b\<rparr>)"
  shows "wp (store_event_subscription E name (Some es)) Q s"
proof -
  let ?V = "view (event_store s) ++ map_of (event_entries name es)"
  have "erep ?V (m(name \<mapsto> merge_event (m name) es))"
  proof (rule erep_update [OF rep])
    fix x
    assume x: "x \<in> set event_suffixes"
    show "?V (name @ x) = (case Some (merge_event (m name) es) of None \<Rightarrow> None | Some es \<Rightarrow> enc_event es x)"
      using x erep_get [OF rep x, of name]
      by (cases "m name") (auto simp: event_suffixes_def event_entries_def enc_event_def merge_event_def
          map_add_def)
  next
    fix k
    assume "\<forall>x\<in>set event_suffixes. k \<noteq> name @ x"
    then show "?V k = view (event_store s) k"
      by (auto simp: event_suffixes_def event_entries_def map_add_def)
  qed (use ok in \<open>auto simp: event_ok_def merge_event_def validate_event_subscription_iff split: option.splits\<close>)
  then have "Q (Inr ()) (s\<lparr>event_store := snd (bk_set_map E (event_entries name es) (event_store s))\<rparr>)"
    by (intro Q) (simp add: event_entries_distinct)
  with ok show ?thesis
    by (simp add: store_event_subscription_def kv_event_set_def event_ok_def event_entries_distinct)
qed

lemma store_event_invalid:
  assumes "name = [] \<or> validate_event_subscription oe \<noteq> Inr ()"
  shows "\<exists>e. store_event_subscription E name oe s = (Inl e, s)"
proof -
  have "wp (store_event_subscription E name oe) (\<lambda>r s'. (\<exists>e. r = Inl e) \<and> s' = s) s"
    using assms by (cases "validate_event_subscription oe")
      (auto simp: store_event_subscription_def kv_event_set_def)
  then show ?thesis by (auto simp: wp_def split: prod.splits)
qed

lemma wp_event_context:
  "wp (kv_event_context E k c g) Q b = Q (Inr (or_empty (view b k))) b"
  by (simp add: kv_event_context_def or_empty_def split: option.split)

lemma wp_event_get:
  assumes rep: "erep (view b) m"
  shows "wp (kv_event_get E name) Q b =
     Q (if name = [] then Inl (Errorf ''invalid'' [])
        else case m name of None \<Rightarrow> Inl ErrKeyNotFound | Some es \<Rightarrow> Inr es) b"
proof (cases "name = []")
  case False
  note get = erep_get [OF rep, of _ name]
  show ?thesis
  proof (cases "m name")
    case None
    with False get [of "''.name''"] show ?thesis
      by (auto simp: kv_event_get_def wp_get_map event_suffixes_def domIff)
  next
    case (Some es)
    then have ok: "event_ok es" using rep by (auto simp: erep_def)
    from Some get have v: "view b (name @ ''.name'') = Some (es_workflow es)"
      "view b (name @ ''.flag'') = Some (itoa (flag_int (event_flag_for_string (es_event es))))"
      "view b (name @ ''.ctx'') = (if es_context es = [] then None else Some (es_context es))"
      "view b (name @ ''.evctx'') = (if es_event_context es = [] then None else Some (es_event_context es))"
      by (simp_all add: event_suffixes_def enc_event_def)
    then have "set [name @ ''.name'', name @ ''.flag''] \<subseteq> dom (view b)" by auto
    with False Some v show ?thesis
      by (simp add: kv_event_get_def wp_get_map wp_event_context or_empty_opt or_empty_some flag_text [OF ok] event_record)
  qed
qed (simp add: kv_event_get_def)

lemma wp_event_subs:
  assumes rep: "erep (view b) m" and ok: "\<forall>n\<in>set names. m n \<noteq> None"
  shows "wp (go_fold (event_subs_body E) names acc) Q b =
           Q (Inr (\<lambda>n. if n \<in> set names then m n else acc n)) b"
  using ok
proof (induction names arbitrary: acc)
  case (Cons n names)
  then obtain es where es: "m n = Some es" by auto
  with rep have "n \<noteq> []" by (auto simp: erep_def)
  then have "wp (event_subs_body E n acc) R b = R (Inr (acc(n \<mapsto> es))) b" for R
    by (simp add: event_subs_body_def wp_event_get [OF rep] es)
  moreover have "(\<lambda>k. if k \<in> set names then m k else (acc(n \<mapsto> es)) k) =
                 (\<lambda>k. if k \<in> set (n # names) then m k else acc k)"
    by (auto simp: es fun_eq_iff)
  ultimately show ?case using Cons by (simp del: fun_upd_apply)
qed simp

lemma wp_event_subs_missing:
  assumes rep: "erep (view b) m" and "\<exists>n\<in>set names. m n = None"
  shows "wp (go_fold (event_subs_body E) names acc) (\<lambda>r b'. (\<exists>e. r = Inl e) \<and> b' = b) b"
  using assms(2)
proof (induction names arbitrary: acc)
  case (Cons n names)
  show ?case
  proof (cases "m n")
    case None
    then show ?thesis
      using event_subs_body_def [of E n acc] by (cases "n = []") (simp_all add: wp_event_get [OF rep])
  next
    case (Some es)
    with rep have "n \<noteq> []" by (auto simp: erep_def)
    with Some have "wp (event_subs_body E n acc) R b = R (Inr (acc(n \<mapsto> es))) b" for R
      by (simp add: event_subs_body_def wp_event_get [OF rep])
    with Cons Some show ?thesis by (simp del: fun_upd_apply)
  qed
qed simp

lemma retrieve_event_subscriptions_run:
  assumes rep: "erep (view (event_store s)) m" and names: "names \<noteq> []"
  shows "if \<forall>n\<in>set names. m n \<noteq> None
         then retrieve_event_subscriptions E names s = (Inr (m |` set names), s)
         else \<exists>e. retrieve_event_subscriptions E names s = (Inl e, s)"
proof (cases "\<forall>n\<in>set names. m n \<noteq> None")
  case True
  have "(\<lambda>n. if n \<in> set names then m n else None) = m |` set names"
    by (auto simp: restrict_map_def)
  with wp_event_subs [OF rep True, of "\<lambda>_. None" "\<lambda>r b. r = Inr (m |` set names) \<and> b = event_store s"] names
  have "wp (retrieve_event_subscriptions E names) (\<lambda>r s'. r = Inr (m |` set names) \<and> s' = s) s"
    by (auto simp: retrieve_event_subscriptions_def Suc_le_eq elim!: wp_mono)
  with True show ?thesis by (auto simp: wp_def split: prod.splits)
next
  case False
  then have "wp (go_fold (event_subs_body E) names (\<lambda>_. None)) (\<lambda>r b. (\<exists>e. r = Inl e) \<and> b = event_store s) (event_store s)"
    by (intro wp_event_subs_missing [OF rep]) auto
  with names have "wp (retrieve_event_subscriptions E names) (\<lambda>r s'. (\<exists>e. r = Inl e) \<and> s' = s) s"
    by (auto simp: retrieve_event_subscriptions_def Suc_le_eq elim!: wp_mono)
  with False show ?thesis by (auto simp: wp_def split: prod.splits)
qed

lemma int_flag_int: "int_flag (flag_int f) = f"
  by (simp add: int_flag_def flag_int_def)

lemma flag_int_inj: "flag_int f = flag_int g \<longleftrightarrow> f = g"
  by (metis int_flag_int)

lemma wp_event_by_name:
  assumes rep: "erep (view b) m" and ok: "\<forall>n\<in>set names. m n \<noteq> None"
  shows "wp (go_fold (event_by_name_body E) names acc) Q b = Q (Inr (acc @ map (\<lambda>n. the (m n)) names)) b"
  using ok
proof (induction names arbitrary: acc)
  case (Cons n names)
  then obtain es where es: "m n = Some es" by auto
  with rep have "n \<noteq> []" by (auto simp: erep_def)
  with es have "wp (event_by_name_body E n acc) R b = R (Inr (acc @ [es])) b" for R
    by (simp add: event_by_name_body_def wp_event_get [OF rep])
  with Cons es show ?case by simp
qed simp

text \<open>The subscriptions for an event are exactly the stored ones of that event type, each once.\<close>

lemma retrieve_by_event_refines:
  assumes rep: "erep (view (event_store s)) m" and f: "f \<noteq> 0"
    and Q: "\<And>names. distinct names \<Longrightarrow>
              set names = {n. \<exists>es. m n = Some es \<and> event_flag_for_string (es_event es) = f} \<Longrightarrow>
              Q (Inr (map (\<lambda>n. the (m n)) names)) s"
  shows "wp (retrieve_event_subscriptions_by_event E f) Q s"
proof -
  let ?b = "event_store s"
  let ?P = "\<lambda>n. \<exists>es. m n = Some es \<and> event_flag_for_string (es_event es) = f"
  have key: "n @ ''.flag'' \<in> set (bk_keys E ?b) \<longleftrightarrow> m n \<noteq> None" for n
    using erep_get [OF rep, of "''.flag''" n]
    by (auto simp: keys_law domIff event_suffixes_def enc_event_def split: option.splits)
  have body: "wp (find_event_body E f k acc) R ?b =
     R (Inr (if has_suffix k ''.flag'' \<and> ?P (chop_suffix k ''.flag'') then acc @ [chop_suffix k ''.flag''] else acc)) ?b"
    if "k \<in> set (bk_keys E ?b)" for k acc R
  proof (cases "has_suffix k ''.flag''")
    case True
    then obtain n where k: "k = n @ ''.flag''" by (auto simp: has_suffix_iff)
    with key that obtain es where es: "m n = Some es" by auto
    then have ok: "event_ok es" using rep by (auto simp: erep_def)
    have "view ?b (n @ ''.flag'') = Some (itoa (flag_int (event_flag_for_string (es_event es))))"
      using erep_get [OF rep, of "''.flag''" n] es by (simp add: event_suffixes_def enc_event_def)
    with es True show ?thesis
      by (auto simp: k find_event_body_def flag_text [OF ok] flag_int_inj)
  qed (simp add: find_event_body_def)
  have "wp (go_fold (find_event_body E f) (bk_keys E ?b) [])
     (\<lambda>r b. b = ?b \<and> (\<exists>names. r = Inr names \<and> distinct names \<and> set names = {n. ?P n})) ?b"
    by (subst wp_suffix_scan [where sfx = "''.flag''" and P = ?P], erule body, unfold append_Nil)
      (use key in \<open>auto simp: distinct_suffix_scan keys_law(1) set_suffix_scan\<close>)
  then have "wp (kv_find_event_sub_names_by_event E f)
     (\<lambda>r b. b = ?b \<and> (\<exists>names. r = Inr names \<and> distinct names \<and> set names = {n. ?P n})) ?b"
    by (simp add: kv_find_event_sub_names_by_event_def wp_def)
  then have "wp (kv_find_event_sub_names_by_event E f)
     (\<lambda>r b. b = ?b \<and> (\<exists>names. r = Inr names \<and> wp (go_fold (event_by_name_body E) names [])
         (\<lambda>r b. b = ?b \<and> Q r s) ?b)) ?b"
  proof (rule wp_mono, elim conjE exE, intro conjI exI)
    fix r b names
    assume names: "distinct names" "set names = {n. ?P n}"
    then have "\<forall>n\<in>set names. m n \<noteq> None" by auto
    from wp_event_by_name [OF rep this] Q [OF names]
    show "wp (go_fold (event_by_name_body E) names []) (\<lambda>r b. b = ?b \<and> Q r s) ?b" by simp
  qed
  moreover have "\<not> f < 1" using f by simp
  ultimately show ?thesis
    by (auto simp: retrieve_event_subscriptions_by_event_def elim!: wp_mono)
qed

lemma delete_event_refines:
  assumes rep: "erep (view (event_store s)) m"
    and Q: "\<And>b. erep (view b) (m(name := None)) \<Longrightarrow> Q (Inr ()) (s\<lparr>event_store := b\<rparr>)"
  shows "wp (delete_event_subscription E name) Q s"
proof -
  have "erep (view (event_store s) |` (- {name @ x | x. x \<in> set event_suffixes})) (m(name := None))"
    by (rule erep_update [OF rep]) (auto simp: restrict_map_def)
  moreover have "set (map (\<lambda>x. name @ x) event_suffixes) = {name @ x | x. x \<in> set event_suffixes}" by auto
  ultimately have "wp (kv_delete_keys_if_exists E (map (\<lambda>x. name @ x) event_suffixes))
     (\<lambda>r b. r = Inr () \<and> Q (Inr ()) (s\<lparr>event_store := b\<rparr>)) (event_store s)"
    by (intro wp_delete_keys_if_exists conjI refl Q) simp
  then show ?thesis by (auto simp: delete_event_subscription_def elim!: wp_mono)
qed

end

section \<open>Workflow status\<close>

text \<open>The status bucket as instants by status key.\<close>

definition spec_started :: "string list \<Rightarrow> string \<Rightarrow> time \<Rightarrow> (string \<rightharpoonup> time) \<Rightarrow> (string \<rightharpoonup> time)" where
  "spec_started ids name t T = foldl (\<lambda>T i. T(workflow_status_key i name \<mapsto> t)) T ids"

definition spec_clear_status :: "string \<Rightarrow> (string \<rightharpoonup> time) \<Rightarrow> (string \<rightharpoonup> time)" where
  "spec_clear_status i T = (\<lambda>k. if has_prefix k (i @ ''.'') then None else T k)"

lemma spec_started_eq:
  "spec_started ids name t T k = (if k \<in> (\<lambda>i. workflow_status_key i name) ` set ids then Some t else T k)"
  unfolding spec_started_def by (induction ids arbitrary: T) auto

lemma status_key_inj: "workflow_status_key i name = workflow_status_key j name \<longleftrightarrow> i = j"
  by (simp add: workflow_status_key_def)

lemma status_key_prefix: "has_prefix (workflow_status_key i name) (i @ ''.'')"
  by (auto simp: has_prefix_iff workflow_status_key_def)

context kv_laws
begin

definition trep :: "(string \<rightharpoonup> bytes) \<Rightarrow> (string \<rightharpoonup> time) \<Rightarrow> bool" where
  "trep V T \<longleftrightarrow> V = (\<lambda>k. map_option time_text (T k)) \<and> (\<forall>k t. T k = Some t \<longrightarrow> go_time t)"

lemma trep_update: "trep V T \<Longrightarrow> go_time t \<Longrightarrow> trep (V(k \<mapsto> time_text t)) (T(k \<mapsto> t))"
  by (auto simp: trep_def fun_eq_iff)

lemma record_started_refines:
  assumes rep: "trep (view (status_store s)) T" and t: "go_time t"
    and Q: "\<And>b. trep (view b) (spec_started ids name t T) \<Longrightarrow> Q (Inr ()) (s\<lparr>status_store := b\<rparr>)"
  shows "wp (record_workflow_started E ids name t) Q s"
proof -
  have "wp (go_for ids (\<lambda>i. go_wrap ''setting workflow status for id=%s workflow=%s: %w'' [i, name]
          (in_status (bk_set E (workflow_status_key i name) (time_text t))))) Q s"
    using rep Q
  proof (induction ids arbitrary: s T)
    case Nil
    then have "Q (Inr ()) (s\<lparr>status_store := status_store s\<rparr>)"
      by (intro Nil.prems(2)) (simp add: spec_started_def)
    then show ?case by simp
  next
    case (Cons i ids)
    show ?case
      by (simp, rule Cons.IH [where T = "T(workflow_status_key i name \<mapsto> t)"])
        (use Cons.prems trep_update [OF _ t] in \<open>auto simp: spec_started_def simp del: fun_upd_apply\<close>)
  qed
  then show ?thesis by (simp add: record_workflow_started_def marshal_time_text [OF t])
qed

lemma retrieve_started_refines:
  assumes rep: "trep (view (status_store s)) T"
  shows "wp (retrieve_workflow_started E i name) Q s =
     Q (Inr (case T (workflow_status_key i name) of None \<Rightarrow> 0 | Some t \<Rightarrow> t)) s"
proof (cases "T (workflow_status_key i name)")
  case None
  with rep show ?thesis by (simp add: retrieve_workflow_started_def trep_def)
next
  case (Some t)
  then have "go_time t" using rep by (auto simp: trep_def)
  with rep Some show ?thesis by (simp add: retrieve_workflow_started_def trep_def unmarshal_time_text)
qed

lemma clear_status_refines:
  assumes rep: "trep (view (status_store s)) T"
    and Q: "\<And>b. trep (view b) (spec_clear_status i T) \<Longrightarrow> Q (Inr ()) (s\<lparr>status_store := b\<rparr>)"
  shows "wp (clear_workflow_status E i) Q s"
proof -
  let ?ks = "filter (\<lambda>k. has_prefix k (i @ ''.'')) (bk_keys E (status_store s))"
  have "wp (bk_delete_slice E ?ks) (\<lambda>r b. Q r (s\<lparr>status_store := b\<rparr>)) (status_store s)"
  proof (rule wp_delete_slice)
    fix b'
    assume "view b' = view (status_store s) |` (- set ?ks)"
    then have "trep (view b') (spec_clear_status i T)"
      using rep by (auto simp: trep_def spec_clear_status_def restrict_map_def keys_law fun_eq_iff)
    then show "Q (Inr ()) (s\<lparr>status_store := b'\<rparr>)" by (rule Q)
  qed (auto simp: keys_law)
  then have "wp (in_status (bk_delete_slice E ?ks)) Q s" by simp
  then show ?thesis by (simp add: clear_workflow_status_def wp_def del: wp_in_status)
qed

end

end
