(* ===== verification/KVProps.thy ===== *)
theory KVProps
  imports KVEvent
begin

text \<open>
  The properties of the key-value backend, stated for every environment that obeys the laws of
  \<open>kv_laws\<close>, each with a witness on the in-memory environment.
\<close>

section \<open>Stores of the in-memory environment\<close>

definition empty_astore :: astore where
  "empty_astore = \<lparr>a_steps = Map.empty, a_cmds = Map.empty\<rparr>"

definition empty_mem :: "time \<Rightarrow> mem_bucket kv_store" where
  "empty_mem now =
     \<lparr>step_store = [], id_cmd_store = [], event_store = [], status_store = [], ids_issued = 0,
      wall_clock = now\<rparr>"

lemma rep_empty: "inmem.rep n (empty_mem now) empty_astore"
  by (simp add: inmem.rep_def inmem.srep_def inmem.crep_def empty_astore_def empty_mem_def)

definition sample_step :: step_config where
  "sample_step =
     \<lparr>ctx_workflow_name = ''wf'', ctx_instance_id = ''inst'', ctx_name = ''first'', ctx_context = ''ctx'',
      enq_ids = [''AAA'', ''BBB''],
      enq_commands = [\<lparr>raw_uuid = ''c1'', raw_request_type = ''DeviceLock'', raw_command = ''raw1''\<rparr>,
                      \<lparr>raw_uuid = ''c2'', raw_request_type = ''ProfileList'', raw_command = ''raw2''\<rparr>],
      cfg_not_until = 0, cfg_step_timeout = 500\<rparr>"

lemma new_uuid_mem: "new_uuid inmem_env j = CHR ''u'' # digits j"
  by (simp add: inmem_env_def)

lemma storable_sample: "storable 2 inmem_env sample_step"
  by (simp add: storable_def sample_step_def validate_step_config_iff astep_ok_def astep_of_def
      go_time_def max_go_time_def new_uuid_mem)

lemma fresh_sample: "fresh_pairs sample_step empty_astore"
  by (simp add: fresh_pairs_def sample_step_def empty_astore_def)

lemma digits_0: "digits 0 = ''0''" by code_simp

section \<open>Storing a step\<close>

text \<open>
  C1: A valid step whose commands are new for its enrollments is stored, with the ID the generator
  hands out: the store then represents exactly the abstract state with the step and, for every
  enrollment and command, a command that is not complete and counts as pushed now, or never when the
  step is delayed, with the raw commands kept under the step's ID in that case.
\<close>

theorem store_step_stores:
  assumes "kv_laws E view" "kv_laws.rep E view n s a" "storable n E st" "fresh_pairs st a"
    "go_time (wall_clock s)"
  shows "\<exists>s'. store_step E (Some st) pt s = (Inr (), s') \<and>
              kv_laws.rep E view n s' (spec_store_step (new_uuid E (ids_issued s)) (wall_clock s) st a) \<and>
              ids_issued s' = Suc (ids_issued s) \<and> event_store s' = event_store s \<and>
              status_store s' = status_store s"
proof -
  have "wp (store_step E (Some st) pt)
     (\<lambda>r s'. r = Inr () \<and>
        kv_laws.rep E view n s' (spec_store_step (new_uuid E (ids_issued s)) (wall_clock s) st a) \<and>
        ids_issued s' = Suc (ids_issued s) \<and> event_store s' = event_store s \<and>
        status_store s' = status_store s) s"
    by (rule kv_laws.store_step_refines [OF assms]) simp
  then show ?thesis by (auto simp: wp_ex)
qed

theorem store_step_stores_witness:
  "\<exists>s'. store_step inmem_env (Some sample_step) 0 (empty_mem 7) = (Inr (), s') \<and>
        inmem.rep 2 s' (spec_store_step ''u0'' 7 sample_step empty_astore)"
proof -
  have "new_uuid inmem_env (ids_issued (empty_mem 7)) = ''u0''" "wall_clock (empty_mem 7) = 7"
    by (simp_all add: new_uuid_mem empty_mem_def digits_0)
  then show ?thesis
    using store_step_stores [OF inmem.kv_laws_axioms rep_empty [of 2 7] storable_sample fresh_sample, of 0]
    by (simp add: go_time_def max_go_time_def) blast
qed

end
