(* ===== verification/KVStepProps.thy ===== *)
theory KVStepProps
  imports KVProps
begin

text \<open>
  More properties of the key-value backend: rejected steps, command responses one at a time and in
  sequence, outstanding enrollments, cancellation, and the three queries of the worker. The helper
  lemmas turn the refinement lemmas of \<open>kv_laws\<close> into runs, and keep a stored sample step for the
  witnesses.
\<close>

section \<open>Helpers\<close>

lemma run_of_wp:
  assumes "wp m (\<lambda>r s'. r = x \<and> P s') s"
  shows "\<exists>s'. m s = (x, s') \<and> P s'"
  using assms by (auto simp: wp_ex)

definition sample_astore :: astore where
  "sample_astore = spec_store_step ''u0'' 7 sample_step empty_astore"

lemma sample_steps: "a_steps sample_astore = [''u0'' \<mapsto> astep_of sample_step]"
  by (simp add: sample_astore_def spec_store_step_def empty_astore_def)

lemma sample_cmds:
  "a_cmds sample_astore (i, u) =
     (if i = ''AAA'' \<or> i = ''BBB'' then
        if u = ''c1'' then Some (new_acmd ''u0'' \<lparr>raw_uuid = ''c1'', raw_request_type = ''DeviceLock'', raw_command = ''raw1''\<rparr> 7 False)
        else if u = ''c2'' then Some (new_acmd ''u0'' \<lparr>raw_uuid = ''c2'', raw_request_type = ''ProfileList'', raw_command = ''raw2''\<rparr> 7 False)
        else None
      else None)"
  by (simp add: sample_astore_def spec_store_step_def empty_astore_def sample_step_def spec_store_command_eq)

lemma stored_exists:
  assumes "storable 2 inmem_env st" "fresh_pairs st empty_astore"
  shows "\<exists>s. inmem.rep 2 s (spec_store_step ''u0'' 7 st empty_astore) \<and> wall_clock s = 7 \<and> status_store s = []"
proof -
  have *: "new_uuid inmem_env (ids_issued (empty_mem 7)) = ''u0''" "wall_clock (empty_mem 7) = 7"
    "go_time (wall_clock (empty_mem 7))"
    by (simp_all add: new_uuid_mem empty_mem_def digits_0 go_time_def max_go_time_def)
  have "wp (store_step inmem_env (Some st) 0)
      (\<lambda>r s'. r = Inr () \<and> inmem.rep 2 s' (spec_store_step ''u0'' 7 st empty_astore) \<and> wall_clock s' = 7 \<and> status_store s' = []) (empty_mem 7)"
    by (rule inmem.store_step_refines [OF rep_empty assms *(3)]) (simp_all add: *, simp add: empty_mem_def)
  then show ?thesis by (auto simp: wp_ex)
qed

lemma sample_stored: "\<exists>s. inmem.rep 2 s sample_astore \<and> wall_clock s = 7 \<and> status_store s = []"
  unfolding sample_astore_def by (rule stored_exists [OF storable_sample fresh_sample])

lemma distinct_single: "distinct r \<Longrightarrow> set r = {x} \<Longrightarrow> r = [x]"
  by (cases r; cases "tl r") auto

lemma sample_store_exists:
  obtains s where "inmem.rep 2 s sample_astore" "wall_clock s = 7"
  using sample_stored by blast

section \<open>Rejected steps\<close>

text \<open>
  A step that does not pass its validation, or names an enrollment twice, or has a command that
  is stored for one of its enrollments already, is refused with an error and nothing is stored: only
  an ID of the generator is used up.
\<close>

theorem store_step_refused:
  assumes "kv_laws E view" "kv_laws.rep E view n s a"
    and "validate_step_config so \<noteq> Inr () \<or>
         (\<exists>st. so = Some st \<and> \<not> fresh_pairs st a \<and> (\<forall>c\<in>set (enq_commands st). length (raw_uuid c) = n))"
  shows "\<exists>e. store_step E so pt s = (Inl e, s\<lparr>ids_issued := Suc (ids_issued s)\<rparr>)"
  using kv_laws.store_step_rejects [OF assms] .

theorem store_step_refused_witness:
  "\<exists>e. store_step inmem_env (Some (sample_step\<lparr>enq_ids := [''AAA'', ''AAA'']\<rparr>)) 0 (empty_mem 7) =
     (Inl e, (empty_mem 7)\<lparr>ids_issued := 1\<rparr>)"
proof -
  have "\<not> fresh_pairs (sample_step\<lparr>enq_ids := [''AAA'', ''AAA'']\<rparr>) empty_astore"
    by (simp add: fresh_pairs_def)
  then have "\<exists>e. store_step inmem_env (Some (sample_step\<lparr>enq_ids := [''AAA'', ''AAA'']\<rparr>)) 0 (empty_mem 7) =
     (Inl e, (empty_mem 7)\<lparr>ids_issued := Suc (ids_issued (empty_mem 7))\<rparr>)"
    by (intro store_step_refused [OF inmem.kv_laws_axioms rep_empty [of 2]]) (auto simp: sample_step_def)
  then show ?thesis by (simp add: empty_mem_def)
qed

section \<open>Command responses\<close>

text \<open>
  A command response has exactly the effect of the specification: an unknown command is an error,
  a response that does not complete the command is kept and yields nothing, and one that completes the
  last command of its step for the enrollment yields the step's result with all reports and removes
  the enrollment's commands, and the step too once every enrollment is accounted for.
\<close>

theorem response_stored:
  assumes "kv_laws E view" "kv_laws.rep E view n s a" "length (cr_uuid r) = n"
  shows "\<exists>s'. store_command_response E i r s = (fst (spec_store_response i r a), s') \<and>
              kv_laws.rep E view n s' (snd (spec_store_response i r a)) \<and> same_others s s'"
  by (rule run_of_wp, rule kv_laws.store_command_response_refines [OF assms]) auto

definition sample_response :: "string \<Rightarrow> bool \<Rightarrow> command_result" where
  "sample_response u d = \<lparr>cr_uuid = u, cr_request_type = [], cr_report = ''rep'' @ u, cr_completed = d\<rparr>"

theorem response_stored_witness:
  "\<exists>s s'. inmem.rep 2 s sample_astore \<and>
     store_command_response inmem_env ''AAA'' (sample_response ''c1'' True) s = (Inr None, s')"
proof -
  obtain s where s: "inmem.rep 2 s sample_astore" using sample_store_exists .
  have "fst (spec_store_response ''AAA'' (sample_response ''c1'' True) sample_astore) = Inr None"
    by (simp add: spec_store_response_def sample_cmds sample_steps sample_response_def new_acmd_def
        set_response_def cmd_done_def astep_of_def sample_step_def)
  then show ?thesis
    using response_stored [OF inmem.kv_laws_axioms s, of "sample_response ''c1'' True" "''AAA''"] s
    by (auto simp: sample_response_def)
qed

subsection \<open>A step's responses in any order\<close>

definition respond_all ::
  "'b kv_env \<Rightarrow> string \<Rightarrow> command_result list \<Rightarrow> ('b kv_store, step_result option list) action" where
  "respond_all E i rs =
     go_fold (\<lambda>r acc. go_bind (store_command_response E i r) (\<lambda>x. go_ret (acc @ [x]))) rs []"

definition answer_cmds ::
  "string \<Rightarrow> command_result list \<Rightarrow> (string \<times> string \<rightharpoonup> acmd) \<Rightarrow> (string \<times> string \<rightharpoonup> acmd)" where
  "answer_cmds i rs m =
     foldl (\<lambda>m r. m((i, cr_uuid r) := map_option (set_response r) (m (i, cr_uuid r)))) m rs"

definition completed_uuids :: "command_result list \<Rightarrow> string set" where
  "completed_uuids rs = set (map cr_uuid (filter cr_completed rs))"

definition last_report :: "command_result list \<Rightarrow> string \<rightharpoonup> bytes" where
  "last_report rs = map_of (rev (map (\<lambda>r. (cr_uuid r, cr_report r)) rs))"

lemma answer_cmds_snoc:
  "answer_cmds i (rs @ [r]) m =
     (answer_cmds i rs m)((i, cr_uuid r) := map_option (set_response r) (answer_cmds i rs m (i, cr_uuid r)))"
  by (simp add: answer_cmds_def)

lemma completed_uuids_snoc:
  "completed_uuids (rs @ [r]) = (if cr_completed r then {cr_uuid r} else {}) \<union> completed_uuids rs"
  by (auto simp: completed_uuids_def)

lemma last_report_snoc: "last_report (rs @ [r]) = (last_report rs)(cr_uuid r \<mapsto> cr_report r)"
  by (simp add: last_report_def fun_eq_iff)

lemma answer_cmds_get:
  assumes "m (i, u) = Some c"
  shows "\<exists>c'. answer_cmds i rs m (i, u) = Some c' \<and> ac_step c' = ac_step c \<and>
              ac_request_type c' = ac_request_type c \<and>
              ac_done c' = (ac_done c \<or> u \<in> completed_uuids rs) \<and>
              ac_report c' = (case last_report rs u of None \<Rightarrow> ac_report c | Some b \<Rightarrow> Some b)"
proof (induction rs rule: rev_induct)
  case (snoc r rs)
  then show ?case
    by (auto simp: answer_cmds_snoc completed_uuids_snoc last_report_snoc set_response_def)
qed (simp add: answer_cmds_def assms completed_uuids_def last_report_def)

lemma spec_response_pending:
  assumes c: "a_cmds a (i, cr_uuid r) = Some c" and st: "a_steps a (ac_step c) = Some st"
    and more: "cr_completed r \<longrightarrow> (\<exists>u\<in>set (as_uuids st). u \<noteq> cr_uuid r \<and> \<not> cmd_done (a_cmds a) i u)"
  shows "spec_store_response i r a =
           (Inr None, a\<lparr>a_cmds := (a_cmds a)((i, cr_uuid r) := map_option (set_response r) (a_cmds a (i, cr_uuid r)))\<rparr>)"
  using assms by (auto simp: spec_store_response_def Let_def list_all_iff cmd_done_def)

lemma spec_response_last:
  assumes c: "a_cmds a (i, cr_uuid r) = Some c" and st: "a_steps a (ac_step c) = Some st"
    and r: "cr_completed r" and all: "\<forall>u\<in>set (as_uuids st). u = cr_uuid r \<or> cmd_done (a_cmds a) i u"
    and m: "m = (a_cmds a)((i, cr_uuid r) := map_option (set_response r) (a_cmds a (i, cr_uuid r)))"
  shows "spec_store_response i r a =
           (Inr (Some (spec_step_result m i r st)), spec_finish_step i (ac_step c) st (a\<lparr>a_cmds := m\<rparr>))"
proof -
  have "list_all (cmd_done m i) (as_uuids st)"
    using assms by (auto simp: list_all_iff cmd_done_def set_response_def)
  then show ?thesis using c st r m by (simp add: spec_store_response_def Let_def)
qed

text \<open>The enrollment has every command of the step, none complete.\<close>

definition awaits :: "astore \<Rightarrow> string \<Rightarrow> astep \<Rightarrow> string \<Rightarrow> bool" where
  "awaits a sid st i \<longleftrightarrow>
     a_steps a sid = Some st \<and>
     (\<forall>u\<in>set (as_uuids st). \<exists>c. a_cmds a (i, u) = Some c \<and> ac_step c = sid \<and> \<not> ac_done c)"

definition report_result :: "astore \<Rightarrow> string \<Rightarrow> command_result list \<Rightarrow> command_result \<Rightarrow> string \<Rightarrow> command_result" where
  "report_result a i rs r u =
     \<lparr>cr_uuid = u,
      cr_request_type = (if u = cr_uuid r \<and> cr_request_type r \<noteq> [] then cr_request_type r
                         else ac_request_type (the (a_cmds a (i, u)))),
      cr_report = the (last_report rs u), cr_completed = True\<rparr>"

lemma completed_reported: "u \<in> completed_uuids rs \<Longrightarrow> last_report rs u \<noteq> None"
  by (auto simp: completed_uuids_def last_report_def map_of_eq_None_iff image_image)

lemma go_fold_snoc: "go_fold f (xs @ [x]) acc = go_bind (go_fold f xs acc) (f x)"
  by (induction xs arbitrary: acc) (auto simp: go_defs fun_eq_iff split: prod.splits sum.splits)

lemma respond_prefix:
  assumes kv: "kv_laws E view" and rep: "kv_laws.rep E view n s a" and w: "awaits a sid st i"
    and len: "\<forall>u\<in>set (as_uuids st). length u = n"
    and rs: "cr_uuid ` set rs \<subseteq> set (as_uuids st)" "\<not> set (as_uuids st) \<subseteq> completed_uuids rs"
  shows "wp (respond_all E i rs)
           (\<lambda>x s'. x = Inr (replicate (length rs) None) \<and>
              kv_laws.rep E view n s' (a\<lparr>a_cmds := answer_cmds i rs (a_cmds a)\<rparr>)) s"
  using rs
proof (induction rs rule: rev_induct)
  case Nil
  then show ?case using rep by (simp add: respond_all_def answer_cmds_def)
next
  case (snoc r rs)
  have IH: "wp (respond_all E i rs)
           (\<lambda>x s'. x = Inr (replicate (length rs) None) \<and>
              kv_laws.rep E view n s' (a\<lparr>a_cmds := answer_cmds i rs (a_cmds a)\<rparr>)) s"
    using snoc by (auto simp: completed_uuids_def)
  let ?b = "a\<lparr>a_cmds := answer_cmds i rs (a_cmds a)\<rparr>"
  have "cr_uuid r \<in> set (as_uuids st)" using snoc.prems by auto
  with w obtain c where c: "a_cmds a (i, cr_uuid r) = Some c" "ac_step c = sid"
    by (auto simp: awaits_def)
  obtain c' where c': "a_cmds ?b (i, cr_uuid r) = Some c'" "ac_step c' = sid"
    using answer_cmds_get [of "a_cmds a" i "cr_uuid r" c rs] c by auto
  obtain v where v: "v \<in> set (as_uuids st)" "v \<notin> completed_uuids (rs @ [r])" using snoc.prems by auto
  with w obtain d where d: "a_cmds a (i, v) = Some d" "\<not> ac_done d" by (auto simp: awaits_def)
  have "\<not> cmd_done (a_cmds ?b) i v"
    using answer_cmds_get [of "a_cmds a" i v d rs] d v by (auto simp: cmd_done_def completed_uuids_def)
  moreover have "cr_completed r \<Longrightarrow> v \<noteq> cr_uuid r" using v by (auto simp: completed_uuids_def)
  ultimately have spec: "spec_store_response i r ?b =
      (Inr None, a\<lparr>a_cmds := answer_cmds i (rs @ [r]) (a_cmds a)\<rparr>)"
    using spec_response_pending [of ?b i r c' st] c' v(1) w by (auto simp: awaits_def answer_cmds_snoc)
  have step: "wp (store_command_response E i r)
      (\<lambda>x s'. x = Inr None \<and> kv_laws.rep E view n s' (a\<lparr>a_cmds := answer_cmds i (rs @ [r]) (a_cmds a)\<rparr>)) t"
    if "kv_laws.rep E view n t ?b" for t
    by (rule kv_laws.store_command_response_refines [OF kv that])
      (use len \<open>cr_uuid r \<in> set (as_uuids st)\<close> spec in auto)
  obtain t where t: "respond_all E i rs s = (Inr (replicate (length rs) None), t)" "kv_laws.rep E view n t ?b"
    using run_of_wp [OF IH] by blast
  obtain u where "store_command_response E i r t = (Inr None, u)"
    "kv_laws.rep E view n u (a\<lparr>a_cmds := answer_cmds i (rs @ [r]) (a_cmds a)\<rparr>)"
    using run_of_wp [OF step [OF t(2)]] by blast
  then show ?case using t(1)
    by (simp add: respond_all_def go_fold_snoc wp_def go_defs replicate_append_same)
qed

text \<open>
  C2: The responses to a step's commands may come in any order, repeatedly and with pending ones in
  between: none of them yields a result until the last command of the enrollment completes, and that
  one yields the step's result, with the commands in the step's order and for each the last report
  received; the enrollment has no command of the step afterwards.
\<close>

theorem responses_in_any_order:
  assumes "kv_laws E view" "kv_laws.rep E view n s a" "awaits a sid st i"
    and "\<forall>u\<in>set (as_uuids st). length u = n"
    and "cr_uuid ` set rs \<subseteq> set (as_uuids st)" "cr_completed r" "cr_uuid r \<in> set (as_uuids st)"
    and "cr_uuid r \<notin> completed_uuids rs" "set (as_uuids st) = insert (cr_uuid r) (completed_uuids rs)"
  shows "\<exists>s' a'. respond_all E i (rs @ [r]) s =
           (Inr (replicate (length rs) None @
              [Some \<lparr>ctx_workflow_name = as_workflow st, ctx_instance_id = as_instance st,
                     ctx_name = as_name st, ctx_context = as_context st, res_ids = [i],
                     res_commands = map (report_result a i (rs @ [r]) r) (as_uuids st)\<rparr>]), s') \<and>
         kv_laws.rep E view n s' a' \<and> (\<forall>u\<in>set (as_uuids st). a_cmds a' (i, u) = None)"
proof -
  let ?m = "answer_cmds i rs (a_cmds a)"
  let ?b = "a\<lparr>a_cmds := ?m\<rparr>" and ?m' = "answer_cmds i (rs @ [r]) (a_cmds a)"
  let ?a' = "spec_finish_step i sid st (a\<lparr>a_cmds := ?m'\<rparr>)"
  have w: "a_steps a sid = Some st"
    "\<And>u. u \<in> set (as_uuids st) \<Longrightarrow> \<exists>c. a_cmds a (i, u) = Some c \<and> ac_step c = sid \<and> \<not> ac_done c"
    using assms(3) by (auto simp: awaits_def)
  obtain t where t: "respond_all E i rs s = (Inr (replicate (length rs) None), t)" "kv_laws.rep E view n t ?b"
    using run_of_wp [OF respond_prefix [OF assms(1-5)]] assms(7,8) by blast
  obtain c where c: "a_cmds a (i, cr_uuid r) = Some c" "ac_step c = sid" using w(2) [OF assms(7)] by auto
  then obtain c' where c': "?m (i, cr_uuid r) = Some c'" "ac_step c' = sid"
    using answer_cmds_get [of "a_cmds a" i "cr_uuid r" c rs] by auto
  have "\<forall>u\<in>set (as_uuids st). u = cr_uuid r \<or> cmd_done ?m i u"
  proof
    fix u assume u: "u \<in> set (as_uuids st)"
    then obtain d where "a_cmds a (i, u) = Some d" using w(2) by blast
    then show "u = cr_uuid r \<or> cmd_done ?m i u"
      using answer_cmds_get [of "a_cmds a" i u d rs] assms(9) u by (auto simp: cmd_done_def)
  qed
  then have spec: "spec_store_response i r ?b = (Inr (Some (spec_step_result ?m' i r st)), ?a')"
    using spec_response_last [of ?b i r c' st ?m'] c' w(1) assms(6) by (auto simp: answer_cmds_snoc)
  have fin: "wp (store_command_response E i r)
      (\<lambda>x s'. x = Inr (Some (spec_step_result ?m' i r st)) \<and> kv_laws.rep E view n s' ?a') t"
    by (rule kv_laws.store_command_response_refines [OF assms(1) t(2)]) (use spec assms(4,7) in auto)
  obtain s' where s': "store_command_response E i r t = (Inr (Some (spec_step_result ?m' i r st)), s')"
    "kv_laws.rep E view n s' ?a'" using run_of_wp [OF fin] by blast
  have "spec_result ?m' i r u = report_result a i (rs @ [r]) r u" if u: "u \<in> set (as_uuids st)" for u
  proof -
    obtain d where d: "a_cmds a (i, u) = Some d" "\<not> ac_done d" using w(2) [OF u] by auto
    have "u \<in> completed_uuids (rs @ [r])" using assms(6,9) u by (simp add: completed_uuids_snoc)
    then show ?thesis
      using answer_cmds_get [of "a_cmds a" i u d "rs @ [r]"] completed_reported [of u "rs @ [r]"] d
      by (auto simp: spec_result_def report_result_def)
  qed
  then have "res_commands (spec_step_result ?m' i r st) = map (report_result a i (rs @ [r]) r) (as_uuids st)"
    by (simp add: spec_step_result_def)
  then have res: "spec_step_result ?m' i r st =
      \<lparr>ctx_workflow_name = as_workflow st, ctx_instance_id = as_instance st,
       ctx_name = as_name st, ctx_context = as_context st, res_ids = [i],
       res_commands = map (report_result a i (rs @ [r]) r) (as_uuids st)\<rparr>"
    by (simp add: spec_step_result_def)
  have "\<forall>u\<in>set (as_uuids st). a_cmds ?a' (i, u) = None"
    by (simp add: spec_finish_step_def Let_def remove_cmds_def)
  then show ?thesis using t(1) s' res
    by (auto simp: respond_all_def go_fold_snoc go_defs)
qed

theorem responses_in_any_order_witness:
  "\<exists>s s'. respond_all inmem_env ''BBB''
            [sample_response ''c2'' False, sample_response ''c2'' True, sample_response ''c1'' True] s =
     (Inr [None, None,
        Some \<lparr>ctx_workflow_name = ''wf'', ctx_instance_id = ''inst'', ctx_name = ''first'', ctx_context = ''ctx'',
              res_ids = [''BBB''],
              res_commands =
                [\<lparr>cr_uuid = ''c1'', cr_request_type = ''DeviceLock'', cr_report = ''repc1'', cr_completed = True\<rparr>,
                 \<lparr>cr_uuid = ''c2'', cr_request_type = ''ProfileList'', cr_report = ''repc2'', cr_completed = True\<rparr>]\<rparr>], s')"
proof -
  obtain s where s: "inmem.rep 2 s sample_astore" using sample_store_exists .
  let ?rs = "[sample_response ''c2'' False, sample_response ''c2'' True]"
  let ?r = "sample_response ''c1'' True"
  have w: "awaits sample_astore ''u0'' (astep_of sample_step) ''BBB''"
    by (simp add: awaits_def sample_steps sample_cmds astep_of_def sample_step_def new_acmd_def)
  have "completed_uuids ?rs = {''c2''}" by (auto simp: completed_uuids_def sample_response_def)
  then show ?thesis
    using responses_in_any_order [OF inmem.kv_laws_axioms s w, of ?rs ?r]
    by (auto simp: sample_response_def astep_of_def sample_step_def report_result_def last_report_def sample_cmds new_acmd_def)
qed

section \<open>Outstanding enrollments\<close>

text \<open>
  C16: The outstanding query returns exactly the enrollments asked for that have an incomplete command in
  a stored step of the workflow that one of the asked enrollments belongs to, each once, and changes nothing.
\<close>

theorem outstanding_answer:
  assumes "kv_laws E view" "kv_laws.rep E view n s a"
  shows "\<exists>r. retrieve_outstanding_workflow_status E name ids s = (Inr r, s) \<and>
             distinct r \<and> set r = {i. outstanding a name ids i}"
proof -
  have "wp (retrieve_outstanding_workflow_status E name ids)
      (\<lambda>x s'. s' = s \<and> (\<exists>r. x = Inr r \<and> distinct r \<and> set r = {i. outstanding a name ids i})) s"
    by (rule kv_laws.outstanding_exact [OF assms]) auto
  then show ?thesis by (auto simp: wp_ex)
qed

lemma sample_outstanding: "outstanding sample_astore ''wf'' [''CCC'', ''BBB''] i \<longleftrightarrow> i = ''BBB''"
  by (auto simp: outstanding_def wf_step_of_def sample_steps sample_cmds astep_of_def sample_step_def
      incomplete_def new_acmd_def)

theorem outstanding_answer_witness:
  "\<exists>s. inmem.rep 2 s sample_astore \<and>
       retrieve_outstanding_workflow_status inmem_env ''wf'' [''CCC'', ''BBB''] s = (Inr [''BBB''], s)"
proof -
  obtain s where s: "inmem.rep 2 s sample_astore" using sample_store_exists .
  obtain r where r: "retrieve_outstanding_workflow_status inmem_env ''wf'' [''CCC'', ''BBB''] s = (Inr r, s)"
    "distinct r" "set r = {i. outstanding sample_astore ''wf'' [''CCC'', ''BBB''] i}"
    using outstanding_answer [OF inmem.kv_laws_axioms s] by blast
  have "r = [''BBB'']" using r(2,3) unfolding sample_outstanding by (simp add: distinct_single)
  then show ?thesis using r(1) s by blast
qed

section \<open>Cancellation\<close>

text \<open>
  C17: Cancelling a workflow's steps for an enrollment removes every step of that workflow the enrollment
  belongs to and the enrollment's commands of those steps, and nothing else.
\<close>

theorem cancel_removes:
  assumes "kv_laws E view" "kv_laws.rep E view n s a"
  shows "\<exists>s'. cancel_steps E i name s = (Inr (), s') \<and>
              kv_laws.rep E view n s' (spec_cancel i name a) \<and> same_others s s'"
  by (rule run_of_wp, rule kv_laws.cancel_steps_refines [OF assms]) auto

theorem cancel_removes_witness:
  "\<exists>s s'. inmem.rep 2 s sample_astore \<and> cancel_steps inmem_env ''AAA'' ''wf'' s = (Inr (), s') \<and>
     inmem.rep 2 s' (spec_cancel ''AAA'' ''wf'' sample_astore)"
proof -
  obtain s where s: "inmem.rep 2 s sample_astore" using sample_store_exists .
  then show ?thesis using cancel_removes [OF inmem.kv_laws_axioms s, of "''AAA''" "''wf''"] by blast
qed

lemma cancel_all_run:
  assumes kv: "kv_laws E view" and rep: "kv_laws.rep E view n s a"
  shows "\<exists>s'. cancel_steps E i [] s = (Inr (), s') \<and> kv_laws.rep E view n s' a \<and> same_others s s'"
proof -
  have "as_workflow st \<noteq> []" if "a_steps a sid = Some st" for sid st
    using that rep kv_laws.srep_ok [OF kv] kv_laws.rep_def [OF kv] by (fastforce simp: astep_ok_def)
  then have "\<not> wf_step_of a [] [i] sid" for sid by (auto simp: wf_step_of_def split: option.splits)
  then have "spec_cancel i [] a = a" by (simp add: spec_cancel_def fun_eq_iff)
  moreover have "\<exists>s'. cancel_steps E i [] s = (Inr (), s') \<and> kv_laws.rep E view n s' (spec_cancel i [] a) \<and> same_others s s'"
    by (rule run_of_wp, rule kv_laws.cancel_steps_refines [OF kv rep]) auto
  ultimately show ?thesis by simp
qed

text \<open>
  Cancelling with an empty workflow name, which the storage interface documents as cancelling the
  steps of all workflows and which the engine does on an Authenticate or CheckOut check-in, cancels no
  step at all in the key-value backend: the store represents the same steps and commands afterwards.
\<close>

theorem cancel_all_cancels_nothing:
  assumes "kv_laws E view" "kv_laws.rep E view n s a"
  shows "\<exists>s'. cancel_steps E i [] s = (Inr (), s') \<and> kv_laws.rep E view n s' a \<and> same_others s s'"
  using cancel_all_run [OF assms] .

theorem cancel_all_cancels_nothing_witness:
  "\<exists>s s'. inmem.rep 2 s sample_astore \<and> cancel_steps inmem_env ''AAA'' [] s = (Inr (), s') \<and>
     inmem.rep 2 s' sample_astore"
proof -
  obtain s where s: "inmem.rep 2 s sample_astore" using sample_store_exists .
  then show ?thesis using cancel_all_cancels_nothing [OF inmem.kv_laws_axioms s, of "''AAA''"] by blast
qed

text \<open>
  C38: When a step belongs to several enrollments, cancelling it for one of them makes the response
  that completes a command of another one fail: the step is gone, the other enrollment's command is not.
\<close>

theorem cancel_breaks_others:
  assumes "kv_laws E view" "kv_laws.rep E view n s a"
    and "a_steps a sid = Some st" "i \<in> set (as_ids st)" "j \<noteq> i"
    and "a_cmds a (j, cr_uuid r) = Some c" "ac_step c = sid" "cr_completed r"
  shows "\<exists>s' s''. cancel_steps E i (as_workflow st) s = (Inr (), s') \<and>
           store_command_response E j r s' = (Inl (Wrapf ''reading step commands: %w'' [] ErrKeyNotFound), s'')"
proof -
  let ?b = "spec_cancel i (as_workflow st) a"
  obtain s' where s': "cancel_steps E i (as_workflow st) s = (Inr (), s')" "kv_laws.rep E view n s' ?b"
    using run_of_wp [OF kv_laws.cancel_steps_refines [OF assms(1,2),
            where i = i and name = "as_workflow st" and Q = "\<lambda>x s'. x = Inr () \<and> kv_laws.rep E view n s' ?b"]]
    by blast
  have "wf_step_of a (as_workflow st) [i] sid" using assms(3,4) by (simp add: wf_step_of_def)
  then have "a_steps ?b sid = None" "a_cmds ?b (j, cr_uuid r) = Some c"
    using assms(5,6) by (simp_all add: spec_cancel_def)
  then have spec: "fst (spec_store_response j r ?b) = Inl (Wrapf ''reading step commands: %w'' [] ErrKeyNotFound)"
    using assms(7,8) by (simp add: spec_store_response_def Let_def)
  have "length (cr_uuid r) = n"
    using assms(2,6) kv_laws.crep_length [OF assms(1)] kv_laws.rep_def [OF assms(1)] by blast
  then have "wp (store_command_response E j r) (\<lambda>x s''. x = fst (spec_store_response j r ?b)) s'"
    by (intro kv_laws.store_command_response_refines [OF assms(1) s'(2)]) auto
  then show ?thesis using s'(1) spec by (auto simp: wp_ex)
qed

theorem cancel_breaks_others_witness:
  "\<exists>s s' s''. inmem.rep 2 s sample_astore \<and> cancel_steps inmem_env ''AAA'' ''wf'' s = (Inr (), s') \<and>
     store_command_response inmem_env ''BBB'' (sample_response ''c1'' True) s' =
       (Inl (Wrapf ''reading step commands: %w'' [] ErrKeyNotFound), s'')"
proof -
  obtain s where s: "inmem.rep 2 s sample_astore" using sample_store_exists .
  have "\<exists>s' s''. cancel_steps inmem_env ''AAA'' (as_workflow (astep_of sample_step)) s = (Inr (), s') \<and>
     store_command_response inmem_env ''BBB'' (sample_response ''c1'' True) s' =
       (Inl (Wrapf ''reading step commands: %w'' [] ErrKeyNotFound), s'')"
    by (rule cancel_breaks_others [OF inmem.kv_laws_axioms s, of "''u0''"])
      (auto simp: sample_steps sample_cmds astep_of_def sample_step_def sample_response_def new_acmd_def)
  then show ?thesis using s by (auto simp: astep_of_def sample_step_def)
qed

section \<open>The queries of the worker\<close>

lemma released_once:
  assumes "kv_laws E view" "kv_laws.rep E view n s a" "go_time t"
    and "\<forall>sid\<in>due_steps as_not_until (wall_clock s) a. releasable a sid"
  shows "\<exists>s' s'' sids. retrieve_steps_to_enqueue E t s = (Inr (map (enqueueing_of a) sids), s') \<and>
           distinct sids \<and> set sids = due_steps as_not_until (wall_clock s) a \<and>
           kv_laws.rep E view n s' (spec_release t (set sids) a) \<and> same_others s s' \<and>
           retrieve_steps_to_enqueue E t s' = (Inr [], s'')"
proof -
  let ?D = "due_steps as_not_until (wall_clock s) a"
  have "wp (retrieve_steps_to_enqueue E t)
      (\<lambda>x s'. \<exists>sids. x = Inr (map (enqueueing_of a) sids) \<and> distinct sids \<and> set sids = ?D \<and>
         kv_laws.rep E view n s' (spec_release t (set sids) a) \<and> same_others s s') s"
    by (rule kv_laws.steps_to_enqueue_refines [OF assms]) auto
  then obtain s' sids where s': "retrieve_steps_to_enqueue E t s = (Inr (map (enqueueing_of a) sids), s')"
    "distinct sids" "set sids = ?D" "kv_laws.rep E view n s' (spec_release t (set sids) a)" "same_others s s'"
    by (auto simp: wp_ex)
  have none: "due_steps as_not_until (wall_clock s') (spec_release t (set sids) a) = {}"
    using s'(3,5) by (auto simp: same_others_def due_steps_def spec_release_def due_def split: if_splits)
  have "wp (retrieve_steps_to_enqueue E t) (\<lambda>x s''. x = Inr [] \<and> True) s'"
    by (rule kv_laws.steps_to_enqueue_refines [OF assms(1) s'(4) assms(3)]) (auto simp: none)
  from run_of_wp [OF this] show ?thesis using s' by blast
qed

definition delayed_step :: step_config where
  "delayed_step = sample_step\<lparr>cfg_not_until := 3, cfg_step_timeout := 5\<rparr>"

definition delayed_astore :: astore where
  "delayed_astore = spec_store_step ''u0'' 7 delayed_step empty_astore"

lemma delayed_stored: "\<exists>s. inmem.rep 2 s delayed_astore \<and> wall_clock s = 7 \<and> status_store s = []"
  unfolding delayed_astore_def
proof (rule stored_exists)
  show "storable 2 inmem_env delayed_step"
    by (simp add: storable_def delayed_step_def sample_step_def validate_step_config_iff astep_ok_def astep_of_def
        go_time_def max_go_time_def new_uuid_mem)
  show "fresh_pairs delayed_step empty_astore"
    by (simp add: fresh_pairs_def delayed_step_def sample_step_def empty_astore_def)
qed

lemma delayed_steps: "a_steps delayed_astore = [''u0'' \<mapsto> astep_of delayed_step]"
  by (simp add: delayed_astore_def spec_store_step_def empty_astore_def)

lemma delayed_due:
  "due_steps as_not_until 7 delayed_astore = {''u0''}" "due_steps as_timeout 7 delayed_astore = {''u0''}"
  by (auto simp: due_steps_def delayed_steps due_def astep_of_def delayed_step_def split: if_splits)

lemma delayed_releasable: "releasable delayed_astore ''u0''"
  by (simp add: releasable_def delayed_steps astep_of_def delayed_step_def sample_step_def has_raw_iff
      delayed_astore_def spec_store_step_def empty_astore_def spec_store_command_eq new_acmd_def)

lemma delayed_enqueueing:
  "enqueueing_of delayed_astore ''u0'' =
     \<lparr>ctx_workflow_name = ''wf'', ctx_instance_id = ''inst'', ctx_name = ''first'', ctx_context = [],
      enq_ids = [''AAA'', ''BBB''], enq_commands = enq_commands sample_step\<rparr>"
  by (simp add: enqueueing_of_def delayed_steps astep_of_def delayed_step_def sample_step_def raw_of_def
      delayed_astore_def spec_store_step_def empty_astore_def spec_store_command_eq new_acmd_def)

lemma timed_out_once:
  assumes "kv_laws E view" "kv_laws.rep E view n s a" "steps_apart a"
  shows "\<exists>s' s'' sids. retrieve_timed_out_steps E s =
             (Inr (concat (map (\<lambda>sid. timed_out_results (a_cmds a) (the (a_steps a sid))) sids)), s') \<and>
           distinct sids \<and> set sids = due_steps as_timeout (wall_clock s) a \<and>
           kv_laws.rep E view n s' (spec_time_out (set sids) a) \<and> same_others s s' \<and>
           retrieve_timed_out_steps E s' = (Inr [], s'')"
proof -
  let ?D = "due_steps as_timeout (wall_clock s) a"
  have "wp (retrieve_timed_out_steps E)
      (\<lambda>x s'. \<exists>sids. x = Inr (concat (map (\<lambda>sid. timed_out_results (a_cmds a) (the (a_steps a sid))) sids)) \<and>
         distinct sids \<and> set sids = ?D \<and>
         kv_laws.rep E view n s' (spec_time_out (set sids) a) \<and> same_others s s') s"
    by (rule kv_laws.timed_out_steps_refines [OF assms]) auto
  then obtain s' sids where s': "retrieve_timed_out_steps E s =
      (Inr (concat (map (\<lambda>sid. timed_out_results (a_cmds a) (the (a_steps a sid))) sids)), s')"
    "distinct sids" "set sids = ?D" "kv_laws.rep E view n s' (spec_time_out (set sids) a)" "same_others s s'"
    by (auto simp: wp_ex)
  have none: "due_steps as_timeout (wall_clock s') (spec_time_out (set sids) a) = {}"
    using s'(3,5) by (auto simp: same_others_def due_steps_def spec_time_out_def split: if_splits)
  have "steps_apart (spec_time_out (set sids) a)"
    using assms(3) unfolding steps_apart_def spec_time_out_def by (simp split: if_splits)
  then have "wp (retrieve_timed_out_steps E) (\<lambda>x s''. x = Inr [] \<and> True) s'"
    by (rule kv_laws.timed_out_steps_refines [OF assms(1) s'(4)]) (auto simp: none)
  from run_of_wp [OF this] show ?thesis using s' by blast
qed

lemma delayed_results:
  "timed_out_results (a_cmds delayed_astore) (astep_of delayed_step) =
     map (\<lambda>i. \<lparr>ctx_workflow_name = ''wf'', ctx_instance_id = ''inst'', ctx_name = ''first'', ctx_context = ''ctx'',
               res_ids = [i],
               res_commands =
                 [\<lparr>cr_uuid = ''c1'', cr_request_type = ''DeviceLock'', cr_report = [], cr_completed = False\<rparr>,
                  \<lparr>cr_uuid = ''c2'', cr_request_type = ''ProfileList'', cr_report = [], cr_completed = False\<rparr>]\<rparr>)
       [''AAA'', ''BBB'']"
  by (simp add: timed_out_results_def timed_out_cmd_def astep_of_def delayed_step_def sample_step_def
      delayed_astore_def spec_store_step_def empty_astore_def spec_store_command_eq new_acmd_def)

text \<open>
  C31: The query for commands to push again returns the enrollment of every command whose last push is
  due, once per command and whether or not the command is complete, and sets the last push of exactly
  those commands.
\<close>

theorem re_push_marks:
  assumes "kv_laws E view" "kv_laws.rep E view n s a" "go_time t"
  shows "\<exists>s' ps. retrieve_and_mark_re_pushed E before t s = (Inr (map fst ps), s') \<and>
           distinct ps \<and> set ps = due_cmds before a \<and>
           kv_laws.rep E view n s' (a\<lparr>a_cmds := mark_pushed t (set ps) (a_cmds a)\<rparr>)"
proof -
  have "wp (retrieve_and_mark_re_pushed E before t)
      (\<lambda>x s'. \<exists>ps. x = Inr (map fst ps) \<and> distinct ps \<and> set ps = due_cmds before a \<and>
         kv_laws.rep E view n s' (a\<lparr>a_cmds := mark_pushed t (set ps) (a_cmds a)\<rparr>)) s"
    by (rule kv_laws.re_push_refines [OF assms]) auto
  then show ?thesis by (auto simp: wp_ex)
qed

theorem re_push_marks_witness:
  "\<exists>s s' r. retrieve_and_mark_re_pushed inmem_env 8 9 s = (Inr r, s') \<and> length r = 4 \<and> set r = {''AAA'', ''BBB''}"
proof -
  obtain s where s: "inmem.rep 2 s sample_astore" using sample_store_exists .
  obtain s' ps where r: "retrieve_and_mark_re_pushed inmem_env 8 9 s = (Inr (map fst ps), s')"
    "distinct ps" "set ps = due_cmds 8 sample_astore"
    using re_push_marks [OF inmem.kv_laws_axioms s, of 9 8] by (auto simp: go_time_def max_go_time_def)
  have due: "due_cmds 8 sample_astore = {(''AAA'', ''c1''), (''AAA'', ''c2''), (''BBB'', ''c1''), (''BBB'', ''c2'')}"
    by (auto simp: due_cmds_def sample_cmds due_def new_acmd_def split: if_splits)
  have "length ps = card (set ps)" using r(2) by (simp add: distinct_card)
  then have "length ps = 4" "set (map fst ps) = {''AAA'', ''BBB''}" by (auto simp: r(3) due)
  then show ?thesis using r(1) by (intro exI [of _ s] exI [of _ s'] exI [of _ "map fst ps"]) simp
qed

end
