(* ===== verification/KVEventProps.thy ===== *)
theory KVEventProps
  imports KVStepProps
begin

text \<open>
  The properties of event subscriptions and of the workflow status in the key-value backend: round
  trips, the query by event, deletion, and what clearing the status of an enrollment removes.
\<close>

section \<open>Event subscriptions\<close>

lemma erep_empty: "erep (map_of []) Map.empty"
  by (simp add: erep_def)

definition sample_event :: "bytes \<Rightarrow> event_subscription" where
  "sample_event ctx =
     \<lparr>es_event = ''Enrollment'', es_workflow = ''wf'', es_context = ctx, es_event_context = []\<rparr>"

lemma sample_event_ok: "event_ok (sample_event ctx)"
  unfolding event_ok_def sample_event_def by code_simp

text \<open>
  A valid event subscription stored under a name is what the query by that name returns, except that
  a context or event context left empty keeps the value stored under the name before; all other names
  keep their subscriptions.
\<close>

theorem event_stored_is_retrieved:
  assumes "kv_laws E view" "erep (view (event_store s)) m" "name \<noteq> []" "event_ok es"
  shows "\<exists>s'. store_event_subscription E name (Some es) s = (Inr (), s') \<and>
           retrieve_event_subscriptions E [name] s' = (Inr [name \<mapsto> merge_event (m name) es], s') \<and>
           erep (view (event_store s')) (m(name \<mapsto> merge_event (m name) es))"
proof -
  let ?m = "m(name \<mapsto> merge_event (m name) es)"
  obtain s' where s': "store_event_subscription E name (Some es) s = (Inr (), s')" "erep (view (event_store s')) ?m"
    using run_of_wp [OF kv_laws.store_event_refines [OF assms, where Q = "\<lambda>x s'. x = Inr () \<and> erep (view (event_store s')) ?m"]]
    by auto
  moreover have "?m |` set [name] = [name \<mapsto> merge_event (m name) es]" by (auto simp: restrict_map_def)
  ultimately show ?thesis
    using kv_laws.retrieve_event_subscriptions_run [OF assms(1) s'(2), of "[name]"] by auto
qed

theorem event_stored_is_retrieved_witness:
  "\<exists>s s' s''. store_event_subscription inmem_env ''ev'' (Some (sample_event ''old'')) s = (Inr (), s') \<and>
     store_event_subscription inmem_env ''ev'' (Some (sample_event [])) s' = (Inr (), s'') \<and>
     retrieve_event_subscriptions inmem_env [''ev''] s'' = (Inr [''ev'' \<mapsto> sample_event ''old''], s'')"
proof -
  have "erep (map_of (event_store (empty_mem 7))) Map.empty" by (simp add: empty_mem_def erep_empty [simplified])
  from event_stored_is_retrieved [OF inmem.kv_laws_axioms this, of "''ev''" "sample_event ''old''"]
  obtain s' where s': "store_event_subscription inmem_env ''ev'' (Some (sample_event ''old'')) (empty_mem 7) = (Inr (), s')"
    "erep (map_of (event_store s')) (Map.empty(''ev'' \<mapsto> sample_event ''old''))"
    by (auto simp: sample_event_ok merge_event_def)
  have "merge_event (Some (sample_event ''old'')) (sample_event []) = sample_event ''old''"
    by (simp add: merge_event_def sample_event_def)
  then show ?thesis
    using event_stored_is_retrieved [OF inmem.kv_laws_axioms s'(2), of "''ev''" "sample_event []"] s'(1)
    by (auto simp: sample_event_ok)
qed

text \<open>
  Deleting a subscription removes it and no other, so a query that names it fails afterwards, and a
  subscription that is invalid or has no name is refused and changes nothing.
\<close>

theorem event_deleted:
  assumes "kv_laws E view" "erep (view (event_store s)) m"
  shows "(\<exists>s'. delete_event_subscription E name s = (Inr (), s') \<and>
            erep (view (event_store s')) (m(name := None)) \<and>
            (\<exists>e. retrieve_event_subscriptions E [name] s' = (Inl e, s'))) \<and>
         (\<forall>oe. name = [] \<or> validate_event_subscription oe \<noteq> Inr () \<longrightarrow>
            (\<exists>e. store_event_subscription E name oe s = (Inl e, s)))"
proof -
  obtain s' where s': "delete_event_subscription E name s = (Inr (), s')" "erep (view (event_store s')) (m(name := None))"
    using run_of_wp [OF kv_laws.delete_event_refines [OF assms, where name = name
          and Q = "\<lambda>x s'. x = Inr () \<and> erep (view (event_store s')) (m(name := None))"]]
    by auto
  then show ?thesis
    using kv_laws.retrieve_event_subscriptions_run [OF assms(1) s'(2), of "[name]"]
      kv_laws.store_event_invalid [OF assms(1)] by auto
qed

theorem event_deleted_witness:
  "(\<exists>s'. delete_event_subscription inmem_env ''ev'' (empty_mem 7) = (Inr (), s')) \<and>
   (\<exists>e. store_event_subscription inmem_env ''ev'' None (empty_mem 7) = (Inl e, empty_mem 7))"
proof -
  have "erep (map_of (event_store (empty_mem 7))) Map.empty" by (simp add: empty_mem_def erep_empty [simplified])
  from event_deleted [OF inmem.kv_laws_axioms this, of "''ev''"] show ?thesis
    by (auto simp: validate_event_subscription_def)
qed

text \<open>
  The query by event returns every subscription whose event has the flag, once each, and no other.
\<close>

theorem subscriptions_by_event:
  assumes "kv_laws E view" "erep (view (event_store s)) m" "f \<noteq> 0"
  shows "\<exists>names. retrieve_event_subscriptions_by_event E f s = (Inr (map (\<lambda>k. the (m k)) names), s) \<and>
           distinct names \<and>
           set names = {k. \<exists>es. m k = Some es \<and> event_flag_for_string (es_event es) = f}"
proof -
  have "wp (retrieve_event_subscriptions_by_event E f)
      (\<lambda>x s'. s' = s \<and> (\<exists>names. x = Inr (map (\<lambda>k. the (m k)) names) \<and> distinct names \<and>
           set names = {k. \<exists>es. m k = Some es \<and> event_flag_for_string (es_event es) = f})) s"
    by (rule kv_laws.retrieve_by_event_refines [OF assms]) auto
  then show ?thesis by (auto simp: wp_ex)
qed

theorem subscriptions_by_event_witness:
  "\<exists>s. retrieve_event_subscriptions_by_event inmem_env event_enrollment s = (Inr [sample_event ''c''], s)"
proof -
  have "erep (map_of (event_store (empty_mem 7))) Map.empty" by (simp add: empty_mem_def erep_empty [simplified])
  then obtain s :: "mem_bucket kv_store" where s: "erep (map_of (event_store s)) (Map.empty(''ev'' \<mapsto> sample_event ''c''))"
    using run_of_wp [OF inmem.store_event_refines [where s = "empty_mem 7" and name = "''ev''" and es = "sample_event ''c''"
          and m = Map.empty and Q = "\<lambda>x s'. x = Inr () \<and> erep (map_of (event_store s')) (Map.empty(''ev'' \<mapsto> sample_event ''c''))"]]
    by (simp add: sample_event_ok merge_event_def) blast
  have f: "event_flag_for_string ''Enrollment'' = event_enrollment" "event_enrollment \<noteq> 0" by code_simp+
  obtain names where r: "retrieve_event_subscriptions_by_event inmem_env event_enrollment s =
      (Inr (map (\<lambda>k. the ((Map.empty(''ev'' \<mapsto> sample_event ''c'')) k)) names), s)" "distinct names"
    "set names = {k. \<exists>es. (Map.empty(''ev'' \<mapsto> sample_event ''c'')) k = Some es \<and>
        event_flag_for_string (es_event es) = event_enrollment}"
    using subscriptions_by_event [OF inmem.kv_laws_axioms s f(2)] by blast
  have "set names = {''ev''}" unfolding r(3) by (auto simp: sample_event_def f split: if_splits)
  with r(2) have "names = [''ev'']" by (rule distinct_single)
  then show ?thesis using r(1) by auto
qed

section \<open>Workflow status\<close>

text \<open>
  The time recorded when a workflow starts for some enrollments is the time read back for each of
  them, every other enrollment reads what it read before, and clearing an enrollment's status makes it
  read the zero time for every workflow.
\<close>

theorem status_recorded_and_cleared:
  assumes "kv_laws E view" "kv_laws.trep E (view (status_store s)) T" "go_time t"
  shows "\<exists>s'. record_workflow_started E ids name t s = (Inr (), s') \<and>
           (\<forall>i. retrieve_workflow_started E i name s' =
              (Inr (if i \<in> set ids then t
                    else case T (workflow_status_key i name) of None \<Rightarrow> 0 | Some t \<Rightarrow> t), s')) \<and>
           (\<forall>i. \<exists>s''. clear_workflow_status E i s' = (Inr (), s'') \<and>
              (\<forall>w. retrieve_workflow_started E i w s'' = (Inr 0, s'')))"
proof -
  let ?T = "spec_started ids name t T"
  note clear = kv_laws.clear_status_refines [OF assms(1)] and read = kv_laws.retrieve_started_refines [OF assms(1)]
  obtain s' where s': "record_workflow_started E ids name t s = (Inr (), s')" "kv_laws.trep E (view (status_store s')) ?T"
    using run_of_wp [OF kv_laws.record_started_refines [OF assms, where ids = ids and name = name
          and Q = "\<lambda>x s'. x = Inr () \<and> kv_laws.trep E (view (status_store s')) ?T"]]
    by auto
  have get: "retrieve_workflow_started E i w u = (Inr (case U (workflow_status_key i w) of None \<Rightarrow> 0 | Some t \<Rightarrow> t), u)"
    if "kv_laws.trep E (view (status_store u)) U" for i w u U
    using read [OF that, of i w "\<lambda>x u'. u' = u \<and> x = Inr (case U (workflow_status_key i w) of None \<Rightarrow> 0 | Some t \<Rightarrow> t)"]
    by (auto simp: wp_ex)
  have "\<exists>s''. clear_workflow_status E i s' = (Inr (), s'') \<and> (\<forall>w. retrieve_workflow_started E i w s'' = (Inr 0, s''))" for i
  proof -
    obtain s'' where "clear_workflow_status E i s' = (Inr (), s'')"
      "kv_laws.trep E (view (status_store s'')) (spec_clear_status i ?T)"
      using run_of_wp [OF clear [OF s'(2), where i = i
          and Q = "\<lambda>x s''. x = Inr () \<and> kv_laws.trep E (view (status_store s'')) (spec_clear_status i ?T)"]] by auto
    moreover have "spec_clear_status i ?T (workflow_status_key i w) = None" for w
      by (simp add: spec_clear_status_def status_key_prefix)
    ultimately show ?thesis using get by fastforce
  qed
  moreover have "retrieve_workflow_started E i name s' =
      (Inr (if i \<in> set ids then t else case T (workflow_status_key i name) of None \<Rightarrow> 0 | Some t \<Rightarrow> t), s')" for i
    using get [OF s'(2), of i name] by (auto simp: spec_started_eq status_key_inj image_iff)
  ultimately show ?thesis using s'(1) by blast
qed

theorem status_recorded_and_cleared_witness:
  "\<exists>s'. record_workflow_started inmem_env [''AAA''] ''wf'' 5 (empty_mem 7) = (Inr (), s') \<and>
     retrieve_workflow_started inmem_env ''AAA'' ''wf'' s' = (Inr 5, s') \<and>
     retrieve_workflow_started inmem_env ''BBB'' ''wf'' s' = (Inr 0, s')"
proof -
  have "inmem.trep (map_of (status_store (empty_mem 7))) Map.empty"
    by (simp add: inmem.trep_def empty_mem_def fun_eq_iff)
  moreover have "go_time 5" by (simp add: go_time_def max_go_time_def)
  ultimately show ?thesis
    using status_recorded_and_cleared [OF inmem.kv_laws_axioms, of "empty_mem 7" Map.empty 5 "[''AAA'']" "''wf''"]
    by fastforce
qed

end
