(* ===== verification/EngineConvert.thy ===== *)
theory EngineConvert
  imports StorageTypes
begin

text \<open>
  \<open>engine/convert.go\<close>: conversions between the workflow's steps and the storage's. What the
  libraries \<open>mdmcommands\<close> and \<open>plist\<close> do is a parameter: the generic attributes of a command and of a
  response, marshalling a command, allocating the response type of a request type, and parsing into
  it. An interface value or a pointer that may be nil is an option.
\<close>

record ('c, 'r) mdm_lib =
  lib_generic_command :: "'c \<Rightarrow> (string \<times> string) option option"
  lib_marshal :: "'c \<Rightarrow> bytes result"
  lib_new_response :: "string \<Rightarrow> 'r option"
  lib_unmarshal :: "'r \<Rightarrow> bytes \<Rightarrow> 'r result"
  lib_generic_response :: "'r \<Rightarrow> (string \<times> string) option option"
  lib_json :: json_codec

text \<open>
  \<open>lib_generic_command c\<close> is \<open>None\<close> when the type assertion to \<open>GenericCommander\<close> fails, \<open>Some None\<close>
  when \<open>GenericCommand\<close> returns nil, and else the command's UUID and request type;
  \<open>lib_generic_response r\<close> is alike with the UUID and the status.
\<close>

definition unmarshal_context ::
  "('c, 'r) mdm_lib \<Rightarrow> ctx_value option \<Rightarrow> bytes \<Rightarrow> ctx_value option result" where
  "unmarshal_context L ctx raw =
     (case ctx of
        None \<Rightarrow> Inr None
      | Some c \<Rightarrow>
          if length raw > 0
          then (case unmarshal_binary (lib_json L) c raw of
                  Inl e \<Rightarrow> Inl (Wrapf ''unmarshal context: %w'' [] e)
                | Inr c' \<Rightarrow> Inr (Some c'))
          else Inr (Some c))"

definition workflow_step_start_from_engine ::
  "('c, 'r) mdm_lib \<Rightarrow> string \<Rightarrow> (string \<Rightarrow> ctx_value option) \<Rightarrow> bytes \<Rightarrow> string list
    \<Rightarrow> 'r event option \<Rightarrow> params option \<Rightarrow> 'r wf_step_start result" where
  "workflow_step_start_from_engine L instanceID new_ctx raw_context ids e mctx =
     (case unmarshal_context L (new_ctx []) raw_context of
        Inl er \<Rightarrow> Inl er
      | Inr ctx \<Rightarrow>
          Inr \<lparr>wsc_params = (case mctx of None \<Rightarrow> Map.empty | Some p \<Rightarrow> p),
               wsc_instance_id = instanceID, wsc_name = [], wsc_context = ctx,
               ss_event = e, ss_ids = ids\<rparr>)"

definition storage_command_raw_from_workflow_command ::
  "('c, 'r) mdm_lib \<Rightarrow> 'c option \<Rightarrow> command_raw result" where
  "storage_command_raw_from_workflow_command L cmd =
     (case cmd of
        None \<Rightarrow> Inl (Errorf ''invalid command (nil)'' [])
      | Some c \<Rightarrow>
          (case lib_generic_command L c of
             None \<Rightarrow> Inl (Errorf ''invalid command type'' [])
           | Some None \<Rightarrow> Inl (Errorf ''invalid command (nil generic command)'' [])
           | Some (Some (uuid, request_type)) \<Rightarrow>
               if uuid = [] then Inl (Errorf ''empty command uuid'' [])
               else if request_type = [] then Inl (Errorf ''empty request type'' [])
               else
                 (case lib_marshal L c of
                    Inl e \<Rightarrow> Inl (Wrapf ''marshal command: %w'' [] e)
                  | Inr raw \<Rightarrow>
                      Inr \<lparr>raw_uuid = uuid, raw_request_type = request_type, raw_command = raw\<rparr>)))"

primrec storage_commands ::
  "('c, 'r) mdm_lib \<Rightarrow> 'c option list \<Rightarrow> command_raw list \<Rightarrow> command_raw list result" where
  "storage_commands L [] acc = Inr acc"
| "storage_commands L (cmd # cmds) acc =
     (case storage_command_raw_from_workflow_command L cmd of
        Inl e \<Rightarrow> Inl (Wrapf ''converting command: %w'' [] e)
      | Inr sc \<Rightarrow> storage_commands L cmds (acc @ [sc]))"

definition marshal_context :: "('c, 'r) mdm_lib \<Rightarrow> ctx_value option \<Rightarrow> bytes result" where
  "marshal_context L ctx =
     (case ctx of
        None \<Rightarrow> Inr []
      | Some c \<Rightarrow> (case marshal_binary (lib_json L) c of
                    Inl e \<Rightarrow> Inl (Wrapf ''marshal context: %w'' [] e)
                  | Inr b \<Rightarrow> Inr b))"

definition storage_step_from_workflow_step ::
  "('c, 'r) mdm_lib \<Rightarrow> string \<Rightarrow> time \<Rightarrow> 'c wf_step_enqueueing \<Rightarrow> step_config result" where
  "storage_step_from_workflow_step L wname default_timeout se =
     (case marshal_context L (wsc_context se) of
        Inl e \<Rightarrow> Inl e
      | Inr ctx \<Rightarrow>
          (case storage_commands L (wse_commands se) [] of
             Inl e \<Rightarrow> Inl e
           | Inr cmds \<Rightarrow>
               Inr \<lparr>ctx_workflow_name = wname, ctx_instance_id = wsc_instance_id se,
                    ctx_name = wsc_name se, ctx_context = ctx, enq_ids = wse_ids se,
                    enq_commands = cmds, cfg_not_until = wse_not_until se,
                    cfg_step_timeout =
                      (if is_zero_time (wse_timeout se) then default_timeout else wse_timeout se)\<rparr>))"

definition workflow_command_response_from_raw ::
  "('c, 'r) mdm_lib \<Rightarrow> string \<Rightarrow> bytes \<Rightarrow> 'r result" where
  "workflow_command_response_from_raw L req_type raw =
     (case lib_new_response L req_type of
        None \<Rightarrow> Inl (Errorf ''no response for request type: %s'' [req_type])
      | Some resp \<Rightarrow>
          (case lib_unmarshal L resp raw of
             Inl e \<Rightarrow> Inl (Wrapf ''unmarshal response: %w'' [] e)
           | Inr resp' \<Rightarrow> Inr resp'))"

definition storage_step_command_from_raw_response ::
  "('c, 'r) mdm_lib \<Rightarrow> string \<Rightarrow> bytes \<Rightarrow> (command_result \<times> 'r) result" where
  "storage_step_command_from_raw_response L req_type raw =
     (case workflow_command_response_from_raw L req_type raw of
        Inl e \<Rightarrow> Inl (Wrapf ''converting response: %w'' [] e)
      | Inr response \<Rightarrow>
          (case lib_generic_response L response of
             None \<Rightarrow> Inl (Errorf ''invalid response type'' [])
           | Some None \<Rightarrow> Inl (Errorf ''invalid response (nil generic response)'' [])
           | Some (Some (uuid, status)) \<Rightarrow>
               (let sc = \<lparr>cr_uuid = uuid, cr_request_type = req_type, cr_report = raw,
                          cr_completed = (status \<noteq> [] \<and> status \<noteq> ''NotNow'')\<rparr> in
                case validate_command_result (Some sc) of
                  Inl e \<Rightarrow> Inl e
                | Inr _ \<Rightarrow> Inr (sc, response))))"

text \<open>
  The results of a step's commands; the response at hand is not parsed again, and a worker's call
  skips commands that have no report.
\<close>

primrec step_command_results ::
  "('c, 'r) mdm_lib \<Rightarrow> bool \<Rightarrow> string \<Rightarrow> 'r option \<Rightarrow> command_result list \<Rightarrow> 'r option list
    \<Rightarrow> 'r option list result" where
  "step_command_results L ignore_empty uuid sp_resp [] acc = Inr acc"
| "step_command_results L ignore_empty uuid sp_resp (cmd # cmds) acc =
     (if cr_uuid cmd = uuid then step_command_results L ignore_empty uuid sp_resp cmds (acc @ [sp_resp])
      else if ignore_empty \<and> length (cr_report cmd) < 1
        then step_command_results L ignore_empty uuid sp_resp cmds acc
      else
        (case workflow_command_response_from_raw L (cr_request_type cmd) (cr_report cmd) of
           Inl e \<Rightarrow> Inl (Wrapf ''converting response: %w'' [] e)
         | Inr resp \<Rightarrow> step_command_results L ignore_empty uuid sp_resp cmds (acc @ [Some resp])))"

definition workflow_step_result_from_storage ::
  "('c, 'r) mdm_lib \<Rightarrow> step_result \<Rightarrow> (string \<Rightarrow> ctx_value option) \<Rightarrow> bool \<Rightarrow> string \<Rightarrow> 'r option
    \<Rightarrow> 'r wf_step_result result" where
  "workflow_step_result_from_storage L ss new_ctx ignore_empty uuid sp_resp =
     (case res_ids ss of
        [i] \<Rightarrow>
          (case unmarshal_context L (new_ctx (ctx_name ss)) (ctx_context ss) of
             Inl e \<Rightarrow> Inl e
           | Inr ctx \<Rightarrow>
               (case step_command_results L ignore_empty uuid sp_resp (res_commands ss) [] of
                  Inl e \<Rightarrow> Inl e
                | Inr results \<Rightarrow>
                    Inr \<lparr>wsc_params = Map.empty, wsc_instance_id = ctx_instance_id ss,
                         wsc_name = ctx_name ss, wsc_context = ctx, sr_id = i,
                         sr_command_results = results\<rparr>))
      | _ \<Rightarrow> Inl (Errorf ''incorrect id count'' []))"

section \<open>What the conversions keep\<close>

lemma storage_commands_append:
  "storage_commands L cmds acc = Inr r \<Longrightarrow> \<exists>ds. r = acc @ ds \<and> length ds = length cmds"
  by (induction cmds arbitrary: acc) (fastforce split: sum.splits)+

lemma storage_command_fields:
  assumes "storage_command_raw_from_workflow_command L cmd = Inr d"
  shows "\<exists>c. cmd = Some c \<and> lib_generic_command L c = Some (Some (raw_uuid d, raw_request_type d)) \<and>
             raw_uuid d \<noteq> [] \<and> raw_request_type d \<noteq> [] \<and> lib_marshal L c = Inr (raw_command d)"
  using assms by (auto simp: storage_command_raw_from_workflow_command_def
      split: option.splits prod.splits if_splits sum.splits)

lemma storage_commands_fields:
  assumes "storage_commands L cmds acc = Inr r"
  shows "\<exists>ds. r = acc @ ds \<and> list_all2 (\<lambda>cmd d. storage_command_raw_from_workflow_command L cmd = Inr d) cmds ds"
  using assms
proof (induction cmds arbitrary: acc)
  case (Cons cmd cmds)
  then obtain d where d: "storage_command_raw_from_workflow_command L cmd = Inr d"
    "storage_commands L cmds (acc @ [d]) = Inr r"
    by (auto split: sum.splits)
  from Cons.IH [OF d(2)] obtain ds where "r = acc @ d # ds"
    "list_all2 (\<lambda>cmd d. storage_command_raw_from_workflow_command L cmd = Inr d) cmds ds" by auto
  with d(1) show ?case by (intro exI [of _ "d # ds"]) simp
qed simp

lemma command_results_length:
  "step_command_results L False uuid sp cmds acc = Inr r \<Longrightarrow> length r = length acc + length cmds"
  by (induction cmds arbitrary: acc) (auto split: if_splits sum.splits)

lemma completed_iff_status:
  assumes "storage_step_command_from_raw_response L rt raw = Inr (sc, resp)"
  shows "cr_request_type sc = rt \<and> cr_report sc = raw \<and> raw \<noteq> [] \<and>
         (\<exists>status. lib_generic_response L resp = Some (Some (cr_uuid sc, status)) \<and>
                   (cr_completed sc \<longleftrightarrow> status \<noteq> [] \<and> status \<noteq> ''NotNow''))"
  using assms
  by (auto simp: storage_step_command_from_raw_response_def Let_def validate_command_result_def
      split: sum.splits option.splits prod.splits if_splits)

end
