(* ===== verification/EngineReg.thy ===== *)
theory EngineReg
  imports EngineConvert
begin

text \<open>
  \<open>engine/reg.go\<close> and the \<open>Engine\<close> struct of \<open>engine/engine.go\<close>: the registry of workflows by name
  and the names registered for a request type. Go's maps are association lists, whose order stands
  for the arbitrary order of a \<open>range\<close> over a map. The fields after the registry are what the
  engine was built with: the storage, the enqueuer, the event storage (or nil), the ID generator, the
  clock, the default timeout in nanoseconds, the libraries, and how goroutines run:
  \<open>en_wait_all\<close> runs the bodies of a \<open>WaitGroup\<close> and \<open>en_when\<close> says at which point a goroutine that
  is only waited for on return has run.
\<close>

datatype dispatch_point = BeforeStore | AfterStore | AtReturn

record ('w, 'c, 'r) engine =
  en_workflows :: "(string \<times> ('w, 'r) workflow) list"
  en_all_resps :: "(string \<times> string list) list"
  en_storage :: "'w storage"
  en_enqueue :: "string list \<Rightarrow> bytes \<Rightarrow> ('w, unit) action"
  en_supports_multi :: bool
  en_event_storage :: "'w event_storage option"
  en_new_id :: "('w, string) action"
  en_now :: "('w, time) action"
  en_default_timeout :: int
  en_lib :: "('c, 'r) mdm_lib"
  en_wait_all :: "('w, unit) action list \<Rightarrow> ('w, unit) action"
  en_when :: dispatch_point

definition default_timeout :: int where
  "default_timeout = 3600 * 1000000000 * 24 * 3"

text \<open>An option of \<open>New\<close> is a function on the engine.\<close>

definition with_default_timeout :: "int \<Rightarrow> ('w, 'c, 'r) engine \<Rightarrow> ('w, 'c, 'r) engine" where
  "with_default_timeout timeout e = e\<lparr>en_default_timeout := timeout\<rparr>"

definition with_event_storage :: "'w event_storage \<Rightarrow> ('w, 'c, 'r) engine \<Rightarrow> ('w, 'c, 'r) engine" where
  "with_event_storage evs e = e\<lparr>en_event_storage := Some evs\<rparr>"

definition new_engine ::
  "'w storage \<Rightarrow> (string list \<Rightarrow> bytes \<Rightarrow> ('w, unit) action) \<Rightarrow> bool \<Rightarrow> ('w, string) action
    \<Rightarrow> ('w, time) action \<Rightarrow> ('c, 'r) mdm_lib \<Rightarrow> (('w, unit) action list \<Rightarrow> ('w, unit) action)
    \<Rightarrow> dispatch_point \<Rightarrow> (('w, 'c, 'r) engine \<Rightarrow> ('w, 'c, 'r) engine) list \<Rightarrow> ('w, 'c, 'r) engine" where
  "new_engine sto enqueue multi new_id now lib wait_all when opts =
     foldl (\<lambda>e opt. opt e)
       \<lparr>en_workflows = [], en_all_resps = [], en_storage = sto, en_enqueue = enqueue,
        en_supports_multi = multi, en_event_storage = None, en_new_id = new_id, en_now = now,
        en_default_timeout = default_timeout, en_lib = lib, en_wait_all = wait_all, en_when = when\<rparr>
       opts"

section \<open>Registration\<close>

fun in_slice_from :: "nat \<Rightarrow> string list \<Rightarrow> string \<Rightarrow> int" where
  "in_slice_from j [] i = -1"
| "in_slice_from j (v # s) i = (if v = i then int j else in_slice_from (Suc j) s i)"

definition in_slice :: "string list \<Rightarrow> string \<Rightarrow> int" where
  "in_slice s i = in_slice_from 0 s i"

definition names_for :: "(string \<times> string list) list \<Rightarrow> string \<Rightarrow> string list" where
  "names_for m t = (case map_of m t of None \<Rightarrow> [] | Some ns \<Rightarrow> ns)"

definition register_all_resp :: "string \<Rightarrow> string list \<Rightarrow> (string \<times> string list) list \<Rightarrow> (string \<times> string list) list"
where
  "register_all_resp name req_types m =
     foldl (\<lambda>m t. if in_slice (names_for m t) name = -1
                  then AList.update t (names_for m t @ [name]) m else m) m req_types"

definition register_workflow :: "('w, 'r) workflow \<Rightarrow> ('w, 'c, 'r) engine \<Rightarrow> ('w, 'c, 'r) engine" where
  "register_workflow w e =
     (let e = e\<lparr>en_workflows := AList.update (wf_name w) w (en_workflows e)\<rparr> in
      case wf_config w of
        None \<Rightarrow> e
      | Some cfg \<Rightarrow>
          e\<lparr>en_all_resps := register_all_resp (wf_name w)
                             (cfg_all_command_response_request_types cfg) (en_all_resps e)\<rparr>)"

definition remove_name :: "string \<Rightarrow> string list \<Rightarrow> string list" where
  "remove_name name v =
     (let pos = in_slice v name in
      if pos \<ge> 0 \<and> int (length v) > pos
      then take (nat pos) v @ drop (nat pos + 1) v else v)"

definition unregister_all_resp :: "string \<Rightarrow> (string \<times> string list) list \<Rightarrow> (string \<times> string list) list" where
  "unregister_all_resp name m = map (\<lambda>(k, v). (k, remove_name name v)) m"

definition engine_workflow :: "('w, 'c, 'r) engine \<Rightarrow> string \<Rightarrow> ('w, 'r) workflow option" where
  "engine_workflow e name = map_of (en_workflows e) name"

definition workflow_registered :: "('w, 'c, 'r) engine \<Rightarrow> string \<Rightarrow> bool" where
  "workflow_registered e name \<longleftrightarrow> map_of (en_workflows e) name \<noteq> None"

definition all_resp_workflows :: "('w, 'c, 'r) engine \<Rightarrow> string \<Rightarrow> ('w, 'r) workflow list" where
  "all_resp_workflows e req_type =
     List.map_filter (engine_workflow e) (names_for (en_all_resps e) req_type)"

definition unregister_workflow :: "string \<Rightarrow> ('w, 'c, 'r) engine \<Rightarrow> ('w, 'c, 'r) engine" where
  "unregister_workflow name e =
     (if map_of (en_workflows e) name \<noteq> None
      then e\<lparr>en_workflows := AList.delete name (en_workflows e),
             en_all_resps := unregister_all_resp name (en_all_resps e)\<rparr>
      else e)"

definition event_workflows :: "('w, 'c, 'r) engine \<Rightarrow> event_flag \<Rightarrow> ('w, 'r) workflow list" where
  "event_workflows e ev =
     filter (\<lambda>w. case wf_config w of None \<Rightarrow> False | Some cfg \<Rightarrow> ev AND cfg_events cfg > 0)
       (map snd (en_workflows e))"

section \<open>The registry's invariant\<close>

text \<open>
  Each name is bound once, to a workflow of that name; a request type lists a name once, and only
  names that are registered.
\<close>

definition registry_ok :: "('w, 'c, 'r) engine \<Rightarrow> bool" where
  "registry_ok e \<longleftrightarrow>
     distinct (map fst (en_workflows e)) \<and>
     (\<forall>n w. engine_workflow e n = Some w \<longrightarrow> wf_name w = n) \<and>
     (\<forall>t. distinct (names_for (en_all_resps e) t) \<and>
          (\<forall>n\<in>set (names_for (en_all_resps e) t). engine_workflow e n \<noteq> None))"

lemma in_slice_from_bounds:
  "in_slice_from j s i = -1 \<longleftrightarrow> i \<notin> set s"
  "i \<in> set s \<Longrightarrow> \<exists>k < length s. in_slice_from j s i = int (j + k) \<and> s ! k = i \<and> i \<notin> set (take k s)"
proof -
  show "in_slice_from j s i = -1 \<longleftrightarrow> i \<notin> set s" by (induction s arbitrary: j) auto
  show "i \<in> set s \<Longrightarrow> \<exists>k < length s. in_slice_from j s i = int (j + k) \<and> s ! k = i \<and> i \<notin> set (take k s)"
  proof (induction s arbitrary: j)
    case (Cons v s)
    show ?case
    proof (cases "v = i")
      case False
      with Cons.IH [of "Suc j"] Cons.prems obtain k where "k < length s"
        "in_slice_from (Suc j) s i = int (Suc j + k)" "s ! k = i" "i \<notin> set (take k s)" by auto
      with False show ?thesis by (intro exI [of _ "Suc k"]) auto
    qed (auto intro: exI [of _ 0])
  qed simp
qed

lemma in_slice_iff: "in_slice s i = -1 \<longleftrightarrow> i \<notin> set s"
  by (simp add: in_slice_def in_slice_from_bounds)

lemma in_slice_pos:
  "i \<in> set s \<Longrightarrow> \<exists>k < length s. in_slice s i = int k \<and> s ! k = i \<and> i \<notin> set (take k s)"
  using in_slice_from_bounds(2) [of i s 0] by (simp add: in_slice_def)

lemma remove_name_eq: "remove_name name v = remove1 name v"
proof (cases "name \<in> set v")
  case True
  from in_slice_pos [OF True] obtain k where k: "k < length v" "in_slice v name = int k" "v ! k = name"
    "name \<notin> set (take k v)" by auto
  have "v = take k v @ name # drop (Suc k) v" using id_take_nth_drop [OF k(1)] k(3) by simp
  with k(4) have "remove1 name v = take k v @ drop (Suc k) v" by (metis remove1_append remove1.simps(2))
  with k show ?thesis by (simp add: remove_name_def)
next
  case False
  then show ?thesis by (simp add: remove_name_def in_slice_iff [symmetric] remove1_idem)
qed

lemma names_for_update [simp]:
  "names_for (AList.update t ns m) t' = (if t' = t then ns else names_for m t')"
  by (simp add: names_for_def update_conv')

lemma names_for_register:
  "names_for (register_all_resp name ts m) t =
     (if t \<in> set ts \<and> name \<notin> set (names_for m t) then names_for m t @ [name] else names_for m t)"
  unfolding register_all_resp_def in_slice_iff
  by (induction ts arbitrary: m) (auto simp: in_slice_iff)

lemma names_for_unregister: "names_for (unregister_all_resp name m) t = remove1 name (names_for m t)"
  by (induction m) (auto simp: unregister_all_resp_def names_for_def remove_name_eq)

lemma registry_okD:
  assumes "registry_ok e"
  shows "distinct (map fst (en_workflows e))" "engine_workflow e n = Some w \<Longrightarrow> wf_name w = n"
    "n \<in> set (names_for (en_all_resps e) t) \<Longrightarrow> engine_workflow e n \<noteq> None"
    "distinct (names_for (en_all_resps e) t)"
  using assms unfolding registry_ok_def by blast+

lemma workflow_register:
  "engine_workflow (register_workflow w e) n = (if n = wf_name w then Some w else engine_workflow e n)"
  by (simp add: engine_workflow_def register_workflow_def Let_def update_conv' split: option.split)

definition resp_types :: "('w, 'r) workflow \<Rightarrow> string list" where
  "resp_types w = (case wf_config w of None \<Rightarrow> [] | Some cfg \<Rightarrow> cfg_all_command_response_request_types cfg)"

lemma names_register:
  "names_for (en_all_resps (register_workflow w e)) t =
     (if t \<in> set (resp_types w) \<and> wf_name w \<notin> set (names_for (en_all_resps e) t)
      then names_for (en_all_resps e) t @ [wf_name w] else names_for (en_all_resps e) t)"
  by (simp add: register_workflow_def Let_def names_for_register resp_types_def split: option.split)

lemma workflows_register:
  "en_workflows (register_workflow w e) = AList.update (wf_name w) w (en_workflows e)"
  by (simp add: register_workflow_def Let_def split: option.split)

lemma registry_ok_register: "registry_ok e \<Longrightarrow> registry_ok (register_workflow w e)"
  by (auto simp: registry_ok_def workflow_register names_register workflows_register distinct_update)

lemma workflow_unregister:
  assumes "registry_ok e"
  shows "engine_workflow (unregister_workflow name e) n = (if n = name then None else engine_workflow e n)"
  using assms by (simp add: engine_workflow_def unregister_workflow_def delete_conv')

lemma names_unregister:
  assumes "registry_ok e"
  shows "names_for (en_all_resps (unregister_workflow name e)) t = remove1 name (names_for (en_all_resps e) t)"
proof (cases "engine_workflow e name")
  case None
  with registry_okD(3) [OF assms, of name t] have "name \<notin> set (names_for (en_all_resps e) t)" by blast
  with None show ?thesis by (simp add: unregister_workflow_def engine_workflow_def remove1_idem)
next
  case (Some w)
  then show ?thesis by (simp add: unregister_workflow_def engine_workflow_def names_for_unregister)
qed

lemma registry_ok_unregister:
  assumes "registry_ok e"
  shows "registry_ok (unregister_workflow name e)"
  using assms unfolding registry_ok_def names_unregister [OF assms] workflow_unregister [OF assms]
  by (auto simp: unregister_workflow_def distinct_delete notin_set_remove1)

lemma set_map_filter: "set (List.map_filter f xs) = {y. \<exists>x\<in>set xs. f x = Some y}"
  by (force simp: map_filter_def image_iff)

lemma set_all_resp_workflows:
  assumes "registry_ok e"
  shows "w \<in> set (all_resp_workflows e t) \<longleftrightarrow>
           wf_name w \<in> set (names_for (en_all_resps e) t) \<and> engine_workflow e (wf_name w) = Some w"
  unfolding all_resp_workflows_def set_map_filter using registry_okD(2) [OF assms] by blast

lemma set_event_workflows:
  assumes "registry_ok e"
  shows "w \<in> set (event_workflows e ev) \<longleftrightarrow>
           engine_workflow e (wf_name w) = Some w \<and>
           (\<exists>cfg. wf_config w = Some cfg \<and> ev AND cfg_events cfg \<noteq> 0)"
proof -
  have "w \<in> snd ` set (en_workflows e) \<longleftrightarrow> engine_workflow e (wf_name w) = Some w"
  proof
    assume "w \<in> snd ` set (en_workflows e)"
    then obtain n where "(n, w) \<in> set (en_workflows e)" by auto
    then have "engine_workflow e n = Some w"
      using registry_okD(1) [OF assms] by (simp add: engine_workflow_def)
    with registry_okD(2) [OF assms] show "engine_workflow e (wf_name w) = Some w" by blast
  next
    assume "engine_workflow e (wf_name w) = Some w"
    then show "w \<in> snd ` set (en_workflows e)"
      by (force simp: engine_workflow_def dest: map_of_SomeD)
  qed
  then show ?thesis
    by (auto simp: event_workflows_def word_neq_0_conv split: option.splits)
qed

end
