(* ===== verification/Engine.thy ===== *)
theory Engine
  imports EngineReg
begin

text \<open>
  \<open>engine/engine.go\<close>: starting workflows, enqueuing steps, and the events from the MDM server. Each
  operation is an action on the world \<open>'w\<close> that the storage, the enqueuer and the workflows share.
  What the code only logs is not modelled: a call whose error is logged is a \<open>go_try\<close>.
\<close>

definition err_no_such_workflow :: "string \<Rightarrow> error" where
  "err_no_such_workflow name = Wrapf ''%w: %s'' [name] ErrNoSuchWorkflow"

text \<open>\<open>logAndError\<close> wraps the error it logs.\<close>

definition log_and_error :: "string \<Rightarrow> ('w, 'a) action \<Rightarrow> ('w, 'a) action" where
  "log_and_error msg m = go_wrap (msg @ '': %w'') [] m"

definition logged :: "('w, 'a) action \<Rightarrow> ('w, unit) action" where
  "logged m = go_bind (go_try m) (\<lambda>_. go_ret ())"

text \<open>\<open>defer\<close>: \<open>d\<close> runs when \<open>m\<close> has returned, whatever it returned.\<close>

definition go_defer :: "('w, 'a) action \<Rightarrow> ('w, unit) action \<Rightarrow> ('w, 'a) action" where
  "go_defer m d = (\<lambda>w. case m w of (r, w') \<Rightarrow> (case d w' of (_, w'') \<Rightarrow> (r, w'')))"

section \<open>Starting a workflow\<close>

text \<open>The map counts each item of \<open>a\<close> up and each of \<open>b\<close> down; the items with a nonzero count.\<close>

definition diff_seen :: "string list \<Rightarrow> string list \<Rightarrow> string \<Rightarrow> int" where
  "diff_seen a b = foldl (\<lambda>m v. m(v := m v - 1)) (foldl (\<lambda>m v. m(v := m v + 1)) (\<lambda>_. 0) a) b"

definition diff :: "string list \<Rightarrow> string list \<Rightarrow> string list" where
  "diff a b = filter (\<lambda>k. diff_seen a b k \<noteq> 0) (remdups (a @ b))"

text \<open>The exclusivity check: the IDs left to start.\<close>

definition exclusive_ids ::
  "('w, 'c, 'r) engine \<Rightarrow> ('w, 'r) workflow \<Rightarrow> string \<Rightarrow> string list \<Rightarrow> ('w, string list) action" where
  "exclusive_ids e w name ids =
     (if (case wf_config w of None \<Rightarrow> True | Some cfg \<Rightarrow> cfg_exclusivity cfg = exclusive)
      then
        go_bind (go_wrap ''retrieving outstanding status: %w'' []
                   (st_retrieve_outstanding (en_storage e) name ids)) (\<lambda>running.
        if length running > 0
        then (let ids' = diff ids running in
              if length ids' < 1
              then go_fail (Wrapf ''%w on %d (of %d) ids''
                              [digits (length running), digits (length ids)] ErrWorkflowAlreadyStarted)
              else go_ret ids')
        else go_ret ids)
      else go_ret ids)"

definition start_ids :: "('w, 'c, 'r) engine \<Rightarrow> string list \<Rightarrow> string list list" where
  "start_ids e ids = (if en_supports_multi e then [ids] else map (\<lambda>i. [i]) ids)"

definition start_instance ::
  "('w, 'c, 'r) engine \<Rightarrow> ('w, 'r) workflow \<Rightarrow> string \<Rightarrow> bytes \<Rightarrow> 'r event option \<Rightarrow> params option
    \<Rightarrow> string \<Rightarrow> string list \<Rightarrow> ('w, unit) action" where
  "start_instance e w name ctx ev mctx instanceID startID =
     (if length startID < 1 then go_ret ()
      else
        go_bind (go_wrap ''converting step start: %w'' []
                   (go_lift (workflow_step_start_from_engine (en_lib e) instanceID
                               (wf_new_context_value w) ctx startID ev mctx))) (\<lambda>ss.
        go_bind (go_wrap ''starting workflow: %w'' [] (wf_start w ss)) (\<lambda>_.
        go_bind (en_now e) (\<lambda>now.
        go_wrap ''recording workflow status: %w'' []
          (st_record_workflow_started (en_storage e) startID name now)))))"

text \<open>The instance ID that comes with an error is only logged, so an error is returned alone.\<close>

definition start_workflow ::
  "('w, 'c, 'r) engine \<Rightarrow> string \<Rightarrow> bytes \<Rightarrow> string list \<Rightarrow> 'r event option \<Rightarrow> params option
    \<Rightarrow> ('w, string) action" where
  "start_workflow e name ctx ids ev mctx =
     (case engine_workflow e name of
        None \<Rightarrow> go_fail (err_no_such_workflow name)
      | Some w \<Rightarrow>
          go_bind (exclusive_ids e w name ids) (\<lambda>ids.
          go_bind (en_new_id e) (\<lambda>instanceID.
          go_bind (go_for (start_ids e ids) (start_instance e w name ctx ev mctx instanceID)) (\<lambda>_.
          go_ret instanceID))))"

section \<open>Enqueuing a step\<close>

definition step_default_timeout :: "('w, 'c, 'r) engine \<Rightarrow> string \<Rightarrow> ('w, time) action" where
  "step_default_timeout e wname =
     go_bind (if en_default_timeout e > 0
              then go_bind (en_now e) (\<lambda>now. go_ret (now + en_default_timeout e))
              else go_ret 0) (\<lambda>t.
     case engine_workflow e wname of
       None \<Rightarrow> go_ret t
     | Some w \<Rightarrow>
         (case wf_config w of
            None \<Rightarrow> go_ret t
          | Some cfg \<Rightarrow>
              if cfg_timeout cfg > 0
              then go_bind (en_now e) (\<lambda>now. go_ret (now + cfg_timeout cfg))
              else go_ret t))"

definition enqueue_step ::
  "('w, 'c, 'r) engine \<Rightarrow> string \<Rightarrow> 'c wf_step_enqueueing \<Rightarrow> ('w, unit) action" where
  "enqueue_step e n se =
     go_bind (step_default_timeout e n) (\<lambda>timeout.
     go_bind (go_wrap ''converting workflow step: %w'' []
                (go_lift (storage_step_from_workflow_step (en_lib e) n timeout se))) (\<lambda>ss.
     go_bind (en_now e) (\<lambda>now.
     go_bind (go_wrap ''storing step: %w'' [] (st_store_step (en_storage e) (Some ss) now)) (\<lambda>_.
     if is_zero_time (cfg_not_until ss)
     then go_for (enq_commands ss) (\<lambda>cmd.
            go_wrap ''enqueueing step command %s (%s): %w'' [raw_uuid cmd, raw_request_type cmd]
              (en_enqueue e (enq_ids ss) (raw_command cmd)))
     else go_ret ()))))"

section \<open>Dispatching events\<close>

definition dispatch_all_command_response ::
  "('w, 'c, 'r) engine \<Rightarrow> string \<Rightarrow> string \<Rightarrow> 'r \<Rightarrow> params option \<Rightarrow> ('w, unit) action" where
  "dispatch_all_command_response e req_type eid response mctx =
     en_wait_all e
       (map (\<lambda>w. logged (wf_event w \<lparr>ev_flag = event_all_command_response, ev_data = ResponseData response\<rparr>
                           eid mctx))
          (all_resp_workflows e req_type))"

definition start_subscription ::
  "('w, 'c, 'r) engine \<Rightarrow> string \<Rightarrow> 'r event \<Rightarrow> params option \<Rightarrow> event_subscription \<Rightarrow> ('w, unit) action" where
  "start_subscription e eid ev mctx es =
     logged (start_workflow e (es_workflow es) (es_context es) [eid] (Some ev) mctx)"

text \<open>The goroutines of \<open>dispatchEvents\<close>: subscriptions first, then workflows, all waited for together.\<close>

definition dispatch_events ::
  "('w, 'c, 'r) engine \<Rightarrow> string \<Rightarrow> 'r event \<Rightarrow> params option \<Rightarrow> bool \<Rightarrow> bool \<Rightarrow> ('w, unit) action" where
  "dispatch_events e eid ev mctx sub_ev wf_ev =
     go_bind (case (sub_ev, en_event_storage e) of
                (True, Some evs) \<Rightarrow>
                  go_bind (go_try (st_retrieve_event_subscriptions_by_event evs (ev_flag ev))) (\<lambda>r.
                  go_ret (case r of Inl _ \<Rightarrow> [] | Inr subs \<Rightarrow> subs))
              | _ \<Rightarrow> go_ret []) (\<lambda>subs.
     en_wait_all e
       (map (start_subscription e eid ev mctx) subs @
        (if wf_ev then map (\<lambda>w. logged (wf_event w ev eid mctx)) (event_workflows e (ev_flag ev)) else [])))"

section \<open>Idle events\<close>

text \<open>\<open>time.Second * time.Duration(n)\<close>: a product of \<open>int64\<close> values, which wraps around.\<close>

definition int64 :: "int \<Rightarrow> int" where
  "int64 i = sint (word_of_int i :: 64 word)"

definition since_duration :: "int \<Rightarrow> int" where
  "since_duration since_seconds = int64 (1000000000 * since_seconds)"

definition idle_subscription ::
  "('w, 'c, 'r) engine \<Rightarrow> string \<Rightarrow> params option \<Rightarrow> time \<Rightarrow> event_subscription \<Rightarrow> ('w, unit) action" where
  "idle_subscription e eid mctx event_at es =
     go_bind (go_try (st_retrieve_workflow_started (en_storage e) eid (es_workflow es))) (\<lambda>started.
     case started of
       Inl _ \<Rightarrow> go_ret ()
     | Inr started \<Rightarrow>
         if es_event_context es = [] then go_ret ()
         else
           (case atoi (es_event_context es) of
              Inl _ \<Rightarrow> go_ret ()
            | Inr since_seconds \<Rightarrow>
                if since_seconds < 1 then go_ret ()
                else if \<not> event_at > started + since_duration since_seconds then go_ret ()
                else logged (start_workflow e (es_workflow es) (es_context es) [eid]
                               (Some \<lparr>ev_flag = event_idle_not_started_since, ev_data = NoEventData\<rparr>) mctx)))"

text \<open>An error of the subscriptions is only logged: the handler goes on with those that came beside it.\<close>

definition mdm_idle_event ::
  "('w, 'c, 'r) engine \<Rightarrow> string \<Rightarrow> params option \<Rightarrow> time \<Rightarrow> ('w, unit) action" where
  "mdm_idle_event e eid mctx event_at =
     go_bind (logged (dispatch_events e eid \<lparr>ev_flag = event_idle, ev_data = NoEventData\<rparr> mctx False True))
       (\<lambda>_.
     case en_event_storage e of
       None \<Rightarrow> go_ret ()
     | Some evs \<Rightarrow>
         go_bind (go_read (st_subscriptions_before_error evs event_idle_not_started_since)) (\<lambda>before_error.
         go_bind (go_try (st_retrieve_event_subscriptions_by_event evs event_idle_not_started_since)) (\<lambda>r.
         let subs = (case r of Inl _ \<Rightarrow> before_error | Inr subs \<Rightarrow> subs) in
         if length subs < 1 then go_ret ()
         else en_wait_all e (map (idle_subscription e eid mctx event_at) subs))))"

section \<open>Command responses\<close>

definition complete_step ::
  "('w, 'c, 'r) engine \<Rightarrow> string \<Rightarrow> 'r \<Rightarrow> params option \<Rightarrow> step_result option \<Rightarrow> ('w, unit) action" where
  "complete_step e uuid response mctx ssr =
     (case ssr of
        None \<Rightarrow> go_ret ()
      | Some ssr \<Rightarrow>
          (case engine_workflow e (ctx_workflow_name ssr) of
             None \<Rightarrow> log_and_error ''retrieving workflow'' (go_fail (err_no_such_workflow (ctx_workflow_name ssr)))
           | Some w \<Rightarrow>
               go_bind (log_and_error ''converting storage step''
                          (go_lift (workflow_step_result_from_storage (en_lib e) ssr
                                      (wf_new_context_value w) False uuid (Some response)))) (\<lambda>sr.
               log_and_error ''completing workflow step''
                 (wf_step_completed w
                    (case mctx of None \<Rightarrow> sr | Some p \<Rightarrow> sr\<lparr>wsc_params := p\<rparr>)))))"

text \<open>
  The goroutine that dispatches the response to the workflows registered for its request type runs
  at the point \<open>en_when\<close> says: before or after the response is stored, or when the call returns.
\<close>

definition mdm_command_response_event ::
  "('w, 'c, 'r) engine \<Rightarrow> string \<Rightarrow> string \<Rightarrow> bytes \<Rightarrow> params option \<Rightarrow> ('w, unit) action" where
  "mdm_command_response_event e eid uuid raw mctx =
     go_bind (log_and_error ''retreive command request type''
                (st_retrieve_command_request_type (en_storage e) eid uuid)) (\<lambda>(req_type, ok).
     if \<not> ok then go_ret ()
     else
       go_bind (log_and_error ''convert response''
                  (go_lift (storage_step_command_from_raw_response (en_lib e) req_type raw)))
         (\<lambda>(sc, response).
       let dispatch = logged (dispatch_all_command_response e req_type eid response mctx);
           store = log_and_error ''store command retrieve completed''
                     (st_store_command_response (en_storage e) eid sc);
           finish = complete_step e uuid response mctx
       in case en_when e of
            BeforeStore \<Rightarrow> go_bind dispatch (\<lambda>_. go_bind store finish)
          | AfterStore \<Rightarrow> go_bind (go_defer store dispatch) finish
          | AtReturn \<Rightarrow> go_defer (go_bind store finish) dispatch))"

section \<open>Check-in events\<close>

definition checkin_cancels :: "checkin \<Rightarrow> bool" where
  "checkin_cancels c = (case c of Authenticate _ \<Rightarrow> True | CheckOut _ \<Rightarrow> True | _ \<Rightarrow> False)"

definition checkin_events :: "checkin \<Rightarrow> 'r event list" where
  "checkin_events c =
     (case c of
        Authenticate v \<Rightarrow> [\<lparr>ev_flag = event_authenticate, ev_data = AuthenticateData v\<rparr>]
      | TokenUpdate v \<Rightarrow>
          [\<lparr>ev_flag = event_token_update, ev_data = TokenUpdateData (Some v)\<rparr>,
           \<lparr>ev_flag = event_enrollment, ev_data = TokenUpdateData (Some v)\<rparr>]
      | TokenUpdateEnrolling v enrolling \<Rightarrow>
          [\<lparr>ev_flag = event_token_update, ev_data = TokenUpdateData v\<rparr>] @
          (if enrolling then [\<lparr>ev_flag = event_enrollment, ev_data = TokenUpdateData v\<rparr>] else [])
      | CheckOut v \<Rightarrow> [\<lparr>ev_flag = event_check_out, ev_data = CheckOutData v\<rparr>]
      | OtherCheckin \<Rightarrow> [])"

definition mdm_checkin_event ::
  "('w, 'c, 'r) engine \<Rightarrow> string \<Rightarrow> checkin \<Rightarrow> params option \<Rightarrow> ('w, unit) action" where
  "mdm_checkin_event e eid c mctx =
     go_bind (if checkin_cancels c
              then
                go_bind (log_and_error ''checkin event: cancel steps''
                           (st_cancel_steps (en_storage e) eid [])) (\<lambda>_.
                log_and_error ''checkin event: clearing workflow status''
                  (st_clear_workflow_status (en_storage e) eid))
              else go_ret ()) (\<lambda>_.
     go_for (checkin_events c) (\<lambda>ev. logged (dispatch_events e eid ev mctx True True)))"

end
