(* ===== verification/EngineWorker.thy ===== *)
theory EngineWorker
  imports Engine
begin

text \<open>
  \<open>engine/worker.go\<close>: the worker that runs on an interval: it sends the delayed steps that are due,
  tells workflows of timed-out steps, and sends APNs pushes again. One run is an action; \<open>Run\<close> repeats
  it on a ticker until its context ends, here for a given list of ticks.
\<close>

record ('w, 'c, 'r) worker =
  wk_workflow :: "string \<Rightarrow> ('w, 'r) workflow option"
  wk_storage :: "'w worker_storage"
  wk_enqueue :: "string list \<Rightarrow> bytes \<Rightarrow> ('w, unit) action"
  wk_push :: "string list \<Rightarrow> ('w, unit) action"
  wk_now :: "('w, time) action"
  wk_duration :: int
  wk_re_push_duration :: int
  wk_lib :: "('c, 'r) mdm_lib"

definition default_duration :: int where
  "default_duration = 60 * 1000000000 * 5"

definition default_re_push_duration :: int where
  "default_re_push_duration = 3600 * 1000000000 * 24"

definition with_worker_duration :: "int \<Rightarrow> ('w, 'c, 'r) worker \<Rightarrow> ('w, 'c, 'r) worker" where
  "with_worker_duration d k = k\<lparr>wk_duration := d\<rparr>"

definition with_worker_re_push_duration :: "int \<Rightarrow> ('w, 'c, 'r) worker \<Rightarrow> ('w, 'c, 'r) worker" where
  "with_worker_re_push_duration d k = k\<lparr>wk_re_push_duration := d\<rparr>"

definition new_worker ::
  "(string \<Rightarrow> ('w, 'r) workflow option) \<Rightarrow> 'w worker_storage \<Rightarrow> (string list \<Rightarrow> bytes \<Rightarrow> ('w, unit) action)
    \<Rightarrow> (string list \<Rightarrow> ('w, unit) action) \<Rightarrow> ('w, time) action \<Rightarrow> ('c, 'r) mdm_lib
    \<Rightarrow> (('w, 'c, 'r) worker \<Rightarrow> ('w, 'c, 'r) worker) list \<Rightarrow> ('w, 'c, 'r) worker" where
  "new_worker wff sto enqueue push now lib opts =
     foldl (\<lambda>k opt. opt k)
       \<lparr>wk_workflow = wff, wk_storage = sto, wk_enqueue = enqueue, wk_push = push, wk_now = now,
        wk_duration = default_duration, wk_re_push_duration = default_re_push_duration, wk_lib = lib\<rparr>
       opts"

definition send_step :: "('w, 'c, 'r) worker \<Rightarrow> step_enqueueing \<Rightarrow> ('w, unit) action" where
  "send_step k step =
     go_for (enq_commands step) (\<lambda>cmd. logged (wk_enqueue k (enq_ids step) (raw_command cmd)))"

definition process_enqueuings :: "('w, 'c, 'r) worker \<Rightarrow> ('w, unit) action" where
  "process_enqueuings k =
     go_bind (wk_now k) (\<lambda>now.
     go_bind (go_wrap ''retrieving steps to enqueue: %w'' []
                (st_retrieve_steps_to_enqueue (wk_storage k) now)) (\<lambda>steps.
     go_for steps (send_step k)))"

definition time_out_step :: "('w, 'c, 'r) worker \<Rightarrow> step_result \<Rightarrow> ('w, unit) action" where
  "time_out_step k step =
     (if length (res_ids step) \<noteq> 1 then go_ret ()
      else
        (case wk_workflow k (ctx_workflow_name step) of
           None \<Rightarrow> go_ret ()
         | Some w \<Rightarrow>
             (case workflow_step_result_from_storage (wk_lib k) step (wf_new_context_value w) True [] None of
                Inl _ \<Rightarrow> go_ret ()
              | Inr sr \<Rightarrow> logged (wf_step_timeout w sr))))"

definition process_timeouts :: "('w, 'c, 'r) worker \<Rightarrow> ('w, unit) action" where
  "process_timeouts k =
     go_bind (go_wrap ''retrieving timed-out steps: %w'' []
                (st_retrieve_timed_out_steps (wk_storage k))) (\<lambda>steps.
     go_for steps (time_out_step k))"

definition process_re_pushes :: "('w, 'c, 'r) worker \<Rightarrow> ('w, unit) action" where
  "process_re_pushes k =
     go_bind (wk_now k) (\<lambda>t.
     go_bind (wk_now k) (\<lambda>now.
     go_bind (go_wrap ''retrieving repush ids: %w'' []
                (st_retrieve_and_mark_repushed (wk_storage k) (t + - wk_re_push_duration k) now)) (\<lambda>ids.
     if length ids < 1 then go_ret ()
     else log_and_error ''sending push'' (wk_push k ids))))"

definition run_once :: "('w, 'c, 'r) worker \<Rightarrow> ('w, unit) action" where
  "run_once k =
     go_bind (log_and_error ''processing enqueueings'' (process_enqueuings k)) (\<lambda>_.
     go_bind (log_and_error ''processing timeouts'' (process_timeouts k)) (\<lambda>_.
     if wk_re_push_duration k > 0
     then log_and_error ''processing repushes'' (process_re_pushes k)
     else go_ret ()))"

text \<open>\<open>Run\<close>: what the select receives, a tick or the end of the context with its error.\<close>

datatype run_event = Tick | ContextDone error

primrec worker_run :: "('w, 'c, 'r) worker \<Rightarrow> run_event list \<Rightarrow> ('w, unit) action" where
  "worker_run k [] = go_ret ()"
| "worker_run k (ev # evs) =
     (case ev of
        Tick \<Rightarrow> go_bind (logged (run_once k)) (\<lambda>_. worker_run k evs)
      | ContextDone err \<Rightarrow> go_fail err)"

end
