(* ===== verification/EngineContract.thy ===== *)
theory EngineContract
  imports EngineWorker "HOL-Library.Multiset"
begin

text \<open>
  The interfaces the engine rests on, as locales: \<open>wait_group\<close>, what \<open>sync.WaitGroup\<close> promises of the
  goroutines it waits for, and \<open>storage_contract\<close>, the part of \<open>storage.Storage\<close>'s documentation that
  the engine uses to start workflows. The lemmas of the engine that need them are proved here once.
\<close>

section \<open>The combinators of the engine\<close>

lemma wp_log_and_error [simp]:
  "wp (log_and_error msg m) Q w =
     wp m (\<lambda>r w'. case r of Inl e \<Rightarrow> Q (Inl (Wrapf (msg @ '': %w'') [] e)) w' | Inr x \<Rightarrow> Q (Inr x) w') w"
  by (simp add: log_and_error_def)

lemma wp_logged [simp]: "wp (logged m) Q w = wp m (\<lambda>_. Q (Inr ())) w"
  by (simp add: logged_def)

lemma wp_go_defer [simp]: "wp (go_defer m d) Q w = wp m (\<lambda>r w'. wp d (\<lambda>_. Q r) w') w"
  by (auto simp: wp_def go_defer_def split: prod.splits)

lemma logged_run: "logged m w = (Inr (), snd (m w))"
  by (auto simp: logged_def go_defs split: prod.splits)

section \<open>Waiting for goroutines\<close>

locale wait_group =
  fixes wait_all :: "('w, unit) action list \<Rightarrow> ('w, unit) action"
  assumes waits: "\<exists>ys. mset ys = mset xs \<and> wait_all xs = go_for ys (\<lambda>x. x)"
begin

lemma wp_wait_invariant:
  assumes "I w" and body: "\<And>x v. x \<in> set xs \<Longrightarrow> I v \<Longrightarrow> wp x (\<lambda>r v'. r = Inr () \<and> I v') v"
  shows "wp (wait_all xs) (\<lambda>r v. r = Inr () \<and> I v) w"
proof -
  obtain ys where ys: "mset ys = mset xs" "wait_all xs = go_for ys (\<lambda>x. x)" using waits by blast
  have set: "set ys = set xs" by (rule mset_eq_setD [OF ys(1)])
  show ?thesis
    unfolding ys(2)
    by (rule wp_for [where I = "\<lambda>zs v. I v \<and> set zs \<subseteq> set xs"]) (use assms set in \<open>auto elim: wp_mono\<close>)
qed

lemma wait_trace:
  assumes "\<And>z s. z \<in> set zs \<Longrightarrow> f z s = (Inr (), app s (g z))"
  shows "\<exists>zs'. mset zs' = mset zs \<and> wait_all (map f zs) s = (Inr (), foldl app s (map g zs'))"
proof -
  obtain ys where ys: "mset ys = mset (map f zs)" "wait_all (map f zs) = go_for ys (\<lambda>x. x)"
    using waits by blast
  have "\<exists>zs'. ys = map f zs' \<and> mset zs' = mset zs"
    using ys(1)
  proof (induction ys arbitrary: zs)
    case (Cons y ys)
    then have "y \<in> set (map f zs)" by (metis list.set_intros(1) mset_eq_setD)
    then obtain z where z: "z \<in> set zs" "y = f z" by auto
    then have "mset ys = mset (map f (remove1 z zs))"
      using Cons.prems by (simp add: image_mset_Diff) (metis add_mset_remove_trivial)
    from Cons.IH [OF this] obtain zs' where "ys = map f zs'" "mset zs' = mset (remove1 z zs)" by blast
    with z show ?case by (intro exI [of _ "z # zs'"]) simp
  qed simp
  then obtain zs' where zs': "ys = map f zs'" "mset zs' = mset zs" by blast
  have "go_for (map f zs') (\<lambda>x. x) s = (Inr (), foldl app s (map g zs'))"
    if "set zs' \<subseteq> set zs" for zs'
    using that by (induction zs' arbitrary: s) (auto simp: go_defs assms)
  with zs' ys show ?thesis by (metis mset_eq_setD subset_refl)
qed

end

definition run_in_order :: "('w, unit) action list \<Rightarrow> ('w, unit) action" where
  "run_in_order xs = go_for xs (\<lambda>x. x)"

definition run_reversed :: "('w, unit) action list \<Rightarrow> ('w, unit) action" where
  "run_reversed xs = go_for (rev xs) (\<lambda>x. x)"

interpretation in_order: wait_group run_in_order
  by unfold_locales (auto simp: run_in_order_def)

interpretation reversed: wait_group run_reversed
  by unfold_locales (metis mset_rev run_reversed_def)

section \<open>The difference of ID lists\<close>

lemma diff_seen_eq: "diff_seen a b k = int (count_list a k) - int (count_list b k)"
proof -
  have up: "foldl (\<lambda>m v. m(v := m v + 1)) m xs k = m k + int (count_list xs k)" for m :: "string \<Rightarrow> int" and xs
    by (induction xs arbitrary: m) auto
  have down: "foldl (\<lambda>m v. m(v := m v - 1)) m xs k = m k - int (count_list xs k)" for m :: "string \<Rightarrow> int" and xs
    by (induction xs arbitrary: m) auto
  show ?thesis by (simp add: diff_seen_def up down)
qed

lemma set_diff: "set (diff a b) = {k. count_list a k \<noteq> count_list b k}"
  by (auto simp: diff_def diff_seen_eq count_list_0_iff)

lemma count_distinct: "distinct xs \<Longrightarrow> count_list xs k = (if k \<in> set xs then 1 else 0)"
  by (induction xs) auto

lemma set_diff_distinct:
  assumes "distinct a" "distinct b" "set b \<subseteq> set a"
  shows "set (diff a b) = set a - set b"
  using assms(3) by (auto simp: set_diff count_distinct [OF assms(1)] count_distinct [OF assms(2)])

lemma distinct_diff: "distinct (diff a b)"
  by (simp add: diff_def)

section \<open>The storage contract\<close>

text \<open>
  \<open>fits\<close>: the enrollments and workflow names whose start the backend can record; \<open>stamp\<close>: the instant it
  keeps of the one it is given (MySQL keeps whole seconds); \<open>same\<close>: the worlds that differ only in what
  a query leaves behind (MySQL: the number of calls made).
\<close>

definition is_exclusive :: "('w, 'r) workflow \<Rightarrow> bool" where
  "is_exclusive wk \<longleftrightarrow> (case wf_config wk of None \<Rightarrow> True | Some cfg \<Rightarrow> cfg_exclusivity cfg = exclusive)"

locale storage_contract =
  fixes S :: "'w storage" and inv :: "'w \<Rightarrow> bool"
    and outst :: "'w \<Rightarrow> string \<Rightarrow> string list \<Rightarrow> string \<Rightarrow> bool"
    and started :: "'w \<Rightarrow> string \<Rightarrow> string \<Rightarrow> time"
    and fits :: "string \<Rightarrow> string \<Rightarrow> bool" and stamp :: "time \<Rightarrow> time"
    and same :: "'w \<Rightarrow> 'w \<Rightarrow> bool"
  assumes same_refl: "same w w"
    and same_law: "same w w' \<Longrightarrow> inv w \<Longrightarrow> inv w' \<and> outst w' = outst w \<and> started w' = started w"
    and outstanding_law:
      "inv w \<Longrightarrow> \<exists>r w'. st_retrieve_outstanding S name ids w = (Inr r, w') \<and> same w w' \<and> distinct r \<and>
                     set r = {i \<in> set ids. outst w name ids i}"
    and started_law:
      "inv w \<Longrightarrow> \<exists>w'. st_retrieve_workflow_started S i name w = (Inr (started w i name), w') \<and> same w w'"
    and record_law:
      "inv w \<Longrightarrow> go_time t \<Longrightarrow> ids \<noteq> [] \<Longrightarrow> \<forall>i\<in>set ids. fits i name \<Longrightarrow>
         \<exists>w'. st_record_workflow_started S ids name t w = (Inr (), w') \<and> inv w' \<and>
              outst w' = outst w \<and> (\<forall>i\<in>set ids. started w' i name = stamp t)"
    and clear_law:
      "inv w \<Longrightarrow> \<exists>w'. st_clear_workflow_status S i w = (Inr (), w') \<and> inv w' \<and>
                       outst w' = outst w \<and> (\<forall>name. started w' i name = 0)"
begin

text \<open>The IDs an exclusive workflow is started for: those that are not outstanding.\<close>

lemma exclusive_ids_run:
  assumes S: "en_storage e = S" and inv: "inv w" and ids: "distinct ids" and ex: "is_exclusive wk"
  shows "\<exists>w'. same w w' \<and>
        (if ids \<noteq> [] \<and> (\<forall>i\<in>set ids. outst w name ids i)
         then \<exists>args. exclusive_ids e wk name ids w =
                 (Inl (Wrapf ''%w on %d (of %d) ids'' args ErrWorkflowAlreadyStarted), w')
         else \<exists>new. exclusive_ids e wk name ids w = (Inr new, w') \<and> distinct new \<and>
                 set new = {i \<in> set ids. \<not> outst w name ids i})"
proof -
  obtain r w' where r: "st_retrieve_outstanding S name ids w = (Inr r, w')" "same w w'" "distinct r"
    "set r = {i \<in> set ids. outst w name ids i}" using outstanding_law [OF inv] by blast
  have set: "set (diff ids r) = {i \<in> set ids. \<not> outst w name ids i}"
    using set_diff_distinct [OF ids r(3)] r(4) by auto
  have run: "exclusive_ids e wk name ids w =
     (if length r > 0
      then if diff ids r = [] then (Inl (Wrapf ''%w on %d (of %d) ids''
                 [digits (length r), digits (length ids)] ErrWorkflowAlreadyStarted), w')
           else (Inr (diff ids r), w')
      else (Inr ids, w'))"
    using ex S r(1) by (auto simp: exclusive_ids_def is_exclusive_def go_defs Let_def)
  show ?thesis
  proof (cases "r = []")
    case True
    with r(4) have "\<forall>i\<in>set ids. \<not> outst w name ids i" by auto
    with True run ids r(2) show ?thesis by (intro exI [of _ w']) auto
  next
    case False
    have "diff ids r = [] \<longleftrightarrow> (\<forall>i\<in>set ids. outst w name ids i)"
      using set by (auto simp flip: set_empty2)
    moreover have "ids \<noteq> []" using False r(4) by auto
    ultimately show ?thesis using run False set distinct_diff r(2) by (intro exI [of _ w']) auto
  qed
qed

lemma start_all_outstanding:
  assumes S: "en_storage e = S" and inv: "inv w" and ids: "distinct ids" "ids \<noteq> []"
    and wk: "engine_workflow e name = Some wk" "is_exclusive wk"
    and all: "\<forall>i\<in>set ids. outst w name ids i"
  shows "\<exists>args w'. same w w' \<and> start_workflow e name ctx ids ev mctx w =
            (Inl (Wrapf ''%w on %d (of %d) ids'' args ErrWorkflowAlreadyStarted), w')"
  using exclusive_ids_run [OF S inv ids(1) wk(2), of name] ids(2) all
  by (auto simp: start_workflow_def wk(1) go_defs)

lemma start_not_outstanding:
  assumes S: "en_storage e = S" and inv: "inv w" and ids: "distinct ids"
    and wk: "engine_workflow e name = Some wk" "is_exclusive wk"
    and some: "ids = [] \<or> (\<exists>i\<in>set ids. \<not> outst w name ids i)"
  shows "\<exists>new w'. same w w' \<and> distinct new \<and> set new = {i \<in> set ids. \<not> outst w name ids i} \<and>
           start_workflow e name ctx ids ev mctx w =
             go_bind (en_new_id e) (\<lambda>instanceID.
             go_bind (go_for (start_ids e new) (start_instance e wk name ctx ev mctx instanceID)) (\<lambda>_.
             go_ret instanceID)) w'"
proof -
  have "\<not> (ids \<noteq> [] \<and> (\<forall>i\<in>set ids. outst w name ids i))" using some by auto
  with exclusive_ids_run [OF S inv ids wk(2), of name]
  obtain new w' where "exclusive_ids e wk name ids w = (Inr new, w')" "distinct new" "same w w'"
    "set new = {i \<in> set ids. \<not> outst w name ids i}" by auto
  then show ?thesis by (intro exI [of _ new] exI [of _ w']) (simp add: start_workflow_def wk(1) go_defs)
qed

text \<open>An idle subscription starts its workflow only when its seconds have passed since the last start.\<close>

lemma idle_subscription_run:
  assumes S: "en_storage e = S" and inv: "inv w"
  shows "\<exists>w'. same w w' \<and> idle_subscription e eid mctx at es w =
     (case atoi (es_event_context es) of
        Inl _ \<Rightarrow> (Inr (), w')
      | Inr n \<Rightarrow>
          if 1 \<le> n \<and> started w eid (es_workflow es) + since_duration n < at
          then (Inr (), snd (start_workflow e (es_workflow es) (es_context es) [eid]
                  (Some \<lparr>ev_flag = event_idle_not_started_since, ev_data = NoEventData\<rparr>) mctx w'))
          else (Inr (), w'))"
proof -
  have empty: "atoi [] = Inl (Errorf ''invalid syntax'' [[]])"
    by (simp add: atoi_def parse_nat_def)
  obtain w' where w': "st_retrieve_workflow_started S eid (es_workflow es) w =
      (Inr (started w eid (es_workflow es)), w')" "same w w'"
    using started_law [OF inv, of eid "es_workflow es"] by blast
  from w' S empty show ?thesis
    by (intro exI [of _ w']) (auto simp: idle_subscription_def go_defs logged_run split: sum.splits)
qed

end

end
