(* ===== verification/KVEngine.thy ===== *)
theory KVEngine
  imports EngineContract KVEvent
begin

text \<open>
  The key-value backend as the engine's storage: the records of operations that the engine, the
  worker and the event dispatch call, on a world that holds the store as one of its parts; and the
  proof that it keeps the engine's storage contract.
\<close>

definition kv_storage ::
  "'b kv_env \<Rightarrow> ('w \<Rightarrow> 'b kv_store) \<Rightarrow> ('b kv_store \<Rightarrow> 'w \<Rightarrow> 'w) \<Rightarrow> 'w storage" where
  "kv_storage E get put =
     \<lparr>st_retrieve_command_request_type = (\<lambda>i u. go_zoom get put (retrieve_command_request_type E i u)),
      st_store_command_response = (\<lambda>i sc. go_zoom get put (store_command_response E i sc)),
      st_store_step = (\<lambda>so t. go_zoom get put (store_step E so t)),
      st_retrieve_outstanding = (\<lambda>name ids. go_zoom get put (retrieve_outstanding_workflow_status E name ids)),
      st_cancel_steps = (\<lambda>i name. go_zoom get put (cancel_steps E i name)),
      st_retrieve_workflow_started = (\<lambda>i name. go_zoom get put (retrieve_workflow_started E i name)),
      st_record_workflow_started = (\<lambda>ids name t. go_zoom get put (record_workflow_started E ids name t)),
      st_clear_workflow_status = (\<lambda>i. go_zoom get put (clear_workflow_status E i))\<rparr>"

definition kv_worker_storage ::
  "'b kv_env \<Rightarrow> ('w \<Rightarrow> 'b kv_store) \<Rightarrow> ('b kv_store \<Rightarrow> 'w \<Rightarrow> 'w) \<Rightarrow> 'w worker_storage" where
  "kv_worker_storage E get put =
     \<lparr>st_retrieve_steps_to_enqueue = (\<lambda>t. go_zoom get put (retrieve_steps_to_enqueue E t)),
      st_retrieve_timed_out_steps = go_zoom get put (retrieve_timed_out_steps E),
      st_retrieve_and_mark_repushed = (\<lambda>t t'. go_zoom get put (retrieve_and_mark_re_pushed E t t'))\<rparr>"

definition kv_event_storage ::
  "'b kv_env \<Rightarrow> ('w \<Rightarrow> 'b kv_store) \<Rightarrow> ('b kv_store \<Rightarrow> 'w \<Rightarrow> 'w) \<Rightarrow> 'w event_storage" where
  "kv_event_storage E get put =
     \<lparr>st_retrieve_event_subscriptions_by_event =
        (\<lambda>f. go_zoom get put (retrieve_event_subscriptions_by_event E f)),
      st_subscriptions_before_error = (\<lambda>f w. subscriptions_before_error E f (get w))\<rparr>"

locale kv_system = kv_laws E view for E :: "'b kv_env" and view :: "'b \<Rightarrow> string \<rightharpoonup> bytes" +
  fixes get :: "'w \<Rightarrow> 'b kv_store" and put :: "'b kv_store \<Rightarrow> 'w \<Rightarrow> 'w" and n :: nat
  assumes get_put [simp]: "get (put s w) = s"
    and put_get [simp]: "put (get w) w = w"
    and put_put [simp]: "put s (put t w) = put s w"
begin

definition kv_inv :: "'w \<Rightarrow> bool" where
  "kv_inv w \<longleftrightarrow> (\<exists>a. rep n (get w) a) \<and> (\<exists>T. trep (view (status_store (get w))) T)"

definition kv_outst :: "'w \<Rightarrow> string \<Rightarrow> string list \<Rightarrow> string \<Rightarrow> bool" where
  "kv_outst w name ids i \<longleftrightarrow> (\<exists>a. rep n (get w) a \<and> outstanding a name ids i)"

definition kv_started :: "'w \<Rightarrow> string \<Rightarrow> string \<Rightarrow> time" where
  "kv_started w i name =
     (case view (status_store (get w)) (workflow_status_key i name) of
        None \<Rightarrow> 0 | Some b \<Rightarrow> projr (unmarshal_time E b))"

lemma kv_started_trep:
  "trep (view (status_store (get w))) T \<Longrightarrow>
     kv_started w i name = (case T (workflow_status_key i name) of None \<Rightarrow> 0 | Some t \<Rightarrow> t)"
  by (auto simp: kv_started_def trep_def unmarshal_time_text split: option.split)

lemma kv_status_change:
  assumes "kv_inv w" "trep (view b) T"
  shows "kv_inv (put ((get w)\<lparr>status_store := b\<rparr>) w)"
    "kv_outst (put ((get w)\<lparr>status_store := b\<rparr>) w) = kv_outst w"
  using assms by (auto simp: kv_inv_def kv_outst_def rep_def fun_eq_iff)

end

sublocale kv_system < kvsto: storage_contract "kv_storage E get put" kv_inv kv_outst kv_started "\<lambda>_ _. True" "\<lambda>t. t" "(=)"
proof (unfold_locales, goal_cases)
  case (1 w)
  show ?case by simp
next
  case (2 w w')
  then show ?case by simp
next
  case (3 w name ids)
  then obtain a where a: "rep n (get w) a" by (auto simp: kv_inv_def)
  have "wp (retrieve_outstanding_workflow_status E name ids)
      (\<lambda>r s. \<exists>x. r = Inr x \<and> s = get w \<and> distinct x \<and> (\<forall>a'. rep n (get w) a' \<longrightarrow> set x = {i. outstanding a' name ids i})) (get w)"
  proof -
    have each: "wp (retrieve_outstanding_workflow_status E name ids)
      (\<lambda>r s. \<exists>x. r = Inr x \<and> s = get w \<and> distinct x \<and> set x = {i. outstanding a' name ids i}) (get w)"
      if "rep n (get w) a'" for a'
      by (rule outstanding_exact [OF that]) simp
    then show ?thesis using each [OF a] by (auto simp: wp_def split: prod.splits)
  qed
  then obtain x where x: "retrieve_outstanding_workflow_status E name ids (get w) = (Inr x, get w)" "distinct x"
    "\<And>a'. rep n (get w) a' \<Longrightarrow> set x = {i. outstanding a' name ids i}"
    by (auto simp: wp_def split: prod.splits)
  have "kv_outst w name ids i \<longleftrightarrow> i \<in> set x" for i
    unfolding kv_outst_def using x(3) a by blast
  moreover have "set x \<subseteq> set ids" using x(3) [OF a] by (auto simp: outstanding_def)
  ultimately have "set x = {i \<in> set ids. kv_outst w name ids i}" by blast
  with x(1,2) show ?case by (auto simp: kv_storage_def go_zoom_def)
next
  case (4 w i name)
  then obtain T where T: "trep (view (status_store (get w))) T" by (auto simp: kv_inv_def)
  have "wp (retrieve_workflow_started E i name) (\<lambda>r s. r = Inr (kv_started w i name) \<and> s = get w) (get w)"
    by (simp add: retrieve_started_refines [OF T] kv_started_trep [OF T])
  then show ?case by (auto simp: kv_storage_def wp_def go_zoom_def split: prod.splits)
next
  case (5 w t ids name)
  then obtain T where T: "trep (view (status_store (get w))) T" by (auto simp: kv_inv_def)
  have "wp (record_workflow_started E ids name t)
     (\<lambda>r s. \<exists>b. r = Inr () \<and> s = (get w)\<lparr>status_store := b\<rparr> \<and> trep (view b) (spec_started ids name t T)) (get w)"
    by (rule record_started_refines [OF T 5(2)]) auto
  then obtain b where b: "record_workflow_started E ids name t (get w) = (Inr (), (get w)\<lparr>status_store := b\<rparr>)"
    "trep (view b) (spec_started ids name t T)" by (auto simp: wp_def split: prod.splits)
  let ?w = "put ((get w)\<lparr>status_store := b\<rparr>) w"
  have "kv_started ?w i name = t" if "i \<in> set ids" for i
    using kv_started_trep [of ?w "spec_started ids name t T" i name] b(2) that by (simp add: spec_started_eq)
  with b kv_status_change [OF 5(1) b(2)] show ?case by (auto simp: kv_storage_def go_zoom_def)
next
  case (6 w i)
  then obtain T where T: "trep (view (status_store (get w))) T" by (auto simp: kv_inv_def)
  have "wp (clear_workflow_status E i)
     (\<lambda>r s. \<exists>b. r = Inr () \<and> s = (get w)\<lparr>status_store := b\<rparr> \<and> trep (view b) (spec_clear_status i T)) (get w)"
    by (rule clear_status_refines [OF T]) auto
  then obtain b where b: "clear_workflow_status E i (get w) = (Inr (), (get w)\<lparr>status_store := b\<rparr>)"
    "trep (view b) (spec_clear_status i T)" by (auto simp: wp_def split: prod.splits)
  let ?w = "put ((get w)\<lparr>status_store := b\<rparr>) w"
  have "kv_started ?w i name = 0" for name
    using kv_started_trep [of ?w "spec_clear_status i T" i name] b(2)
    by (simp add: spec_clear_status_def status_key_prefix)
  with b kv_status_change [OF 6 b(2)] show ?case by (auto simp: kv_storage_def go_zoom_def)
qed

end
