(* ===== verification/EngineFacts.thy ===== *)
theory EngineFacts
  imports KVEngine
begin

text \<open>
  What the engine's operations do, case by case, and on a system world: the key-value store, the
  commands sent to the MDM server, the pushes, and the calls that workflows received.
\<close>

section \<open>Timeouts and enqueuing\<close>

text \<open>The default timeout of a step at time \<open>t\<close>: the workflow's, else the engine's, else none.\<close>

definition timeout_at :: "('w, 'c, 'r) engine \<Rightarrow> string \<Rightarrow> time \<Rightarrow> time" where
  "timeout_at e n t =
     (case Option.bind (engine_workflow e n) wf_config of
        None \<Rightarrow> if en_default_timeout e > 0 then t + en_default_timeout e else 0
      | Some cfg \<Rightarrow>
          if cfg_timeout cfg > 0 then t + cfg_timeout cfg
          else if en_default_timeout e > 0 then t + en_default_timeout e else 0)"

lemma step_default_timeout_run:
  assumes "en_now e w = (Inr t, w)"
  shows "step_default_timeout e n w = (Inr (timeout_at e n t), w)"
  using assms by (auto simp: step_default_timeout_def timeout_at_def go_defs split: option.splits)

lemma storage_step_fields:
  assumes "storage_step_from_workflow_step L n t se = Inr ss"
  shows "ctx_workflow_name ss = n" "ctx_instance_id ss = wsc_instance_id se" "ctx_name ss = wsc_name se"
    "enq_ids ss = wse_ids se" "cfg_not_until ss = wse_not_until se"
    "cfg_step_timeout ss = (if wse_timeout se = 0 then t else wse_timeout se)"
    "list_all2 (\<lambda>cmd d. storage_command_raw_from_workflow_command L cmd = Inr d) (wse_commands se) (enq_commands ss)"
    "marshal_context L (wsc_context se) = Inr (ctx_context ss)"
  using assms storage_commands_fields [of L "wse_commands se" "[]"]
  by (auto simp: storage_step_from_workflow_step_def split: sum.splits)

lemma enqueue_step_run:
  assumes clock: "en_now e w = (Inr t, w)"
  shows "enqueue_step e n se w =
    (case storage_step_from_workflow_step (en_lib e) n (timeout_at e n t) se of
       Inl err \<Rightarrow> (Inl (Wrapf ''converting workflow step: %w'' [] err), w)
     | Inr ss \<Rightarrow>
         (case st_store_step (en_storage e) (Some ss) t w of
            (Inl err, w') \<Rightarrow> (Inl (Wrapf ''storing step: %w'' [] err), w')
          | (Inr _, w') \<Rightarrow>
              if cfg_not_until ss = 0
              then go_for (enq_commands ss) (\<lambda>cmd.
                     go_wrap ''enqueueing step command %s (%s): %w'' [raw_uuid cmd, raw_request_type cmd]
                       (en_enqueue e (enq_ids ss) (raw_command cmd))) w'
              else (Inr (), w')))"
  using step_default_timeout_run [OF clock] clock
  by (auto simp: enqueue_step_def go_defs split: sum.splits prod.splits)

section \<open>The system world\<close>

datatype 'r wf_call =
    Started string "'r wf_step_start"
  | Completed string "'r wf_step_result"
  | TimedOut string "'r wf_step_result"
  | EventCalled string "'r event" string "params option"

record ('b, 'r) sys_world =
  sys_store :: "'b kv_store"
  sys_sent :: "(string list \<times> bytes) list"
  sys_pushed :: "string list list"
  sys_calls :: "'r wf_call list"

definition sys_put :: "'b kv_store \<Rightarrow> ('b, 'r) sys_world \<Rightarrow> ('b, 'r) sys_world" where
  "sys_put s w = w\<lparr>sys_store := s\<rparr>"

interpretation mem_sys: kv_system inmem_env map_of sys_store sys_put n for n
  by unfold_locales (simp_all add: sys_put_def)

definition sys_enqueue :: "string list \<Rightarrow> bytes \<Rightarrow> (('b, 'r) sys_world, unit) action" where
  "sys_enqueue ids raw = (\<lambda>w. (Inr (), w\<lparr>sys_sent := sys_sent w @ [(ids, raw)]\<rparr>))"

definition sys_push :: "string list \<Rightarrow> (('b, 'r) sys_world, unit) action" where
  "sys_push ids = (\<lambda>w. (Inr (), w\<lparr>sys_pushed := sys_pushed w @ [ids]\<rparr>))"

definition sys_now :: "(('b, 'r) sys_world, time) action" where
  "sys_now = (\<lambda>w. (Inr (wall_clock (sys_store w)), w))"

definition sys_call :: "'r wf_call \<Rightarrow> (('b, 'r) sys_world, unit) action" where
  "sys_call c = (\<lambda>w. (Inr (), w\<lparr>sys_calls := sys_calls w @ [c]\<rparr>))"

text \<open>An engine on the system world, over the key-value storage of an environment.\<close>

definition on_system :: "'b kv_env \<Rightarrow> (('b, 'r) sys_world, 'c, 'r) engine \<Rightarrow> bool" where
  "on_system E e \<longleftrightarrow>
     en_storage e = kv_storage E sys_store sys_put \<and> en_enqueue e = sys_enqueue \<and> en_now e = sys_now"

lemma sys_send_all:
  "go_for cmds (\<lambda>cmd. go_wrap fmt (as cmd) (sys_enqueue ids (raw_command cmd))) w =
     (Inr (), w\<lparr>sys_sent := sys_sent w @ map (\<lambda>cmd. (ids, raw_command cmd)) cmds\<rparr>)"
  by (induction cmds arbitrary: w) (simp_all add: go_defs sys_enqueue_def)

context kv_laws
begin

text \<open>
  Enqueuing a step: stored, then every command sent to all its enrollments in order, unless the step
  is delayed.
\<close>

lemma enqueue_step_system:
  assumes sys: "on_system E e" and rep: "rep n (sys_store w) a"
    and now: "go_time (wall_clock (sys_store w))"
    and conv: "storage_step_from_workflow_step (en_lib e) wname (timeout_at e wname (wall_clock (sys_store w))) se = Inr ss"
    and ok: "storable n E ss" "fresh_pairs ss a"
  shows "\<exists>s'. enqueue_step e wname se w =
      (Inr (), w\<lparr>sys_store := s',
          sys_sent := sys_sent w @ (if cfg_not_until ss = 0 then map (\<lambda>c. (enq_ids ss, raw_command c)) (enq_commands ss) else [])\<rparr>) \<and>
      rep n s' (spec_store_step (new_uuid E (ids_issued (sys_store w))) (wall_clock (sys_store w)) ss a)"
proof -
  let ?t = "wall_clock (sys_store w)"
  have clock: "en_now e w = (Inr ?t, w)" using sys by (simp add: on_system_def sys_now_def)
  have "wp (store_step E (Some ss) ?t)
     (\<lambda>r s'. r = Inr () \<and> rep n s' (spec_store_step (new_uuid E (ids_issued (sys_store w))) ?t ss a)) (sys_store w)"
    by (rule store_step_refines [OF rep ok now]) simp
  then obtain s' where s': "store_step E (Some ss) ?t (sys_store w) = (Inr (), s')"
    "rep n s' (spec_store_step (new_uuid E (ids_issued (sys_store w))) ?t ss a)" by (auto simp: wp_ex)
  then have "st_store_step (en_storage e) (Some ss) ?t w = (Inr (), w\<lparr>sys_store := s'\<rparr>)"
    using sys by (simp add: on_system_def kv_storage_def go_zoom_def sys_put_def)
  with s'(2) sys show ?thesis
    by (auto simp: enqueue_step_run [OF clock] conv on_system_def sys_send_all)
qed

end

section \<open>Command responses\<close>

text \<open>What a completed step hands to its workflow.\<close>

lemma step_result_fields:
  assumes "workflow_step_result_from_storage L ssr new_ctx ignore uuid sp = Inr sr"
  shows "res_ids ssr = [sr_id sr]" "wsc_instance_id sr = ctx_instance_id ssr" "wsc_name sr = ctx_name ssr"
    "\<not> ignore \<Longrightarrow> length (sr_command_results sr) = length (res_commands ssr)"
  using assms command_results_length [of L uuid sp "res_commands ssr" "[]"]
  by (auto simp: workflow_step_result_from_storage_def split: list.splits sum.splits)

definition with_params :: "params option \<Rightarrow> 'r wf_step_result \<Rightarrow> 'r wf_step_result" where
  "with_params mctx sr = (case mctx of None \<Rightarrow> sr | Some p \<Rightarrow> sr\<lparr>wsc_params := p\<rparr>)"

context kv_laws
begin

text \<open>
  A response for a command the engine tracks, with no workflow registered for its request type: the
  abstract store makes the abstract step, and the workflow is told of the step exactly when the
  abstract step completes it.
\<close>

lemma response_event_system:
  assumes sys: "on_system E e" and rep: "rep n (sys_store w) a"
    and uuid: "eid \<noteq> []" "uuid \<noteq> []" "length uuid = n" and wait: "wait_group (en_wait_all e)"
    and c: "a_cmds a (eid, uuid) = Some c"
    and none: "all_resp_workflows e (ac_request_type c) = []"
    and conv: "storage_step_command_from_raw_response (en_lib e) (ac_request_type c) raw = Inr (sc, resp)"
      "cr_uuid sc = uuid"
  shows "\<exists>s'. rep n s' (snd (spec_store_response eid sc a)) \<and> same_others (sys_store w) s' \<and>
     mdm_command_response_event e eid uuid raw mctx w =
       (case fst (spec_store_response eid sc a) of
          Inl err \<Rightarrow> (Inl (Wrapf ''store command retrieve completed: %w'' [] err), w\<lparr>sys_store := s'\<rparr>)
        | Inr ssr \<Rightarrow> complete_step e uuid resp mctx ssr (w\<lparr>sys_store := s'\<rparr>))"
proof -
  have wait0: "en_wait_all e [] w' = (Inr (), w')" for w'
    using wait_group.waits [OF wait, of "[]"] by (auto simp: go_defs)
  have disp: "logged (dispatch_all_command_response e (ac_request_type c) eid resp mctx) w' = (Inr (), w')" for w'
    by (simp add: logged_run dispatch_all_command_response_def none wait0)
  have "wp (retrieve_command_request_type E eid uuid)
      (\<lambda>r s. r = Inr (ac_request_type c, True) \<and> s = sys_store w) (sys_store w)"
    using request_type_refines [OF rep uuid(3)] uuid c by simp
  then have rt: "retrieve_command_request_type E eid uuid (sys_store w) = (Inr (ac_request_type c, True), sys_store w)"
    by (auto simp: wp_ex)
  have "wp (store_command_response E eid sc)
     (\<lambda>r s'. r = fst (spec_store_response eid sc a) \<and> rep n s' (snd (spec_store_response eid sc a)) \<and>
             same_others (sys_store w) s') (sys_store w)"
    by (rule store_command_response_refines [OF rep]) (simp_all add: conv uuid)
  then obtain s' where s': "store_command_response E eid sc (sys_store w) = (fst (spec_store_response eid sc a), s')"
    "rep n s' (snd (spec_store_response eid sc a))" "same_others (sys_store w) s'" by (auto simp: wp_ex)
  have req: "st_retrieve_command_request_type (en_storage e) eid uuid w = (Inr (ac_request_type c, True), w)"
    using sys rt by (simp add: on_system_def kv_storage_def go_zoom_def sys_put_def)
  have sto: "st_store_command_response (en_storage e) eid sc w = (fst (spec_store_response eid sc a), w\<lparr>sys_store := s'\<rparr>)"
    using sys s' by (simp add: on_system_def kv_storage_def go_zoom_def sys_put_def)
  have "mdm_command_response_event e eid uuid raw mctx w =
       (case fst (spec_store_response eid sc a) of
          Inl err \<Rightarrow> (Inl (Wrapf ''store command retrieve completed: %w'' [] err), w\<lparr>sys_store := s'\<rparr>)
        | Inr ssr \<Rightarrow> complete_step e uuid resp mctx ssr (w\<lparr>sys_store := s'\<rparr>))"
    using disp by (cases "en_when e")
      (auto simp: mdm_command_response_event_def go_defs req conv sto log_and_error_def go_defer_def
        split: sum.splits prod.splits)
  with s' show ?thesis by blast
qed

lemma response_event_unknown:
  assumes sys: "on_system E e" and rep: "rep n (sys_store w) a"
    and uuid: "eid \<noteq> []" "uuid \<noteq> []" "length uuid = n" and c: "a_cmds a (eid, uuid) = None"
  shows "mdm_command_response_event e eid uuid raw mctx w = (Inr (), w)"
proof -
  have "wp (retrieve_command_request_type E eid uuid) (\<lambda>r s. r = Inr ([], False) \<and> s = sys_store w) (sys_store w)"
    using request_type_refines [OF rep uuid(3)] uuid c by simp
  then have "st_retrieve_command_request_type (en_storage e) eid uuid w = (Inr ([], False), w)"
    using sys by (auto simp: wp_ex on_system_def kv_storage_def go_zoom_def sys_put_def)
  then show ?thesis by (simp add: mdm_command_response_event_def go_defs log_and_error_def)
qed

end

end
