(* ===== verification/EngineProps.thy ===== *)
theory EngineProps
  imports KVEventProps EngineFacts
begin

text \<open>
  The properties of the engine: its registry of workflows, starting workflows, enqueuing steps,
  command responses, check-ins, idle events and the dispatch of events. Where storage matters the
  engine is the one that runs on the key-value backend (\<open>on_system\<close>). \<open>demo_engine\<close> is a concrete
  engine on the in-memory environment, for the witnesses.
\<close>

section \<open>A concrete engine\<close>

definition demo_lib :: "(command_raw, string) mdm_lib" where
  "demo_lib =
     \<lparr>lib_generic_command = (\<lambda>c. Some (Some (raw_uuid c, raw_request_type c))),
      lib_marshal = (\<lambda>c. Inr (raw_command c)),
      lib_new_response = (\<lambda>rt. Some []),
      lib_unmarshal = (\<lambda>r raw. Inr raw),
      lib_generic_response = (\<lambda>r. Some (Some (take 2 r, drop 2 r))),
      lib_json = \<lparr>json_marshal = (\<lambda>_. Inr []), json_unmarshal = (\<lambda>c _. Inr c)\<rparr>\<rparr>"

type_synonym demo_world = "(mem_bucket, string) sys_world"

definition demo_workflow :: "string \<Rightarrow> config option \<Rightarrow> (demo_world, string) workflow" where
  "demo_workflow name cfg =
     \<lparr>wf_name = name, wf_config = cfg, wf_new_context_value = (\<lambda>_. None),
      wf_start = (\<lambda>ss. sys_call (Started name ss)),
      wf_step_completed = (\<lambda>sr. sys_call (Completed name sr)),
      wf_step_timeout = (\<lambda>sr. sys_call (TimedOut name sr)),
      wf_event = (\<lambda>ev i p. sys_call (EventCalled name ev i p))\<rparr>"

definition demo_engine :: "(demo_world, command_raw, string) engine" where
  "demo_engine =
     register_workflow (demo_workflow ''wf'' None)
       (new_engine (kv_storage inmem_env sys_store sys_put) sys_enqueue False (go_ret ''inst'')
          sys_now demo_lib run_in_order AtReturn [])"

lemma demo_engine_sel [simp]:
  "en_workflows demo_engine = [(''wf'', demo_workflow ''wf'' None)]" "en_all_resps demo_engine = []"
  "en_storage demo_engine = kv_storage inmem_env sys_store sys_put" "en_enqueue demo_engine = sys_enqueue"
  "en_supports_multi demo_engine = False" "en_event_storage demo_engine = None"
  "en_new_id demo_engine = go_ret ''inst''" "en_now demo_engine = sys_now"
  "en_default_timeout demo_engine = default_timeout" "en_lib demo_engine = demo_lib"
  "en_wait_all demo_engine = run_in_order" "en_when demo_engine = AtReturn"
  by (simp_all add: demo_engine_def register_workflow_def new_engine_def demo_workflow_def)

lemma demo_workflow_sel [simp]:
  "wf_name (demo_workflow n c) = n" "wf_config (demo_workflow n c) = c"
  "wf_new_context_value (demo_workflow n c) x = None"
  "wf_start (demo_workflow n c) ss = sys_call (Started n ss)"
  "wf_step_completed (demo_workflow n c) sr = sys_call (Completed n sr)"
  "wf_step_timeout (demo_workflow n c) sr = sys_call (TimedOut n sr)"
  "wf_event (demo_workflow n c) ev i p = sys_call (EventCalled n ev i p)"
  by (simp_all add: demo_workflow_def)

lemma demo_on_system: "on_system inmem_env demo_engine"
  by (simp add: on_system_def)

lemma demo_engine_workflow: "engine_workflow demo_engine n = (if n = ''wf'' then Some (demo_workflow ''wf'' None) else None)"
  by (simp add: engine_workflow_def)

definition world_on :: "mem_bucket kv_store \<Rightarrow> demo_world" where
  "world_on s = \<lparr>sys_store = s, sys_sent = [], sys_pushed = [], sys_calls = []\<rparr>"

lemma world_on_sel [simp]:
  "sys_store (world_on s) = s" "sys_sent (world_on s) = []" "sys_calls (world_on s) = []"
  by (simp_all add: world_on_def)

section \<open>The registry\<close>

datatype ('w, 'r) reg_op = Register "('w, 'r) workflow" | Unregister string

primrec reg_apply :: "('w, 'r) reg_op \<Rightarrow> ('w, 'c, 'r) engine \<Rightarrow> ('w, 'c, 'r) engine" where
  "reg_apply (Register w) e = register_workflow w e"
| "reg_apply (Unregister n) e = unregister_workflow n e"

primrec reg_lookup :: "('w, 'r) reg_op \<Rightarrow> (string \<rightharpoonup> ('w, 'r) workflow) \<Rightarrow> (string \<rightharpoonup> ('w, 'r) workflow)" where
  "reg_lookup (Register w) m = m(wf_name w \<mapsto> w)"
| "reg_lookup (Unregister n) m = m(n := None)"

text \<open>
  The request types a name is subscribed to: those of every configuration registered under it since the name was
  last removed.
\<close>

primrec reg_subscribed :: "('w, 'r) reg_op \<Rightarrow> (string \<times> string) set \<Rightarrow> (string \<times> string) set" where
  "reg_subscribed (Register w) S = S \<union> {wf_name w} \<times> set (resp_types w)"
| "reg_subscribed (Unregister n) S = {p \<in> S. fst p \<noteq> n}"

lemma registry_ok_new: "registry_ok (new_engine sto enq multi newid now lib wait when [])"
  by (simp add: registry_ok_def new_engine_def engine_workflow_def names_for_def)

lemma registry_run:
  "registry_ok e \<Longrightarrow> registry_ok (fold reg_apply ops e) \<and>
     engine_workflow (fold reg_apply ops e) = fold reg_lookup ops (engine_workflow e)"
proof (induction ops arbitrary: e)
  case (Cons opn ops)
  have "registry_ok (reg_apply opn e) \<and> engine_workflow (reg_apply opn e) = reg_lookup opn (engine_workflow e)"
    using Cons.prems
    by (cases opn) (auto simp: registry_ok_register registry_ok_unregister workflow_register
        workflow_unregister fun_eq_iff)
  then show ?case using Cons.IH [of "reg_apply opn e"] by simp
qed simp

lemma registry_subscriptions:
  "registry_ok e \<Longrightarrow> (\<And>t. set (names_for (en_all_resps e) t) = {n. (n, t) \<in> S}) \<Longrightarrow>
     set (names_for (en_all_resps (fold reg_apply ops e)) t) = {n. (n, t) \<in> fold reg_subscribed ops S}"
proof (induction ops arbitrary: e S)
  case (Cons opn ops)
  have step: "set (names_for (en_all_resps (reg_apply opn e)) t) = {n. (n, t) \<in> reg_subscribed opn S}" for t
  proof (cases opn)
    case (Register w)
    then show ?thesis using Cons.prems(2) [of t] by (auto simp: names_register)
  next
    case (Unregister n)
    then show ?thesis
      using Cons.prems(2) [of t] registry_okD(4) [OF Cons.prems(1)]
      by (simp add: names_unregister [OF Cons.prems(1)] set_remove1_eq set_diff_eq)
  qed
  have "registry_ok (reg_apply opn e)" using registry_run [OF Cons.prems(1), of "[opn]"] by simp
  from Cons.IH [OF this step] show ?case by simp
qed simp

text \<open>
  C22: After any sequence of registrations and removals on a new engine, a name looks up the workflow
  registered last under it unless it was removed since; the workflows notified of an event are exactly
  the registered ones whose configuration has its flag, each once; and the workflows notified of a
  command response are exactly the registered ones under whose name a configuration with the response's
  request type was registered since the name was last removed, each once. That configuration need not be
  the registered one's: registering a name again keeps the request types of the earlier registration.
\<close>

theorem registry_invariant:
  "let e = fold reg_apply ops (new_engine sto enq multi newid now lib wait when []);
       m = fold reg_lookup ops Map.empty; subscribed = fold reg_subscribed ops {} in
   engine_workflow e = m \<and>
   set (event_workflows e ev) =
     {w. m (wf_name w) = Some w \<and> (\<exists>cfg. wf_config w = Some cfg \<and> ev AND cfg_events cfg \<noteq> 0)} \<and>
   distinct (event_workflows e ev) \<and>
   set (all_resp_workflows e rt) = {w. m (wf_name w) = Some w \<and> (wf_name w, rt) \<in> subscribed} \<and>
   distinct (map wf_name (all_resp_workflows e rt))"
proof -
  let ?e0 = "new_engine sto enq multi newid now lib wait when []"
  define e where "e = fold reg_apply ops ?e0"
  define m where "m = fold reg_lookup ops Map.empty"
  have "engine_workflow ?e0 = Map.empty" by (simp add: engine_workflow_def new_engine_def fun_eq_iff)
  then have ok: "registry_ok e" and m: "engine_workflow e = m"
    using registry_run [OF registry_ok_new, of ops sto enq multi newid now lib wait "when"]
    by (simp_all add: e_def m_def)
  have "wf_name w = k" if "(k, w) \<in> set (en_workflows e)" for k w
    using that ok by (auto simp: registry_ok_def engine_workflow_def)
  then have "map wf_name (map snd (en_workflows e)) = map fst (en_workflows e)" by force
  then have "distinct (map snd (en_workflows e))"
    using registry_okD(1) [OF ok] distinct_map by metis
  then have ev: "distinct (event_workflows e ev)" by (simp add: event_workflows_def)
  have names: "map wf_name (List.map_filter (engine_workflow e) ns) = ns"
    if "\<forall>n\<in>set ns. engine_workflow e n \<noteq> None" for ns
    using that by (induction ns) (auto simp: List.map_filter_simps registry_okD(2) [OF ok])
  have "map wf_name (all_resp_workflows e rt) = names_for (en_all_resps e) rt"
    unfolding all_resp_workflows_def by (rule names) (use registry_okD(3) [OF ok] in auto)
  then have "distinct (map wf_name (all_resp_workflows e rt))" using registry_okD(4) [OF ok] by simp
  moreover have "set (names_for (en_all_resps e) rt) = {n. (n, rt) \<in> fold reg_subscribed ops {}}"
    unfolding e_def by (rule registry_subscriptions [OF registry_ok_new]) (simp add: new_engine_def names_for_def)
  then have "set (all_resp_workflows e rt) = {w. m (wf_name w) = Some w \<and> (wf_name w, rt) \<in> fold reg_subscribed ops {}}"
    using m by (auto simp: set_all_resp_workflows [OF ok])
  moreover have "set (event_workflows e ev) =
     {w. m (wf_name w) = Some w \<and> (\<exists>cfg. wf_config w = Some cfg \<and> ev AND cfg_events cfg \<noteq> 0)}"
    using m by (auto simp: set_event_workflows [OF ok])
  ultimately show ?thesis using ev m unfolding Let_def e_def m_def by blast
qed

text \<open>
  A workflow that is registered again under its name keeps the request types of its earlier
  configuration: the new workflow is notified of command responses its configuration does not name.
\<close>

theorem reregistered_keeps_types:
  assumes "registry_ok e" "wf_name w' = wf_name w" "rt \<in> set (resp_types w)"
  shows "w' \<in> set (all_resp_workflows (register_workflow w' (register_workflow w e)) rt)"
  using assms
  by (simp add: set_all_resp_workflows registry_ok_register names_register workflow_register)

theorem reregistered_keeps_types_witness:
  "\<exists>w w' :: (demo_world, string) workflow. resp_types w' = [] \<and>
     w' \<in> set (all_resp_workflows (register_workflow w' (register_workflow w demo_engine)) ''DeviceLock'')"
proof -
  let ?cfg = "\<lparr>cfg_timeout = 0, cfg_exclusivity = exclusive,
               cfg_all_command_response_request_types = [''DeviceLock''], cfg_events = 0\<rparr>"
  have "registry_ok demo_engine"
    unfolding demo_engine_def by (rule registry_ok_register [OF registry_ok_new])
  from reregistered_keeps_types [OF this, of "demo_workflow ''x'' None" "demo_workflow ''x'' (Some ?cfg)" "''DeviceLock''"]
  show ?thesis
    by (intro exI [of _ "demo_workflow ''x'' (Some ?cfg)"] exI [of _ "demo_workflow ''x'' None"])
      (simp add: resp_types_def)
qed

section \<open>Starting workflows\<close>

lemma kv_system_on: "kv_laws E view \<Longrightarrow> kv_system E view sys_store sys_put"
  by (auto simp: kv_system_def kv_system_axioms_def sys_put_def)

context kv_system
begin

lemma kv_outst_rep:
  assumes "rep n (get w) a"
  shows "kv_outst w name ids i \<longleftrightarrow> outstanding a name ids i"
proof -
  have each: "\<exists>r. retrieve_outstanding_workflow_status E name ids (get w) = (Inr r, get w) \<and> set r = {i. outstanding b name ids i}"
    if "rep n (get w) b" for b
    using outstanding_exact [OF that, where Q = "\<lambda>x s. s = get w \<and> (\<exists>r. x = Inr r \<and> set r = {i. outstanding b name ids i})"
        and name = name and ids = ids]
    by (auto simp: wp_ex)
  show ?thesis
  proof
    assume "kv_outst w name ids i"
    then obtain b where b: "rep n (get w) b" "outstanding b name ids i" by (auto simp: kv_outst_def)
    with each [OF b(1)] each [OF assms] show "outstanding a name ids i" by auto
  qed (use assms in \<open>auto simp: kv_outst_def\<close>)
qed

lemma kv_invI: "rep n (get w) a \<Longrightarrow> trep (view (status_store (get w))) T \<Longrightarrow> kv_inv w"
  by (auto simp: kv_inv_def)

lemma start_refused_kv:
  assumes "en_storage e = kv_storage E get put" "rep n (get w) a" "trep (view (status_store (get w))) T"
    "distinct ids" "ids \<noteq> []" "engine_workflow e name = Some wk" "is_exclusive wk"
    "\<forall>i\<in>set ids. outstanding a name ids i"
  shows "\<exists>args. start_workflow e name ctx ids ev mctx w =
            (Inl (Wrapf ''%w on %d (of %d) ids'' args ErrWorkflowAlreadyStarted), w)"
  using kvsto.start_all_outstanding [of e w ids name wk ctx ev mctx] assms
  by (auto simp: kv_outst_rep intro: kv_invI)

lemma start_runs_kv:
  assumes "en_storage e = kv_storage E get put" "rep n (get w) a" "trep (view (status_store (get w))) T"
    "distinct ids" "engine_workflow e name = Some wk" "is_exclusive wk"
    "\<exists>i\<in>set ids. \<not> outstanding a name ids i"
  shows "\<exists>new. distinct new \<and> set new = {i \<in> set ids. \<not> outstanding a name ids i} \<and>
           start_workflow e name ctx ids ev mctx w =
             go_bind (en_new_id e) (\<lambda>instanceID.
             go_bind (go_for (start_ids e new) (start_instance e wk name ctx ev mctx instanceID)) (\<lambda>_.
             go_ret instanceID)) w"
  using kvsto.start_not_outstanding [of e w ids name wk ctx ev mctx] assms
  by (auto simp: kv_outst_rep intro: kv_invI)

end

text \<open>
  Starting an exclusive workflow for enrollments that all have it outstanding is refused with the
  already-started error and changes nothing.
\<close>

theorem start_refused:
  assumes "kv_laws E view" "on_system E e"
    and "kv_laws.rep E view n (sys_store w) a" "kv_laws.trep E (view (status_store (sys_store w))) T"
    and "engine_workflow e name = Some wk" "is_exclusive wk" "distinct ids" "ids \<noteq> []"
    and "\<forall>i\<in>set ids. outstanding a name ids i"
  shows "\<exists>args. start_workflow e name ctx ids ev mctx w =
            (Inl (Wrapf ''%w on %d (of %d) ids'' args ErrWorkflowAlreadyStarted), w)"
proof -
  have "en_storage e = kv_storage E sys_store sys_put" using assms(2) by (simp add: on_system_def)
  from kv_system.start_refused_kv [OF kv_system_on [OF assms(1)] this assms(3,4,7,8,5,6,9)]
  show ?thesis .
qed

lemma trep_sample: "inmem.rep 2 s a \<Longrightarrow> status_store s = [] \<Longrightarrow> inmem.trep (map_of (status_store s)) Map.empty"
  by (simp add: inmem.trep_def fun_eq_iff)

lemma sample_outstanding_both:
  "outstanding sample_astore ''wf'' ids i \<longleftrightarrow> i \<in> set ids \<and> (i = ''AAA'' \<or> i = ''BBB'')"
  by (auto simp: outstanding_def wf_step_of_def sample_steps sample_cmds astep_of_def sample_step_def
      incomplete_def new_acmd_def)

lemma sample_world:
  obtains w :: demo_world where "inmem.rep 2 (sys_store w) sample_astore" "sys_calls w = []" "sys_sent w = []"
    "inmem.trep (map_of (status_store (sys_store w))) Map.empty" "wall_clock (sys_store w) = 7"
proof -
  obtain s where s: "inmem.rep 2 s sample_astore" "wall_clock s = 7" "status_store s = []"
    using sample_stored by blast
  show thesis by (rule that [of "world_on s"]) (use s trep_sample [OF s(1,3)] in auto)
qed

theorem start_refused_witness:
  "\<exists>w args. start_workflow demo_engine ''wf'' [] [''AAA''] None None w =
            (Inl (Wrapf ''%w on %d (of %d) ids'' args ErrWorkflowAlreadyStarted), w)"
proof -
  obtain w :: demo_world where w: "inmem.rep 2 (sys_store w) sample_astore"
    "inmem.trep (map_of (status_store (sys_store w))) Map.empty" using sample_world by metis
  from start_refused [OF inmem.kv_laws_axioms demo_on_system w, of "''wf''" "demo_workflow ''wf'' None" "[''AAA'']" "[]" None None]
  show ?thesis by (auto simp: demo_engine_workflow is_exclusive_def sample_outstanding_both)
qed

definition started_with ::
  "string \<Rightarrow> ctx_value option \<Rightarrow> 'r event option \<Rightarrow> params option \<Rightarrow> string list \<Rightarrow> 'r wf_step_start" where
  "started_with iid c ev mctx ids =
     \<lparr>wsc_params = (case mctx of None \<Rightarrow> Map.empty | Some p \<Rightarrow> p), wsc_instance_id = iid, wsc_name = [],
      wsc_context = c, ss_event = ev, ss_ids = ids\<rparr>"

lemma start_ids_props:
  "new \<noteq> [] \<Longrightarrow> \<forall>g\<in>set (start_ids e new). g \<noteq> []" "concat (start_ids e new) = new"
  unfolding start_ids_def by simp_all

lemma go_wrap_ok: "m w = (Inr x, w') \<Longrightarrow> go_wrap f as m w = (Inr x, w')"
  by (simp add: go_defs)

context kv_laws
begin

lemma record_started_run:
  assumes "trep (view (status_store s)) T" "go_time t"
  obtains b where "record_workflow_started E ids name t s = (Inr (), s\<lparr>status_store := b\<rparr>)"
    "trep (view b) (spec_started ids name t T)"
proof -
  have "wp (record_workflow_started E ids name t)
      (\<lambda>r s'. \<exists>b. r = Inr () \<and> s' = s\<lparr>status_store := b\<rparr> \<and> trep (view b) (spec_started ids name t T)) s"
    by (rule record_started_refines [OF assms]) auto
  then show thesis by (auto simp: wp_ex intro: that)
qed

lemma start_instance_run:
  assumes sys: "on_system E e" and rep: "rep n (sys_store w) a" and T: "trep (view (status_store (sys_store w))) T"
    and now: "go_time (wall_clock (sys_store w))" and g: "g \<noteq> []"
    and ctx: "unmarshal_context (en_lib e) (wf_new_context_value wk []) ctx = Inr c"
    and wk: "wf_start wk = (\<lambda>ss. sys_call (Started name ss))"
  obtains b where "start_instance e wk name ctx ev mctx iid g w =
      (Inr (), w\<lparr>sys_store := (sys_store w)\<lparr>status_store := b\<rparr>,
                sys_calls := sys_calls w @ [Started name (started_with iid c ev mctx g)]\<rparr>)"
    "trep (view b) (spec_started g name (wall_clock (sys_store w)) T)"
    "rep n ((sys_store w)\<lparr>status_store := b\<rparr>) a"
proof -
  obtain b where b: "record_workflow_started E g name (wall_clock (sys_store w)) (sys_store w) =
      (Inr (), (sys_store w)\<lparr>status_store := b\<rparr>)" "trep (view b) (spec_started g name (wall_clock (sys_store w)) T)"
    using record_started_run [OF T now] .
  have "rep n ((sys_store w)\<lparr>status_store := b\<rparr>) a" by (rule rep_same [OF rep]) simp_all
  moreover have "start_instance e wk name ctx ev mctx iid g w =
      (Inr (), w\<lparr>sys_store := (sys_store w)\<lparr>status_store := b\<rparr>,
                sys_calls := sys_calls w @ [Started name (started_with iid c ev mctx g)]\<rparr>)"
    using sys g ctx b(1)
    by (simp add: start_instance_def workflow_step_start_from_engine_def go_defs wk sys_call_def started_with_def
        on_system_def sys_now_def kv_storage_def go_zoom_def sys_put_def)
  ultimately show thesis using b(2) that by blast
qed

lemma start_instances_run:
  assumes sys: "on_system E e" and now: "go_time (wall_clock (sys_store w))"
    and ctx: "unmarshal_context (en_lib e) (wf_new_context_value wk []) ctx = Inr c"
    and wk: "wf_start wk = (\<lambda>ss. sys_call (Started name ss))"
    and "rep n (sys_store w) a" "trep (view (status_store (sys_store w))) T" "\<forall>g\<in>set gs. g \<noteq> []"
  shows "\<exists>b w'. go_for gs (start_instance e wk name ctx ev mctx iid) w = (Inr (), w') \<and>
      w' = w\<lparr>sys_store := (sys_store w)\<lparr>status_store := b\<rparr>,
             sys_calls := sys_calls w @ map (\<lambda>g. Started name (started_with iid c ev mctx g)) gs\<rparr> \<and>
      trep (view b) (spec_started (concat gs) name (wall_clock (sys_store w)) T) \<and>
      rep n (sys_store w') a"
  using assms(5-) now
proof (induction gs arbitrary: w T)
  case Nil
  then show ?case by (intro exI [of _ "status_store (sys_store w)"]) (simp add: go_defs spec_started_def)
next
  case (Cons g gs)
  from Cons.prems have g: "g \<noteq> []" by simp
  obtain b where b: "start_instance e wk name ctx ev mctx iid g w =
      (Inr (), w\<lparr>sys_store := (sys_store w)\<lparr>status_store := b\<rparr>,
                sys_calls := sys_calls w @ [Started name (started_with iid c ev mctx g)]\<rparr>)"
    "trep (view b) (spec_started g name (wall_clock (sys_store w)) T)" "rep n ((sys_store w)\<lparr>status_store := b\<rparr>) a"
    using start_instance_run [OF sys Cons.prems(1,2,4) g ctx wk] by metis
  let ?w = "w\<lparr>sys_store := (sys_store w)\<lparr>status_store := b\<rparr>,
                sys_calls := sys_calls w @ [Started name (started_with iid c ev mctx g)]\<rparr>"
  show ?case using Cons.IH [of ?w "spec_started g name (wall_clock (sys_store w)) T"] Cons.prems b
    by (auto simp: go_defs spec_started_def)
qed

end

text \<open>
  C13: Starting an exclusive workflow starts it for exactly the asked enrollments that do not have it
  outstanding, one at a time or all together as the enqueuer supports, with the instance ID, context,
  event and parameters given, records the current time as their start, and leaves every step alone.
\<close>

theorem start_runs:
  assumes "kv_laws E view" "on_system E e"
    and "kv_laws.rep E view n (sys_store w) a" "kv_laws.trep E (view (status_store (sys_store w))) T"
    and "engine_workflow e name = Some wk" "is_exclusive wk" "distinct ids"
    and "\<exists>i\<in>set ids. \<not> outstanding a name ids i"
    and "wf_start wk = (\<lambda>ss. sys_call (Started name ss))" "en_new_id e = go_ret iid"
    and "unmarshal_context (en_lib e) (wf_new_context_value wk []) ctx = Inr c"
    and "go_time (wall_clock (sys_store w))"
  shows "\<exists>new w'. distinct new \<and> set new = {i \<in> set ids. \<not> outstanding a name ids i} \<and>
           start_workflow e name ctx ids ev mctx w = (Inr iid, w') \<and>
           sys_calls w' = sys_calls w @ map (\<lambda>g. Started name (started_with iid c ev mctx g)) (start_ids e new) \<and>
           concat (start_ids e new) = new \<and>
           (\<forall>i. retrieve_workflow_started E i name (sys_store w') =
              (Inr (if i \<in> set new then wall_clock (sys_store w)
                    else case T (workflow_status_key i name) of None \<Rightarrow> 0 | Some t \<Rightarrow> t), sys_store w')) \<and>
           kv_laws.rep E view n (sys_store w') a"
proof -
  have sto: "en_storage e = kv_storage E sys_store sys_put" using assms(2) by (simp add: on_system_def)
  obtain new where new: "distinct new" "set new = {i \<in> set ids. \<not> outstanding a name ids i}"
    "start_workflow e name ctx ids ev mctx w =
             go_bind (en_new_id e) (\<lambda>instanceID.
             go_bind (go_for (start_ids e new) (start_instance e wk name ctx ev mctx instanceID)) (\<lambda>_.
             go_ret instanceID)) w"
    using kv_system.start_runs_kv [OF kv_system_on [OF assms(1)] sto assms(3,4,7,5,6,8),
        where ctx = ctx and ev = ev and mctx = mctx] by blast
  have "new \<noteq> []" using new(2) assms(8) by auto
  then have gs: "\<forall>g\<in>set (start_ids e new). g \<noteq> []" "concat (start_ids e new) = new"
    by (simp_all add: start_ids_props)
  obtain b w' where run: "go_for (start_ids e new) (start_instance e wk name ctx ev mctx iid) w = (Inr (), w')"
    "w' = w\<lparr>sys_store := (sys_store w)\<lparr>status_store := b\<rparr>,
             sys_calls := sys_calls w @ map (\<lambda>g. Started name (started_with iid c ev mctx g)) (start_ids e new)\<rparr>"
    "kv_laws.trep E (view b) (spec_started new name (wall_clock (sys_store w)) T)"
    "kv_laws.rep E view n (sys_store w') a"
    using kv_laws.start_instances_run [OF assms(1,2,12,11,9,3,4) gs(1), of ev mctx iid] unfolding gs(2) by blast
  have st: "kv_laws.trep E (view (status_store (sys_store w'))) (spec_started new name (wall_clock (sys_store w)) T)"
    using run(2,3) by simp
  have "retrieve_workflow_started E i name (sys_store w') =
      (Inr (if i \<in> set new then wall_clock (sys_store w)
            else case T (workflow_status_key i name) of None \<Rightarrow> 0 | Some t \<Rightarrow> t), sys_store w')" for i
    using kv_laws.retrieve_started_refines [OF assms(1) st, of i name "\<lambda>x s. s = sys_store w' \<and>
      x = Inr (case spec_started new name (wall_clock (sys_store w)) T (workflow_status_key i name) of None \<Rightarrow> 0 | Some t \<Rightarrow> t)"]
    by (auto simp: wp_ex spec_started_eq status_key_inj image_iff split: if_splits)
  moreover have "start_workflow e name ctx ids ev mctx w = (Inr iid, w')"
    unfolding new(3) assms(10) by (simp add: go_defs run(1))
  moreover have "sys_calls w' = sys_calls w @ map (\<lambda>g. Started name (started_with iid c ev mctx g)) (start_ids e new)"
    unfolding run(2) by simp
  ultimately show ?thesis using new(1,2) gs(2) run(4) by blast
qed

theorem start_runs_witness:
  "\<exists>w w'. start_workflow demo_engine ''wf'' [] [''AAA'', ''CCC''] None None w = (Inr ''inst'', w') \<and>
     sys_calls w' = [Started ''wf'' (started_with ''inst'' None None None [''CCC''])] \<and>
     retrieve_workflow_started inmem_env ''CCC'' ''wf'' (sys_store w') = (Inr 7, sys_store w')"
proof -
  obtain w :: demo_world where w: "inmem.rep 2 (sys_store w) sample_astore"
    "inmem.trep (map_of (status_store (sys_store w))) Map.empty" "sys_calls w = []" "wall_clock (sys_store w) = 7"
    using sample_world by metis
  let ?ids = "[''AAA'', ''CCC'']" and ?wk = "demo_workflow ''wf'' None"
  have wk: "engine_workflow demo_engine ''wf'' = Some ?wk" "is_exclusive ?wk" "wf_start ?wk = (\<lambda>ss. sys_call (Started ''wf'' ss))"
    by (simp_all add: demo_engine_workflow is_exclusive_def fun_eq_iff)
  have ids: "distinct ?ids" "\<exists>i\<in>set ?ids. \<not> outstanding sample_astore ''wf'' ?ids i"
    by (simp_all add: sample_outstanding_both)
  have rest: "en_new_id demo_engine = go_ret ''inst''"
    "unmarshal_context (en_lib demo_engine) (wf_new_context_value ?wk []) [] = Inr None"
    "go_time (wall_clock (sys_store w))"
    by (simp_all add: unmarshal_context_def w(4) go_time_def max_go_time_def)
  note run = start_runs [OF inmem.kv_laws_axioms demo_on_system w(1,2) wk(1,2) ids wk(3) rest, of None None]
  obtain new w' where r: "distinct new"
    "set new = {i \<in> set ?ids. \<not> outstanding sample_astore ''wf'' ?ids i}"
    "start_workflow demo_engine ''wf'' [] ?ids None None w = (Inr ''inst'', w')"
    "sys_calls w' = sys_calls w @ map (\<lambda>g. Started ''wf'' (started_with ''inst'' None None None g)) (start_ids demo_engine new)"
    "\<forall>i. retrieve_workflow_started inmem_env i ''wf'' (sys_store w') =
       (Inr (if i \<in> set new then wall_clock (sys_store w)
             else case Map.empty (workflow_status_key i ''wf'') of None \<Rightarrow> 0 | Some t \<Rightarrow> t), sys_store w')"
    using run by blast
  have "set new = {''CCC''}" unfolding r(2) by (auto simp: sample_outstanding_both)
  with r(1) have "new = [''CCC'']" by (rule distinct_single)
  then show ?thesis using r(3,4) r(5) [rule_format, of "''CCC''"] w(3,4)
    by (intro exI [of _ w] exI [of _ w']) (simp add: start_ids_def)
qed

end
