(* ===== verification/EngineLock.thy ===== *)
theory EngineLock
  imports EngineReg
begin

text \<open>
  The engine's \<open>workflowsMu\<close> (\<open>engine/reg.go\<close>): goroutines as lists of the lock operations they have
  still to do, and \<open>sync.RWMutex\<close> as its documentation states it: a \<open>Lock\<close> that waits for readers
  keeps new \<open>RLock\<close> calls waiting, and one writer waits at a time. \<open>allRespWorkflows\<close> holds the read
  lock while it calls \<open>Workflow\<close>, which takes it again.
\<close>

datatype lock_op = RLock | RUnlock | Lock | Unlock

record rw_state =
  rw_progs :: "lock_op list list"
  rw_readers :: nat
  rw_writer :: "nat option"
  rw_pending :: "nat option"

inductive rw_step :: "rw_state \<Rightarrow> rw_state \<Rightarrow> bool" where
  rlock: "\<lbrakk>i < length (rw_progs s); rw_progs s ! i = RLock # p; rw_writer s = None; rw_pending s = None\<rbrakk> \<Longrightarrow>
     rw_step s (s\<lparr>rw_progs := (rw_progs s)[i := p], rw_readers := Suc (rw_readers s)\<rparr>)"
| runlock: "\<lbrakk>i < length (rw_progs s); rw_progs s ! i = RUnlock # p\<rbrakk> \<Longrightarrow>
     rw_step s (s\<lparr>rw_progs := (rw_progs s)[i := p], rw_readers := rw_readers s - 1\<rparr>)"
| announce: "\<lbrakk>i < length (rw_progs s); rw_progs s ! i = Lock # p; rw_writer s = None; rw_pending s = None\<rbrakk> \<Longrightarrow>
     rw_step s (s\<lparr>rw_pending := Some i\<rparr>)"
| lock: "\<lbrakk>i < length (rw_progs s); rw_progs s ! i = Lock # p; rw_pending s = Some i; rw_readers s = 0\<rbrakk> \<Longrightarrow>
     rw_step s (s\<lparr>rw_progs := (rw_progs s)[i := p], rw_pending := None, rw_writer := Some i\<rparr>)"
| unlock: "\<lbrakk>i < length (rw_progs s); rw_progs s ! i = Unlock # p; rw_writer s = Some i\<rbrakk> \<Longrightarrow>
     rw_step s (s\<lparr>rw_progs := (rw_progs s)[i := p], rw_writer := None\<rparr>)"

inductive_cases rw_stepE: "rw_step s s'"

definition rw_init :: "lock_op list list \<Rightarrow> rw_state" where
  "rw_init ps = \<lparr>rw_progs = ps, rw_readers = 0, rw_writer = None, rw_pending = None\<rparr>"

definition rw_done :: "rw_state \<Rightarrow> bool" where
  "rw_done s \<longleftrightarrow> list_all (\<lambda>p. p = []) (rw_progs s)"

definition rw_stuck :: "rw_state \<Rightarrow> bool" where
  "rw_stuck s \<longleftrightarrow> \<not> rw_done s \<and> (\<forall>s'. \<not> rw_step s s')"

text \<open>The lock operations of the functions of \<open>reg.go\<close>.\<close>

definition workflow_locks :: "lock_op list" where
  "workflow_locks = [RLock, RUnlock]"

definition all_resp_workflows_locks :: "nat \<Rightarrow> lock_op list" where
  "all_resp_workflows_locks n = [RLock] @ concat (replicate n workflow_locks) @ [RUnlock]"

definition event_workflows_locks :: "lock_op list" where
  "event_workflows_locks = [RLock, RUnlock]"

definition register_workflow_locks :: "lock_op list" where
  "register_workflow_locks = [Lock, Unlock]"

section \<open>A writer holds the lock alone\<close>

text \<open>Programs without a nested read lock, and what is left of one at any time.\<close>

fun flat :: "lock_op list \<Rightarrow> bool" where
  "flat [] = True"
| "flat (RLock # RUnlock # p) = flat p"
| "flat (Lock # Unlock # p) = flat p"
| "flat _ = False"

definition flat_rest :: "lock_op list \<Rightarrow> bool" where
  "flat_rest p \<longleftrightarrow> flat p \<or> (\<exists>q. (p = RUnlock # q \<or> p = Unlock # q) \<and> flat q)"

fun_cases flat_RLock: "flat (RLock # p)" and flat_Lock: "flat (Lock # p)"

definition holds_read :: "lock_op list \<Rightarrow> bool" where
  "holds_read p \<longleftrightarrow> p \<noteq> [] \<and> hd p = RUnlock"

definition holds_write :: "lock_op list \<Rightarrow> bool" where
  "holds_write p \<longleftrightarrow> p \<noteq> [] \<and> hd p = Unlock"

definition rw_ok :: "rw_state \<Rightarrow> bool" where
  "rw_ok s \<longleftrightarrow>
     (\<forall>p\<in>set (rw_progs s). flat_rest p) \<and>
     rw_readers s = length (filter holds_read (rw_progs s)) \<and>
     (\<forall>i<length (rw_progs s). holds_write (rw_progs s ! i) \<longleftrightarrow> rw_writer s = Some i) \<and>
     (\<forall>i. rw_writer s = Some i \<longrightarrow> i < length (rw_progs s) \<and> rw_readers s = 0 \<and> rw_pending s = None) \<and>
     (\<forall>i. rw_pending s = Some i \<longrightarrow> i < length (rw_progs s) \<and> (\<exists>p. rw_progs s ! i = Lock # p))"

lemma length_filter_update:
  assumes "i < length xs"
  shows "length (filter P (xs[i := y])) + (if P (xs ! i) then 1 else 0) =
         length (filter P xs) + (if P y then 1 else 0)"
  using assms
proof (induction xs arbitrary: i)
  case (Cons x xs)
  then show ?case by (cases i) (auto simp: all_conj_distrib)
qed simp

lemma flat_rest_cases:
  "flat_rest (RLock # p) \<Longrightarrow> \<exists>q. p = RUnlock # q \<and> flat q"
  "flat_rest (Lock # p) \<Longrightarrow> \<exists>q. p = Unlock # q \<and> flat q"
  "flat_rest (RUnlock # p) \<Longrightarrow> flat p" "flat_rest (Unlock # p) \<Longrightarrow> flat p"
  by (auto simp: flat_rest_def elim: flat_RLock flat_Lock)

lemma flat_not_holding: "flat p \<Longrightarrow> \<not> holds_read p \<and> \<not> holds_write p \<and> flat_rest p"
  by (cases p rule: flat.cases) (auto simp: holds_read_def holds_write_def flat_rest_def)

lemma rw_ok_init: "\<forall>p\<in>set ps. flat p \<Longrightarrow> rw_ok (rw_init ps)"
  by (auto simp: rw_ok_def rw_init_def dest: flat_not_holding simp: filter_empty_conv)

lemma set_update: "\<forall>p\<in>set xs. P p \<Longrightarrow> P y \<Longrightarrow> \<forall>p\<in>set (xs[i := y]). P p"
  by (auto dest: set_update_subset_insert [THEN subsetD])

lemma rw_ok_step:
  assumes ok: "rw_ok s" and "rw_step s s'"
  shows "rw_ok s'"
  using assms(2)
proof cases
  case (rlock i p)
  have "flat_rest (RLock # p)" using ok rlock by (metis nth_mem rw_ok_def)
  then obtain q where p: "p = RUnlock # q" "flat q" using flat_rest_cases(1) by blast
  then have "flat_rest p" "holds_read p" "\<not> holds_write p"
    by (auto simp: flat_rest_def holds_read_def holds_write_def)
  moreover have "\<not> holds_read (rw_progs s ! i)" using rlock by (simp add: holds_read_def)
  ultimately show ?thesis
    using ok rlock set_update [of "rw_progs s" flat_rest p i] length_filter_update [of i "rw_progs s" holds_read p]
    by (auto simp: rw_ok_def nth_list_update)
next
  case (runlock i p)
  have f: "flat_rest (RUnlock # p)" using ok runlock by (metis nth_mem rw_ok_def)
  have "flat p" by (rule flat_rest_cases(3) [OF f])
  then have p: "flat_rest p" "\<not> holds_read p" "\<not> holds_write p" using flat_not_holding by blast+
  have h: "holds_read (rw_progs s ! i)" "\<not> holds_write (rw_progs s ! i)"
    using runlock by (simp_all add: holds_read_def holds_write_def)
  have "rw_progs s ! i \<in> set (rw_progs s)" using runlock(2) by simp
  with h(1) have "filter holds_read (rw_progs s) \<noteq> []" by (auto simp: filter_empty_conv)
  then have "rw_readers s > 0" using ok by (simp add: rw_ok_def)
  then have "rw_writer s = None" using ok by (cases "rw_writer s") (auto simp: rw_ok_def)
  then show ?thesis
    using ok runlock p h set_update [of "rw_progs s" flat_rest p i] length_filter_update [of i "rw_progs s" holds_read p]
    by (auto simp: rw_ok_def nth_list_update)
next
  case (announce i p)
  then show ?thesis using ok by (auto simp: rw_ok_def)
next
  case (lock i p)
  have "flat_rest (Lock # p)" using ok lock by (metis nth_mem rw_ok_def)
  then obtain q where p: "p = Unlock # q" "flat q" using flat_rest_cases(2) by blast
  then have "flat_rest p" "\<not> holds_read p" "holds_write p"
    by (auto simp: flat_rest_def holds_read_def holds_write_def)
  moreover have "\<not> holds_read (rw_progs s ! i)" using lock by (simp add: holds_read_def)
  moreover have "rw_writer s = None" using ok lock by (cases "rw_writer s") (auto simp: rw_ok_def)
  ultimately show ?thesis
    using ok lock set_update [of "rw_progs s" flat_rest p i] length_filter_update [of i "rw_progs s" holds_read p]
    by (auto simp: rw_ok_def nth_list_update)
next
  case (unlock i p)
  have f: "flat_rest (Unlock # p)" using ok unlock by (metis nth_mem rw_ok_def)
  have "flat p" by (rule flat_rest_cases(4) [OF f])
  then have p: "flat_rest p" "\<not> holds_read p" "\<not> holds_write p" using flat_not_holding by blast+
  have h: "\<not> holds_read (rw_progs s ! i)" using unlock by (simp add: holds_read_def)
  show ?thesis
    using ok unlock p h set_update [of "rw_progs s" flat_rest p i] length_filter_update [of i "rw_progs s" holds_read p]
    by (auto simp: rw_ok_def nth_list_update)
qed

lemma rw_ok_reachable: "rw_step\<^sup>*\<^sup>* s s' \<Longrightarrow> rw_ok s \<Longrightarrow> rw_ok s'"
  by (induction rule: rtranclp_induct) (auto intro: rw_ok_step)

lemma rw_progress:
  assumes ok: "rw_ok s" and busy: "\<not> rw_done s"
  shows "\<exists>s'. rw_step s s'"
proof (cases "rw_writer s")
  case (Some i)
  with ok have i: "i < length (rw_progs s)" "holds_write (rw_progs s ! i)" by (auto simp: rw_ok_def)
  then obtain p where "rw_progs s ! i = Unlock # p" by (cases "rw_progs s ! i") (auto simp: holds_write_def)
  with i Some show ?thesis by (blast intro: rw_step.unlock)
next
  case writer: None
  show ?thesis
  proof (cases "\<exists>i<length (rw_progs s). holds_read (rw_progs s ! i)")
    case True
    then obtain i where i: "i < length (rw_progs s)" "holds_read (rw_progs s ! i)" by blast
    then obtain p where "rw_progs s ! i = RUnlock # p" by (cases "rw_progs s ! i") (auto simp: holds_read_def)
    with i show ?thesis by (blast intro: rw_step.runlock)
  next
    case False
    then have "filter holds_read (rw_progs s) = []" by (auto simp: filter_empty_conv in_set_conv_nth)
    then have readers: "rw_readers s = 0" using ok by (simp add: rw_ok_def)
    show ?thesis
    proof (cases "rw_pending s")
      case (Some i)
      with ok obtain p where "i < length (rw_progs s)" "rw_progs s ! i = Lock # p" by (auto simp: rw_ok_def)
      with Some readers show ?thesis by (blast intro: rw_step.lock)
    next
      case None
      from busy obtain i where i: "i < length (rw_progs s)" "rw_progs s ! i \<noteq> []"
        by (auto simp: rw_done_def list_all_length)
      have "flat_rest (rw_progs s ! i)" using ok i(1) by (auto simp: rw_ok_def)
      moreover have "\<not> holds_read (rw_progs s ! i)" "\<not> holds_write (rw_progs s ! i)"
        using False i(1) ok writer by (auto simp: rw_ok_def)
      ultimately have "flat (rw_progs s ! i)" by (auto simp: flat_rest_def holds_read_def holds_write_def)
      with i(2) have "(\<exists>p. rw_progs s ! i = RLock # p) \<or> (\<exists>p. rw_progs s ! i = Lock # p)"
        by (cases "rw_progs s ! i" rule: flat.cases) auto
      with i(1) None writer show ?thesis by (blast intro: rw_step.rlock rw_step.announce)
    qed
  qed
qed

section \<open>The nested read lock\<close>

definition nested_run :: "rw_state list" where
  "nested_run =
     [rw_init [all_resp_workflows_locks 1, register_workflow_locks],
      \<lparr>rw_progs = [[RLock, RUnlock, RUnlock], [Lock, Unlock]], rw_readers = 1, rw_writer = None, rw_pending = None\<rparr>,
      \<lparr>rw_progs = [[RLock, RUnlock, RUnlock], [Lock, Unlock]], rw_readers = 1, rw_writer = None, rw_pending = Some 1\<rparr>]"

lemma nested_run_steps:
  "rw_step (nested_run ! 0) (nested_run ! 1)" "rw_step (nested_run ! 1) (nested_run ! 2)"
proof -
  show "rw_step (nested_run ! 0) (nested_run ! 1)"
    using rw_step.rlock [of 0 "nested_run ! 0" "[RLock, RUnlock, RUnlock]"]
    by (simp add: nested_run_def rw_init_def all_resp_workflows_locks_def workflow_locks_def
        register_workflow_locks_def)
  show "rw_step (nested_run ! 1) (nested_run ! 2)"
    using rw_step.announce [of 1 "nested_run ! 1" "[Unlock]"] by (simp add: nested_run_def)
qed

lemma nested_run_stuck: "rw_stuck (nested_run ! 2)"
proof -
  have "\<not> rw_step (nested_run ! 2) s'" for s'
    by (auto simp: nested_run_def nth_Cons less_Suc_eq elim!: rw_stepE split: nat.splits)
  then show ?thesis by (simp add: rw_stuck_def rw_done_def nested_run_def)
qed

end
