(* ===== verification/EngineStepProps.thy ===== *)
theory EngineStepProps
  imports EngineProps EngineLock
begin

text \<open>
  More properties of the engine on the key-value backend: duplicate enrollment IDs, enqueued steps,
  command responses, check-ins, idle events, the dispatch of events, and the engine's lock.
\<close>

section \<open>Duplicate enrollment IDs\<close>

lemma diff_twice: "diff [i, i] [i] = [i]"
proof -
  have "set (diff [i, i] [i]) = {i}" unfolding set_diff by auto
  then show ?thesis using distinct_single [OF distinct_diff] by blast
qed

lemma outstanding_set: "set ids = set ids' \<Longrightarrow> outstanding a name ids i = outstanding a name ids' i"
  by (simp add: outstanding_def wf_step_of_def cong: option.case_cong)

lemma exclusive_ids_twice:
  assumes kv: "kv_laws E view" and sys: "on_system E e" and rep: "kv_laws.rep E view n (sys_store w) a"
    and wk: "is_exclusive wk" and out: "outstanding a name [i] i"
  shows "exclusive_ids e wk name [i, i] w = (Inr [i], w)"
proof -
  have "{j. outstanding a name [i, i] j} = {i}"
    using out outstanding_set [of "[i, i]" "[i]" a name] by (auto simp: outstanding_def)
  moreover have "wp (retrieve_outstanding_workflow_status E name [i, i])
      (\<lambda>x s'. s' = sys_store w \<and> (\<exists>r. x = Inr r \<and> distinct r \<and> set r = {j. outstanding a name [i, i] j})) (sys_store w)"
    by (rule kv_laws.outstanding_exact [OF kv rep]) auto
  ultimately have "retrieve_outstanding_workflow_status E name [i, i] (sys_store w) = (Inr [i], sys_store w)"
    by (auto simp: wp_ex dest: distinct_single)
  then have "st_retrieve_outstanding (en_storage e) name [i, i] w = (Inr [i], w)"
    using sys by (simp add: on_system_def kv_storage_def go_zoom_def sys_put_def)
  then show ?thesis
    using wk by (auto simp: exclusive_ids_def is_exclusive_def go_defs diff_twice split: option.splits)
qed

text \<open>
  An enrollment ID given twice defeats the exclusivity check: the workflow is started again for an
  enrollment that has it outstanding.
\<close>

theorem duplicate_ids_start_again:
  assumes "kv_laws E view" "on_system E e"
    and "kv_laws.rep E view n (sys_store w) a" "kv_laws.trep E (view (status_store (sys_store w))) T"
    and "engine_workflow e name = Some wk" "is_exclusive wk" "outstanding a name [i] i"
    and "wf_start wk = (\<lambda>ss. sys_call (Started name ss))" "en_new_id e = go_ret iid"
    and "unmarshal_context (en_lib e) (wf_new_context_value wk []) ctx = Inr c"
    and "go_time (wall_clock (sys_store w))"
  shows "\<exists>w'. start_workflow e name ctx [i, i] ev mctx w = (Inr iid, w') \<and>
              sys_calls w' = sys_calls w @ [Started name (started_with iid c ev mctx [i])]"
proof -
  have ids: "start_ids e [i] = [[i]]" by (simp add: start_ids_def)
  have "\<forall>g\<in>set [[i]]. g \<noteq> []" by simp
  from kv_laws.start_instances_run [OF assms(1,2,11,10,8,3,4) this, of ev mctx iid]
  obtain w' where "go_for [[i]] (start_instance e wk name ctx ev mctx iid) w = (Inr (), w')"
    "sys_calls w' = sys_calls w @ map (\<lambda>g. Started name (started_with iid c ev mctx g)) [[i]]" by auto
  then show ?thesis
    using exclusive_ids_twice [OF assms(1-3,6,7)] assms(5,9)
    by (simp add: start_workflow_def go_bind_def go_ret_def ids)
qed

theorem duplicate_ids_start_again_witness:
  "\<exists>w w'. start_workflow demo_engine ''wf'' [] [''AAA'', ''AAA''] None None w = (Inr ''inst'', w') \<and>
     sys_calls w' = [Started ''wf'' (started_with ''inst'' None None None [''AAA''])]"
proof -
  obtain w :: demo_world where w: "inmem.rep 2 (sys_store w) sample_astore"
    "inmem.trep (map_of (status_store (sys_store w))) Map.empty" "sys_calls w = []" "wall_clock (sys_store w) = 7"
    using sample_world by metis
  let ?wk = "demo_workflow ''wf'' None"
  have H: "engine_workflow demo_engine ''wf'' = Some ?wk" "is_exclusive ?wk" "outstanding sample_astore ''wf'' [''AAA''] ''AAA''"
    "wf_start ?wk = (\<lambda>ss. sys_call (Started ''wf'' ss))" "en_new_id demo_engine = go_ret ''inst''"
    "unmarshal_context (en_lib demo_engine) (wf_new_context_value ?wk []) [] = Inr None"
    "go_time (wall_clock (sys_store w))"
    by (simp_all add: demo_engine_workflow is_exclusive_def fun_eq_iff sample_outstanding_both unmarshal_context_def
        w(4) go_time_def max_go_time_def)
  show ?thesis
    using duplicate_ids_start_again [OF inmem.kv_laws_axioms demo_on_system w(1,2) H, of None None] w(3) by auto
qed

section \<open>Enqueuing a step\<close>

text \<open>
  C10: A step that a workflow enqueues is stored with the step's own timeout, or else the workflow's, or
  else the engine's default, and every command is sent to all its enrollments in order, unless the step is
  delayed, in which case nothing is sent.
\<close>

theorem enqueue_step_effect:
  assumes "kv_laws E view" "on_system E e" "kv_laws.rep E view n (sys_store w) a"
    and "go_time (wall_clock (sys_store w))"
    and "storage_step_from_workflow_step (en_lib e) wname (timeout_at e wname (wall_clock (sys_store w))) se = Inr ss"
    and "storable n E ss" "fresh_pairs ss a"
  shows "\<exists>s'. enqueue_step e wname se w =
           (Inr (), w\<lparr>sys_store := s',
              sys_sent := sys_sent w @
                (if wse_not_until se = 0 then map (\<lambda>c. (wse_ids se, raw_command c)) (enq_commands ss) else [])\<rparr>) \<and>
         kv_laws.rep E view n s'
           (spec_store_step (new_uuid E (ids_issued (sys_store w))) (wall_clock (sys_store w)) ss a) \<and>
         cfg_step_timeout ss =
           (if wse_timeout se = 0 then timeout_at e wname (wall_clock (sys_store w)) else wse_timeout se) \<and>
         list_all2 (\<lambda>cmd d. storage_command_raw_from_workflow_command (en_lib e) cmd = Inr d)
           (wse_commands se) (enq_commands ss)"
proof -
  note f = storage_step_fields [OF assms(5)]
  show ?thesis using kv_laws.enqueue_step_system [OF assms] f(6,7) unfolding f(4,5) by blast
qed

definition demo_step :: "command_raw wf_step_enqueueing" where
  "demo_step =
     \<lparr>wsc_params = Map.empty, wsc_instance_id = ''inst'', wsc_name = ''first'', wsc_context = None,
      wse_ids = [''AAA'', ''BBB''], wse_commands = map Some (enq_commands sample_step), wse_timeout = 500, wse_not_until = 0\<rparr>"

lemma demo_step_stored:
  "storage_step_from_workflow_step demo_lib ''wf'' t demo_step = Inr (sample_step\<lparr>ctx_context := []\<rparr>)"
  by (simp add: storage_step_from_workflow_step_def marshal_context_def demo_step_def sample_step_def
      storage_command_raw_from_workflow_command_def demo_lib_def)

theorem enqueue_step_effect_witness:
  "\<exists>w'. enqueue_step demo_engine ''wf'' demo_step (world_on (empty_mem 7)) = (Inr (), w') \<and>
     sys_sent w' = [([''AAA'', ''BBB''], ''raw1''), ([''AAA'', ''BBB''], ''raw2'')]"
proof -
  let ?ss = "sample_step\<lparr>ctx_context := []\<rparr>" and ?w = "world_on (empty_mem 7)"
  have H: "inmem.rep 2 (sys_store ?w) empty_astore" "go_time (wall_clock (sys_store ?w))"
    "storage_step_from_workflow_step (en_lib demo_engine) ''wf''
       (timeout_at demo_engine ''wf'' (wall_clock (sys_store ?w))) demo_step = Inr ?ss"
    by (simp_all only: world_on_sel rep_empty demo_engine_sel demo_step_stored)
      (simp add: empty_mem_def go_time_def max_go_time_def)
  have st: "storable 2 inmem_env ?ss" "fresh_pairs ?ss empty_astore"
    using storable_sample fresh_sample
    by (simp_all add: storable_def validate_step_config_iff astep_ok_def astep_of_def fresh_pairs_def)
  from enqueue_step_effect [OF inmem.kv_laws_axioms demo_on_system H st]
  show ?thesis by (auto simp: demo_step_def sample_step_def)
qed

section \<open>Command responses\<close>

text \<open>
  C7: The response that completes an enrollment's last command of a step calls the step's workflow
  exactly once, with the step's name, instance and enrollment and one result for each command, and the
  enrollment has no command of the step afterwards. No workflow is taken to be notified of the responses of
  the command's request type (C24 is about those); then nothing else is called.
\<close>

theorem completing_response:
  assumes "kv_laws E view" "on_system E e" "kv_laws.rep E view n (sys_store w) a" "wait_group (en_wait_all e)"
    and "eid \<noteq> []" "uuid \<noteq> []" "length uuid = n"
    and "a_cmds a (eid, uuid) = Some c" "a_steps a (ac_step c) = Some st" "uuid \<in> set (as_uuids st)"
    and "\<forall>u\<in>set (as_uuids st). u = uuid \<or> cmd_done (a_cmds a) eid u"
    and "all_resp_workflows e (ac_request_type c) = []"
    and "storage_step_command_from_raw_response (en_lib e) (ac_request_type c) raw = Inr (sc, resp)"
    and "cr_uuid sc = uuid" "cr_completed sc"
    and "engine_workflow e (as_workflow st) = Some wk"
    and "wf_step_completed wk = (\<lambda>sr. sys_call (Completed (as_workflow st) sr))"
    and "workflow_step_result_from_storage (en_lib e)
           (spec_step_result ((a_cmds a)((eid, uuid) \<mapsto> set_response sc c)) eid sc st)
           (wf_new_context_value wk) False uuid (Some resp) = Inr sr"
  shows "\<exists>s' a'. mdm_command_response_event e eid uuid raw mctx w =
           (Inr (), w\<lparr>sys_store := s', sys_calls := sys_calls w @ [Completed (as_workflow st) (with_params mctx sr)]\<rparr>) \<and>
         sr_id sr = eid \<and> wsc_instance_id sr = as_instance st \<and> wsc_name sr = as_name st \<and>
         length (sr_command_results sr) = length (as_uuids st) \<and>
         kv_laws.rep E view n s' a' \<and> (\<forall>u\<in>set (as_uuids st). a_cmds a' (eid, u) = None)"
proof -
  let ?m = "(a_cmds a)((eid, uuid) \<mapsto> set_response sc c)"
  let ?a' = "spec_finish_step eid (ac_step c) st (a\<lparr>a_cmds := ?m\<rparr>)"
  have spec: "spec_store_response eid sc a = (Inr (Some (spec_step_result ?m eid sc st)), ?a')"
    using spec_response_last [of a eid sc c st ?m] assms(8,9,11,14,15) by simp
  obtain s' where s': "kv_laws.rep E view n s' ?a'"
    "mdm_command_response_event e eid uuid raw mctx w =
       complete_step e uuid resp mctx (Some (spec_step_result ?m eid sc st)) (w\<lparr>sys_store := s'\<rparr>)"
    using kv_laws.response_event_system [OF assms(1-3,5-7,4,8,12-14), of mctx] unfolding spec by auto
  have "complete_step e uuid resp mctx (Some (spec_step_result ?m eid sc st)) (w\<lparr>sys_store := s'\<rparr>) =
      (Inr (), w\<lparr>sys_store := s', sys_calls := sys_calls w @ [Completed (as_workflow st) (with_params mctx sr)]\<rparr>)"
    using assms(16-18)
    by (cases mctx) (simp_all add: complete_step_def spec_step_result_def log_and_error_def go_defs sys_call_def with_params_def)
  moreover have "a_cmds ?a' (eid, u) = None" if "u \<in> set (as_uuids st)" for u
    using that by (simp add: spec_finish_step_def Let_def remove_cmds_def)
  moreover have "sr_id sr = eid" "wsc_instance_id sr = as_instance st" "wsc_name sr = as_name st"
    "length (sr_command_results sr) = length (as_uuids st)"
    using step_result_fields [OF assms(18)] by (simp_all add: spec_step_result_def)
  ultimately show ?thesis using s' by auto
qed

definition short_step :: step_config where
  "short_step = sample_step\<lparr>enq_commands := [\<lparr>raw_uuid = ''c1'', raw_request_type = ''DeviceLock'', raw_command = ''raw1''\<rparr>]\<rparr>"

definition short_astore :: astore where
  "short_astore = spec_store_step ''u0'' 7 short_step empty_astore"

lemma short_stored: "\<exists>s. inmem.rep 2 s short_astore \<and> wall_clock s = 7 \<and> status_store s = []"
  unfolding short_astore_def
proof (rule stored_exists)
  show "storable 2 inmem_env short_step"
    by (simp add: storable_def short_step_def sample_step_def validate_step_config_iff astep_ok_def astep_of_def
        go_time_def max_go_time_def new_uuid_mem)
  show "fresh_pairs short_step empty_astore"
    by (simp add: fresh_pairs_def short_step_def sample_step_def empty_astore_def)
qed

lemma short_props:
  "a_steps short_astore = [''u0'' \<mapsto> astep_of short_step]"
  "a_cmds short_astore (''AAA'', ''c1'') =
     Some (new_acmd ''u0'' \<lparr>raw_uuid = ''c1'', raw_request_type = ''DeviceLock'', raw_command = ''raw1''\<rparr> 7 False)"
  by (simp_all add: short_astore_def spec_store_step_def empty_astore_def spec_store_command_eq short_step_def
      sample_step_def)

theorem completing_response_witness:
  "\<exists>w w' sr. mdm_command_response_event demo_engine ''AAA'' ''c1'' ''c1Acknowledged'' None w = (Inr (), w') \<and>
     sys_calls w' = [Completed ''wf'' sr] \<and> sr_id sr = ''AAA'' \<and> sr_command_results sr = [Some ''c1Acknowledged'']"
proof -
  obtain s where s: "inmem.rep 2 s short_astore" using short_stored by blast
  let ?c = "new_acmd ''u0'' \<lparr>raw_uuid = ''c1'', raw_request_type = ''DeviceLock'', raw_command = ''raw1''\<rparr> 7 False"
  let ?wk = "demo_workflow ''wf'' None" and ?st = "astep_of short_step"
  let ?sc = "\<lparr>cr_uuid = ''c1'', cr_request_type = ''DeviceLock'', cr_report = ''c1Acknowledged'', cr_completed = True\<rparr>"
  let ?sr = "\<lparr>wsc_params = Map.empty, wsc_instance_id = ''inst'', wsc_name = ''first'', wsc_context = None, sr_id = ''AAA'',
              sr_command_results = [Some ''c1Acknowledged'']\<rparr>"
  have H: "inmem.rep 2 (sys_store (world_on s)) short_astore" "wait_group (en_wait_all demo_engine)"
    "(''AAA'' :: string) \<noteq> []" "(''c1'' :: string) \<noteq> []" "length ''c1'' = 2"
    using s in_order.wait_group_axioms by simp_all
  have C: "a_cmds short_astore (''AAA'', ''c1'') = Some ?c" "a_steps short_astore (ac_step ?c) = Some ?st"
    "''c1'' \<in> set (as_uuids ?st)" "\<forall>u\<in>set (as_uuids ?st). u = ''c1'' \<or> cmd_done (a_cmds short_astore) ''AAA'' u"
    "all_resp_workflows demo_engine (ac_request_type ?c) = []"
    by (simp_all add: short_props new_acmd_def astep_of_def short_step_def sample_step_def all_resp_workflows_def
        names_for_def List.map_filter_simps)
  have R: "storage_step_command_from_raw_response (en_lib demo_engine) (ac_request_type ?c) ''c1Acknowledged'' =
      Inr (?sc, ''c1Acknowledged'')" "cr_uuid ?sc = ''c1''" "cr_completed ?sc"
    by (simp_all add: storage_step_command_from_raw_response_def workflow_command_response_from_raw_def demo_lib_def
        new_acmd_def validate_command_result_def)
  have W: "engine_workflow demo_engine (as_workflow ?st) = Some ?wk"
    "wf_step_completed ?wk = (\<lambda>sr. sys_call (Completed (as_workflow ?st) sr))"
    "workflow_step_result_from_storage (en_lib demo_engine)
       (spec_step_result ((a_cmds short_astore)((''AAA'', ''c1'') \<mapsto> set_response ?sc ?c)) ''AAA'' ?sc ?st)
       (wf_new_context_value ?wk) False ''c1'' (Some ''c1Acknowledged'') = Inr ?sr"
    by (simp_all add: demo_engine_workflow fun_eq_iff astep_of_def short_step_def sample_step_def
        workflow_step_result_from_storage_def spec_step_result_def unmarshal_context_def spec_result_def)
  obtain s' where "mdm_command_response_event demo_engine ''AAA'' ''c1'' ''c1Acknowledged'' None (world_on s) =
      (Inr (), (world_on s)\<lparr>sys_store := s',
         sys_calls := sys_calls (world_on s) @ [Completed (as_workflow ?st) (with_params None ?sr)]\<rparr>)"
    using completing_response [OF inmem.kv_laws_axioms demo_on_system H C R W, of None] by blast
  then show ?thesis
    by (intro exI [of _ ?sr] exI conjI, assumption) (simp_all add: with_params_def astep_of_def short_step_def sample_step_def)
qed

text \<open>
  The response to a command that no stored step of the enrollment has is ignored: no error, no call,
  and nothing changes.
\<close>

theorem unknown_response:
  assumes "kv_laws E view" "on_system E e" "kv_laws.rep E view n (sys_store w) a"
    and "eid \<noteq> []" "uuid \<noteq> []" "length uuid = n" "a_cmds a (eid, uuid) = None"
  shows "mdm_command_response_event e eid uuid raw mctx w = (Inr (), w)"
  using kv_laws.response_event_unknown [OF assms] .

theorem unknown_response_witness:
  "mdm_command_response_event demo_engine ''AAA'' ''c9'' ''c9Acknowledged'' None (world_on (empty_mem 7)) =
     (Inr (), world_on (empty_mem 7))"
  by (rule unknown_response [OF inmem.kv_laws_axioms demo_on_system, of 2 _ empty_astore])
    (use rep_empty [of 2 7] in \<open>simp_all add: empty_astore_def\<close>)

section \<open>Check-ins\<close>

lemma wait_nothing: "wait_group wait_all \<Longrightarrow> wait_all [] w = (Inr (), w)"
  using wait_group.wait_trace [of wait_all "[]"] by simp

text \<open>
  On an Authenticate check-in the engine means to cancel the enrollment's steps, but on the key-value
  backend they stay: the workflow is still outstanding and starting it again is refused, as before.
\<close>

theorem authenticate_keeps_steps:
  assumes "kv_laws E view" "on_system E e" "wait_group (en_wait_all e)"
    and "kv_laws.rep E view n (sys_store w) a" "kv_laws.trep E (view (status_store (sys_store w))) T"
    and "en_event_storage e = None" "event_workflows e event_authenticate = []"
    and "engine_workflow e name = Some wk" "is_exclusive wk" "outstanding a name [eid] eid"
  shows "\<exists>w'. mdm_checkin_event e eid (Authenticate v) mctx w = (Inr (), w') \<and>
              kv_laws.rep E view n (sys_store w') a \<and>
              (\<forall>ctx ev p. \<exists>args. start_workflow e name ctx [eid] ev p w' =
                 (Inl (Wrapf ''%w on %d (of %d) ids'' args ErrWorkflowAlreadyStarted), w'))"
proof -
  have sto: "en_storage e = kv_storage E sys_store sys_put" using assms(2) by (simp add: on_system_def)
  obtain s1 where s1: "cancel_steps E eid [] (sys_store w) = (Inr (), s1)" "kv_laws.rep E view n s1 a"
    "status_store s1 = status_store (sys_store w)"
    using cancel_all_run [OF assms(1,4)] by (auto simp: same_others_def)
  have "wp (clear_workflow_status E eid)
      (\<lambda>x s'. \<exists>b. x = Inr () \<and> s' = s1\<lparr>status_store := b\<rparr> \<and> kv_laws.trep E (view b) (spec_clear_status eid T)) s1"
    by (rule kv_laws.clear_status_refines [OF assms(1), of s1 T]) (use assms(5) s1(3) in auto)
  then obtain b where b: "clear_workflow_status E eid s1 = (Inr (), s1\<lparr>status_store := b\<rparr>)"
    "kv_laws.trep E (view b) (spec_clear_status eid T)"
    by (auto simp: wp_ex)
  let ?w = "w\<lparr>sys_store := s1\<lparr>status_store := b\<rparr>\<rparr>"
  have run: "mdm_checkin_event e eid (Authenticate v) mctx w = (Inr (), ?w)"
    using s1(1) b(1) wait_nothing [OF assms(3)] assms(6,7)
    by (simp add: mdm_checkin_event_def checkin_cancels_def checkin_events_def sto kv_storage_def go_zoom_def
        sys_put_def go_defs log_and_error_def logged_def dispatch_events_def split: option.splits)
  have rep: "kv_laws.rep E view n (sys_store ?w) a"
    by (rule kv_laws.rep_same [OF assms(1) s1(2)]) simp_all
  have T: "kv_laws.trep E (view (status_store (sys_store ?w))) (spec_clear_status eid T)" using b(2) by simp
  have "\<exists>args. start_workflow e name ctx [eid] ev p ?w =
      (Inl (Wrapf ''%w on %d (of %d) ids'' args ErrWorkflowAlreadyStarted), ?w)" for ctx ev p
    by (rule kv_system.start_refused_kv [OF kv_system_on [OF assms(1)] sto rep T _ _ assms(8,9)])
      (use assms(10) in simp_all)
  then show ?thesis using run rep by blast
qed

theorem authenticate_keeps_steps_witness:
  "\<exists>w. \<forall>v. \<exists>w' args. mdm_checkin_event demo_engine ''AAA'' (Authenticate v) None w = (Inr (), w') \<and>
     start_workflow demo_engine ''wf'' [] [''AAA''] None None w' =
       (Inl (Wrapf ''%w on %d (of %d) ids'' args ErrWorkflowAlreadyStarted), w')"
proof -
  obtain w :: demo_world where w: "inmem.rep 2 (sys_store w) sample_astore"
    "inmem.trep (map_of (status_store (sys_store w))) Map.empty" using sample_world by metis
  have H: "wait_group (en_wait_all demo_engine)" using in_order.wait_group_axioms by simp
  have C: "en_event_storage demo_engine = None" "event_workflows demo_engine event_authenticate = []"
    "engine_workflow demo_engine ''wf'' = Some (demo_workflow ''wf'' None)" "is_exclusive (demo_workflow ''wf'' None)"
    "outstanding sample_astore ''wf'' [''AAA''] ''AAA''"
    by (simp_all add: event_workflows_def demo_engine_workflow is_exclusive_def sample_outstanding_both)
  show ?thesis
    using authenticate_keeps_steps [OF inmem.kv_laws_axioms demo_on_system H w C, of _ None] by blast
qed

section \<open>Idle events\<close>

lemma int64_bounds: "- (2 ^ 63) \<le> i \<Longrightarrow> i < 2 ^ 63 \<Longrightarrow> int64 i = i"
  by (simp add: int64_def sint_sbintrunc' signed_take_bit_int_eq_self)

lemma int64_overflow: "2 ^ 63 \<le> i \<Longrightarrow> i < 2 ^ 64 \<Longrightarrow> int64 i = i - 2 ^ 64"
proof -
  assume "2 ^ 63 \<le> i" "i < 2 ^ 64"
  then have "int64 (i - 2 ^ 64) = i - 2 ^ 64" by (intro int64_bounds) simp_all
  moreover have "(word_of_int (i - 2 ^ 64) :: 64 word) = word_of_int i"
    by (simp add: word_of_int_eq_iff take_bit_eq_mod)
  ultimately show ?thesis by (simp only: int64_def)
qed

context kv_system
begin

lemma idle_run:
  assumes "en_storage e = kv_storage E get put" "rep n (get w) a" "trep (view (status_store (get w))) T"
    and "atoi (es_event_context es) = Inr k" "1 \<le> k"
    and "t0 = (case T (workflow_status_key eid (es_workflow es)) of None \<Rightarrow> 0 | Some t \<Rightarrow> t)"
  shows "idle_subscription e eid mctx at es w =
     (if t0 + since_duration k < at
      then (Inr (), snd (start_workflow e (es_workflow es) (es_context es) [eid]
              (Some \<lparr>ev_flag = event_idle_not_started_since, ev_data = NoEventData\<rparr>) mctx w))
      else (Inr (), w))"
  using kvsto.idle_subscription_run [OF assms(1) kv_invI [OF assms(2,3)], of eid mctx at es]
    assms(4-6) kv_started_trep [OF assms(3)] by auto

end

text \<open>
  C32: An idle event starts the workflow of an idle-not-started-since subscription exactly when more than the
  subscription's number of seconds has passed since the workflow's recorded start, for all numbers of seconds
  that fit a duration; otherwise nothing changes.
\<close>

theorem idle_starts_when_due:
  assumes "kv_laws E view" "on_system E e"
    and "kv_laws.rep E view n (sys_store w) a" "kv_laws.trep E (view (status_store (sys_store w))) T"
    and "atoi (es_event_context es) = Inr k" "1 \<le> k" "k \<le> 9223372036"
  shows "idle_subscription e eid mctx at es w =
     (if (case T (workflow_status_key eid (es_workflow es)) of None \<Rightarrow> 0 | Some t \<Rightarrow> t) + 1000000000 * k < at
      then (Inr (), snd (start_workflow e (es_workflow es) (es_context es) [eid]
              (Some \<lparr>ev_flag = event_idle_not_started_since, ev_data = NoEventData\<rparr>) mctx w))
      else (Inr (), w))"
proof -
  have "since_duration k = 1000000000 * k" unfolding since_duration_def
    by (rule int64_bounds) (use assms(6,7) in simp_all)
  moreover have "en_storage e = kv_storage E sys_store sys_put" using assms(2) by (simp add: on_system_def)
  ultimately show ?thesis
    using kv_system.idle_run [OF kv_system_on [OF assms(1)] _ assms(3-6) refl, where e = e and mctx = mctx and at = at and eid = eid] by simp
qed

definition idle_sub :: "bytes \<Rightarrow> event_subscription" where
  "idle_sub c = \<lparr>es_event = ''IdleNotStartedSince'', es_workflow = ''wf'', es_context = [], es_event_context = c\<rparr>"

theorem idle_starts_when_due_witness:
  "\<exists>w :: demo_world. idle_subscription demo_engine ''AAA'' None 5000000000 (idle_sub ''5'') w = (Inr (), w)"
proof -
  obtain w :: demo_world where w: "inmem.rep 2 (sys_store w) sample_astore"
    "inmem.trep (map_of (status_store (sys_store w))) Map.empty" using sample_world by metis
  have "atoi ''5'' = Inr 5" by code_simp
  then show ?thesis
    using idle_starts_when_due [OF inmem.kv_laws_axioms demo_on_system w, of "idle_sub ''5''" 5 "''AAA''" None 5000000000]
    by (auto simp: idle_sub_def)
qed

text \<open>
  A larger number of seconds overflows the duration: with 9223372037 seconds, nearly three centuries, the
  idle event starts the workflow even when it has only just been started.
\<close>

theorem idle_overflow_starts:
  assumes "kv_laws E view" "on_system E e"
    and "kv_laws.rep E view n (sys_store w) a" "kv_laws.trep E (view (status_store (sys_store w))) T"
    and "es_event_context es = ''9223372037''" "T (workflow_status_key eid (es_workflow es)) = Some at"
  shows "idle_subscription e eid mctx at es w =
     (Inr (), snd (start_workflow e (es_workflow es) (es_context es) [eid]
              (Some \<lparr>ev_flag = event_idle_not_started_since, ev_data = NoEventData\<rparr>) mctx w))"
proof -
  have "since_duration 9223372037 < 0" by (simp add: since_duration_def int64_overflow)
  moreover have "atoi (es_event_context es) = Inr 9223372037" unfolding assms(5)
    by (simp add: atoi_def parse_nat_def digits_value_def is_digit_def digit_value_def check_int64_def
        min_int64_def max_int64_def)
  moreover have "en_storage e = kv_storage E sys_store sys_put" using assms(2) by (simp add: on_system_def)
  ultimately show ?thesis
    using kv_system.idle_run [OF kv_system_on [OF assms(1)] _ assms(3,4), where e = e and es = es and k = 9223372037 and eid = eid
        and mctx = mctx and at = at and ?t0.0 = at] assms(6)
    by simp
qed

theorem idle_overflow_starts_witness:
  "\<exists>w w' :: demo_world. idle_subscription demo_engine ''CCC'' None 7 (idle_sub ''9223372037'') w = (Inr (), w') \<and>
     retrieve_workflow_started inmem_env ''CCC'' ''wf'' (sys_store w) = (Inr 7, sys_store w)"
proof -
  obtain w0 :: demo_world where w0: "inmem.rep 2 (sys_store w0) sample_astore"
    "inmem.trep (map_of (status_store (sys_store w0))) Map.empty" "wall_clock (sys_store w0) = 7" using sample_world by metis
  have "go_time 7" by (simp add: go_time_def max_go_time_def)
  then obtain b where b: "inmem.trep (map_of b) (spec_started [''CCC''] ''wf'' 7 Map.empty)"
    using inmem.record_started_run [OF w0(2), of 7 "[''CCC'']" "''wf''"] by blast
  let ?w = "w0\<lparr>sys_store := (sys_store w0)\<lparr>status_store := b\<rparr>\<rparr>"
  have rep: "inmem.rep 2 (sys_store ?w) sample_astore" by (rule inmem.rep_same [OF w0(1)]) simp_all
  have T: "inmem.trep (map_of (status_store (sys_store ?w))) (spec_started [''CCC''] ''wf'' 7 Map.empty)" using b by simp
  have "retrieve_workflow_started inmem_env ''CCC'' ''wf'' (sys_store ?w) = (Inr 7, sys_store ?w)"
    using inmem.retrieve_started_refines [OF T, of "''CCC''" "''wf''" "\<lambda>x s. s = sys_store ?w \<and> x = Inr 7"]
    by (simp add: wp_ex spec_started_eq)
  then show ?thesis
    using idle_overflow_starts [OF inmem.kv_laws_axioms demo_on_system rep T, of "idle_sub ''9223372037''" "''CCC''" 7 None]
    by (intro exI [of _ ?w] exI conjI) (auto simp: idle_sub_def spec_started_eq)
qed

section \<open>Dispatch\<close>

lemma foldl_calls: "foldl (\<lambda>w c. w\<lparr>sys_calls := sys_calls w @ [c]\<rparr>) w cs = w\<lparr>sys_calls := sys_calls w @ cs\<rparr>"
  by (induction cs arbitrary: w) simp_all

text \<open>
  C24: An event that is dispatched to workflows calls every registered workflow that subscribes to it exactly
  once, in whatever order the goroutines run, and a command response calls every workflow registered for its
  request type exactly once; nothing else happens.
\<close>

theorem dispatch_exactly_once:
  assumes "wait_group (en_wait_all e)"
    and "\<forall>wk\<in>set (map snd (en_workflows e)). wf_event wk = (\<lambda>ev i p. sys_call (EventCalled (wf_name wk) ev i p))"
  shows "(\<exists>wks. mset wks = mset (event_workflows e (ev_flag ev)) \<and>
            dispatch_events e eid ev mctx False True w =
              (Inr (), w\<lparr>sys_calls := sys_calls w @ map (\<lambda>wk. EventCalled (wf_name wk) ev eid mctx) wks\<rparr>)) \<and>
         (\<exists>wks. mset wks = mset (all_resp_workflows e rt) \<and>
            dispatch_all_command_response e rt eid resp mctx w =
              (Inr (), w\<lparr>sys_calls := sys_calls w @
                 map (\<lambda>wk. EventCalled (wf_name wk)
                        \<lparr>ev_flag = event_all_command_response, ev_data = ResponseData resp\<rparr> eid mctx) wks\<rparr>))"
proof -
  let ?app = "\<lambda>w c. w\<lparr>sys_calls := sys_calls w @ [c]\<rparr>"
  have known: "\<exists>wks. mset wks = mset zs \<and> en_wait_all e (map (\<lambda>wk. logged (wf_event wk ev eid mctx)) zs) w =
      (Inr (), w\<lparr>sys_calls := sys_calls w @ map (\<lambda>wk. EventCalled (wf_name wk) ev eid mctx) wks\<rparr>)"
    if zs: "set zs \<subseteq> set (map snd (en_workflows e))" for zs ev
  proof -
    have each: "logged (wf_event wk ev eid mctx) s = (Inr (), ?app s (EventCalled (wf_name wk) ev eid mctx))"
      if "wk \<in> set zs" for wk s
    proof -
      have "wf_event wk ev eid mctx = sys_call (EventCalled (wf_name wk) ev eid mctx)"
        using bspec [OF assms(2) subsetD [OF zs that]] by simp
      then show ?thesis by (simp add: logged_def go_defs sys_call_def)
    qed
    have "\<exists>wks. mset wks = mset zs \<and> en_wait_all e (map (\<lambda>wk. logged (wf_event wk ev eid mctx)) zs) w =
        (Inr (), foldl ?app w (map (\<lambda>wk. EventCalled (wf_name wk) ev eid mctx) wks))"
      by (rule wait_group.wait_trace [OF assms(1)]) (rule each)
    then show ?thesis by (simp only: foldl_calls)
  qed
  have "set (event_workflows e f) \<subseteq> set (map snd (en_workflows e))" for f
    by (auto simp: event_workflows_def)
  moreover have "set (all_resp_workflows e rt) \<subseteq> set (map snd (en_workflows e))"
    by (auto simp: all_resp_workflows_def set_map_filter engine_workflow_def dest!: map_of_SomeD) force
  ultimately show ?thesis
    using known [of "event_workflows e (ev_flag ev)" ev]
      known [of "all_resp_workflows e rt" "\<lparr>ev_flag = event_all_command_response, ev_data = ResponseData resp\<rparr>"]
    by (simp add: dispatch_events_def dispatch_all_command_response_def go_defs)
qed

theorem dispatch_exactly_once_witness:
  "\<exists>w'. dispatch_events (register_workflow (demo_workflow ''x'' (Some \<lparr>cfg_timeout = 0, cfg_exclusivity = exclusive,
           cfg_all_command_response_request_types = [], cfg_events = event_idle\<rparr>)) demo_engine)
         ''AAA'' \<lparr>ev_flag = event_idle, ev_data = NoEventData\<rparr> None False True (world_on (empty_mem 7)) = (Inr (), w') \<and>
     sys_calls w' = [EventCalled ''x'' \<lparr>ev_flag = event_idle, ev_data = NoEventData\<rparr> ''AAA'' None]"
proof -
  let ?x = "demo_workflow ''x'' (Some \<lparr>cfg_timeout = 0, cfg_exclusivity = exclusive,
           cfg_all_command_response_request_types = [], cfg_events = event_idle\<rparr>)"
  let ?e = "register_workflow ?x demo_engine"
  have e: "en_workflows ?e = [(''wf'', demo_workflow ''wf'' None), (''x'', ?x)]" "en_wait_all ?e = run_in_order"
    by (simp_all add: register_workflow_def register_all_resp_def)
  have "event_idle AND event_idle > 0" by code_simp
  then have ev: "event_workflows ?e event_idle = [?x]" by (simp add: event_workflows_def e)
  have H: "wait_group (en_wait_all ?e)"
    "\<forall>wk\<in>set (map snd (en_workflows ?e)). wf_event wk = (\<lambda>ev i p. sys_call (EventCalled (wf_name wk) ev i p))"
    using in_order.wait_group_axioms by (simp_all add: e fun_eq_iff)
  show ?thesis
    using dispatch_exactly_once [OF H, of "\<lparr>ev_flag = event_idle, ev_data = NoEventData\<rparr>" "''AAA''" None "world_on (empty_mem 7)"]
    by (auto simp: ev)
qed

section \<open>The engine's lock\<close>

text \<open>
  As long as every method takes the engine's lock and releases it before it takes it again, no
  interleaving of any number of calls gets stuck.
\<close>

theorem flat_never_stuck:
  assumes "\<forall>p\<in>set ps. flat p" "rw_step\<^sup>*\<^sup>* (rw_init ps) s"
  shows "\<not> rw_stuck s"
  using rw_progress [OF rw_ok_reachable [OF assms(2) rw_ok_init [OF assms(1)]]] by (auto simp: rw_stuck_def)

theorem flat_never_stuck_witness:
  "\<not> rw_stuck (rw_init [workflow_locks, event_workflows_locks, register_workflow_locks])"
  by (rule flat_never_stuck [of "[workflow_locks, event_workflows_locks, register_workflow_locks]"])
    (simp_all add: workflow_locks_def event_workflows_locks_def register_workflow_locks_def)

text \<open>
  A command response that is dispatched to a workflow takes the read lock while it holds it, so a
  registration that comes in between leaves both waiting for each other forever.
\<close>

theorem nested_lock_deadlocks:
  "\<exists>s. rw_step\<^sup>*\<^sup>* (rw_init [all_resp_workflows_locks 1, register_workflow_locks]) s \<and> rw_stuck s"
proof -
  have "rw_step\<^sup>*\<^sup>* (nested_run ! 0) (nested_run ! 2)"
    using nested_run_steps by (meson converse_rtranclp_into_rtranclp rtranclp.rtrancl_refl)
  moreover have "nested_run ! 0 = rw_init [all_resp_workflows_locks 1, register_workflow_locks]"
    by (simp add: nested_run_def)
  ultimately show ?thesis using nested_run_stuck by metis
qed

end
