(* ===== verification/WorkerProps.thy ===== *)
theory WorkerProps
  imports EngineStepProps EngineWorker
begin

text \<open>
  The properties of the engine's worker on the key-value backend: delayed steps are sent once, steps past
  their timeout are handed to their workflow once, and commands that were not answered are pushed again.
\<close>

definition worker_on :: "'b kv_env \<Rightarrow> (('b, 'r) sys_world, 'c, 'r) worker \<Rightarrow> bool" where
  "worker_on E k \<longleftrightarrow>
     wk_storage k = kv_worker_storage E sys_store sys_put \<and> wk_enqueue k = sys_enqueue \<and>
     wk_push k = sys_push \<and> wk_now k = sys_now"

lemma worker_storage_on:
  assumes "worker_on E k"
  shows "st_retrieve_steps_to_enqueue (wk_storage k) t = go_zoom sys_store sys_put (retrieve_steps_to_enqueue E t)"
    "st_retrieve_timed_out_steps (wk_storage k) = go_zoom sys_store sys_put (retrieve_timed_out_steps E)"
    "st_retrieve_and_mark_repushed (wk_storage k) t u = go_zoom sys_store sys_put (retrieve_and_mark_re_pushed E t u)"
  using assms by (simp_all add: worker_on_def kv_worker_storage_def)

lemma zoom_run: "m (sys_store w) = (r, s') \<Longrightarrow> go_zoom sys_store sys_put m w = (r, w\<lparr>sys_store := s'\<rparr>)"
  by (simp add: go_zoom_def sys_put_def)

definition step_sends :: "step_enqueueing \<Rightarrow> (string list \<times> bytes) list" where
  "step_sends se = map (\<lambda>c. (enq_ids se, raw_command c)) (enq_commands se)"

lemma send_step_run:
  assumes "worker_on E k"
  shows "send_step k se w = (Inr (), w\<lparr>sys_sent := sys_sent w @ step_sends se\<rparr>)"
proof -
  have "go_for cs (\<lambda>cmd. logged (sys_enqueue ids (raw_command cmd))) w =
      (Inr (), w\<lparr>sys_sent := sys_sent w @ map (\<lambda>c. (ids, raw_command c)) cs\<rparr>)" for cs ids
    by (induction cs arbitrary: w) (simp_all add: go_defs logged_def sys_enqueue_def)
  then show ?thesis using assms by (simp add: send_step_def step_sends_def worker_on_def)
qed

lemma send_steps_run:
  assumes "worker_on E k"
  shows "go_for ses (send_step k) w = (Inr (), w\<lparr>sys_sent := sys_sent w @ concat (map step_sends ses)\<rparr>)"
  by (induction ses arbitrary: w) (simp_all add: go_defs send_step_run [OF assms])

lemma process_enqueuings_run:
  assumes k: "worker_on E k"
    and run: "retrieve_steps_to_enqueue E (wall_clock (sys_store w)) (sys_store w) = (Inr ses, s')"
  shows "process_enqueuings k w =
     (Inr (), w\<lparr>sys_store := s', sys_sent := sys_sent w @ concat (map step_sends ses)\<rparr>)"
proof -
  have "st_retrieve_steps_to_enqueue (wk_storage k) (wall_clock (sys_store w)) w = (Inr ses, w\<lparr>sys_store := s'\<rparr>)"
    unfolding worker_storage_on [OF k] by (rule zoom_run) (rule run)
  moreover have "wk_now k = sys_now" using k by (simp add: worker_on_def)
  ultimately show ?thesis
    by (simp add: process_enqueuings_def go_bind_def go_wrap_def sys_now_def send_steps_run [OF k])
qed

lemma retrieve_once:
  assumes "kv_laws E view" "kv_laws.rep E view n s a" "go_time (wall_clock s)"
    and "\<forall>sid\<in>due_steps as_not_until (wall_clock s) a. releasable a sid"
  obtains s' s'' sids where
    "retrieve_steps_to_enqueue E (wall_clock s) s = (Inr (map (enqueueing_of a) sids), s')"
    "distinct sids" "set sids = due_steps as_not_until (wall_clock s) a"
    "kv_laws.rep E view n s' (spec_release (wall_clock s) (set sids) a)" "wall_clock s' = wall_clock s"
    "retrieve_steps_to_enqueue E (wall_clock s') s' = (Inr [], s'')"
proof -
  from released_once [OF assms(1-3), OF assms(4)] obtain s' s'' sids where
    r: "retrieve_steps_to_enqueue E (wall_clock s) s = (Inr (map (enqueueing_of a) sids), s')"
    "distinct sids" "set sids = due_steps as_not_until (wall_clock s) a"
    "kv_laws.rep E view n s' (spec_release (wall_clock s) (set sids) a)" "same_others s s'"
    "retrieve_steps_to_enqueue E (wall_clock s) s' = (Inr [], s'')" by blast
  then have "wall_clock s' = wall_clock s" by (simp add: same_others_def)
  with r that show thesis by metis
qed

text \<open>
  C11: The worker sends every command of every delayed step that is due, once, to all the step's
  enrollments, and running it again at the same time sends nothing.
\<close>

theorem worker_sends_once:
  assumes "kv_laws E view" "worker_on E k" "kv_laws.rep E view n (sys_store w) a"
    and "go_time (wall_clock (sys_store w))"
    and "\<forall>sid\<in>due_steps as_not_until (wall_clock (sys_store w)) a. releasable a sid"
  shows "\<exists>w' sids. process_enqueuings k w = (Inr (), w') \<and>
           distinct sids \<and> set sids = due_steps as_not_until (wall_clock (sys_store w)) a \<and>
           sys_sent w' = sys_sent w @ concat (map (\<lambda>sid. step_sends (enqueueing_of a sid)) sids) \<and>
           kv_laws.rep E view n (sys_store w') (spec_release (wall_clock (sys_store w)) (set sids) a) \<and>
           (\<exists>w''. process_enqueuings k w' = (Inr (), w'') \<and> sys_sent w'' = sys_sent w')"
proof -
  let ?s = "sys_store w"
  obtain s' s'' sids where r: "retrieve_steps_to_enqueue E (wall_clock ?s) ?s = (Inr (map (enqueueing_of a) sids), s')"
    "distinct sids" "set sids = due_steps as_not_until (wall_clock ?s) a"
    "kv_laws.rep E view n s' (spec_release (wall_clock ?s) (set sids) a)"
    "retrieve_steps_to_enqueue E (wall_clock s') s' = (Inr [], s'')"
    using retrieve_once [OF assms(1,3,4,5)] by metis
  let ?w = "w\<lparr>sys_store := s', sys_sent := sys_sent w @ concat (map step_sends (map (enqueueing_of a) sids))\<rparr>"
  have "process_enqueuings k w = (Inr (), ?w)" by (rule process_enqueuings_run [OF assms(2) r(1)])
  moreover have "process_enqueuings k ?w = (Inr (), ?w\<lparr>sys_store := s'', sys_sent := sys_sent ?w @ []\<rparr>)"
    using process_enqueuings_run [OF assms(2), of ?w "[]" s''] r(5) by simp
  ultimately show ?thesis using r(2-4)
    by (intro exI [of _ ?w] exI [of _ sids]) (simp add: comp_def)
qed

definition demo_worker :: "(demo_world, command_raw, string) worker" where
  "demo_worker =
     new_worker (engine_workflow demo_engine) (kv_worker_storage inmem_env sys_store sys_put) sys_enqueue sys_push
       sys_now demo_lib []"

lemma demo_worker_on: "worker_on inmem_env demo_worker"
  by (simp add: worker_on_def demo_worker_def new_worker_def)

lemma delayed_world:
  obtains w :: demo_world where "inmem.rep 2 (sys_store w) delayed_astore" "sys_calls w = []" "sys_sent w = []"
    "sys_pushed w = []" "wall_clock (sys_store w) = 7"
proof -
  obtain s where s: "inmem.rep 2 s delayed_astore" "wall_clock s = 7"
    using delayed_stored by blast
  show thesis by (rule that [of "world_on s"]) (use s in \<open>auto simp: world_on_def\<close>)
qed

theorem worker_sends_once_witness:
  "\<exists>w w' w''. process_enqueuings demo_worker w = (Inr (), w') \<and>
     sys_sent w' = [([''AAA'', ''BBB''], ''raw1''), ([''AAA'', ''BBB''], ''raw2'')] \<and>
     process_enqueuings demo_worker w' = (Inr (), w'') \<and> sys_sent w'' = sys_sent w'"
proof -
  obtain w :: demo_world where w: "inmem.rep 2 (sys_store w) delayed_astore" "sys_sent w = []"
    "wall_clock (sys_store w) = 7" using delayed_world by metis
  have H: "go_time (wall_clock (sys_store w))"
    "\<forall>sid\<in>due_steps as_not_until (wall_clock (sys_store w)) delayed_astore. releasable delayed_astore sid"
    by (simp_all add: w(3) go_time_def max_go_time_def delayed_due delayed_releasable)
  obtain w' w'' sids where r: "process_enqueuings demo_worker w = (Inr (), w')"
    "distinct sids" "set sids = due_steps as_not_until (wall_clock (sys_store w)) delayed_astore"
    "sys_sent w' = sys_sent w @ concat (map (\<lambda>sid. step_sends (enqueueing_of delayed_astore sid)) sids)"
    "process_enqueuings demo_worker w' = (Inr (), w'')" "sys_sent w'' = sys_sent w'"
    using worker_sends_once [OF inmem.kv_laws_axioms demo_worker_on w(1) H] by blast
  have "sids = [''u0'']" using r(2,3) by (simp add: w(3) delayed_due distinct_single)
  then have "sys_sent w' = [([''AAA'', ''BBB''], ''raw1''), ([''AAA'', ''BBB''], ''raw2'')]"
    using r(4) w(2) by (simp add: step_sends_def delayed_enqueueing sample_step_def)
  then show ?thesis using r(1,5,6) by blast
qed

section \<open>Timeouts\<close>

lemma time_out_steps_run:
  assumes "\<forall>sr\<in>set srs. length (res_ids sr) = 1 \<and>
      (\<exists>wk. wk_workflow k (ctx_workflow_name sr) = Some wk \<and>
        wf_step_timeout wk = (\<lambda>x. sys_call (TimedOut (ctx_workflow_name sr) x)) \<and>
        workflow_step_result_from_storage (wk_lib k) sr (wf_new_context_value wk) True [] None = Inr (f sr))"
  shows "go_for srs (time_out_step k) w =
     (Inr (), w\<lparr>sys_calls := sys_calls w @ map (\<lambda>sr. TimedOut (ctx_workflow_name sr) (f sr)) srs\<rparr>)"
  using assms
proof (induction srs arbitrary: w)
  case (Cons sr srs)
  then obtain wk where "wk_workflow k (ctx_workflow_name sr) = Some wk"
    "wf_step_timeout wk = (\<lambda>x. sys_call (TimedOut (ctx_workflow_name sr) x))"
    "workflow_step_result_from_storage (wk_lib k) sr (wf_new_context_value wk) True [] None = Inr (f sr)"
    "length (res_ids sr) = 1" by auto
  then have "time_out_step k sr w = (Inr (), w\<lparr>sys_calls := sys_calls w @ [TimedOut (ctx_workflow_name sr) (f sr)]\<rparr>)"
    by (simp add: time_out_step_def logged_def go_defs sys_call_def)
  then show ?case using Cons by (simp add: go_bind_def)
qed (simp add: go_defs)

definition all_timed_out :: "astore \<Rightarrow> string list \<Rightarrow> step_result list" where
  "all_timed_out a sids = concat (map (\<lambda>sid. timed_out_results (a_cmds a) (the (a_steps a sid))) sids)"

text \<open>
  C12: The worker calls the timeout handler of the step's workflow once for every enrollment that still has
  commands in a step past its timeout, removes the step, and does nothing when run again at the same time.
\<close>

theorem worker_times_out_once:
  assumes "kv_laws E view" "worker_on E k" "kv_laws.rep E view n (sys_store w) a" "steps_apart a"
    and "\<forall>sid\<in>due_steps as_timeout (wall_clock (sys_store w)) a.
           \<forall>sr\<in>set (timed_out_results (a_cmds a) (the (a_steps a sid))).
             \<exists>wk. wk_workflow k (ctx_workflow_name sr) = Some wk \<and>
               wf_step_timeout wk = (\<lambda>x. sys_call (TimedOut (ctx_workflow_name sr) x)) \<and>
               workflow_step_result_from_storage (wk_lib k) sr (wf_new_context_value wk) True [] None = Inr (f sr)"
  shows "\<exists>w' w'' sids. process_timeouts k w = (Inr (), w') \<and>
           distinct sids \<and> set sids = due_steps as_timeout (wall_clock (sys_store w)) a \<and>
           sys_calls w' = sys_calls w @ map (\<lambda>sr. TimedOut (ctx_workflow_name sr) (f sr)) (all_timed_out a sids) \<and>
           kv_laws.rep E view n (sys_store w') (spec_time_out (set sids) a) \<and>
           process_timeouts k w' = (Inr (), w'') \<and> sys_calls w'' = sys_calls w'"
proof -
  let ?s = "sys_store w"
  obtain s' s'' sids where r: "retrieve_timed_out_steps E ?s = (Inr (all_timed_out a sids), s')"
    "distinct sids" "set sids = due_steps as_timeout (wall_clock ?s) a"
    "kv_laws.rep E view n s' (spec_time_out (set sids) a)" "retrieve_timed_out_steps E s' = (Inr [], s'')"
    using timed_out_once [OF assms(1,3,4)] unfolding all_timed_out_def by blast
  have one: "length (res_ids sr) = 1" if "sr \<in> set (timed_out_results m st)" for sr m st
    using that by (auto simp: timed_out_results_def)
  have ok: "\<forall>sr\<in>set (all_timed_out a sids). length (res_ids sr) = 1 \<and>
      (\<exists>wk. wk_workflow k (ctx_workflow_name sr) = Some wk \<and>
        wf_step_timeout wk = (\<lambda>x. sys_call (TimedOut (ctx_workflow_name sr) x)) \<and>
        workflow_step_result_from_storage (wk_lib k) sr (wf_new_context_value wk) True [] None = Inr (f sr))"
  proof
    fix sr assume "sr \<in> set (all_timed_out a sids)"
    then obtain sid where "sid \<in> set sids" "sr \<in> set (timed_out_results (a_cmds a) (the (a_steps a sid)))"
      by (auto simp: all_timed_out_def)
    then show "length (res_ids sr) = 1 \<and>
      (\<exists>wk. wk_workflow k (ctx_workflow_name sr) = Some wk \<and>
        wf_step_timeout wk = (\<lambda>x. sys_call (TimedOut (ctx_workflow_name sr) x)) \<and>
        workflow_step_result_from_storage (wk_lib k) sr (wf_new_context_value wk) True [] None = Inr (f sr))"
      using one assms(5) r(3) by blast
  qed
  have run: "process_timeouts k v =
      (Inr (), v\<lparr>sys_store := t, sys_calls := sys_calls v @ map (\<lambda>sr. TimedOut (ctx_workflow_name sr) (f sr)) srs\<rparr>)"
    if "retrieve_timed_out_steps E (sys_store v) = (Inr srs, t)" "set srs \<subseteq> set (all_timed_out a sids)" for v srs t
  proof -
    have "st_retrieve_timed_out_steps (wk_storage k) v = (Inr srs, v\<lparr>sys_store := t\<rparr>)"
      unfolding worker_storage_on [OF assms(2)] by (rule zoom_run) (rule that(1))
    then show ?thesis
      using time_out_steps_run [of srs k f "v\<lparr>sys_store := t\<rparr>"] ok that(2)
      by (simp add: process_timeouts_def go_bind_def go_wrap_def subset_iff)
  qed
  let ?w = "w\<lparr>sys_store := s', sys_calls := sys_calls w @ map (\<lambda>sr. TimedOut (ctx_workflow_name sr) (f sr)) (all_timed_out a sids)\<rparr>"
  have "process_timeouts k w = (Inr (), ?w)" by (rule run [OF r(1)]) simp
  moreover have "process_timeouts k ?w = (Inr (), ?w\<lparr>sys_store := s'', sys_calls := sys_calls ?w @ map (\<lambda>sr. TimedOut (ctx_workflow_name sr) (f sr)) []\<rparr>)"
    by (rule run) (use r(5) in simp_all)
  ultimately show ?thesis using r(2-4) by (intro exI [of _ ?w] exI [of _ "?w\<lparr>sys_store := s''\<rparr>"] exI [of _ sids]) simp
qed

definition demo_timed_out :: "step_result \<Rightarrow> string wf_step_result" where
  "demo_timed_out sr =
     \<lparr>wsc_params = Map.empty, wsc_instance_id = ctx_instance_id sr, wsc_name = ctx_name sr, wsc_context = None,
      sr_id = hd (res_ids sr), sr_command_results = []\<rparr>"

theorem worker_times_out_once_witness:
  "\<exists>w w' w''. process_timeouts demo_worker w = (Inr (), w') \<and>
     map (\<lambda>c. case c of TimedOut wn sr \<Rightarrow> sr_id sr | _ \<Rightarrow> []) (sys_calls w') = [''AAA'', ''BBB''] \<and>
     process_timeouts demo_worker w' = (Inr (), w'') \<and> sys_calls w'' = sys_calls w'"
proof -
  obtain w :: demo_world where w: "inmem.rep 2 (sys_store w) delayed_astore" "sys_calls w = []"
    "wall_clock (sys_store w) = 7" using delayed_world by metis
  have apart: "steps_apart delayed_astore"
    by (simp add: steps_apart_def delayed_steps astep_of_def delayed_step_def sample_step_def)
  have conv: "\<forall>sid\<in>due_steps as_timeout (wall_clock (sys_store w)) delayed_astore.
      \<forall>sr\<in>set (timed_out_results (a_cmds delayed_astore) (the (a_steps delayed_astore sid))).
        \<exists>wk. wk_workflow demo_worker (ctx_workflow_name sr) = Some wk \<and>
          wf_step_timeout wk = (\<lambda>x. sys_call (TimedOut (ctx_workflow_name sr) x)) \<and>
          workflow_step_result_from_storage (wk_lib demo_worker) sr (wf_new_context_value wk) True [] None =
            Inr (demo_timed_out sr)"
    by (simp add: w(3) delayed_due delayed_steps delayed_results demo_worker_def new_worker_def demo_engine_workflow
        fun_eq_iff workflow_step_result_from_storage_def unmarshal_context_def demo_timed_out_def)
  obtain w' w'' sids where r: "process_timeouts demo_worker w = (Inr (), w')"
    "distinct sids" "set sids = due_steps as_timeout (wall_clock (sys_store w)) delayed_astore"
    "sys_calls w' = sys_calls w @ map (\<lambda>sr. TimedOut (ctx_workflow_name sr) (demo_timed_out sr)) (all_timed_out delayed_astore sids)"
    "process_timeouts demo_worker w' = (Inr (), w'')" "sys_calls w'' = sys_calls w'"
    using worker_times_out_once [OF inmem.kv_laws_axioms demo_worker_on w(1) apart conv] by blast
  have "sids = [''u0'']" using r(2,3) by (simp add: w(3) delayed_due distinct_single)
  then have "map (\<lambda>c. case c of TimedOut wn sr \<Rightarrow> sr_id sr | _ \<Rightarrow> []) (sys_calls w') = [''AAA'', ''BBB'']"
    using r(4) w(2) by (simp add: all_timed_out_def delayed_steps delayed_results demo_timed_out_def)
  then show ?thesis using r(1,5,6)
    by (intro exI [of _ w] exI [of _ w'] exI [of _ w'']) simp
qed

end
