(* ===== verification/Foss.thy ===== *)
theory Foss
  imports EngineFacts
begin

text \<open>
  \<open>mdm/foss\<close>: the client that sends commands and pushes to the MDM server (\<open>foss.go\<close>), and the webhook
  that receives its events (\<open>webhook.go\<close>, \<open>process.go\<close>) with the middleware that dumps them
  (\<open>dump.go\<close>). \<open>net/url\<close>, \<open>net/http\<close>, \<open>encoding/json\<close> and the plist package are the fields of
  \<open>http_lib\<close> and \<open>decode_lib\<close>; what the code only logs is left out.
\<close>

section \<open>Requests to the MDM server\<close>

record http_request =
  rq_method :: string
  rq_url :: string
  rq_user :: string
  rq_password :: string
  rq_body :: bytes

text \<open>
  \<open>ht_do\<close> is the client's \<open>Do\<close>: the outcome, and what it has left unread of the reader that is the
  request's body. \<open>ht_new_request\<close> is the error of \<open>http.NewRequestWithContext\<close>, if any.
\<close>

record ('w, 'u) http_lib =
  ht_parse :: "string \<Rightarrow> 'u result"
  ht_resolve :: "'u \<Rightarrow> 'u \<Rightarrow> 'u"
  ht_string :: "'u \<Rightarrow> string"
  ht_new_request :: "string \<Rightarrow> string \<Rightarrow> unit result"
  ht_do :: "http_request \<Rightarrow> 'w \<Rightarrow> (unit result \<times> bytes) \<times> 'w"

record 'u foss_mdm =
  fm_max :: nat
  fm_user :: string
  fm_api_key :: string
  fm_enq_method :: string
  fm_enq_url :: "'u option"
  fm_push_url :: "'u option"

definition prep_url :: "('w, 'u) http_lib \<Rightarrow> string \<Rightarrow> 'u result" where
  "prep_url H ref = ht_parse H (if \<not> has_suffix ref ''/'' then ref @ ''/'' else ref)"

definition with_micro_mdm :: "'u foss_mdm \<Rightarrow> 'u foss_mdm result" where
  "with_micro_mdm m = Inr (m\<lparr>fm_max := 1, fm_user := ''micromdm'', fm_enq_method := ''POST''\<rparr>)"

definition with_push :: "('w, 'u) http_lib \<Rightarrow> string \<Rightarrow> 'u foss_mdm \<Rightarrow> 'u foss_mdm result" where
  "with_push H ref m =
     (case prep_url H ref of
        Inl e \<Rightarrow> Inl (Wrapf ''preparing push URL: %w'' [] e)
      | Inr u \<Rightarrow> Inr (m\<lparr>fm_push_url := Some u\<rparr>))"

definition default_max_ids :: nat where
  "default_max_ids = 30"

primrec apply_options ::
  "('u foss_mdm \<Rightarrow> 'u foss_mdm result) list \<Rightarrow> 'u foss_mdm \<Rightarrow> 'u foss_mdm result" where
  "apply_options [] m = Inr m"
| "apply_options (opt # opts) m =
     (case opt m of
        Inl e \<Rightarrow> Inl (Wrapf ''processing option: %w'' [] e)
      | Inr m' \<Rightarrow> apply_options opts m')"

definition new_foss_mdm ::
  "('w, 'u) http_lib \<Rightarrow> string \<Rightarrow> string \<Rightarrow> ('u foss_mdm \<Rightarrow> 'u foss_mdm result) list \<Rightarrow> 'u foss_mdm result"
where
  "new_foss_mdm H enq_ref api_key opts =
     (case prep_url H enq_ref of
        Inl e \<Rightarrow> Inl (Wrapf ''preparing enqueue URL: %w'' [] e)
      | Inr u \<Rightarrow>
          apply_options opts
            \<lparr>fm_max = default_max_ids, fm_user = ''nanomdm'', fm_api_key = api_key,
             fm_enq_method = ''PUT'', fm_enq_url = Some u, fm_push_url = None\<rparr>)"

definition supports_multi_commands :: "'u foss_mdm \<Rightarrow> bool" where
  "supports_multi_commands m \<longleftrightarrow> fm_max m > 1"

definition concat_url :: "('w, 'u) http_lib \<Rightarrow> 'u option \<Rightarrow> string list \<Rightarrow> string result" where
  "concat_url H base ids =
     (case base of
        None \<Rightarrow> Inl (Errorf ''invalid base URL'' [])
      | Some b \<Rightarrow>
          (case ht_parse H (join (CHR '','') ids) of
             Inl e \<Rightarrow> Inl e
           | Inr u \<Rightarrow> Inr (ht_string H (ht_resolve H b u))))"

text \<open>The loop of \<open>chunk\<close> at index \<open>i\<close>; it does not end when \<open>n\<close> is zero.\<close>

partial_function (option) chunk_from :: "string list \<Rightarrow> nat \<Rightarrow> nat \<Rightarrow> string list list option" where
  "chunk_from s n i =
     (if i < length s
      then Option.bind (chunk_from s n (i + n)) (\<lambda>cs.
             Some (take ((if i + n > length s then length s else i + n) - i) (drop i s) # cs))
      else Some [])"

definition chunk :: "string list \<Rightarrow> nat \<Rightarrow> string list list option" where
  "chunk s n = chunk_from s n 0"

text \<open>
  The body of the loop over chunks. The reader of the raw command is shared by all requests: \<open>buf\<close> is
  what is left of it.
\<close>

definition send_chunk ::
  "('w, 'u) http_lib \<Rightarrow> 'u foss_mdm \<Rightarrow> string \<Rightarrow> 'u option \<Rightarrow> string list \<Rightarrow> bytes \<Rightarrow> ('w, bytes) action" where
  "send_chunk H m verb base ids buf =
     (if length ids < 1 then go_ret buf
      else
        (case concat_url H base ids of
           Inl _ \<Rightarrow> go_ret buf
         | Inr ref \<Rightarrow>
             (case ht_new_request H verb ref of
                Inl _ \<Rightarrow> go_ret buf
              | Inr _ \<Rightarrow>
                  (\<lambda>w. case ht_do H \<lparr>rq_method = verb, rq_url = ref, rq_user = fm_user m,
                                     rq_password = fm_api_key m, rq_body = buf\<rparr> w of
                         ((_, rest), w') \<Rightarrow> (Inr rest, w')))))"

definition foss_enqueue ::
  "('w, 'u) http_lib \<Rightarrow> 'u foss_mdm \<Rightarrow> string list \<Rightarrow> bytes \<Rightarrow> ('w, unit) action option" where
  "foss_enqueue H m ids raw =
     (if fm_max m = 1 \<and> length ids > 1
      then Some (go_fail (Errorf ''multiple ids not supported'' []))
      else map_option (\<lambda>chunks.
             go_bind (go_fold (send_chunk H m (fm_enq_method m) (fm_enq_url m)) chunks raw)
               (\<lambda>_. go_ret ())) (chunk ids (fm_max m)))"

definition foss_push ::
  "('w, 'u) http_lib \<Rightarrow> 'u foss_mdm \<Rightarrow> string list \<Rightarrow> ('w, unit) action option" where
  "foss_push H m ids =
     (if fm_push_url m = None then Some (go_fail (Errorf ''push not configured'' []))
      else map_option (\<lambda>chunks.
             go_for chunks (\<lambda>ids. go_bind (send_chunk H m ''GET'' (fm_push_url m) ids [])
               (\<lambda>_. go_ret ()))) (chunk ids (fm_max m)))"

section \<open>Events from the MDM server\<close>

record acknowledge_event =
  ack_udid :: string
  ack_enrollment_id :: string
  ack_status :: string
  ack_command_uuid :: string
  ack_params :: "(string \<times> string) list"
  ack_raw_payload :: bytes

record checkin_event =
  ci_udid :: string
  ci_enrollment_id :: string
  ci_params :: "(string \<times> string) list"
  ci_raw_payload :: bytes
  ci_token_update_tally :: "int option"

record foss_event =
  fe_topic :: string
  fe_event_id :: string
  fe_created_at :: time
  fe_acknowledge_event :: "acknowledge_event option"
  fe_checkin_event :: "checkin_event option"

text \<open>\<open>MDMEventReceiver\<close>.\<close>

record 'w mdm_receiver =
  rv_command_response :: "string \<Rightarrow> string \<Rightarrow> bytes \<Rightarrow> params option \<Rightarrow> ('w, unit) action"
  rv_idle :: "string \<Rightarrow> bytes \<Rightarrow> params option \<Rightarrow> time \<Rightarrow> ('w, unit) action"
  rv_checkin :: "string \<Rightarrow> checkin \<Rightarrow> params option \<Rightarrow> ('w, unit) action"

definition id_and_context ::
  "string \<Rightarrow> string \<Rightarrow> (string \<times> string) list \<Rightarrow> string \<times> params option" where
  "id_and_context udid eid ps =
     (if udid = [] then eid else udid, if length ps > 0 then Some (map_of ps) else None)"

definition process_acknowledge_event ::
  "('w, time) action \<Rightarrow> acknowledge_event option \<Rightarrow> 'w mdm_receiver \<Rightarrow> ('w, unit) action" where
  "process_acknowledge_event clock e ev =
     (case e of
        None \<Rightarrow> go_fail (Errorf ''empty acknowledge event'' [])
      | Some e \<Rightarrow>
          (case id_and_context (ack_udid e) (ack_enrollment_id e) (ack_params e) of
             (i, mctx) \<Rightarrow>
               if ack_status e \<noteq> ''Idle''
               then rv_command_response ev i (ack_command_uuid e) (ack_raw_payload e) mctx
               else go_bind clock (\<lambda>now. rv_idle ev i (ack_raw_payload e) mctx now)))"

text \<open>\<open>plist.Unmarshal\<close> into a check-in message keeps its type.\<close>

record decode_lib =
  dl_plist_checkin :: "bytes \<Rightarrow> checkin \<Rightarrow> checkin result"
  dl_json_event :: "bytes \<Rightarrow> foss_event result"

text \<open>The token update with its enrolling status, when the server tells its tally.\<close>

definition wrap_token_update :: "checkin \<Rightarrow> int option \<Rightarrow> checkin result" where
  "wrap_token_update c tally =
     (case (c, tally) of
        (TokenUpdate tu, Some n) \<Rightarrow>
          if \<not> token_update_enrolling_valid (Some (Some tu, n = 1))
          then Inl (Errorf ''invalid token update wrapper'' [])
          else Inr (TokenUpdateEnrolling (Some tu) (n = 1))
      | _ \<Rightarrow> Inr c)"

definition process_checkin_event ::
  "decode_lib \<Rightarrow> string \<Rightarrow> checkin_event option \<Rightarrow> 'w mdm_receiver \<Rightarrow> ('w, unit) action" where
  "process_checkin_event D topic e ev =
     (case e of
        None \<Rightarrow> go_fail (Errorf ''empty checkin event'' [])
      | Some e \<Rightarrow>
          if \<not> has_prefix topic ''mdm.'' then go_fail (Errorf ''checkin topic incorrect prefix'' [])
          else
            (case new_checkin_from_message_type (drop 4 topic) of
               None \<Rightarrow> go_fail (Errorf ''no checkin type for message type: %s'' [drop 4 topic])
             | Some c \<Rightarrow>
                 (case dl_plist_checkin D (ci_raw_payload e) c of
                    Inl er \<Rightarrow> go_fail (Wrapf ''unmarshal checkin: %w'' [] er)
                  | Inr c \<Rightarrow>
                      (case wrap_token_update c (ci_token_update_tally e) of
                         Inl er \<Rightarrow> go_fail er
                       | Inr c \<Rightarrow>
                           (case id_and_context (ci_udid e) (ci_enrollment_id e) (ci_params e) of
                              (i, mctx) \<Rightarrow> rv_checkin ev i c mctx)))))"

text \<open>The HTTP status that \<open>WebhookHandler\<close> answers.\<close>

definition status_of :: "('w, unit) action \<Rightarrow> ('w, nat) action" where
  "status_of m = go_bind (go_try m) (\<lambda>r. go_ret (case r of Inl _ \<Rightarrow> 500 | Inr _ \<Rightarrow> 200))"

definition webhook_handler ::
  "decode_lib \<Rightarrow> ('w, time) action \<Rightarrow> 'w mdm_receiver \<Rightarrow> bytes \<Rightarrow> ('w, nat) action" where
  "webhook_handler D clock recv body =
     (case dl_json_event D body of
        Inl _ \<Rightarrow> go_ret 400
      | Inr event \<Rightarrow>
          if fe_topic event = ''mdm.Connect''
          then status_of (process_acknowledge_event clock (fe_acknowledge_event event) recv)
          else status_of (process_checkin_event D (fe_topic event) (fe_checkin_event event) recv))"

text \<open>\<open>MDMEventDumper\<close>: \<open>write\<close> is its output writer, whose result it ignores.\<close>

definition event_dumper ::
  "(bytes \<Rightarrow> ('w, unit) action) \<Rightarrow> 'w mdm_receiver \<Rightarrow> 'w mdm_receiver" where
  "event_dumper write next_recv =
     \<lparr>rv_command_response = (\<lambda>i uuid raw mctx.
        go_bind (logged (write (raw @ [CHR 0x0A]))) (\<lambda>_. rv_command_response next_recv i uuid raw mctx)),
      rv_idle = (\<lambda>i raw mctx at.
        go_bind (logged (write (raw @ [CHR 0x0A]))) (\<lambda>_. rv_idle next_recv i raw mctx at)),
      rv_checkin = rv_checkin next_recv\<rparr>"

text \<open>The engine as the receiver, as \<open>cmd/nanocmd/main.go\<close> wires it.\<close>

definition engine_receiver :: "('w, 'c, 'r) engine \<Rightarrow> 'w mdm_receiver" where
  "engine_receiver e =
     \<lparr>rv_command_response = mdm_command_response_event e,
      rv_idle = (\<lambda>i raw mctx at. mdm_idle_event e i mctx at),
      rv_checkin = mdm_checkin_event e\<rparr>"

section \<open>Chunks\<close>

lemma chunk_from_props:
  assumes "n > 0"
  shows "\<exists>cs. chunk_from s n i = Some cs \<and> concat cs = drop i s \<and> (\<forall>c\<in>set cs. c \<noteq> [] \<and> length c \<le> n)"
proof (induction "length s - i" arbitrary: i rule: less_induct)
  case less
  show ?case
  proof (cases "i < length s")
    case True
    then have "length s - (i + n) < length s - i" using assms by simp
    from less.hyps [OF this] obtain cs where cs: "chunk_from s n (i + n) = Some cs"
      "concat cs = drop (i + n) s" "\<forall>c\<in>set cs. c \<noteq> [] \<and> length c \<le> n" by blast
    let ?c = "take ((if i + n > length s then length s else i + n) - i) (drop i s)"
    have c: "?c = take n (drop i s)" by simp
    have "chunk_from s n i = Some (take n (drop i s) # cs)"
      by (subst chunk_from.simps) (use True cs(1) c in simp)
    moreover have "concat (take n (drop i s) # cs) = drop i s"
      using cs(2) append_take_drop_id [of n "drop i s"] by (simp add: add.commute)
    moreover have "take n (drop i s) \<noteq> []" "length (take n (drop i s)) \<le> n"
      using True assms by simp_all
    ultimately show ?thesis using cs(3) by (intro exI [of _ "take n (drop i s) # cs"]) auto
  next
    case False
    then show ?thesis by (subst chunk_from.simps) simp
  qed
qed

lemma chunk_props:
  "n > 0 \<Longrightarrow> \<exists>cs. chunk s n = Some cs \<and> concat cs = s \<and> (\<forall>c\<in>set cs. c \<noteq> [] \<and> length c \<le> n)"
  using chunk_from_props [of n s 0] by (simp add: chunk_def)

lemma chunk_one:
  assumes "length s \<le> 1" "n > 0"
  shows "chunk s n = Some (if s = [] then [] else [s])"
proof -
  from chunk_props [OF assms(2), of s] obtain cs where cs: "chunk s n = Some cs" "concat cs = s"
    "\<forall>c\<in>set cs. c \<noteq> []" by blast
  show ?thesis
  proof (cases cs)
    case Nil
    with cs show ?thesis by auto
  next
    case (Cons c cs')
    with cs have c: "s = c @ concat cs'" "c \<noteq> []" by auto
    with assms(1) have "concat cs' = []" "s = c" by (cases c; cases "concat cs'"; simp)+
    moreover from this cs(3) Cons have "cs' = []" by (cases cs') auto
    ultimately show ?thesis using cs(1) Cons c by simp
  qed
qed

text \<open>The options leave a maximum of 1 or 30, so no call loops.\<close>

definition max_option :: "('u foss_mdm \<Rightarrow> 'u foss_mdm result) \<Rightarrow> bool" where
  "max_option opt \<longleftrightarrow> (\<forall>m m'. opt m = Inr m' \<longrightarrow> fm_max m > 0 \<longrightarrow> fm_max m' > 0)"

lemma max_options: "max_option with_micro_mdm" "max_option (with_push H ref)"
  by (auto simp: max_option_def with_micro_mdm_def with_push_def split: sum.splits)

lemma apply_options_max:
  "\<forall>opt\<in>set opts. max_option opt \<Longrightarrow> apply_options opts m = Inr m' \<Longrightarrow> fm_max m > 0 \<Longrightarrow> fm_max m' > 0"
  by (induction opts arbitrary: m) (auto simp: max_option_def split: sum.splits)

lemma new_foss_mdm_max:
  assumes "new_foss_mdm H ref key opts = Inr m" "\<forall>opt\<in>set opts. max_option opt"
  shows "fm_max m > 0"
  using assms(1) apply_options_max [OF assms(2)]
  by (auto simp: new_foss_mdm_def default_max_ids_def split: sum.splits)

section \<open>What the server receives\<close>

text \<open>
  A client that records each request it is given to send, whatever comes of it, and one that reads the bodies to
  the end. A group of IDs is sendable when the URL can be made and the request of it; the loops skip the others.
\<close>

definition records :: "('w, 'u) http_lib \<Rightarrow> ('w \<Rightarrow> http_request list) \<Rightarrow> bool" where
  "records H reqs \<longleftrightarrow> (\<forall>rq w. reqs (snd (ht_do H rq w)) = reqs w @ [rq])"

definition drains :: "('w, 'u) http_lib \<Rightarrow> bool" where
  "drains H \<longleftrightarrow> (\<forall>rq w. snd (fst (ht_do H rq w)) = [])"

definition request_for ::
  "('w, 'u) http_lib \<Rightarrow> 'u foss_mdm \<Rightarrow> string \<Rightarrow> 'u \<Rightarrow> string list \<Rightarrow> bytes \<Rightarrow> http_request" where
  "request_for H m verb base ids body =
     \<lparr>rq_method = verb,
      rq_url = ht_string H (ht_resolve H base (projr (ht_parse H (join (CHR '','') ids)))),
      rq_user = fm_user m, rq_password = fm_api_key m, rq_body = body\<rparr>"

definition sendable :: "('w, 'u) http_lib \<Rightarrow> string \<Rightarrow> 'u \<Rightarrow> string list \<Rightarrow> bool" where
  "sendable H verb base ids \<longleftrightarrow>
     (case ht_parse H (join (CHR '','') ids) of
        Inl _ \<Rightarrow> False
      | Inr u \<Rightarrow> \<not> isl (ht_new_request H verb (ht_string H (ht_resolve H base u))))"

lemma send_chunk_run:
  assumes "records H reqs" "ids \<noteq> []"
  shows "\<exists>rest w'. send_chunk H m verb (Some base) ids buf w = (Inr rest, w') \<and>
              reqs w' = reqs w @ (if sendable H verb base ids then [request_for H m verb base ids buf] else []) \<and>
              (drains H \<longrightarrow> rest = (if sendable H verb base ids then [] else buf))"
proof (cases "sendable H verb base ids")
  case True
  then obtain u where u: "ht_parse H (join (CHR '','') ids) = Inr u"
    "ht_new_request H verb (ht_string H (ht_resolve H base u)) = Inr ()"
    by (cases "ht_parse H (join (CHR '','') ids)") (auto simp: sendable_def isl_def intro: sum.exhaust)
  let ?rq = "\<lparr>rq_method = verb, rq_url = ht_string H (ht_resolve H base u), rq_user = fm_user m,
              rq_password = fm_api_key m, rq_body = buf\<rparr>"
  obtain r rest w' where r: "ht_do H ?rq w = ((r, rest), w')" by (metis prod.collapse)
  have "reqs w' = reqs w @ [?rq]"
    using assms(1) [unfolded records_def, rule_format, of ?rq w] by (simp add: r)
  moreover have "drains H \<Longrightarrow> rest = []" unfolding drains_def by (drule spec [of _ ?rq], drule spec [of _ w]) (simp add: r)
  ultimately show ?thesis using True u assms(2) r
    by (auto simp: send_chunk_def concat_url_def request_for_def Suc_le_eq)
next
  case False
  then show ?thesis using assms(2)
    by (auto simp: sendable_def send_chunk_def concat_url_def go_defs Suc_le_eq isl_def split: sum.splits)
qed

lemma send_chunks_run:
  assumes "records H reqs" "drains H" "\<forall>c\<in>set cs. c \<noteq> []"
  shows "\<exists>rest w'. go_fold (send_chunk H m verb (Some base)) cs buf w = (Inr rest, w') \<and>
     reqs w' = reqs w @ (case filter (sendable H verb base) cs of [] \<Rightarrow> [] | c # cs' \<Rightarrow>
                 request_for H m verb base c buf # map (\<lambda>c. request_for H m verb base c []) cs')"
  using assms(3)
proof (induction cs arbitrary: buf w)
  case (Cons c cs)
  let ?buf = "if sendable H verb base c then [] else buf"
  from send_chunk_run [OF assms(1), of c m verb base buf w] Cons.prems assms(2) obtain w1 where
    w1: "send_chunk H m verb (Some base) c buf w = (Inr ?buf, w1)"
    "reqs w1 = reqs w @ (if sendable H verb base c then [request_for H m verb base c buf] else [])" by auto
  from Cons.IH [of ?buf w1] Cons.prems obtain rest w2 where
    "go_fold (send_chunk H m verb (Some base)) cs ?buf w1 = (Inr rest, w2)"
    "reqs w2 = reqs w1 @ (case filter (sendable H verb base) cs of [] \<Rightarrow> [] | c # cs' \<Rightarrow>
                 request_for H m verb base c ?buf # map (\<lambda>c. request_for H m verb base c []) cs')"
    by auto
  with w1 show ?case
    by (intro exI [of _ rest] exI [of _ w2]) (auto simp: go_defs split: list.split)
qed (simp add: go_defs)

lemma foss_push_run:
  assumes "records H reqs" "fm_push_url m = Some base" "fm_max m > 0"
  shows "\<exists>act cs w'. foss_push H m ids = Some act \<and> chunk ids (fm_max m) = Some cs \<and> act w = (Inr (), w') \<and>
     reqs w' = reqs w @ map (\<lambda>c. request_for H m ''GET'' base c []) (filter (sendable H ''GET'' base) cs)"
proof -
  from chunk_props [OF assms(3), of ids] obtain cs where cs: "chunk ids (fm_max m) = Some cs"
    "\<forall>c\<in>set cs. c \<noteq> []" by blast
  let ?body = "\<lambda>ids. go_bind (send_chunk H m ''GET'' (fm_push_url m) ids []) (\<lambda>_. go_ret ())"
  have "\<exists>w'. go_for cs ?body w = (Inr (), w') \<and>
     reqs w' = reqs w @ map (\<lambda>c. request_for H m ''GET'' base c []) (filter (sendable H ''GET'' base) cs)"
    using cs(2)
  proof (induction cs arbitrary: w)
    case (Cons c cs)
    from send_chunk_run [OF assms(1), of c m "''GET''" base "[]" w] Cons.prems obtain rest w1 where
      w1: "send_chunk H m ''GET'' (Some base) c [] w = (Inr rest, w1)"
      "reqs w1 = reqs w @ (if sendable H ''GET'' base c then [request_for H m ''GET'' base c []] else [])" by auto
    from Cons.IH [of w1] Cons.prems obtain w2 where "go_for cs ?body w1 = (Inr (), w2)"
      "reqs w2 = reqs w1 @ map (\<lambda>c. request_for H m ''GET'' base c []) (filter (sendable H ''GET'' base) cs)" by auto
    with w1 assms(2) show ?case by (intro exI [of _ w2]) (simp add: go_defs)
  qed (simp add: go_defs)
  with cs(1) assms(2) show ?thesis by (auto simp: foss_push_def)
qed

lemma foss_enqueue_run:
  assumes "records H reqs" "drains H" "fm_enq_url m = Some base" "fm_max m > 0" "fm_max m = 1 \<longrightarrow> length ids \<le> 1"
  shows "\<exists>act cs w'. foss_enqueue H m ids raw = Some act \<and> chunk ids (fm_max m) = Some cs \<and> act w = (Inr (), w') \<and>
     reqs w' = reqs w @ (case filter (sendable H (fm_enq_method m) base) cs of [] \<Rightarrow> [] | c # cs' \<Rightarrow>
                 request_for H m (fm_enq_method m) base c raw #
                 map (\<lambda>c. request_for H m (fm_enq_method m) base c []) cs')"
proof -
  from chunk_props [OF assms(4), of ids] obtain cs where cs: "chunk ids (fm_max m) = Some cs"
    "\<forall>c\<in>set cs. c \<noteq> []" by blast
  from send_chunks_run [OF assms(1,2) cs(2), of m "fm_enq_method m" base raw w] obtain rest w' where
    "go_fold (send_chunk H m (fm_enq_method m) (Some base)) cs raw w = (Inr rest, w')"
    "reqs w' = reqs w @ (case filter (sendable H (fm_enq_method m) base) cs of [] \<Rightarrow> [] | c # cs' \<Rightarrow>
                 request_for H m (fm_enq_method m) base c raw #
                 map (\<lambda>c. request_for H m (fm_enq_method m) base c []) cs')" by blast
  then show ?thesis using cs(1) assms(3,5) by (auto simp: foss_enqueue_def go_defs)
qed

end
