(* ===== verification/SubStores.thy ===== *)
theory SubStores
  imports KVBucket "HOL-Library.Countable_Set"
begin

text \<open>
  The subsystems' storage: profiles (\<open>subsystem/profile/storage\<close>), inventory
  (\<open>subsystem/inventory/storage\<close>) with PRKs kept in it (\<open>subsystem/filevault/storage/invprk\<close>), the
  FileVault store (\<open>subsystem/filevault/storage/kv\<close>) and command plans
  (\<open>subsystem/cmdplan/storage\<close>): the interfaces as records of actions on a world, and the key-value
  backends on a bucket. \<open>encoding/json\<close> and the cryptography are parameters.
\<close>

section \<open>Profiles\<close>

record profile_info =
  pi_identifier :: string
  pi_uuid :: string

definition profile_info_valid :: "profile_info option \<Rightarrow> bool" where
  "profile_info_valid p \<longleftrightarrow>
     (case p of None \<Rightarrow> False | Some p \<Rightarrow> \<not> (pi_identifier p = [] \<or> pi_uuid p = []))"

record 'w profile_storage =
  ps_retrieve_infos :: "string list \<Rightarrow> ('w, string \<rightharpoonup> profile_info) action"
  ps_retrieve_raw :: "string list \<Rightarrow> ('w, string \<rightharpoonup> bytes) action"

definition key_pfx_uuid :: string where "key_pfx_uuid = ''uuid.''"
definition key_pfx_id :: string where "key_pfx_id = ''id.''"
definition key_pfx_raw :: string where "key_pfx_raw = ''raw.''"

text \<open>\<open>Get\<close> whose missing key is a missing profile.\<close>

definition get_profile_key :: "'b kv_env \<Rightarrow> string \<Rightarrow> string \<Rightarrow> ('b, bytes) action" where
  "get_profile_key E pfx name =
     go_bind (go_try (b_get E (pfx @ name))) (\<lambda>r.
     case r of
       Inl e \<Rightarrow> if errors_is e ErrKeyNotFound
                then go_fail (Wrapf ''%w: %s: %v'' [name] ErrProfileNotFound)
                else go_fail e
     | Inr v \<Rightarrow> go_ret v)"

definition retrieve_info_body ::
  "'b kv_env \<Rightarrow> string \<Rightarrow> (string \<rightharpoonup> profile_info) \<Rightarrow> ('b, string \<rightharpoonup> profile_info) action" where
  "retrieve_info_body E name r =
     go_bind (get_profile_key E key_pfx_id name) (\<lambda>i.
     go_bind (get_profile_key E key_pfx_uuid name) (\<lambda>u.
     go_ret (r(name \<mapsto> \<lparr>pi_identifier = i, pi_uuid = u\<rparr>))))"

definition retrieve_profile_infos ::
  "'b kv_env \<Rightarrow> string list \<Rightarrow> ('b, string \<rightharpoonup> profile_info) action" where
  "retrieve_profile_infos E names =
     go_bind (if length names < 1
              then (\<lambda>b. (Inr (map (drop (length key_pfx_id)) (bk_keys_prefix E key_pfx_id b)), b))
              else go_ret names) (\<lambda>names.
     go_fold (retrieve_info_body E) names Map.empty)"

definition retrieve_raw_body ::
  "'b kv_env \<Rightarrow> string \<Rightarrow> (string \<rightharpoonup> bytes) \<Rightarrow> ('b, string \<rightharpoonup> bytes) action" where
  "retrieve_raw_body E name r =
     go_bind (get_profile_key E key_pfx_raw name) (\<lambda>v. go_ret (r(name \<mapsto> v)))"

definition retrieve_raw_profiles :: "'b kv_env \<Rightarrow> string list \<Rightarrow> ('b, string \<rightharpoonup> bytes) action" where
  "retrieve_raw_profiles E names =
     (if length names < 1 then go_fail ErrNoNames
      else go_fold (retrieve_raw_body E) names Map.empty)"

definition store_profile :: "'b kv_env \<Rightarrow> string \<Rightarrow> profile_info \<Rightarrow> bytes \<Rightarrow> ('b, unit) action" where
  "store_profile E name info raw =
     bk_set_map E
       [(key_pfx_id @ name, pi_identifier info), (key_pfx_uuid @ name, pi_uuid info),
        (key_pfx_raw @ name, raw)]"

definition delete_profile :: "'b kv_env \<Rightarrow> string \<Rightarrow> ('b, unit) action" where
  "delete_profile E name =
     bk_delete_slice E [key_pfx_id @ name, key_pfx_uuid @ name, key_pfx_raw @ name]"

definition kv_profile_storage ::
  "'b kv_env \<Rightarrow> ('w \<Rightarrow> 'b) \<Rightarrow> ('b \<Rightarrow> 'w \<Rightarrow> 'w) \<Rightarrow> 'w profile_storage" where
  "kv_profile_storage E get put =
     \<lparr>ps_retrieve_infos = (\<lambda>ns. go_zoom get put (retrieve_profile_infos E ns)),
      ps_retrieve_raw = (\<lambda>ns. go_zoom get put (retrieve_raw_profiles E ns))\<rparr>"

section \<open>Inventory\<close>

text \<open>A value of an inventory map, a Go \<open>interface{}\<close>.\<close>

datatype inv_value = InvString string | InvBool bool | InvTime time | InvNil | InvOther string

type_synonym inv_values = "string \<rightharpoonup> inv_value"

definition key_serial_number :: string where "key_serial_number = ''serial_number''"
definition key_model :: string where "key_model = ''model''"
definition key_model_name :: string where "key_model_name = ''model_name''"
definition key_device_name :: string where "key_device_name = ''device_name''"
definition key_build_version :: string where "key_build_version = ''build_version''"
definition key_os_version :: string where "key_os_version = ''os_version''"
definition key_ethernet_mac :: string where "key_ethernet_mac = ''ethernet_mac''"
definition key_sip_enabled :: string where "key_sip_enabled = ''sip_enabled''"
definition key_fde_enabled :: string where "key_fde_enabled = ''fde_enabled''"
definition key_prk :: string where "key_prk = ''prk''"
definition key_supervised :: string where "key_supervised = ''supervised''"
definition key_last_source :: string where "key_last_source = ''last_source''"
definition key_modified :: string where "key_modified = ''modified''"
definition key_has_battery :: string where "key_has_battery = ''has_battery''"
definition key_is_multi_user :: string where "key_is_multi_user = ''is_multiuser''"
definition key_supports_lom :: string where "key_supports_lom = ''supports_lom''"
definition key_apple_silicon :: string where "key_apple_silicon = ''apple_silicon''"

lemmas inv_key_defs =
  key_serial_number_def key_model_def key_model_name_def key_device_name_def key_build_version_def
  key_os_version_def key_ethernet_mac_def key_sip_enabled_def key_fde_enabled_def key_prk_def
  key_supervised_def key_last_source_def key_modified_def key_has_battery_def key_is_multi_user_def
  key_supports_lom_def key_apple_silicon_def

text \<open>
  \<open>SearchOptions\<close> is a pointer that may be nil. What \<open>ij_unmarshal\<close> gives is a map and never nil: the JSON text
  \<open>null\<close>, which the stores never write, would make \<open>StoreInventoryValues\<close> panic.
\<close>

record 'w inventory_storage =
  is_retrieve :: "string list option \<Rightarrow> ('w, string \<rightharpoonup> inv_values) action"
  is_store :: "string \<Rightarrow> inv_values \<Rightarrow> ('w, unit) action"
  is_delete :: "string \<Rightarrow> ('w, unit) action"

record inv_json =
  ij_marshal :: "inv_values \<Rightarrow> bytes result"
  ij_unmarshal :: "bytes \<Rightarrow> inv_values result"

definition retrieve_inventory_body ::
  "'b kv_env \<Rightarrow> inv_json \<Rightarrow> string \<Rightarrow> (string \<rightharpoonup> inv_values) \<Rightarrow> ('b, string \<rightharpoonup> inv_values) action" where
  "retrieve_inventory_body E J i r =
     go_bind (go_try (b_get E i)) (\<lambda>x.
     case x of
       Inl e \<Rightarrow> if errors_is e ErrKeyNotFound then go_ret r
                else go_fail (Wrapf ''getting values for %s: %w'' [i] e)
     | Inr j \<Rightarrow>
         (case ij_unmarshal J j of
            Inl e \<Rightarrow> go_fail (Wrapf ''unmarshal values for %s: %w'' [i] e)
          | Inr values \<Rightarrow> go_ret (r(i \<mapsto> values))))"

definition retrieve_inventory ::
  "'b kv_env \<Rightarrow> inv_json \<Rightarrow> string list option \<Rightarrow> ('b, string \<rightharpoonup> inv_values) action" where
  "retrieve_inventory E J opt =
     (case opt of
        None \<Rightarrow> go_fail ErrNoIDs
      | Some ids \<Rightarrow>
          if length ids < 1 then go_fail ErrNoIDs
          else go_fold (retrieve_inventory_body E J) ids Map.empty)"

definition store_inventory_values ::
  "'b kv_env \<Rightarrow> inv_json \<Rightarrow> string \<Rightarrow> inv_values \<Rightarrow> ('b, unit) action" where
  "store_inventory_values E J i new_values =
     (if i = [] then go_fail ErrNoIDs
      else if new_values = Map.empty then go_ret ()
      else
        go_bind (go_try (b_get E i)) (\<lambda>x.
        go_bind (case x of
                   Inl e \<Rightarrow> if errors_is e ErrKeyNotFound then go_ret []
                            else go_fail (Wrapf ''get values: %w'' [] e)
                 | Inr j \<Rightarrow> go_ret j) (\<lambda>j.
        go_bind (if length j < 1 then go_ret new_values
                 else
                   (case ij_unmarshal J j of
                      Inl e \<Rightarrow> go_fail (Wrapf ''unmarshal values: %w'' [] e)
                    | Inr values \<Rightarrow> go_ret (values ++ new_values))) (\<lambda>values.
        go_bind (go_wrap ''marshal values: %w'' [] (go_lift (ij_marshal J values))) (\<lambda>j'.
        go_wrap ''set values: %w'' [] (bk_set E i j'))))))"

definition delete_inventory :: "'b kv_env \<Rightarrow> string \<Rightarrow> ('b, unit) action" where
  "delete_inventory E i = bk_delete E i"

definition kv_inventory_storage ::
  "'b kv_env \<Rightarrow> inv_json \<Rightarrow> ('w \<Rightarrow> 'b) \<Rightarrow> ('b \<Rightarrow> 'w \<Rightarrow> 'w) \<Rightarrow> 'w inventory_storage" where
  "kv_inventory_storage E J get put =
     \<lparr>is_retrieve = (\<lambda>opt. go_zoom get put (retrieve_inventory E J opt)),
      is_store = (\<lambda>i v. go_zoom get put (store_inventory_values E J i v)),
      is_delete = (\<lambda>i. go_zoom get put (delete_inventory E i))\<rparr>"

section \<open>FileVault keys\<close>

record 'w prk_storage =
  pk_retrieve :: "string \<Rightarrow> ('w, string) action"
  pk_store :: "string \<Rightarrow> string \<Rightarrow> ('w, unit) action"

definition inv_store_prk ::
  "'w inventory_storage \<Rightarrow> ('w, time) action \<Rightarrow> string \<Rightarrow> string \<Rightarrow> ('w, unit) action" where
  "inv_store_prk sto clock i prk =
     go_bind clock (\<lambda>now.
     is_store sto i
       [key_last_source \<mapsto> InvString ''InvPRK'', key_modified \<mapsto> InvTime now, key_prk \<mapsto> InvString prk])"

definition prk_of_values :: "string \<Rightarrow> (string \<rightharpoonup> inv_values) \<Rightarrow> string result" where
  "prk_of_values i id_vals =
     (case id_vals i of
        None \<Rightarrow> Inl (Errorf ''id not in inventory: %s'' [i])
      | Some vals \<Rightarrow>
          (case vals key_prk of
             None \<Rightarrow> Inl (Errorf ''inventory does not contain PRK value: %s'' [i])
           | Some InvNil \<Rightarrow> Inl (Errorf ''inventory does not contain PRK value: %s'' [i])
           | Some (InvString prk) \<Rightarrow> Inr prk
           | Some _ \<Rightarrow> Inl (Errorf ''PRK incorrect inventory type'' [])))"

definition inv_retrieve_prk :: "'w inventory_storage \<Rightarrow> string \<Rightarrow> ('w, string) action" where
  "inv_retrieve_prk sto i =
     go_bind (go_wrap ''retrieve inventory: %w'' [] (is_retrieve sto (Some [i]))) (\<lambda>id_vals.
     go_lift (prk_of_values i id_vals))"

definition inv_prk :: "'w inventory_storage \<Rightarrow> ('w, time) action \<Rightarrow> 'w prk_storage" where
  "inv_prk sto clock = \<lparr>pk_retrieve = inv_retrieve_prk sto, pk_store = inv_store_prk sto clock\<rparr>"

text \<open>
  What the FileVault store uses of the cryptographic libraries: the DER forms of a key and of a
  certificate, a fresh self-signed pair, and parsing and decrypting a CMS.
\<close>

record ('k, 'c, 'm) fv_crypto =
  fc_new_keypair :: "nat \<Rightarrow> ('k \<times> 'c) result"
  fc_marshal_key :: "'k \<Rightarrow> bytes"
  fc_cert_raw :: "'c \<Rightarrow> bytes"
  fc_parse_key :: "bytes \<Rightarrow> 'k result"
  fc_parse_cert :: "bytes \<Rightarrow> 'c result"
  fc_parse_cms :: "bytes \<Rightarrow> 'm result"
  fc_decrypt :: "'m \<Rightarrow> 'c \<Rightarrow> 'k \<Rightarrow> bytes result"

definition kv_key_key :: string where "kv_key_key = ''key''"
definition kv_key_cert :: string where "kv_key_cert = ''cert''"

definition assure_keypair_exists ::
  "'b kv_env \<Rightarrow> ('k, 'c, 'm) fv_crypto \<Rightarrow> nat \<Rightarrow> ('b, unit) action" where
  "assure_keypair_exists E C seed =
     go_bind (go_wrap ''checking cert exists: %w'' [] (b_has E kv_key_cert)) (\<lambda>cert_ok.
     go_bind (go_wrap ''checking key exists: %w'' [] (b_has E kv_key_key)) (\<lambda>key_ok.
     if cert_ok \<and> key_ok then go_ret ()
     else
       go_bind (go_wrap ''generating self-signed keypair: %w'' [] (go_lift (fc_new_keypair C seed))) (\<lambda>(key, cert).
       go_bind (go_wrap ''setting key: %w'' [] (bk_set E kv_key_key (fc_marshal_key C key))) (\<lambda>_.
       go_wrap ''setting cert: %w'' [] (bk_set E kv_key_cert (fc_cert_raw C cert))))))"

definition retrieve_prk_cert_raw :: "'b kv_env \<Rightarrow> string \<Rightarrow> ('b, bytes) action" where
  "retrieve_prk_cert_raw E i = b_get E kv_key_cert"

definition get_keypair :: "'b kv_env \<Rightarrow> ('k, 'c, 'm) fv_crypto \<Rightarrow> ('b, 'k \<times> 'c) action" where
  "get_keypair E C =
     go_bind (go_wrap ''getting cert: %w'' [] (b_get E kv_key_cert)) (\<lambda>cert_bytes.
     go_bind (go_wrap ''parsing cert: %w'' [] (go_lift (fc_parse_cert C cert_bytes))) (\<lambda>cert.
     go_bind (go_wrap ''getting key: %w'' [] (b_get E kv_key_key)) (\<lambda>key_bytes.
     go_bind (go_wrap ''parsing key: %w'' [] (go_lift (fc_parse_key C key_bytes))) (\<lambda>key.
     go_ret (key, cert)))))"

definition escrow_prk ::
  "'b kv_env \<Rightarrow> ('k, 'c, 'm) fv_crypto \<Rightarrow> ('w \<Rightarrow> 'b) \<Rightarrow> ('b \<Rightarrow> 'w \<Rightarrow> 'w) \<Rightarrow> 'w prk_storage
    \<Rightarrow> string \<Rightarrow> bytes \<Rightarrow> ('w, unit) action" where
  "escrow_prk E C get put p i cms =
     go_bind (go_wrap ''parse PRK CMS: %w'' [] (go_lift (fc_parse_cms C cms))) (\<lambda>p7.
     go_bind (go_wrap ''getting keypair: %w'' [] (go_zoom get put (get_keypair E C))) (\<lambda>(key, cert).
     go_bind (go_wrap ''decrypting PRK CMS: %w'' [] (go_lift (fc_decrypt C p7 cert key))) (\<lambda>prk.
     go_wrap ''store PRK: %w'' [] (pk_store p i prk))))"

record 'w fv_storage =
  fv_retrieve_cert :: "string \<Rightarrow> ('w, bytes) action"
  fv_retrieve_prk :: "string \<Rightarrow> ('w, string) action"
  fv_escrow :: "string \<Rightarrow> bytes \<Rightarrow> ('w, unit) action"

definition kv_fv_storage ::
  "'b kv_env \<Rightarrow> ('k, 'c, 'm) fv_crypto \<Rightarrow> ('w \<Rightarrow> 'b) \<Rightarrow> ('b \<Rightarrow> 'w \<Rightarrow> 'w) \<Rightarrow> 'w prk_storage \<Rightarrow> 'w fv_storage" where
  "kv_fv_storage E C get put p =
     \<lparr>fv_retrieve_cert = (\<lambda>i. go_zoom get put (retrieve_prk_cert_raw E i)),
      fv_retrieve_prk = pk_retrieve p,
      fv_escrow = escrow_prk E C get put p\<rparr>"

section \<open>Command plans\<close>

record cmd_plan =
  cpl_profile_names :: "string list"
  cpl_manifest_urls :: "string list"
  cpl_device_configured :: "bool option"

definition empty_cmd_plan :: cmd_plan where
  "empty_cmd_plan = \<lparr>cpl_profile_names = [], cpl_manifest_urls = [], cpl_device_configured = None\<rparr>"

record plan_json =
  pj_marshal :: "cmd_plan option \<Rightarrow> bytes result"
  pj_unmarshal :: "bytes \<Rightarrow> cmd_plan \<Rightarrow> cmd_plan result"

definition retrieve_cmd_plan :: "'b kv_env \<Rightarrow> plan_json \<Rightarrow> string \<Rightarrow> ('b, cmd_plan) action" where
  "retrieve_cmd_plan E J name =
     go_bind (b_get E name) (\<lambda>raw. go_lift (pj_unmarshal J raw empty_cmd_plan))"

definition store_cmd_plan :: "'b kv_env \<Rightarrow> plan_json \<Rightarrow> string \<Rightarrow> cmd_plan option \<Rightarrow> ('b, unit) action" where
  "store_cmd_plan E J name p = go_bind (go_lift (pj_marshal J p)) (\<lambda>raw. bk_set E name raw)"

definition delete_cmd_plan :: "'b kv_env \<Rightarrow> string \<Rightarrow> ('b, unit) action" where
  "delete_cmd_plan E name = bk_delete E name"

section \<open>Profiles as a map\<close>

text \<open>The bucket holds, for each stored name, its three entries, and no other entry of those families.\<close>

context kv_laws
begin

definition prof_rep :: "'b \<Rightarrow> (string \<rightharpoonup> profile_info \<times> bytes) \<Rightarrow> bool" where
  "prof_rep b P \<longleftrightarrow>
     (\<forall>name. view b (key_pfx_id @ name) = map_option (pi_identifier \<circ> fst) (P name) \<and>
             view b (key_pfx_uuid @ name) = map_option (pi_uuid \<circ> fst) (P name) \<and>
             view b (key_pfx_raw @ name) = map_option snd (P name))"

lemma prof_repD:
  assumes "prof_rep b P"
  shows "view b (key_pfx_id @ name) = map_option (pi_identifier \<circ> fst) (P name)"
    "view b (key_pfx_uuid @ name) = map_option (pi_uuid \<circ> fst) (P name)"
    "view b (key_pfx_raw @ name) = map_option snd (P name)"
  using assms unfolding prof_rep_def by blast+

lemma store_profile_refines:
  assumes "prof_rep b P"
  shows "wp (store_profile E name info raw) (\<lambda>r b'. r = Inr () \<and> prof_rep b' (P(name \<mapsto> (info, raw)))) b"
  using assms
  by (auto simp: store_profile_def key_pfx_id_def key_pfx_uuid_def key_pfx_raw_def prof_rep_def map_add_def
      split: option.split)

lemma delete_profile_refines:
  assumes "prof_rep b P" "P name \<noteq> None"
  shows "wp (delete_profile E name) (\<lambda>r b'. r = Inr () \<and> prof_rep b' (P(name := None))) b"
  unfolding delete_profile_def
proof (rule wp_delete_slice)
  show "set [key_pfx_id @ name, key_pfx_uuid @ name, key_pfx_raw @ name] \<subseteq> dom (view b)"
    using assms prof_repD [OF assms(1), of name] by (auto simp: dom_def)
next
  fix b'
  assume "view b' = view b |` (- set [key_pfx_id @ name, key_pfx_uuid @ name, key_pfx_raw @ name])"
  with assms show "Inr () = Inr () \<and> prof_rep b' (P(name := None))"
    by (auto simp: prof_rep_def restrict_map_def key_pfx_id_def key_pfx_uuid_def key_pfx_raw_def)
qed

lemma wp_get_profile_key:
  "wp (get_profile_key E pfx name) Q b =
     Q (case view b (pfx @ name) of None \<Rightarrow> Inl (Wrapf ''%w: %s: %v'' [name] ErrProfileNotFound) | Some v \<Rightarrow> Inr v) b"
  by (simp add: get_profile_key_def split: option.split)

text \<open>Looking names up: all of them, or the error for the first that is not stored.\<close>

end

definition lookup_all :: "(string \<rightharpoonup> 'a) \<Rightarrow> string list \<Rightarrow> (string \<rightharpoonup> 'a) result" where
  "lookup_all M names =
     (case find (\<lambda>n. M n = None) names of
        Some n \<Rightarrow> Inl (Wrapf ''%w: %s: %v'' [n] ErrProfileNotFound)
      | None \<Rightarrow> Inr (M |` set names))"

lemma lookup_all_Cons:
  "M n = Some v \<Longrightarrow> map_sum f (\<lambda>m. acc(n \<mapsto> v) ++ m) (lookup_all M names) =
     map_sum f (\<lambda>m. acc ++ m) (lookup_all M (n # names))"
  by (auto simp: lookup_all_def map_add_def restrict_map_def fun_eq_iff split: option.split)

lemma map_sum_ident [simp]: "map_sum (\<lambda>x. x) (\<lambda>x. x) r = r" "map_sum id (\<lambda>x. x) r = r"
  by (cases r; simp)+

context kv_laws
begin

lemma lookup_fold:
  assumes body: "\<And>n acc. wp (f n acc) (\<lambda>r b'. b' = b \<and> r = (case M n of
        None \<Rightarrow> Inl (Wrapf ''%w: %s: %v'' [n] ErrProfileNotFound) | Some v \<Rightarrow> Inr (acc(n \<mapsto> v)))) b"
  shows "wp (go_fold f names acc) (\<lambda>r b'. b' = b \<and>
     r = map_sum id (\<lambda>m. acc ++ m) (lookup_all M names)) b"
proof (induction names arbitrary: acc)
  case Nil
  then show ?case by (simp add: lookup_all_def)
next
  case (Cons n names)
  show ?case
  proof (cases "M n")
    case None
    then show ?thesis using body [of n acc] by (auto simp: lookup_all_def elim!: wp_mono)
  next
    case (Some v)
    show ?thesis
      using body [of n acc] Cons.IH [of "acc(n \<mapsto> v)"] Some
      by (auto simp del: fun_upd_apply simp: lookup_all_Cons [where M = M, OF Some] elim!: wp_mono)
  qed
qed

lemma retrieve_raw_refines:
  assumes "prof_rep b P"
  shows "wp (retrieve_raw_profiles E names) (\<lambda>r b'. b' = b \<and>
     r = (if names = [] then Inl ErrNoNames else lookup_all (map_option snd \<circ> P) names)) b"
proof -
  have "wp (go_fold (retrieve_raw_body E) names Map.empty) (\<lambda>r b'. b' = b \<and>
     r = map_sum id (\<lambda>m. Map.empty ++ m) (lookup_all (map_option snd \<circ> P) names)) b"
    by (rule lookup_fold)
      (use prof_repD [OF assms] in \<open>auto simp: retrieve_raw_body_def wp_get_profile_key split: option.split\<close>)
  then show ?thesis by (auto simp: retrieve_raw_profiles_def Suc_le_eq elim!: wp_mono)
qed

lemma retrieve_infos_refines:
  assumes "prof_rep b P" "names \<noteq> []"
  shows "wp (retrieve_profile_infos E names) (\<lambda>r b'. b' = b \<and> r = lookup_all (map_option fst \<circ> P) names) b"
proof -
  have "wp (go_fold (retrieve_info_body E) names Map.empty) (\<lambda>r b'. b' = b \<and>
     r = map_sum id (\<lambda>m. Map.empty ++ m) (lookup_all (map_option fst \<circ> P) names)) b"
    by (rule lookup_fold)
      (use prof_repD [OF assms(1)] in \<open>auto simp: retrieve_info_body_def wp_get_profile_key split: option.split\<close>)
  then show ?thesis using assms(2) by (auto simp: retrieve_profile_infos_def Suc_le_eq elim!: wp_mono)
qed

text \<open>Without names, every stored profile.\<close>

lemma retrieve_all_infos_refines:
  assumes "prof_rep b P"
  shows "wp (retrieve_profile_infos E []) (\<lambda>r b'. b' = b \<and> r = Inr (map_option fst \<circ> P)) b"
proof -
  let ?ks = "map (drop (length key_pfx_id)) (bk_keys_prefix E key_pfx_id b)"
  have set: "set ?ks = dom P"
  proof -
    have "n \<in> set ?ks \<longleftrightarrow> view b (key_pfx_id @ n) \<noteq> None" for n
      by (force simp: keys_prefix_law has_prefix_iff)
    then show ?thesis using prof_repD(1) [OF assms] by (auto simp: dom_def)
  qed
  have "find (\<lambda>n. (map_option fst \<circ> P) n = None) ?ks = None"
    using set by (auto simp: find_None_iff)
  then have "lookup_all (map_option fst \<circ> P) ?ks = Inr (map_option fst \<circ> P)"
    using set by (auto simp: lookup_all_def restrict_map_def fun_eq_iff)
  moreover have "wp (go_fold (retrieve_info_body E) ?ks Map.empty) (\<lambda>r b'. b' = b \<and>
     r = map_sum id (\<lambda>m. Map.empty ++ m) (lookup_all (map_option fst \<circ> P) ?ks)) b"
    by (rule lookup_fold)
      (use prof_repD [OF assms] in \<open>auto simp: retrieve_info_body_def wp_get_profile_key split: option.split\<close>)
  ultimately have "wp (go_fold (retrieve_info_body E) ?ks Map.empty)
     (\<lambda>r b'. b' = b \<and> r = Inr (map_option fst \<circ> P)) b" by simp
  then have "go_fold (retrieve_info_body E) ?ks Map.empty b = (Inr (map_option fst \<circ> P), b)"
    by (auto simp: wp_ex)
  then show ?thesis by (simp add: retrieve_profile_infos_def wp_def go_bind_def)
qed

end

section \<open>Inventory as a map\<close>

text \<open>
  What the JSON codec does with an inventory map: text that is not empty, which decodes to the map
  with \<open>norm\<close> applied to its values (an instant comes back as its text); strings come back equal.
\<close>

locale inv_codec =
  fixes J :: inv_json and norm :: "inv_value \<Rightarrow> inv_value"
  assumes codec_law:
      "finite (dom v) \<Longrightarrow> \<exists>j. ij_marshal J v = Inr j \<and> j \<noteq> [] \<and> ij_unmarshal J j = Inr (map_option norm \<circ> v)"
    and norm_string: "norm (InvString s) = InvString s"

lemma map_of_graph_list:
  fixes v :: "string \<rightharpoonup> 'a"
  assumes "finite (dom v)"
  shows "\<exists>xs. v = map_of xs"
proof -
  obtain ks where "set ks = dom v" using finite_list [OF assms] by blast
  then have "v = map_of (map (\<lambda>k. (k, the (v k))) ks)"
    by (auto simp: fun_eq_iff map_of_map_restrict restrict_map_def dom_def)
  then show ?thesis by blast
qed

instance inv_value :: countable by countable_datatype

definition any_json :: inv_json where
  "any_json =
     \<lparr>ij_marshal = (\<lambda>v. Inr (CHR ''j'' # digits (to_nat_on (range map_of) v))),
      ij_unmarshal = (\<lambda>j. Inr (from_nat_into (range map_of) (digits_value (tl j))))\<rparr>"

interpretation any_codec: inv_codec any_json id
proof
  fix v :: inv_values
  assume "finite (dom v)"
  then have "v \<in> range map_of" using map_of_graph_list [of v] by blast
  moreover have "countable (range (map_of :: (string \<times> inv_value) list \<Rightarrow> _))" by simp
  ultimately show "\<exists>j. ij_marshal any_json v = Inr j \<and> j \<noteq> [] \<and>
      ij_unmarshal any_json j = Inr (map_option id \<circ> v)"
    by (simp add: any_json_def option.map_id0)
qed simp

locale kv_inventory = kv_laws E view + inv_codec J norm
  for E :: "'b kv_env" and view :: "'b \<Rightarrow> string \<rightharpoonup> bytes" and J norm
begin

definition inv_rep :: "'b \<Rightarrow> (string \<rightharpoonup> inv_values) \<Rightarrow> bool" where
  "inv_rep b I \<longleftrightarrow>
     (\<forall>i. (case view b i of
            None \<Rightarrow> I i = None
          | Some j \<Rightarrow> j \<noteq> [] \<and> (\<exists>v. I i = Some v \<and> finite (dom v) \<and> ij_unmarshal J j = Inr v)))"

definition merge_values :: "inv_values option \<Rightarrow> inv_values \<Rightarrow> inv_values" where
  "merge_values old new = (case old of None \<Rightarrow> new | Some v \<Rightarrow> v ++ new)"

lemma inv_rep_None: "inv_rep b I \<Longrightarrow> view b i = None \<longleftrightarrow> I i = None"
  unfolding inv_rep_def by (drule spec [of _ i]) (auto split: option.splits)

lemma inv_rep_Some:
  "inv_rep b I \<Longrightarrow> view b i = Some j \<Longrightarrow> j \<noteq> [] \<and> (\<exists>v. I i = Some v \<and> finite (dom v) \<and> ij_unmarshal J j = Inr v)"
  unfolding inv_rep_def by (drule spec [of _ i]) auto

lemma inv_rep_set:
  assumes "inv_rep b I" "finite (dom v)" "ij_marshal J v = Inr j"
  shows "inv_rep (snd (bk_set E i j b)) (I(i \<mapsto> map_option norm \<circ> v))"
proof -
  have "j \<noteq> []" "ij_unmarshal J j = Inr (map_option norm \<circ> v)" using codec_law [OF assms(2)] assms(3) by auto
  moreover have "finite (dom (map_option norm \<circ> v))" using assms(2) by (simp add: dom_map_option_comp)
  ultimately have new: "j \<noteq> []" "ij_unmarshal J j = Inr (map_option norm \<circ> v)" "finite (dom (map_option norm \<circ> v))"
    by blast+
  show ?thesis
    unfolding inv_rep_def
  proof
    fix k
    show "case view (snd (bk_set E i j b)) k of
        None \<Rightarrow> (I(i \<mapsto> map_option norm \<circ> v)) k = None
      | Some j \<Rightarrow> j \<noteq> [] \<and> (\<exists>v'. (I(i \<mapsto> map_option norm \<circ> v)) k = Some v' \<and> finite (dom v') \<and> ij_unmarshal J j = Inr v')"
      using new assms(1) [unfolded inv_rep_def, rule_format, of k] by (cases "k = i") (auto split: option.splits)
  qed
qed

lemma store_inventory_refines:
  assumes rep: "inv_rep b I" and i: "i \<noteq> []" and new: "new \<noteq> Map.empty" "finite (dom new)"
  shows "wp (store_inventory_values E J i new) (\<lambda>r b'. r = Inr () \<and>
     inv_rep b' (I(i \<mapsto> map_option norm \<circ> merge_values (I i) new))) b"
proof (cases "view b i")
  case None
  then have I: "I i = None" using inv_rep_None [OF rep] by simp
  obtain j where j: "ij_marshal J new = Inr j" using codec_law [OF new(2)] by auto
  show ?thesis
    using inv_rep_set [OF rep new(2) j, of i] None I i new(1) j
    by (simp add: store_inventory_values_def merge_values_def del: fun_upd_apply)
next
  case (Some j0)
  then obtain v where v: "j0 \<noteq> []" "I i = Some v" "finite (dom v)" "ij_unmarshal J j0 = Inr v"
    using inv_rep_Some [OF rep] by blast
  then have fin: "finite (dom (v ++ new))" using new(2) by simp
  obtain j where j: "ij_marshal J (v ++ new) = Inr j" using codec_law [OF fin] by auto
  show ?thesis
    using inv_rep_set [OF rep fin j, of i] Some v i new(1) j
    by (simp add: store_inventory_values_def merge_values_def Suc_le_eq del: fun_upd_apply)
qed

lemma retrieve_inventory_body_run:
  assumes "inv_rep b I"
  shows "wp (retrieve_inventory_body E J i acc)
     (\<lambda>r b'. b' = b \<and> r = Inr (case I i of None \<Rightarrow> acc | Some v \<Rightarrow> acc(i \<mapsto> v))) b"
  using inv_rep_None [OF assms, of i] inv_rep_Some [OF assms, of i]
  by (cases "view b i") (auto simp: retrieve_inventory_body_def)

lemma retrieve_inventory_refines:
  assumes "inv_rep b I" "ids \<noteq> []"
  shows "wp (retrieve_inventory E J (Some ids)) (\<lambda>r b'. b' = b \<and> r = Inr (I |` set ids)) b"
proof -
  have "wp (go_fold (retrieve_inventory_body E J) ids acc) (\<lambda>r b'. b' = b \<and> r = Inr (acc ++ I |` set ids)) b" for acc
  proof (induction ids arbitrary: acc)
    case (Cons i ids)
    have eq: "(case I i of None \<Rightarrow> acc | Some v \<Rightarrow> acc(i \<mapsto> v)) ++ I |` set ids = acc ++ I |` set (i # ids)"
      by (auto simp: map_add_def restrict_map_def fun_eq_iff split: option.split)
    show ?case
      using retrieve_inventory_body_run [OF assms(1), of i acc]
        Cons.IH [of "case I i of None \<Rightarrow> acc | Some v \<Rightarrow> acc(i \<mapsto> v)"] unfolding eq
      by (auto elim!: wp_mono)
  qed simp
  from this [of Map.empty] assms(2) show ?thesis by (simp add: retrieve_inventory_def Suc_le_eq)
qed

end

section \<open>The PRK store's contract\<close>

text \<open>What \<open>PRKStorage\<close> promises: a stored PRK is the one retrieved, and others are kept.\<close>

locale prk_contract =
  fixes P :: "'w prk_storage" and ok :: "'w \<Rightarrow> bool" and prks :: "'w \<Rightarrow> string \<rightharpoonup> string"
  assumes store_law:
      "ok w \<Longrightarrow> i \<noteq> [] \<Longrightarrow> \<exists>w'. pk_store P i prk w = (Inr (), w') \<and> ok w' \<and> prks w' = (prks w)(i \<mapsto> prk)"
    and retrieve_law:
      "ok w \<Longrightarrow> \<exists>r. pk_retrieve P i w = (r, w) \<and>
                   (case prks w i of None \<Rightarrow> \<exists>e. r = Inl e | Some prk \<Rightarrow> r = Inr prk)"
begin

lemma stored_is_retrieved:
  assumes "ok w" "i \<noteq> []"
  shows "\<exists>w'. pk_store P i prk w = (Inr (), w') \<and> pk_retrieve P i w' = (Inr prk, w')"
proof -
  obtain w' where w': "pk_store P i prk w = (Inr (), w')" "ok w'" "prks w' = (prks w)(i \<mapsto> prk)"
    using store_law [OF assms] by blast
  with retrieve_law [OF w'(2), of i] show ?thesis by auto
qed

end

text \<open>PRKs in a key-value inventory, with a clock that only reads.\<close>

locale kv_prk = kv_inventory E view J norm
  for E :: "'b kv_env" and view :: "'b \<Rightarrow> string \<rightharpoonup> bytes" and J norm +
  fixes get :: "'w \<Rightarrow> 'b" and put :: "'b \<Rightarrow> 'w \<Rightarrow> 'w" and clock :: "('w, time) action"
  assumes get_put [simp]: "get (put s w) = s"
    and put_get [simp]: "put (get w) w = w"
    and clock_law: "\<exists>t. clock w = (Inr t, w)"
begin

abbreviation "prk_store \<equiv> inv_prk (kv_inventory_storage E J get put) clock"

definition prks :: "'w \<Rightarrow> string \<rightharpoonup> string" where
  "prks w i = (case retrieve_inventory E J (Some [i]) (get w) of
     (Inr m, _) \<Rightarrow> (case prk_of_values i m of Inr prk \<Rightarrow> Some prk | Inl _ \<Rightarrow> None) | _ \<Rightarrow> None)"

definition inv_ok :: "'w \<Rightarrow> bool" where
  "inv_ok w \<longleftrightarrow> (\<exists>I. inv_rep (get w) I)"

definition prk_in :: "(string \<rightharpoonup> inv_values) \<Rightarrow> string \<Rightarrow> string option" where
  "prk_in I i = (case prk_of_values i I of Inr prk \<Rightarrow> Some prk | Inl _ \<Rightarrow> None)"

lemma prk_of_restrict: "prk_of_values i (I |` {i}) = prk_of_values i I"
  by (simp add: prk_of_values_def)

lemma retrieve_run:
  assumes "inv_rep (get w) I"
  shows "retrieve_inventory E J (Some [i]) (get w) = (Inr (I |` {i}), get w)"
  using retrieve_inventory_refines [OF assms, of "[i]"] by (auto simp: wp_ex)

lemma prks_rep: "inv_rep (get w) I \<Longrightarrow> prks w = prk_in I"
  by (rule ext) (simp add: prks_def prk_in_def retrieve_run prk_of_restrict)

end

sublocale kv_prk < kvprk: prk_contract prk_store inv_ok prks
proof
  fix w and i prk :: string
  assume "inv_ok w" and i: "i \<noteq> []"
  then obtain I where I: "inv_rep (get w) I" by (auto simp: inv_ok_def)
  obtain t where t: "clock w = (Inr t, w)" using clock_law by blast
  let ?new = "[key_last_source \<mapsto> InvString ''InvPRK'', key_modified \<mapsto> InvTime t, key_prk \<mapsto> InvString prk]"
  let ?v = "map_option norm \<circ> merge_values (I i) ?new"
  have "wp (store_inventory_values E J i ?new) (\<lambda>r b'. r = Inr () \<and> inv_rep b' (I(i \<mapsto> ?v))) (get w)"
    by (rule store_inventory_refines [OF I i]) (auto simp: fun_eq_iff)
  then obtain b' where b': "store_inventory_values E J i ?new (get w) = (Inr (), b')" "inv_rep b' (I(i \<mapsto> ?v))"
    by (auto simp: wp_ex)
  have "prk_in (I(i \<mapsto> ?v)) = (prk_in I)(i \<mapsto> prk)"
    by (auto simp: fun_eq_iff prk_in_def prk_of_values_def merge_values_def map_add_def norm_string split: option.split)
  with b' I t show "\<exists>w'. pk_store prk_store i prk w = (Inr (), w') \<and> inv_ok w' \<and> prks w' = (prks w)(i \<mapsto> prk)"
    by (auto simp: inv_prk_def inv_store_prk_def kv_inventory_storage_def go_defs inv_ok_def prks_rep
        intro!: exI [of _ "put b' w"])
next
  fix w i
  assume "inv_ok w"
  then obtain I where I: "inv_rep (get w) I" by (auto simp: inv_ok_def)
  show "\<exists>r. pk_retrieve prk_store i w = (r, w) \<and>
      (case prks w i of None \<Rightarrow> \<exists>e. r = Inl e | Some prk \<Rightarrow> r = Inr prk)"
    using I by (auto simp: inv_prk_def inv_retrieve_prk_def kv_inventory_storage_def go_defs retrieve_run
        prk_of_restrict prks_rep prk_in_def split: sum.splits)
qed

text \<open>The in-memory inventory (\<open>subsystem/inventory/storage/inmem\<close>), as a world of its own.\<close>

interpretation mem_prk: kv_prk inmem_env map_of any_json id id "\<lambda>b _. b" "go_ret t" for t
  by unfold_locales (simp_all add: go_ret_def)

end
