(* ===== verification/PartProps.thy ===== *)
theory PartProps
  imports EngineStepProps Foss SubStores
begin

text \<open>
  The properties of the parts around the engine: the client of the MDM server and its webhook
  (\<open>mdm/foss\<close>), and the key-value stores of the subsystems.
\<close>

section \<open>The client of the MDM server\<close>

text \<open>
  C37: Enqueuing a command to more enrollments than one request may hold returns, with the enrollment IDs in
  order and each once in groups of at most the configured number; every group whose URL and request can be made
  is sent, once and in order, but only the first request carries the command: the body of every later one is
  empty. The client is taken to read a body to its end.
\<close>

theorem later_chunks_are_empty:
  assumes "records H reqs" "drains H" "fm_enq_url m = Some base" "fm_max m > 0" "fm_max m = 1 \<longrightarrow> length ids \<le> 1"
    and "ids \<noteq> []"
  shows "\<exists>act cs w'. foss_enqueue H m ids raw = Some act \<and> act w = (Inr (), w') \<and>
           concat cs = ids \<and> list_all (\<lambda>c. c \<noteq> [] \<and> length c \<le> fm_max m) cs \<and>
           (\<exists>rs. reqs w' = reqs w @ rs \<and>
              list_all2 (\<lambda>c r. rq_url r = rq_url (request_for H m (fm_enq_method m) base c []))
                (filter (sendable H (fm_enq_method m) base) cs) rs \<and>
              map rq_body rs = take (length rs) (raw # replicate (length cs - 1) []))"
proof -
  obtain act cs w' where r: "foss_enqueue H m ids raw = Some act" "chunk ids (fm_max m) = Some cs" "act w = (Inr (), w')"
    "reqs w' = reqs w @ (case filter (sendable H (fm_enq_method m) base) cs of [] \<Rightarrow> [] | c # cs' \<Rightarrow>
       request_for H m (fm_enq_method m) base c raw # map (\<lambda>c. request_for H m (fm_enq_method m) base c []) cs')"
    using foss_enqueue_run [OF assms(1-5)] by blast
  have cs: "concat cs = ids" "list_all (\<lambda>c. c \<noteq> [] \<and> length c \<le> fm_max m) cs"
    using chunk_props [OF assms(4), of ids] r(2) by (auto simp: list_all_iff)
  let ?sent = "filter (sendable H (fm_enq_method m) base) cs"
  let ?rs = "case ?sent of [] \<Rightarrow> [] | c # cs' \<Rightarrow>
       request_for H m (fm_enq_method m) base c raw # map (\<lambda>c. request_for H m (fm_enq_method m) base c []) cs'"
  have "list_all2 (\<lambda>c r. rq_url r = rq_url (request_for H m (fm_enq_method m) base c [])) ?sent ?rs"
    by (simp add: request_for_def list_all2_map2 list.rel_refl split: list.split)
  moreover have "map rq_body ?rs = take (length ?rs) (raw # replicate (length cs - 1) [])"
  proof (cases ?sent)
    case (Cons c cs')
    then have "length cs' \<le> length cs - 1" using length_filter_le [of "sendable H (fm_enq_method m) base" cs] by simp
    then show ?thesis using Cons by (simp add: request_for_def comp_def map_replicate_const)
  qed simp
  ultimately show ?thesis using r(1,3,4) cs
    by (intro exI [of _ act] exI [of _ cs] exI [of _ w'] conjI exI [of _ ?rs]) simp_all
qed

definition demo_http :: "(http_request list, string) http_lib" where
  "demo_http =
     \<lparr>ht_parse = Inr, ht_resolve = (\<lambda>a b. a @ b), ht_string = id, ht_new_request = (\<lambda>m u. Inr ()),
      ht_do = (\<lambda>rq w. ((Inr (), []), w @ [rq]))\<rparr>"

lemma demo_records: "records demo_http id" "drains demo_http"
  by (simp_all add: records_def drains_def demo_http_def)

definition demo_foss :: "string foss_mdm" where
  "demo_foss =
     \<lparr>fm_max = 2, fm_user = ''nanomdm'', fm_api_key = ''key'', fm_enq_method = ''PUT'', fm_enq_url = Some ''/v1/enqueue/'',
      fm_push_url = None\<rparr>"

theorem later_chunks_are_empty_witness:
  "\<exists>act w'. foss_enqueue demo_http demo_foss [''A'', ''B'', ''C''] ''cmd'' = Some act \<and> act [] = (Inr (), w') \<and>
     hd (map rq_body w') = ''cmd'' \<and> length w' \<ge> 2 \<and> set (tl (map rq_body w')) = {[]}"
proof -
  obtain act cs w' rs where r: "foss_enqueue demo_http demo_foss [''A'', ''B'', ''C''] ''cmd'' = Some act"
    "act [] = (Inr (), w')" "concat cs = [''A'', ''B'', ''C'']" "list_all (\<lambda>c. c \<noteq> [] \<and> length c \<le> 2) cs"
    "w' = rs" "list_all2 (\<lambda>c r. rq_url r = rq_url (request_for demo_http demo_foss ''PUT'' ''/v1/enqueue/'' c []))
       (filter (sendable demo_http ''PUT'' ''/v1/enqueue/'') cs) rs"
    "map rq_body rs = take (length rs) (''cmd'' # replicate (length cs - 1) [])"
    using later_chunks_are_empty [OF demo_records, of demo_foss "''/v1/enqueue/''" "[''A'', ''B'', ''C'']" "''cmd''" "[]"]
    by (auto simp: demo_foss_def)
  have all: "filter (sendable demo_http ''PUT'' ''/v1/enqueue/'') cs = cs"
    by (simp add: filter_id_conv sendable_def demo_http_def)
  have "length (concat cs) \<le> 2 * length cs" using r(4) by (induction cs) auto
  then have cs: "length cs \<ge> 2" using r(3) by simp
  have len: "length rs = length cs" using list_all2_lengthD [OF r(6)] all by simp
  have "map rq_body w' = ''cmd'' # replicate (length cs - 1) []"
    using r(7) cs by (simp add: r(5) len)
  moreover have "set (replicate (length cs - 1) ([] :: string)) = {[]}" using cs by (simp add: set_replicate_conv_if)
  ultimately show ?thesis using r(1,2,5) cs len by (intro exI [of _ act] exI [of _ w']) simp
qed

text \<open>
  C36: A client made with the options of the package always returns from a push without an error, whatever the
  server and the libraries answer. It cuts the enrollments, all of them in order and each once, into groups of at
  most the configured number and sends one request without a body for each group whose URL can be parsed and whose
  request can be made, in order; the other groups are skipped in silence.
\<close>

theorem push_returns:
  assumes "new_foss_mdm H ref key opts = Inr m" "set opts \<subseteq> {with_micro_mdm, with_push H pref}"
    and "records H reqs" "fm_push_url m = Some base"
  shows "\<exists>act cs w'. foss_push H m ids = Some act \<and> act w = (Inr (), w') \<and> concat cs = ids \<and>
           list_all (\<lambda>c. c \<noteq> [] \<and> length c \<le> fm_max m) cs \<and>
           reqs w' = reqs w @ map (\<lambda>c. request_for H m ''GET'' base c []) (filter (sendable H ''GET'' base) cs)"
proof -
  have "fm_max m > 0" by (rule new_foss_mdm_max [OF assms(1)]) (use assms(2) max_options in blast)
  then show ?thesis
    using foss_push_run [OF assms(3,4), of ids w] chunk_props [of "fm_max m" ids] by (fastforce simp: list_all_iff)
qed

text \<open>
  A parser that refuses a colon in the first segment of a relative reference, as \<open>net/url\<close> does, and a server that
  cannot be reached for the first request.
\<close>

definition colon_http :: "(http_request list, string) http_lib" where
  "colon_http =
     \<lparr>ht_parse = (\<lambda>s. if CHR '':'' \<in> set (takeWhile (\<lambda>c. c \<noteq> CHR 0x2F) s)
         then Inl (Errorf ''first path segment in URL cannot contain colon'' []) else Inr s),
      ht_resolve = (\<lambda>a b. a @ b), ht_string = id, ht_new_request = (\<lambda>m u. Inr ()),
      ht_do = (\<lambda>rq w. ((if w = [] then Inl (Errorf ''connection refused'' []) else Inr (), []), w @ [rq]))\<rparr>"

theorem push_returns_witness:
  "\<exists>m act w'. new_foss_mdm colon_http ''/q'' ''key'' [with_push colon_http ''/push'', with_micro_mdm] = Inr m \<and>
     foss_push colon_http m [''A'', ''1:B'', ''C''] = Some act \<and> act [] = (Inr (), w') \<and>
     map rq_url w' = [''/push/A'', ''/push/C'']"
proof -
  let ?m = "\<lparr>fm_max = 1, fm_user = ''micromdm'', fm_api_key = ''key'', fm_enq_method = ''POST'',
             fm_enq_url = Some ''/q/'', fm_push_url = Some ''/push/''\<rparr>"
  let ?ids = "[''A'', ''1:B'', ''C'']"
  have m: "new_foss_mdm colon_http ''/q'' ''key'' [with_push colon_http ''/push'', with_micro_mdm] = Inr ?m"
    by (simp add: new_foss_mdm_def prep_url_def colon_http_def with_push_def with_micro_mdm_def has_suffix_def)
  have rec: "records colon_http id" by (simp add: records_def colon_http_def)
  obtain act cs w' where r: "foss_push colon_http ?m ?ids = Some act" "act [] = (Inr (), w')" "concat cs = ?ids"
    "list_all (\<lambda>c. c \<noteq> [] \<and> length c \<le> fm_max ?m) cs"
    "id w' = id [] @ map (\<lambda>c. request_for colon_http ?m ''GET'' ''/push/'' c [])
       (filter (sendable colon_http ''GET'' ''/push/'') cs)"
    using push_returns [OF m _ rec, where pref = "''/push''" and base = "''/push/''" and ids = ?ids and w = "[]"]
    by auto
  have one: "list_all (\<lambda>c. c \<noteq> [] \<and> length c \<le> 1) cs \<Longrightarrow> cs = map (\<lambda>i. [i]) (concat cs)" for cs :: "string list list"
  proof (induction cs)
    case (Cons c cs)
    then show ?case by (cases c) auto
  qed simp
  have "cs = [[''A''], [''1:B''], [''C'']]" using one [of cs] r(3,4) by simp
  then have "map rq_url w' = [''/push/A'', ''/push/C'']"
    using r(5) by (simp add: request_for_def sendable_def colon_http_def)
  then show ?thesis using m r(1,2)
    by (intro exI [of _ ?m] exI [of _ act] exI [of _ w'] conjI) simp_all
qed

section \<open>The webhook\<close>

text \<open>
  A TokenUpdate message of the webhook reaches the engine with the tally of the event: for the first
  token update of an enrollment, and only for it, the engine dispatches an Enrollment event beside the
  TokenUpdate event, and the answer is 200 exactly when the engine's handler succeeds.
\<close>

theorem token_update_enrolls:
  assumes "dl_json_event D body = Inr event" "fe_topic event = ''mdm.TokenUpdate''"
    and "fe_checkin_event event = Some ce" "ci_token_update_tally ce = Some k"
    and "dl_plist_checkin D (ci_raw_payload ce) (TokenUpdate new_token_update) = Inr (TokenUpdate tu)"
  shows "webhook_handler D clock (engine_receiver e) body =
           status_of (mdm_checkin_event e (if ci_udid ce = [] then ci_enrollment_id ce else ci_udid ce)
             (TokenUpdateEnrolling (Some tu) (k = 1))
             (if ci_params ce = [] then None else Some (map_of (ci_params ce)))) \<and>
         map ev_flag (checkin_events (TokenUpdateEnrolling (Some tu) (k = 1))) =
           event_token_update # (if k = 1 then [event_enrollment] else [])"
proof -
  have "process_checkin_event D (fe_topic event) (Some ce) (engine_receiver e) =
      mdm_checkin_event e (if ci_udid ce = [] then ci_enrollment_id ce else ci_udid ce)
        (TokenUpdateEnrolling (Some tu) (k = 1)) (if ci_params ce = [] then None else Some (map_of (ci_params ce)))"
    using assms(2,4,5)
    by (simp add: process_checkin_event_def new_checkin_from_message_type_def has_prefix_def wrap_token_update_def token_update_enrolling_valid_def
        id_and_context_def engine_receiver_def)
  then show ?thesis using assms(1-3) by (simp add: webhook_handler_def checkin_events_def)
qed

definition demo_decode :: decode_lib where
  "demo_decode =
     \<lparr>dl_plist_checkin = (\<lambda>raw c. Inr c),
      dl_json_event = (\<lambda>body. Inr
        \<lparr>fe_topic = ''mdm.TokenUpdate'', fe_event_id = ''e'', fe_created_at = 0, fe_acknowledge_event = None,
         fe_checkin_event = Some \<lparr>ci_udid = [], ci_enrollment_id = ''AAA'', ci_params = [], ci_raw_payload = body,
                                 ci_token_update_tally = Some 1\<rparr>\<rparr>)\<rparr>"

theorem token_update_enrolls_witness:
  "webhook_handler demo_decode (go_ret 0) (engine_receiver demo_engine) ''plist'' =
     status_of (mdm_checkin_event demo_engine ''AAA'' (TokenUpdateEnrolling (Some new_token_update) True) None)"
proof -
  let ?ce = "\<lparr>ci_udid = [], ci_enrollment_id = ''AAA'', ci_params = [], ci_raw_payload = ''plist'', ci_token_update_tally = Some 1\<rparr>"
  let ?ev = "\<lparr>fe_topic = ''mdm.TokenUpdate'', fe_event_id = ''e'', fe_created_at = 0, fe_acknowledge_event = None,
              fe_checkin_event = Some ?ce\<rparr>"
  have "dl_json_event demo_decode ''plist'' = Inr ?ev"
    "dl_plist_checkin demo_decode (ci_raw_payload ?ce) (TokenUpdate new_token_update) = Inr (TokenUpdate new_token_update)"
    by (simp_all add: demo_decode_def)
  from token_update_enrolls [OF this(1) _ _ _ this(2), of 1 "go_ret 0" demo_engine, THEN conjunct1]
  have "webhook_handler demo_decode (go_ret 0) (engine_receiver demo_engine) ''plist'' =
     status_of (mdm_checkin_event demo_engine ''AAA'' (TokenUpdateEnrolling (Some new_token_update) True) None)"
    by simp
  then show ?thesis .
qed

section \<open>The profile store\<close>

text \<open>
  A profile stored under a name is what the store returns for that name, its identifier and UUID as well
  as its raw bytes; the other names keep theirs, and after the profile is deleted a query that names it fails
  with the profile-not-found error.
\<close>

theorem profile_stored_is_retrieved:
  assumes "kv_laws E view" "kv_laws.prof_rep view b P"
  shows "\<exists>b'. store_profile E name info raw b = (Inr (), b') \<and>
           kv_laws.prof_rep view b' (P(name \<mapsto> (info, raw))) \<and>
           retrieve_profile_infos E [name] b' = (Inr [name \<mapsto> info], b') \<and>
           retrieve_raw_profiles E [name] b' = (Inr [name \<mapsto> raw], b') \<and>
           (\<exists>b''. delete_profile E name b' = (Inr (), b'') \<and>
              retrieve_raw_profiles E [name] b'' = (Inl (Wrapf ''%w: %s: %v'' [name] ErrProfileNotFound), b''))"
proof -
  let ?P = "P(name \<mapsto> (info, raw))"
  obtain b' where b': "store_profile E name info raw b = (Inr (), b')" "kv_laws.prof_rep view b' ?P"
    using run_of_wp [OF kv_laws.store_profile_refines [OF assms, of name info raw]] by blast
  have one: "f |` {name} = [name \<mapsto> v]" if "f name = Some v" for f :: "string \<rightharpoonup> 'x" and v
    using that by (auto simp: restrict_map_def)
  have "retrieve_profile_infos E [name] b' = (Inr [name \<mapsto> info], b')"
    using kv_laws.retrieve_infos_refines [OF assms(1) b'(2), of "[name]"]
    by (auto simp: wp_ex lookup_all_def one)
  moreover have "retrieve_raw_profiles E [name] b' = (Inr [name \<mapsto> raw], b')"
    using kv_laws.retrieve_raw_refines [OF assms(1) b'(2), of "[name]"]
    by (auto simp: wp_ex lookup_all_def one)
  moreover obtain b'' where b'': "delete_profile E name b' = (Inr (), b'')" "kv_laws.prof_rep view b'' (?P(name := None))"
    using run_of_wp [OF kv_laws.delete_profile_refines [OF assms(1) b'(2), of name]] by auto
  moreover have "retrieve_raw_profiles E [name] b'' = (Inl (Wrapf ''%w: %s: %v'' [name] ErrProfileNotFound), b'')"
    using kv_laws.retrieve_raw_refines [OF assms(1) b''(2), of "[name]"]
    by (auto simp: wp_ex lookup_all_def)
  ultimately show ?thesis using b' by blast
qed

lemma prof_rep_empty: "inmem.prof_rep [] Map.empty"
  by (simp add: inmem.prof_rep_def)

theorem profile_stored_is_retrieved_witness:
  "\<exists>b'. store_profile inmem_env ''wifi'' \<lparr>pi_identifier = ''com.example'', pi_uuid = ''1''\<rparr> ''xml'' [] = (Inr (), b') \<and>
     retrieve_raw_profiles inmem_env [''wifi''] b' = (Inr [''wifi'' \<mapsto> ''xml''], b')"
  using profile_stored_is_retrieved [OF inmem.kv_laws_axioms prof_rep_empty] by blast

section \<open>FileVault recovery keys\<close>

text \<open>
  A recovery key that a device encrypted to the server's certificate and that is escrowed for an enrollment
  is what a query for the enrollment's recovery key returns, whatever recovery key store is behind, as long as
  it keeps its contract.
\<close>

theorem escrowed_is_retrieved:
  assumes "prk_contract P inv_good prks" "inv_good w" "i \<noteq> []"
    and "fc_parse_cms C cms = Inr p7" "go_zoom get put (get_keypair E C) w = (Inr (key, cert), w)"
    and "fc_decrypt C p7 cert key = Inr prk"
  shows "\<exists>w'. fv_escrow (kv_fv_storage E C get put P) i cms w = (Inr (), w') \<and>
              fv_retrieve_prk (kv_fv_storage E C get put P) i w' = (Inr prk, w')"
proof -
  obtain w' where "pk_store P i prk w = (Inr (), w')" "pk_retrieve P i w' = (Inr prk, w')"
    using prk_contract.stored_is_retrieved [OF assms(1-3), of prk] by blast
  then show ?thesis
    using assms(4-6) by (simp add: kv_fv_storage_def escrow_prk_def go_defs)
qed

definition demo_crypto :: "(string, string, string) fv_crypto" where
  "demo_crypto =
     \<lparr>fc_new_keypair = (\<lambda>_. Inr (''K'', ''C'')), fc_marshal_key = id, fc_cert_raw = id, fc_parse_key = Inr,
      fc_parse_cert = Inr, fc_parse_cms = Inr, fc_decrypt = (\<lambda>m c k. Inr (tl m))\<rparr>"

theorem escrowed_is_retrieved_witness:
  "\<exists>w'. fv_escrow (kv_fv_storage inmem_env demo_crypto (\<lambda>_. [(''key'', ''K''), (''cert'', ''C'')]) (\<lambda>_ w. w)
            (inv_prk (kv_inventory_storage inmem_env any_json id (\<lambda>b _. b)) (go_ret 5))) ''AAA'' ''xsecret'' [] = (Inr (), w') \<and>
     inv_retrieve_prk (kv_inventory_storage inmem_env any_json id (\<lambda>b _. b)) ''AAA'' w' = (Inr ''secret'', w')"
proof -
  have keys: "go_zoom (\<lambda>_. [(''key'', ''K''), (''cert'', ''C'')]) (\<lambda>_ w. w) (get_keypair inmem_env demo_crypto) [] =
      (Inr (''K'', ''C''), [])"
    by (simp add: go_zoom_def get_keypair_def b_get_def inmem_env_def kv_key_cert_def kv_key_key_def demo_crypto_def go_defs)
  have "mem_prk.inv_ok []"
    by (auto simp: mem_prk.inv_ok_def mem_prk.inv_rep_def intro: exI [of _ Map.empty])
  from escrowed_is_retrieved [OF mem_prk.kvprk.prk_contract_axioms this, where i = "''AAA''" and C = demo_crypto and cms = "''xsecret''",
      OF _ _ keys]
  show ?thesis by (simp add: demo_crypto_def kv_fv_storage_def inv_prk_def)
qed

end
