(* ===== verification/WfBase.thy ===== *)
theory WfBase
  imports EngineFacts SubStores
begin

text \<open>
  What the bundled workflows (\<open>workflow/*/\<close>) share. The MDM commands and responses are values of the
  package \<open>mdmcommands\<close>: a command by its request type with the fields that the workflows set, first
  its UUID; a response with the fields they read, first its generic part. What the workflows call is
  \<open>wf_env\<close>; \<open>Validate\<close> of a response is from \<open>mdmcommands\<close> too, so it is a field of it.
\<close>

section \<open>Commands and responses\<close>

datatype mdm_command =
    DeviceLockCommand string "string option"
  | DeviceInformationCommand string "string list"
  | SecurityInfoCommand string
  | ProfileListCommand string "bool option"
  | InstallProfileCommand string bytes
  | RemoveProfileCommand string string
  | InstallApplicationCommand string "int option" "string option"
  | DeviceConfiguredCommand string
  | RotateFileVaultKeyCommand string string "string option" "bytes option"
  | CertificateListCommand string "bool option"

record generic_response =
  gr_uuid :: string
  gr_status :: string

record device_info =
  di_udid :: "string option"
  di_serial_number :: "string option"
  di_model :: "string option"
  di_model_name :: "string option"
  di_device_name :: "string option"
  di_os_version :: "string option"
  di_build_version :: "string option"
  di_ethernet_mac :: "string option"
  di_is_supervised :: "bool option"
  di_is_apple_silicon :: "bool option"
  di_has_battery :: "bool option"
  di_supports_lom :: "bool option"
  di_is_multi_user :: "bool option"

record security_info =
  si_sip_enabled :: "bool option"
  si_fde_enabled :: "bool option"
  si_prk_cms :: "bytes option"

record profile_list_item =
  pli_identifier :: string
  pli_uuid :: string

record cert_item =
  cert_common_name :: string
  cert_data :: bytes
  cert_is_identity :: bool

text \<open>
  \<open>RotateFileVaultKeyResponse\<close> holds \<open>RotateResult\<close> and in it the encrypted key, both pointers.
  \<open>OtherResponse\<close> is a value of any other type, with its generic response if it has one.
\<close>

datatype mdm_response =
    DeviceLockResponse generic_response "string option"
  | DeviceInformationResponse generic_response device_info
  | SecurityInfoResponse generic_response security_info
  | ProfileListResponse generic_response "profile_list_item list"
  | InstallProfileResponse generic_response
  | RotateFileVaultKeyResponse generic_response "bytes option option"
  | CertificateListResponse generic_response "cert_item list"
  | OtherResponse "generic_response option"

text \<open>\<open>rand.Intn(10)\<close> is a field, as are the enqueuer, the ID generator and the clock.\<close>

record 'w wf_env =
  we_enqueue :: "string \<Rightarrow> mdm_command wf_step_enqueueing \<Rightarrow> ('w, unit) action"
  we_id :: "('w, string) action"
  we_now :: "('w, time) action"
  we_digit :: "('w, nat) action"
  we_log :: "string \<Rightarrow> ('w, unit) action"
  we_validate :: "mdm_response \<Rightarrow> unit result"

definition step_timeout_not_used :: "mdm_response wf_step_result \<Rightarrow> ('w, unit) action" where
  "step_timeout_not_used sr = go_fail ErrTimeoutNotUsed"

definition events_not_supported ::
  "mdm_response event \<Rightarrow> string \<Rightarrow> params option \<Rightarrow> ('w, unit) action" where
  "events_not_supported ev i mctx = go_fail ErrEventsNotSupported"

section \<open>Traces\<close>

text \<open>
  An environment that records what a workflow does, in order, with the outcome of each call: the
  outcomes, the IDs, the clock and the digits are any functions of what happened before.
\<close>

datatype wf_io =
    IoEnqueue string "mdm_command wf_step_enqueueing" bool
  | IoInventory string inv_values bool
  | IoEscrow string bytes bool
  | IoRead

record wf_oracle =
  or_fail :: "wf_io list \<Rightarrow> error option"
  or_id :: "wf_io list \<Rightarrow> string"
  or_now :: "wf_io list \<Rightarrow> time"
  or_digit :: "wf_io list \<Rightarrow> nat"
  or_validate :: "mdm_response \<Rightarrow> unit result"
  or_cert :: "string \<Rightarrow> bytes result"
  or_prk :: "string \<Rightarrow> string result"
  or_raw :: "string list \<Rightarrow> (string \<rightharpoonup> bytes) result"
  or_infos :: "string list \<Rightarrow> (string \<rightharpoonup> profile_info) result"

definition tr_call :: "wf_oracle \<Rightarrow> (bool \<Rightarrow> wf_io) \<Rightarrow> (wf_io list, unit) action" where
  "tr_call R io = (\<lambda>h. case or_fail R h of
     None \<Rightarrow> (Inr (), h @ [io True]) | Some e \<Rightarrow> (Inl e, h @ [io False]))"

definition tr_read :: "(wf_io list \<Rightarrow> 'a) \<Rightarrow> (wf_io list, 'a) action" where
  "tr_read f = (\<lambda>h. (Inr (f h), h @ [IoRead]))"

definition tr_env :: "wf_oracle \<Rightarrow> wf_io list wf_env" where
  "tr_env R =
     \<lparr>we_enqueue = (\<lambda>n se. tr_call R (IoEnqueue n se)), we_id = tr_read (or_id R),
      we_now = tr_read (or_now R), we_digit = tr_read (or_digit R), we_log = (\<lambda>_. go_ret ()),
      we_validate = or_validate R\<rparr>"

definition tr_inventory :: "wf_oracle \<Rightarrow> wf_io list inventory_storage" where
  "tr_inventory R =
     \<lparr>is_retrieve = (\<lambda>_. go_ret Map.empty), is_store = (\<lambda>i v. tr_call R (IoInventory i v)),
      is_delete = (\<lambda>i. go_ret ())\<rparr>"

definition tr_fv :: "wf_oracle \<Rightarrow> wf_io list fv_storage" where
  "tr_fv R =
     \<lparr>fv_retrieve_cert = (\<lambda>i. go_lift (or_cert R i)), fv_retrieve_prk = (\<lambda>i. go_lift (or_prk R i)),
      fv_escrow = (\<lambda>i cms. tr_call R (IoEscrow i cms))\<rparr>"

text \<open>What the profile store answers for a list of names; \<open>WfProfile\<close> says which answers a store gives (\<open>answers_from\<close>).\<close>

definition tr_profiles :: "wf_oracle \<Rightarrow> wf_io list profile_storage" where
  "tr_profiles R =
     \<lparr>ps_retrieve_infos = (\<lambda>ns. go_lift (or_infos R ns)), ps_retrieve_raw = (\<lambda>ns. go_lift (or_raw R ns))\<rparr>"

lemma wp_tr_call [simp]:
  "wp (tr_call R io) Q h =
     (case or_fail R h of None \<Rightarrow> Q (Inr ()) (h @ [io True]) | Some e \<Rightarrow> Q (Inl e) (h @ [io False]))"
  by (simp add: wp_def tr_call_def split: option.split)

lemma wp_tr_read [simp]: "wp (tr_read f) Q h = Q (Inr (f h)) (h @ [IoRead])"
  by (simp add: wp_def tr_read_def)

lemma tr_env_sel [simp]:
  "we_enqueue (tr_env R) n se = tr_call R (IoEnqueue n se)" "we_id (tr_env R) = tr_read (or_id R)"
  "we_now (tr_env R) = tr_read (or_now R)" "we_digit (tr_env R) = tr_read (or_digit R)"
  "we_log (tr_env R) m = go_ret ()" "we_validate (tr_env R) = or_validate R"
  "is_store (tr_inventory R) i v = tr_call R (IoInventory i v)"
  "fv_retrieve_cert (tr_fv R) i = go_lift (or_cert R i)" "fv_retrieve_prk (tr_fv R) i = go_lift (or_prk R i)"
  "fv_escrow (tr_fv R) i cms = tr_call R (IoEscrow i cms)"
  "ps_retrieve_infos (tr_profiles R) ns = go_lift (or_infos R ns)"
  "ps_retrieve_raw (tr_profiles R) ns = go_lift (or_raw R ns)"
  by (simp_all add: tr_env_def tr_inventory_def tr_fv_def tr_profiles_def)

text \<open>A call followed by the rest, by a condition \<open>R\<close> between the two.\<close>

lemma wp_seq:
  assumes "wp m R w" "\<And>x w'. R (Inr x) w' \<Longrightarrow> wp (f x) Q w'" "\<And>e w'. R (Inl e) w' \<Longrightarrow> Q (Inl e) w'"
  shows "wp (go_bind m f) Q w"
  using assms by (auto elim!: wp_mono split: sum.split)

lemma wp_wrapI:
  assumes "wp m R w" "\<And>x w'. R (Inr x) w' \<Longrightarrow> Q (Inr x) w'" "\<And>e w'. R (Inl e) w' \<Longrightarrow> Q (Inl (Wrapf fmt as e)) w'"
  shows "wp (go_wrap fmt as m) Q w"
  using assms by (auto elim!: wp_mono split: sum.split)

lemma go_bind_run: "m w = (Inr x, w') \<Longrightarrow> go_bind m f w = f x w'"
  by (simp add: go_bind_def)

text \<open>A loop keeps what its body keeps, whether it fails or not.\<close>

lemma wp_for_inv:
  assumes "I w" "\<And>x v. x \<in> set xs \<Longrightarrow> I v \<Longrightarrow> wp (f x) (\<lambda>_. I) v"
  shows "wp (go_for xs f) (\<lambda>_. I) w"
  using assms
proof (induction xs arbitrary: w)
  case (Cons x xs)
  have "wp (f x) (\<lambda>_. I) w" using Cons.prems by simp
  moreover have "wp (go_for xs f) (\<lambda>_. I) v" if "I v" for v
    using Cons.IH [OF that] Cons.prems(2) by simp
  ultimately show ?case by (auto elim!: wp_mono split: sum.split)
qed simp

text \<open>The steps that a trace asked to enqueue.\<close>

fun enqueued :: "wf_io list \<Rightarrow> mdm_command wf_step_enqueueing list" where
  "enqueued [] = []"
| "enqueued (IoEnqueue n se ok # h) = se # enqueued h"
| "enqueued (_ # h) = enqueued h"

lemma enqueued_append [simp]: "enqueued (h @ h') = enqueued h @ enqueued h'"
  by (induction h rule: enqueued.induct) simp_all

end
