(* ===== verification/WfLock.thy ===== *)
theory WfLock
  imports WfBase
begin

text \<open>
  The device lock workflow (\<open>workflow/lock/workflow.go\<close>): a random PIN for each enrollment, kept in the
  inventory before the command with that PIN is enqueued.
\<close>

definition lock_workflow_name :: string where
  "lock_workflow_name = ''io.micromdm.wf.lock.v1''"

primrec random_digits :: "'w wf_env \<Rightarrow> nat \<Rightarrow> ('w, string) action" where
  "random_digits E 0 = go_ret []"
| "random_digits E (Suc n) =
     go_bind (we_digit E) (\<lambda>d. go_bind (random_digits E n) (\<lambda>ds. go_ret (char_of (d + 48) # ds)))"

definition pin_key :: string where "pin_key = lock_workflow_name @ ''.pin''"
definition sent_key :: string where "sent_key = lock_workflow_name @ ''.sent''"
definition received_key :: string where "received_key = lock_workflow_name @ ''.received''"
definition message_result_key :: string where
  "message_result_key = lock_workflow_name @ ''.message_result''"

lemmas lock_key_defs = pin_key_def sent_key_def received_key_def message_result_key_def lock_workflow_name_def

definition store_lock ::
  "'w wf_env \<Rightarrow> 'w inventory_storage \<Rightarrow> string \<Rightarrow> string \<Rightarrow> ('w, unit) action" where
  "store_lock E sto i pin =
     go_bind (we_now E) (\<lambda>now.
     is_store sto i
       [pin_key \<mapsto> InvString pin, sent_key \<mapsto> InvTime now,
        key_last_source \<mapsto> InvString lock_workflow_name])"

definition update_lock ::
  "'w wf_env \<Rightarrow> 'w inventory_storage \<Rightarrow> string \<Rightarrow> string \<Rightarrow> ('w, unit) action" where
  "update_lock E sto i msg =
     go_bind (we_now E) (\<lambda>now.
     let v = [received_key \<mapsto> InvTime now, key_last_source \<mapsto> InvString lock_workflow_name];
         v = (if msg \<noteq> [] then v(message_result_key \<mapsto> InvString msg) else v)
     in is_store sto i v)"

definition lock_one ::
  "'w wf_env \<Rightarrow> 'w inventory_storage \<Rightarrow> mdm_response wf_step_start \<Rightarrow> string \<Rightarrow> ('w, unit) action" where
  "lock_one E sto step i =
     go_bind (random_digits E 6) (\<lambda>pin.
     go_bind (go_wrap ''store inventory values for %s: %w'' [i] (store_lock E sto i pin)) (\<lambda>_.
     go_bind (we_id E) (\<lambda>uuid.
     go_wrap ''enqueueing step for %s: %w'' [i]
       (we_enqueue E lock_workflow_name
          ((start_new_step_enqueueing step)
             \<lparr>wse_ids := [i], wse_commands := [Some (DeviceLockCommand uuid (Some pin))]\<rparr>)))))"

definition lock_start ::
  "'w wf_env \<Rightarrow> 'w inventory_storage \<Rightarrow> mdm_response wf_step_start \<Rightarrow> ('w, unit) action" where
  "lock_start E sto step = go_for (ss_ids step) (lock_one E sto step)"

definition lock_step_completed ::
  "'w wf_env \<Rightarrow> 'w inventory_storage \<Rightarrow> mdm_response wf_step_result \<Rightarrow> ('w, unit) action" where
  "lock_step_completed E sto sr =
     (if length (sr_command_results sr) \<noteq> 1 then go_fail ErrStepResultCommandLenMismatch
      else
        (case sr_command_results sr ! 0 of
           Some (DeviceLockResponse g message_result) \<Rightarrow>
             go_bind (go_wrap ''validating lock response: %w'' []
                        (go_lift (we_validate E (DeviceLockResponse g message_result)))) (\<lambda>_.
             let msg = (case message_result of None \<Rightarrow> [] | Some m \<Rightarrow> m) in
             go_wrap ''update inventory values for %s: %w'' [sr_id sr] (update_lock E sto (sr_id sr) msg))
         | _ \<Rightarrow> go_fail ErrIncorrectCommandType))"

definition lock_workflow :: "'w wf_env \<Rightarrow> 'w inventory_storage \<Rightarrow> ('w, mdm_response) workflow" where
  "lock_workflow E sto =
     \<lparr>wf_name = lock_workflow_name, wf_config = None, wf_new_context_value = (\<lambda>_. None),
      wf_start = lock_start E sto, wf_step_completed = lock_step_completed E sto,
      wf_step_timeout = step_timeout_not_used, wf_event = events_not_supported\<rparr>"

section \<open>No lock without its PIN in the inventory\<close>

text \<open>The PIN an enrollment's inventory holds after a trace.\<close>

fun pin_after :: "wf_io list \<Rightarrow> string \<Rightarrow> string option" where
  "pin_after [] i = None"
| "pin_after (IoInventory j v ok # h) i =
     (case pin_after h i of
        Some pin \<Rightarrow> Some pin
      | None \<Rightarrow> if ok \<and> j = i then (case v pin_key of Some (InvString pin) \<Rightarrow> Some pin | _ \<Rightarrow> None) else None)"
| "pin_after (_ # h) i = pin_after h i"

text \<open>Whatever a step locks with a PIN, the inventory has that PIN when the step is enqueued.\<close>

definition pins_escrowed :: "wf_io list \<Rightarrow> bool" where
  "pins_escrowed h \<longleftrightarrow>
     (\<forall>pre n se ok post. h = pre @ IoEnqueue n se ok # post \<longrightarrow>
        (\<forall>uuid pin i. Some (DeviceLockCommand uuid (Some pin)) \<in> set (wse_commands se) \<longrightarrow>
           i \<in> set (wse_ids se) \<longrightarrow> pin_after pre i = Some pin))"

lemma pin_after_append:
  "pin_after (h @ h') i = (case pin_after h' i of Some pin \<Rightarrow> Some pin | None \<Rightarrow> pin_after h i)"
  by (induction h i rule: pin_after.induct) (auto split: option.split)

lemma append_snoc_cases:
  "h @ [x] = pre @ y # post \<longleftrightarrow> (post = [] \<and> h = pre \<and> x = y) \<or> (\<exists>post'. post = post' @ [x] \<and> h = pre @ y # post')"
  by (cases post rule: rev_cases) auto

definition enqueues_escrowed :: "wf_io list \<Rightarrow> wf_io \<Rightarrow> bool" where
  "enqueues_escrowed h io \<longleftrightarrow>
     (case io of
        IoEnqueue n se ok \<Rightarrow>
          (\<forall>uuid pin i. Some (DeviceLockCommand uuid (Some pin)) \<in> set (wse_commands se) \<longrightarrow>
             i \<in> set (wse_ids se) \<longrightarrow> pin_after h i = Some pin)
      | _ \<Rightarrow> True)"

fun all_escrowed :: "wf_io list \<Rightarrow> wf_io list \<Rightarrow> bool" where
  "all_escrowed h [] = True"
| "all_escrowed h (io # h') = (enqueues_escrowed h io \<and> all_escrowed (h @ [io]) h')"

lemma pins_escrowed_snoc: "pins_escrowed (h @ [io]) \<longleftrightarrow> pins_escrowed h \<and> enqueues_escrowed h io"
  unfolding pins_escrowed_def append_snoc_cases enqueues_escrowed_def by (cases io) auto

lemma pins_escrowed_append: "pins_escrowed (h @ h') \<longleftrightarrow> pins_escrowed h \<and> all_escrowed h h'"
proof (induction h' arbitrary: h)
  case (Cons io h')
  from Cons.IH [of "h @ [io]"] show ?case by (simp add: pins_escrowed_snoc)
qed simp

lemma wp_random_digits:
  "pins_escrowed h \<Longrightarrow> wp (random_digits (tr_env R) n) (\<lambda>r h'. (\<exists>pin. r = Inr pin) \<and> pins_escrowed h') h"
proof (induction n arbitrary: h)
  case (Suc n)
  then have "pins_escrowed (h @ [IoRead])" by (simp add: pins_escrowed_snoc enqueues_escrowed_def)
  from Suc.IH [OF this] show ?case by (auto elim!: wp_mono)
qed simp

lemma store_lock_run:
  "wp (store_lock (tr_env R) (tr_inventory R) i pin) (\<lambda>r h'. \<exists>v ok. h' = h @ [IoRead, IoInventory i v ok] \<and>
     v pin_key = Some (InvString pin) \<and> (ok \<longleftrightarrow> r = Inr ())) h"
  by (auto simp: store_lock_def lock_key_defs key_last_source_def split: option.split)

lemma lock_one_escrows:
  assumes "pins_escrowed h"
  shows "wp (lock_one (tr_env R) (tr_inventory R) step i) (\<lambda>_. pins_escrowed) h"
proof -
  have after: "wp (store_lock (tr_env R) (tr_inventory R) i pin) (\<lambda>r h2. pins_escrowed h2 \<and>
      (r = Inr () \<longrightarrow> pin_after h2 i = Some pin)) h1" if "pins_escrowed h1" for h1 pin
    using store_lock_run [of R i pin h1] that
    by (auto simp: pins_escrowed_append enqueues_escrowed_def pin_after_append elim!: wp_mono)
  have enq: "pins_escrowed (h2 @ [IoRead, IoEnqueue lock_workflow_name ((start_new_step_enqueueing step)
      \<lparr>wse_ids := [i], wse_commands := [Some (DeviceLockCommand u (Some pin))]\<rparr>) ok])"
    if "pins_escrowed h2" "pin_after h2 i = Some pin" for h2 pin u ok
    using that by (simp add: pins_escrowed_append enqueues_escrowed_def pin_after_append)
  show ?thesis
    unfolding lock_one_def
  proof (rule wp_seq [OF wp_random_digits [OF assms]])
    fix pin :: string and h1
    assume "(\<exists>p. Inr pin = Inr p) \<and> pins_escrowed h1"
    then show "wp (go_bind (go_wrap ''store inventory values for %s: %w'' [i] (store_lock (tr_env R) (tr_inventory R) i pin))
        (\<lambda>_. go_bind (we_id (tr_env R)) (\<lambda>uuid. go_wrap ''enqueueing step for %s: %w'' [i]
          (we_enqueue (tr_env R) lock_workflow_name ((start_new_step_enqueueing step)
             \<lparr>wse_ids := [i], wse_commands := [Some (DeviceLockCommand uuid (Some pin))]\<rparr>)))))
        (\<lambda>_. pins_escrowed) h1"
      by (intro wp_seq [OF wp_wrapI [OF after, where Q = "\<lambda>r h. pins_escrowed h \<and> (r = Inr () \<longrightarrow> pin_after h i = Some pin)"]])
        (auto simp: enq split: option.split)
  qed simp
qed

lemma lock_start_escrows:
  "pins_escrowed h \<Longrightarrow> wp (lock_start (tr_env R) (tr_inventory R) step) (\<lambda>_. pins_escrowed) h"
  unfolding lock_start_def by (rule wp_for_inv [where I = pins_escrowed]) (auto intro: lock_one_escrows)

text \<open>One step of one command for each enrollment, in order, when nothing fails.\<close>

lemma random_digits_run:
  "\<exists>h' pin. random_digits (tr_env R) n h = (Inr pin, h') \<and> length pin = n \<and> enqueued h' = enqueued h"
proof (induction n arbitrary: h)
  case (Suc n)
  from Suc.IH [of "h @ [IoRead]"] show ?case by (auto simp: go_defs tr_read_def)
qed (simp add: go_defs)

lemma lock_start_steps:
  assumes "\<And>h. or_fail R h = None"
  shows "\<exists>h' new. lock_start (tr_env R) (tr_inventory R) step h = (Inr (), h') \<and>
     enqueued h' = enqueued h @ new \<and> map wse_ids new = map (\<lambda>i. [i]) (ss_ids step) \<and>
     (\<forall>se\<in>set new. wsc_instance_id se = wsc_instance_id step \<and>
        (\<exists>uuid pin. wse_commands se = [Some (DeviceLockCommand uuid (Some pin))] \<and> length pin = 6))"
  unfolding lock_start_def
proof (induction "ss_ids step" arbitrary: step h)
  case Nil
  then show ?case by (simp add: go_defs)
next
  case (Cons i ids)
  obtain h1 pin where h1: "random_digits (tr_env R) 6 h = (Inr pin, h1)" "length pin = 6" "enqueued h1 = enqueued h"
    using random_digits_run [of R 6 h] by blast
  let ?v = "[pin_key \<mapsto> InvString pin, sent_key \<mapsto> InvTime (or_now R h1), key_last_source \<mapsto> InvString lock_workflow_name]"
  let ?h2 = "h1 @ [IoRead, IoInventory i ?v True]"
  let ?se = "(start_new_step_enqueueing step)\<lparr>wse_ids := [i],
      wse_commands := [Some (DeviceLockCommand (or_id R ?h2) (Some pin))]\<rparr>"
  let ?h3 = "?h2 @ [IoRead, IoEnqueue lock_workflow_name ?se True]"
  have one: "lock_one (tr_env R) (tr_inventory R) step i h = (Inr (), ?h3)"
    by (simp add: lock_one_def store_lock_def go_defs tr_read_def tr_call_def assms h1(1) del: fun_upd_apply)
  have step': "lock_one (tr_env R) (tr_inventory R) step = lock_one (tr_env R) (tr_inventory R) (step\<lparr>ss_ids := ids\<rparr>)"
    by (rule ext) (simp add: lock_one_def start_new_step_enqueueing_def new_for_enqueue_def step_enqueueing_of_def
        wf_step_context.defs wf_step_enqueueing.defs)
  from Cons.hyps(1) [of "step\<lparr>ss_ids := ids\<rparr>" ?h3] obtain h' new where
    "go_for ids (lock_one (tr_env R) (tr_inventory R) step) ?h3 = (Inr (), h')"
    "enqueued h' = enqueued ?h3 @ new" "map wse_ids new = map (\<lambda>i. [i]) ids"
    "\<forall>se\<in>set new. wsc_instance_id se = wsc_instance_id step \<and>
        (\<exists>uuid pin. wse_commands se = [Some (DeviceLockCommand uuid (Some pin))] \<and> length pin = 6)"
    by (auto simp: step' [symmetric])
  then show ?case
    using one h1 by (intro exI [of _ h'] exI [of _ "?se # new"])
      (auto simp: Cons.hyps(2) [symmetric] go_defs start_new_step_enqueueing_def)
qed

end
