(* ===== verification/WfFileVault.thy ===== *)
theory WfFileVault
  imports WfBase
begin

text \<open>
  The FileVault workflows: \<open>workflow/fvenable\<close> installs a profile and polls the device until its
  personal recovery key (PRK) can be escrowed, \<open>workflow/fvrotate\<close> rotates the key. Of the standard
  library they use \<open>base64.StdEncoding\<close> and \<open>bytes.Replace\<close> of one occurrence.
\<close>

section \<open>Base64 and replacement\<close>

definition b64_alphabet :: string where
  "b64_alphabet = ''ABCDEFGHIJKLMNOPQRSTUVWXYZabcdefghijklmnopqrstuvwxyz0123456789+/''"

definition b64_char :: "nat \<Rightarrow> char" where
  "b64_char n = b64_alphabet ! (n mod 64)"

fun base64 :: "bytes \<Rightarrow> bytes" where
  "base64 [] = []"
| "base64 [a] = (let x = of_char a * 16 :: nat in [b64_char (x div 64), b64_char x, CHR ''='', CHR ''=''])"
| "base64 [a, b] = (let x = (of_char a * 256 + of_char b) * 4 :: nat in
     [b64_char (x div 4096), b64_char (x div 64), b64_char x, CHR ''=''])"
| "base64 (a # b # c # r) = (let x = (of_char a * 256 + of_char b) * 256 + of_char c :: nat in
     [b64_char (x div 262144), b64_char (x div 4096), b64_char (x div 64), b64_char x] @ base64 r)"

fun replace_first :: "bytes \<Rightarrow> bytes \<Rightarrow> bytes \<Rightarrow> bytes" where
  "replace_first [] old new = (if old = [] then new else [])"
| "replace_first (c # s) old new =
     (if has_prefix (c # s) old then new @ drop (length old) (c # s) else c # replace_first s old new)"

section \<open>Enabling FileVault\<close>

definition fvenable_name :: string where "fvenable_name = ''io.micromdm.wf.fvenable.v1''"
definition step_name_install :: string where "step_name_install = ''install''"
definition step_name_poll :: string where "step_name_poll = ''poll''"
definition poll_interval :: int where "poll_interval = 2 * 60 * 1000000000"
definition poll_counter :: int where "poll_counter = 180"
definition certificate_mark :: bytes where "certificate_mark = ''__CERTIFICATE__''"

text \<open>The hard-coded profile: the lines before and after the mark, each with its tabs.\<close>

definition tabs :: "nat \<Rightarrow> string \<Rightarrow> string" where
  "tabs n s = replicate n (CHR 0x09) @ s"

definition profile_lines_before :: "string list" where
  \<open>profile_lines_before =
     [tabs 0 ''<?xml version="1.0" encoding="UTF-8"?>'',
      tabs 0 ''<!DOCTYPE plist PUBLIC "-//Apple//DTD PLIST 1.0//EN" "http://www.apple.com/DTDs/PropertyList-1.0.dtd">'',
      tabs 0 ''<plist version="1.0">'',
      tabs 0 ''<dict>'',
      tabs 1 ''<key>PayloadContent</key>'',
      tabs 1 ''<array>'',
      tabs 2 ''<dict>'',
      tabs 3 ''<key>EncryptCertPayloadUUID</key>'',
      tabs 3 ''<string>00FD73C8-9AE6-4A1E-BBD0-22315CDE7533</string>'',
      tabs 3 ''<key>Location</key>'',
      tabs 3 ''<string>MDM server</string>'',
      tabs 3 ''<key>PayloadIdentifier</key>'',
      tabs 3 ''<string>io.micromdm.wf.fvenable.v1.payload.escrow</string>'',
      tabs 3 ''<key>PayloadType</key>'',
      tabs 3 ''<string>com.apple.security.FDERecoveryKeyEscrow</string>'',
      tabs 3 ''<key>PayloadUUID</key>'',
      tabs 3 ''<string>5943E786-24DD-4DE7-A27C-3F84B55A7A4B</string>'',
      tabs 3 ''<key>PayloadVersion</key>'',
      tabs 3 ''<integer>1</integer>'',
      tabs 2 ''</dict>'',
      tabs 2 ''<dict>'',
      tabs 3 ''<key>Defer</key>'',
      tabs 3 ''<true/>'',
      tabs 3 ''<key>DeferForceAtUserLoginMaxBypassAttempts</key>'',
      tabs 3 ''<integer>0</integer>'',
      tabs 3 ''<key>Enable</key>'',
      tabs 3 ''<string>On</string>'',
      tabs 3 ''<key>PayloadIdentifier</key>'',
      tabs 3 ''<string>io.micromdm.wf.fvenable.v1.payload.filevault</string>'',
      tabs 3 ''<key>PayloadType</key>'',
      tabs 3 ''<string>com.apple.MCX.FileVault2</string>'',
      tabs 3 ''<key>PayloadUUID</key>'',
      tabs 3 ''<string>ED92D4D5-FF80-430B-AACC-67C32B685E59</string>'',
      tabs 3 ''<key>PayloadVersion</key>'',
      tabs 3 ''<integer>1</integer>'',
      tabs 3 ''<key>ShowRecoveryKey</key>'',
      tabs 3 ''<false/>'',
      tabs 2 ''</dict>'',
      tabs 2 ''<dict>'',
      tabs 3 ''<key>PayloadContent</key>'',
      tabs 3 ''<data>'']\<close>

definition profile_lines_after :: "string list" where
  \<open>profile_lines_after =
     [tabs 0 ''</data>'',
      tabs 3 ''<key>PayloadIdentifier</key>'',
      tabs 3 ''<string>io.micromdm.wf.fvenable.v1.payload.pkcs1</string>'',
      tabs 3 ''<key>PayloadType</key>'',
      tabs 3 ''<string>com.apple.security.pkcs1</string>'',
      tabs 3 ''<key>PayloadUUID</key>'',
      tabs 3 ''<string>00FD73C8-9AE6-4A1E-BBD0-22315CDE7533</string>'',
      tabs 3 ''<key>PayloadVersion</key>'',
      tabs 3 ''<integer>1</integer>'',
      tabs 2 ''</dict>'',
      tabs 1 ''</array>'',
      tabs 1 ''<key>PayloadDisplayName</key>'',
      tabs 1 ''<string>FileVault</string>'',
      tabs 1 ''<key>PayloadIdentifier</key>'',
      tabs 1 ''<string>io.micromdm.wf.fvenable.v1.profile</string>'',
      tabs 1 ''<key>PayloadType</key>'',
      tabs 1 ''<string>Configuration</string>'',
      tabs 1 ''<key>PayloadUUID</key>'',
      tabs 1 ''<string>49DDB449-163E-4408-B05D-FA4814CDEE3E</string>'',
      tabs 1 ''<key>PayloadVersion</key>'',
      tabs 1 ''<integer>1</integer>'',
      tabs 0 ''</dict>'',
      tabs 0 ''</plist>'',
      tabs 0 '''']\<close>

definition profile_template_text :: bytes where
  "profile_template_text =
     join (CHR 0x0A) profile_lines_before @ certificate_mark @ join (CHR 0x0A) profile_lines_after"

definition fv_profile_template :: "'w profile_storage \<Rightarrow> ('w, bytes) action" where
  "fv_profile_template ps =
     go_bind (go_wrap ''retrieving profile %s: %w'' [fvenable_name] (ps_retrieve_raw ps [fvenable_name])) (\<lambda>profiles.
     let profile = (case profiles fvenable_name of None \<Rightarrow> [] | Some p \<Rightarrow> p) in
     go_ret (if length profile < 1 then profile_template_text else profile))"

definition create_install_profile_command ::
  "'w wf_env \<Rightarrow> 'w fv_storage \<Rightarrow> string \<Rightarrow> bytes \<Rightarrow> ('w, mdm_command) action" where
  "create_install_profile_command E fv i template =
     go_bind (go_wrap ''retrieving PRK cert raw: %w'' [] (fv_retrieve_cert fv i)) (\<lambda>cert_raw.
     let profile = replace_first template certificate_mark (base64 cert_raw) in
     go_bind (we_id E) (\<lambda>uuid. go_ret (InstallProfileCommand uuid profile)))"

definition fvenable_one ::
  "'w wf_env \<Rightarrow> 'w fv_storage \<Rightarrow> bytes \<Rightarrow> mdm_response wf_step_start \<Rightarrow> string \<Rightarrow> ('w, unit) action" where
  "fvenable_one E fv template step i =
     go_bind (go_wrap ''creating install profile command for %s: %w'' [i]
                (create_install_profile_command E fv i template)) (\<lambda>cmd.
     go_wrap ''enqueueing step for %s: %w'' [i]
       (we_enqueue E fvenable_name
          ((start_new_step_enqueueing step)
             \<lparr>wsc_name := step_name_install, wse_ids := [i], wse_commands := [Some cmd]\<rparr>)))"

definition fvenable_start ::
  "'w wf_env \<Rightarrow> 'w fv_storage \<Rightarrow> 'w profile_storage \<Rightarrow> mdm_response wf_step_start \<Rightarrow> ('w, unit) action" where
  "fvenable_start E fv ps step =
     go_bind (go_wrap ''getting profile: %w'' [] (fv_profile_template ps)) (\<lambda>template.
     go_for (ss_ids step) (fvenable_one E fv template step))"

definition enqueue_poll ::
  "'w wf_env \<Rightarrow> mdm_response wf_step_result \<Rightarrow> int \<Rightarrow> ('w, unit) action" where
  "enqueue_poll E sr counter =
     go_bind (we_id E) (\<lambda>uuid.
     go_bind (we_now E) (\<lambda>now.
     we_enqueue E fvenable_name
       ((result_new_step_enqueueing sr)
          \<lparr>wsc_name := step_name_poll, wsc_context := Some (IntContext counter),
           wse_commands := [Some (SecurityInfoCommand uuid)], wse_not_until := now + poll_interval\<rparr>)))"

definition install_step_completed ::
  "'w wf_env \<Rightarrow> mdm_response wf_step_result \<Rightarrow> ('w, unit) action" where
  "install_step_completed E sr =
     (if length (sr_command_results sr) \<noteq> 1 then go_fail ErrStepResultCommandLenMismatch
      else
        (case sr_command_results sr ! 0 of
           Some (InstallProfileResponse g) \<Rightarrow>
             go_bind (go_wrap ''validating install response: %w'' []
                        (go_lift (we_validate E (InstallProfileResponse g)))) (\<lambda>_.
             enqueue_poll E sr poll_counter)
         | _ \<Rightarrow> go_fail ErrIncorrectCommandType))"

definition bool_ptr :: "bool option \<Rightarrow> bool" where
  "bool_ptr b = (case b of None \<Rightarrow> False | Some b \<Rightarrow> b)"

text \<open>The chain of conditions of a poll: whether the PRK has been escrowed.\<close>

definition poll_escrow ::
  "'w wf_env \<Rightarrow> 'w fv_storage \<Rightarrow> string \<Rightarrow> generic_response \<Rightarrow> security_info \<Rightarrow> ('w, bool) action" where
  "poll_escrow E fv i g si =
     (case we_validate E (SecurityInfoResponse g si) of
        Inl _ \<Rightarrow> go_ret False
      | Inr _ \<Rightarrow>
          if \<not> bool_ptr (si_fde_enabled si) then go_ret False
          else
            (case si_prk_cms si of
               None \<Rightarrow> go_ret False
             | Some cms \<Rightarrow>
                 go_bind (go_try (fv_escrow fv i cms)) (\<lambda>r.
                 go_ret (case r of Inl _ \<Rightarrow> False | Inr _ \<Rightarrow> True))))"

definition poll_step_completed ::
  "'w wf_env \<Rightarrow> 'w fv_storage \<Rightarrow> mdm_response wf_step_result \<Rightarrow> ('w, unit) action" where
  "poll_step_completed E fv sr =
     (if length (sr_command_results sr) \<noteq> 1 then go_fail ErrStepResultCommandLenMismatch
      else
        (case sr_command_results sr ! 0 of
           Some (SecurityInfoResponse g si) \<Rightarrow>
             (case wsc_context sr of
                Some (IntContext counter) \<Rightarrow>
                  if counter < 0
                  then go_fail (Errorf ''maximum poll counter reached, ending workflow'' [])
                  else
                    go_bind (poll_escrow E fv (sr_id sr) g si) (\<lambda>escrowed.
                    if escrowed then go_ret () else enqueue_poll E sr (counter - 1))
              | _ \<Rightarrow> go_fail (Errorf ''invalid context value type'' []))
         | _ \<Rightarrow> go_fail ErrIncorrectCommandType))"

definition fvenable_step_completed ::
  "'w wf_env \<Rightarrow> 'w fv_storage \<Rightarrow> mdm_response wf_step_result \<Rightarrow> ('w, unit) action" where
  "fvenable_step_completed E fv sr =
     (if wsc_name sr = step_name_install then install_step_completed E sr
      else if wsc_name sr = step_name_poll then poll_step_completed E fv sr
      else go_fail (Wrapf ''%w: %s'' [wsc_name sr] ErrUnknownStepName))"

definition fvenable_new_context_value :: "string \<Rightarrow> ctx_value option" where
  "fvenable_new_context_value name = (if name = step_name_poll then Some (IntContext 0) else None)"

definition fvenable_workflow ::
  "'w wf_env \<Rightarrow> 'w fv_storage \<Rightarrow> 'w profile_storage \<Rightarrow> ('w, mdm_response) workflow" where
  "fvenable_workflow E fv ps =
     \<lparr>wf_name = fvenable_name, wf_config = None, wf_new_context_value = fvenable_new_context_value,
      wf_start = fvenable_start E fv ps, wf_step_completed = fvenable_step_completed E fv,
      wf_step_timeout = step_timeout_not_used, wf_event = events_not_supported\<rparr>"

section \<open>Rotating the key\<close>

definition fvrotate_name :: string where "fvrotate_name = ''io.micromdm.wf.fvrotate.v1''"

definition fvrotate_one ::
  "'w wf_env \<Rightarrow> 'w fv_storage \<Rightarrow> mdm_response wf_step_start \<Rightarrow> string \<Rightarrow> ('w, unit) action" where
  "fvrotate_one E fv step i =
     go_bind (go_wrap ''retrieving PRK cert raw for %s: %w'' [i] (fv_retrieve_cert fv i)) (\<lambda>cert_raw.
     go_bind (go_wrap ''retrieving PRK for %s: %w'' [i] (fv_retrieve_prk fv i)) (\<lambda>prk.
     go_bind (we_id E) (\<lambda>uuid.
     go_wrap ''enqueueing step for %s: %w'' [i]
       (we_enqueue E fvrotate_name
          ((start_new_step_enqueueing step)
             \<lparr>wse_ids := [i],
              wse_commands := [Some (RotateFileVaultKeyCommand uuid ''personal'' (Some prk) (Some cert_raw))]\<rparr>)))))"

definition fvrotate_start ::
  "'w wf_env \<Rightarrow> 'w fv_storage \<Rightarrow> mdm_response wf_step_start \<Rightarrow> ('w, unit) action" where
  "fvrotate_start E fv step = go_for (ss_ids step) (fvrotate_one E fv step)"

definition fvrotate_step_completed ::
  "'w wf_env \<Rightarrow> 'w fv_storage \<Rightarrow> mdm_response wf_step_result \<Rightarrow> ('w, unit) action" where
  "fvrotate_step_completed E fv sr =
     (if length (sr_command_results sr) \<noteq> 1 then go_fail ErrStepResultCommandLenMismatch
      else
        (case sr_command_results sr ! 0 of
           Some (RotateFileVaultKeyResponse g rotate_result) \<Rightarrow>
             go_bind (go_wrap ''validating rotate response: %w'' []
                        (go_lift (we_validate E (RotateFileVaultKeyResponse g rotate_result)))) (\<lambda>_.
             case rotate_result of
               Some (Some key) \<Rightarrow>
                 go_wrap ''escrow PRK for %s: %w'' [sr_id sr] (fv_escrow fv (sr_id sr) key)
             | _ \<Rightarrow> go_fail (Errorf ''rotate result has missing (nil) fields'' []))
         | _ \<Rightarrow> go_fail ErrIncorrectCommandType))"

definition fvrotate_workflow :: "'w wf_env \<Rightarrow> 'w fv_storage \<Rightarrow> ('w, mdm_response) workflow" where
  "fvrotate_workflow E fv =
     \<lparr>wf_name = fvrotate_name, wf_config = None, wf_new_context_value = (\<lambda>_. None),
      wf_start = fvrotate_start E fv, wf_step_completed = fvrotate_step_completed E fv,
      wf_step_timeout = step_timeout_not_used, wf_event = events_not_supported\<rparr>"

section \<open>Polling\<close>

text \<open>
  The device answers the commands of the last step that was enqueued: the completed step has its name
  and its context, the rest is the workflow instance's.
\<close>

primrec fv_answers ::
  "wf_oracle \<Rightarrow> mdm_response wf_step_result \<Rightarrow> mdm_response list \<Rightarrow> (wf_io list, unit) action" where
  "fv_answers R sr [] = go_ret ()"
| "fv_answers R sr (r # rs) =
     go_bind (\<lambda>h. fvenable_step_completed (tr_env R) (tr_fv R)
       (sr\<lparr>wsc_name := wsc_name (last (enqueued h)), wsc_context := wsc_context (last (enqueued h)),
           sr_command_results := [Some r]\<rparr>) h)
       (\<lambda>_. fv_answers R sr rs)"

definition no_key_yet :: "mdm_response \<Rightarrow> bool" where
  "no_key_yet r \<longleftrightarrow>
     (case r of SecurityInfoResponse g si \<Rightarrow> \<not> bool_ptr (si_fde_enabled si) \<or> si_prk_cms si = None | _ \<Rightarrow> False)"

definition escrows :: "wf_io list \<Rightarrow> (string \<times> bytes) list" where
  "escrows h = List.map_filter (\<lambda>io. case io of IoEscrow i cms True \<Rightarrow> Some (i, cms) | _ \<Rightarrow> None) h"

lemma escrows_append [simp]: "escrows (h @ h') = escrows h @ escrows h'"
  by (simp add: escrows_def map_filter_def)

lemma escrows_simps [simp]:
  "escrows [] = []" "escrows (IoRead # h) = escrows h" "escrows (IoEnqueue n se ok # h) = escrows h"
  "escrows (IoEscrow i cms ok # h) = (if ok then (i, cms) # escrows h else escrows h)"
  by (simp_all add: escrows_def map_filter_def)

lemma step_names_differ [simp]: "step_name_poll \<noteq> step_name_install"
  by (simp add: step_name_poll_def step_name_install_def)

lemma enqueue_poll_run:
  assumes "\<And>h. or_fail R h = None"
  shows "\<exists>h'. enqueue_poll (tr_env R) sr c h = (Inr (), h') \<and> escrows h' = escrows h \<and>
     (\<exists>se. enqueued h' = enqueued h @ [se] \<and> wsc_name se = step_name_poll \<and> wsc_context se = Some (IntContext c) \<and>
           wse_ids se = [sr_id sr] \<and> wse_not_until se = or_now R (h @ [IoRead]) + poll_interval)"
  by (auto simp: enqueue_poll_def go_defs tr_read_def tr_call_def assms result_new_step_enqueueing_def)

lemma poll_escrow_none:
  "no_key_yet (SecurityInfoResponse g si) \<Longrightarrow> poll_escrow (tr_env R) (tr_fv R) i g si h = (Inr False, h)"
  by (auto simp: poll_escrow_def no_key_yet_def go_defs split: sum.split option.split)

text \<open>While no key comes back, each answer is followed by one more poll, with a counter one less.\<close>

lemma polls_run:
  assumes ok: "\<And>h. or_fail R h = None"
    and last: "enqueued h \<noteq> []" "wsc_name (last (enqueued h)) = step_name_poll"
      "wsc_context (last (enqueued h)) = Some (IntContext c)"
    and rs: "\<forall>r\<in>set rs. no_key_yet r" and c: "int (length rs) \<le> c + 1"
  shows "\<exists>h' ses. fv_answers R sr rs h = (Inr (), h') \<and> escrows h' = escrows h \<and>
     enqueued h' = enqueued h @ ses \<and> map wsc_name ses = replicate (length rs) step_name_poll \<and>
     map wsc_context ses = map (\<lambda>k. Some (IntContext (c - 1 - int k))) [0..<length rs]"
  using last rs c
proof (induction rs arbitrary: h c)
  case Nil
  then show ?case by (simp add: go_defs)
next
  case (Cons r rs)
  obtain g si where r: "r = SecurityInfoResponse g si" "no_key_yet r"
    using Cons.prems(4) by (cases r) (auto simp: no_key_yet_def)
  let ?sr = "sr\<lparr>wsc_name := step_name_poll, wsc_context := Some (IntContext c), sr_command_results := [Some r]\<rparr>"
  have c: "\<not> c < 0" using Cons.prems(5) by simp
  obtain h1 se where h1: "enqueue_poll (tr_env R) ?sr (c - 1) h = (Inr (), h1)" "escrows h1 = escrows h"
    "enqueued h1 = enqueued h @ [se]" "wsc_name se = step_name_poll" "wsc_context se = Some (IntContext (c - 1))"
    using enqueue_poll_run [of R ?sr "c - 1" h, OF ok] by blast
  have one: "fvenable_step_completed (tr_env R) (tr_fv R) ?sr h = (Inr (), h1)"
    using h1(1) r c poll_escrow_none [of g si R "sr_id sr" h]
    by (simp add: fvenable_step_completed_def poll_step_completed_def go_bind_def)
  from Cons.IH [of h1 "c - 1"] Cons.prems h1 obtain h' ses where rest:
    "fv_answers R sr rs h1 = (Inr (), h')" "escrows h' = escrows h1" "enqueued h' = enqueued h1 @ ses"
    "map wsc_name ses = replicate (length rs) step_name_poll"
    "map wsc_context ses = map (\<lambda>k. Some (IntContext (c - 2 - int k))) [0..<length rs]"
    by (auto simp: algebra_simps)
  have upt: "[0..<length (r # rs)] = 0 # map Suc [0..<length rs]"
    by (simp add: upt_conv_Cons map_Suc_upt del: upt_Suc)
  show ?case
    using one rest h1 Cons.prems(2,3) unfolding upt
    by (intro exI [of _ h'] exI [of _ "se # ses"]) (simp add: go_bind_def)
qed

lemma poll_exhausted:
  assumes "wsc_name (last (enqueued h)) = step_name_poll" "wsc_context (last (enqueued h)) = Some (IntContext (-1))"
  shows "fv_answers R sr [SecurityInfoResponse g si] h =
    (Inl (Errorf ''maximum poll counter reached, ending workflow'' []), h)"
  using assms by (simp add: fvenable_step_completed_def poll_step_completed_def go_defs)

end
