(* ===== verification/WfProfile.thy ===== *)
theory WfProfile
  imports WfBase
begin

text \<open>
  The profile workflow (\<open>workflow/profile/workflow.go\<close>): it lists the managed profiles of a device,
  compares them with the profiles named in its context, and enqueues the installs and removes that
  are missing. A map that the code ranges over is an association list; the code's order is arbitrary.
\<close>

definition profile_workflow_name :: string where
  "profile_workflow_name = ''io.micromdm.wf.profile.v1''"

definition profile_new_context_value :: "string \<Rightarrow> ctx_value option" where
  "profile_new_context_value name =
     (if name = [] \<or> name = ''list'' then Some (CommaStringSliceContext []) else None)"

text \<open>The management styles are integers from 1; a name that the map lacks has the zero value.\<close>

datatype manage_style = ManageNone | ManageInstallReq | ManageRemoveReq | ManageToInstall | ManageToRemove

type_synonym manage_map = "(string \<times> manage_style) list"

definition split_entry :: "string \<Rightarrow> string \<times> manage_style" where
  "split_entry name =
     (if has_prefix name ''-'' then (drop 1 name, ManageRemoveReq) else (name, ManageToInstall))"

definition split_install_remove :: "string list \<Rightarrow> string list \<times> manage_map" where
  "split_install_remove s =
     foldl (\<lambda>(all, ret) name. case split_entry name of (n, st) \<Rightarrow> (all @ [n], AList.update n st ret)) ([], []) s"

definition profile_start ::
  "'w wf_env \<Rightarrow> 'w profile_storage \<Rightarrow> mdm_response wf_step_start \<Rightarrow> ('w, unit) action" where
  "profile_start E ps step =
     (case wsc_context step of
        Some (CommaStringSliceContext manage_list) \<Rightarrow>
          if length manage_list < 1
          then go_fail (Errorf ''no managed profiles supplied in context'' [])
          else
            go_bind (go_wrap ''retrieving profile info: %w'' []
                       (ps_retrieve_infos ps (fst (split_install_remove manage_list)))) (\<lambda>_.
            go_bind (we_id E) (\<lambda>uuid.
            we_enqueue E profile_workflow_name
              ((start_new_step_enqueueing step)
                 \<lparr>wsc_name := ''list'', wsc_context := Some (CommaStringSliceContext manage_list),
                  wse_commands := [Some (ProfileListCommand uuid (Some True))]\<rparr>)))
      | _ \<Rightarrow> go_fail ErrIncorrectContextType)"

text \<open>The inner loop over the device's profile list, for one name.\<close>

primrec decide_style :: "manage_style \<Rightarrow> profile_info \<Rightarrow> profile_list_item list \<Rightarrow> manage_style" where
  "decide_style st info [] = st"
| "decide_style st info (item # items) =
     (if pli_identifier item = pi_identifier info
      then
        if st = ManageRemoveReq then ManageToRemove
        else if st = ManageToInstall \<and> pli_uuid item = pi_uuid info then ManageInstallReq
        else decide_style st info items
      else decide_style st info items)"

definition style_of :: "manage_map \<Rightarrow> string \<Rightarrow> manage_style" where
  "style_of m name = (case map_of m name of None \<Rightarrow> ManageNone | Some st \<Rightarrow> st)"

text \<open>
  The loop over the profile infos, whose names are those that were asked for; an info of any other
  name has no style and leaves the map alone.
\<close>

definition decide_all ::
  "string list \<Rightarrow> (string \<rightharpoonup> profile_info) \<Rightarrow> profile_list_item list \<Rightarrow> manage_map \<Rightarrow> manage_map" where
  "decide_all names infos items m =
     foldl (\<lambda>m name. case infos name of
              None \<Rightarrow> m
            | Some info \<Rightarrow>
                (let st = style_of m name; st' = decide_style st info items in
                 if st' = st then m else AList.update name st' m)) m names"

definition to_install :: "manage_map \<Rightarrow> string list" where
  "to_install m = map fst (filter (\<lambda>(n, st). st = ManageToInstall) m)"

definition profile_command ::
  "'w wf_env \<Rightarrow> (string \<rightharpoonup> bytes) \<Rightarrow> (string \<rightharpoonup> profile_info) \<Rightarrow> string \<times> manage_style
    \<Rightarrow> mdm_command option list \<Rightarrow> ('w, mdm_command option list) action" where
  "profile_command E raws infos p cmds =
     (case p of (name, st) \<Rightarrow>
        (case st of
           ManageToInstall \<Rightarrow>
             go_bind (we_id E) (\<lambda>uuid.
             go_ret (cmds @ [Some (InstallProfileCommand uuid (case raws name of None \<Rightarrow> [] | Some r \<Rightarrow> r))]))
         | ManageToRemove \<Rightarrow>
             go_bind (we_id E) (\<lambda>uuid.
             go_ret (cmds @ [Some (RemoveProfileCommand uuid
                       (case infos name of None \<Rightarrow> [] | Some info \<Rightarrow> pi_identifier info))]))
         | _ \<Rightarrow> go_ret cmds))"

definition list_step_completed ::
  "'w wf_env \<Rightarrow> 'w profile_storage \<Rightarrow> mdm_response wf_step_result \<Rightarrow> ('w, unit) action" where
  "list_step_completed E ps sr =
     (if length (sr_command_results sr) \<noteq> 1 then go_fail ErrStepResultCommandLenMismatch
      else
        (case sr_command_results sr ! 0 of
           Some (ProfileListResponse g items) \<Rightarrow>
             go_bind (go_wrap ''validating profile list: %w'' []
                        (go_lift (we_validate E (ProfileListResponse g items)))) (\<lambda>_.
             case wsc_context sr of
               Some (CommaStringSliceContext manage_list) \<Rightarrow>
                 (case split_install_remove manage_list of
                    (all, m0) \<Rightarrow>
                      go_bind (go_wrap ''retrieving profile info: %w'' [] (ps_retrieve_infos ps all)) (\<lambda>infos.
                      let m = decide_all (remdups all) infos items m0 in
                      go_bind (if length (to_install m) > 0
                               then go_wrap ''retrieving raw profiles: %w'' [] (ps_retrieve_raw ps (to_install m))
                               else go_ret Map.empty) (\<lambda>raws.
                      go_bind (go_fold (profile_command E raws infos) m []) (\<lambda>cmds.
                      if length cmds > 0
                      then we_enqueue E profile_workflow_name
                             ((result_new_step_enqueueing sr)\<lparr>wsc_name := ''install'', wse_commands := cmds\<rparr>)
                      else go_ret ()))))
             | _ \<Rightarrow> go_fail ErrIncorrectContextType)
         | _ \<Rightarrow> go_fail (Wrapf ''%w: not a profile list'' [] ErrIncorrectCommandType)))"

text \<open>The install step only counts and logs the statuses.\<close>

definition profile_step_completed ::
  "'w wf_env \<Rightarrow> 'w profile_storage \<Rightarrow> mdm_response wf_step_result \<Rightarrow> ('w, unit) action" where
  "profile_step_completed E ps sr =
     (if wsc_name sr = ''list'' then list_step_completed E ps sr
      else if wsc_name sr = ''install'' then go_ret ()
      else go_fail (Wrapf ''%w: %s'' [wsc_name sr] ErrUnknownStepName))"

definition profile_workflow :: "'w wf_env \<Rightarrow> 'w profile_storage \<Rightarrow> ('w, mdm_response) workflow" where
  "profile_workflow E ps =
     \<lparr>wf_name = profile_workflow_name, wf_config = None, wf_new_context_value = profile_new_context_value,
      wf_start = profile_start E ps, wf_step_completed = profile_step_completed E ps,
      wf_step_timeout = step_timeout_not_used, wf_event = events_not_supported\<rparr>"

section \<open>What is asked for and what is on the device\<close>

text \<open>The last entry for a name decides: whether it is to be installed or removed.\<close>

definition wanted :: "string list \<Rightarrow> string \<Rightarrow> manage_style" where
  "wanted s name = style_of (rev (map split_entry s)) name"

definition on_device :: "profile_list_item list \<Rightarrow> string \<Rightarrow> bool" where
  "on_device items i \<longleftrightarrow> (\<exists>item\<in>set items. pli_identifier item = i)"

definition current_on_device :: "profile_list_item list \<Rightarrow> profile_info \<Rightarrow> bool" where
  "current_on_device items info \<longleftrightarrow>
     (\<exists>item\<in>set items. pli_identifier item = pi_identifier info \<and> pli_uuid item = pi_uuid info)"

lemma decide_style_eq:
  "decide_style st info items =
     (if st = ManageRemoveReq \<and> on_device items (pi_identifier info) then ManageToRemove
      else if st = ManageToInstall \<and> current_on_device items info then ManageInstallReq
      else st)"
  by (induction items) (auto simp: on_device_def current_on_device_def)

lemma split_fold:
  "foldl (\<lambda>(all, ret) name. case split_entry name of (n, st) \<Rightarrow> (all @ [n], AList.update n st ret)) (a, r) s =
     (a @ map (fst \<circ> split_entry) s, foldl (\<lambda>m (n, st). AList.update n st m) r (map split_entry s))"
  by (induction s arbitrary: a r) (auto split: prod.split)

lemma fst_split: "fst (split_install_remove s) = map (fst \<circ> split_entry) s"
  by (simp add: split_install_remove_def split_fold)

lemma map_of_updates:
  "map_of (foldl (\<lambda>m (n, st). AList.update n st m) r xs) = map_of r ++ map_of (rev xs)"
  by (induction xs arbitrary: r) (auto simp: update_conv' map_add_upd_left split: prod.split)

lemma distinct_updates:
  "distinct (map fst r) \<Longrightarrow> distinct (map fst (foldl (\<lambda>m (n, st). AList.update n st m) r xs))"
  by (induction xs arbitrary: r) (auto simp: distinct_update split: prod.split)

lemma snd_split:
  "style_of (snd (split_install_remove s)) = wanted s"
  "distinct (map fst (snd (split_install_remove s)))"
  "dom (map_of (snd (split_install_remove s))) = set (fst (split_install_remove s))"
proof -
  have m: "snd (split_install_remove s) = foldl (\<lambda>m (n, st). AList.update n st m) [] (map split_entry s)"
    by (simp add: split_install_remove_def split_fold)
  show "style_of (snd (split_install_remove s)) = wanted s"
    by (rule ext) (simp add: style_of_def wanted_def m map_of_updates)
  show "distinct (map fst (snd (split_install_remove s)))" unfolding m by (rule distinct_updates) simp
  show "dom (map_of (snd (split_install_remove s))) = set (fst (split_install_remove s))"
    by (simp add: m map_of_updates fst_split dom_map_of_conv_image_fst image_image comp_def)
qed

text \<open>The style of each name after the comparison.\<close>

definition decided ::
  "(string \<rightharpoonup> profile_info) \<Rightarrow> profile_list_item list \<Rightarrow> manage_style \<Rightarrow> string \<Rightarrow> manage_style" where
  "decided infos items st name =
     (case infos name of None \<Rightarrow> st | Some info \<Rightarrow> decide_style st info items)"

lemma style_of_update: "style_of (AList.update n st m) = (style_of m)(n := st)"
  by (simp add: style_of_def update_conv' fun_eq_iff)

lemma decide_all_step:
  fixes m infos items name
  defines "m' \<equiv> (case infos name of
              None \<Rightarrow> m
            | Some info \<Rightarrow>
                (let st = style_of m name; st' = decide_style st info items in
                 if st' = st then m else AList.update name st' m))"
  assumes m: "name \<in> dom (map_of m)" "distinct (map fst m)"
  shows "style_of m' = (style_of m)(name := decided infos items (style_of m name) name)"
    "dom (map_of m') = dom (map_of m)" "distinct (map fst m')"
  using m by (auto simp: m'_def decided_def Let_def style_of_update distinct_update update_conv' fun_upd_idem
      split: option.split)

lemma decide_all_styles:
  assumes "distinct names" "set names \<subseteq> dom (map_of m)" "distinct (map fst m)"
  shows "style_of (decide_all names infos items m) name =
      (if name \<in> set names then decided infos items (style_of m name) name else style_of m name)"
    "dom (map_of (decide_all names infos items m)) = dom (map_of m)"
    "distinct (map fst (decide_all names infos items m))"
proof -
  have "(style_of (decide_all names infos items m) name =
      (if name \<in> set names then decided infos items (style_of m name) name else style_of m name)) \<and>
    dom (map_of (decide_all names infos items m)) = dom (map_of m) \<and>
    distinct (map fst (decide_all names infos items m))"
    using assms
  proof (induction names arbitrary: m)
    case Nil
    then show ?case by (simp add: decide_all_def)
  next
    case (Cons x names)
    let ?m = "case infos x of None \<Rightarrow> m
            | Some info \<Rightarrow>
                (let st = style_of m x; st' = decide_style st info items in
                 if st' = st then m else AList.update x st' m)"
    have step: "style_of ?m = (style_of m)(x := decided infos items (style_of m x) x)"
      "dom (map_of ?m) = dom (map_of m)" "distinct (map fst ?m)"
      using Cons.prems by (intro decide_all_step; simp)+
    have "decide_all (x # names) infos items m = decide_all names infos items ?m"
      by (simp add: decide_all_def)
    with Cons.IH [of ?m] Cons.prems step show ?case by auto
  qed
  then show "style_of (decide_all names infos items m) name =
      (if name \<in> set names then decided infos items (style_of m name) name else style_of m name)"
    "dom (map_of (decide_all names infos items m)) = dom (map_of m)"
    "distinct (map fst (decide_all names infos items m))" by blast+
qed

section \<open>The plan\<close>

definition installs :: "string list \<Rightarrow> (string \<rightharpoonup> profile_info) \<Rightarrow> profile_list_item list \<Rightarrow> string set" where
  "installs s infos items =
     {n. wanted s n = ManageToInstall \<and> (\<forall>info. infos n = Some info \<longrightarrow> \<not> current_on_device items info)}"

definition removes :: "string list \<Rightarrow> (string \<rightharpoonup> profile_info) \<Rightarrow> profile_list_item list \<Rightarrow> string set" where
  "removes s infos items =
     {n. wanted s n = ManageRemoveReq \<and> (\<exists>info. infos n = Some info \<and> on_device items (pi_identifier info))}"

definition profile_plan :: "string list \<Rightarrow> (string \<rightharpoonup> profile_info) \<Rightarrow> profile_list_item list \<Rightarrow> manage_map" where
  "profile_plan s infos items =
     (case split_install_remove s of (all, m0) \<Rightarrow> decide_all (remdups all) infos items m0)"

lemma wanted_cases: "wanted s n = ManageNone \<or> wanted s n = ManageRemoveReq \<or> wanted s n = ManageToInstall"
  by (auto simp: wanted_def style_of_def split_entry_def split: option.split dest!: map_of_SomeD)

lemma wanted_dom: "wanted s n \<noteq> ManageNone \<longleftrightarrow> n \<in> set (fst (split_install_remove s))"
proof -
  have "style_of (snd (split_install_remove s)) n \<noteq> ManageNone \<longleftrightarrow> n \<in> dom (map_of (snd (split_install_remove s)))"
  proof -
    have "snd (split_entry x) \<noteq> ManageNone" for x by (simp add: split_entry_def)
    then have "(k, ManageNone) \<noteq> split_entry x" for k x by (metis snd_conv)
    moreover have "map_of (snd (split_install_remove s)) n = map_of (rev (map split_entry s)) n"
      by (simp add: split_install_remove_def split_fold map_of_updates)
    ultimately show ?thesis by (auto simp: style_of_def dom_def split: option.splits dest!: map_of_SomeD)
  qed
  then show ?thesis by (simp add: snd_split)
qed

lemma profile_plan_styles:
  "distinct (map fst (profile_plan s infos items))"
  "(n, ManageToInstall) \<in> set (profile_plan s infos items) \<longleftrightarrow> n \<in> installs s infos items"
  "(n, ManageToRemove) \<in> set (profile_plan s infos items) \<longleftrightarrow> n \<in> removes s infos items"
proof -
  obtain all m0 where sp: "split_install_remove s = (all, m0)" by fastforce
  have m0: "style_of m0 = wanted s" "distinct (map fst m0)" "dom (map_of m0) = set all"
    using snd_split [of s] by (simp_all add: sp)
  have plan: "profile_plan s infos items = decide_all (remdups all) infos items m0"
    by (simp add: profile_plan_def sp)
  note run = decide_all_styles [of "remdups all" m0 infos items, OF _ _ m0(2)]
  show dist: "distinct (map fst (profile_plan s infos items))" unfolding plan using run m0(3) by simp
  have style: "style_of (profile_plan s infos items) n =
     (if n \<in> set all then decided infos items (wanted s n) n else wanted s n)"
    unfolding plan using run(1) m0 by simp
  have mem: "(n, st) \<in> set (profile_plan s infos items) \<longleftrightarrow> style_of (profile_plan s infos items) n = st"
    if "st \<noteq> ManageNone" for st
    using that map_of_eq_Some_iff [OF dist, of n st] by (auto simp: style_of_def split: option.splits)
  have out: "n \<notin> set all \<Longrightarrow> wanted s n = ManageNone" using wanted_dom [of s n] by (simp add: sp)
  show "(n, ManageToInstall) \<in> set (profile_plan s infos items) \<longleftrightarrow> n \<in> installs s infos items"
    using mem [of ManageToInstall] style out wanted_cases [of s n]
    by (auto simp: installs_def decided_def decide_style_eq split: option.splits)
  show "(n, ManageToRemove) \<in> set (profile_plan s infos items) \<longleftrightarrow> n \<in> removes s infos items"
    using mem [of ManageToRemove] style out wanted_cases [of s n]
    by (auto simp: removes_def decided_def decide_style_eq split: option.splits)
qed

text \<open>The commands of the plan, one for each name to install or to remove.\<close>

definition command_for ::
  "(string \<rightharpoonup> bytes) \<Rightarrow> (string \<rightharpoonup> profile_info) \<Rightarrow> string \<Rightarrow> string \<times> manage_style \<Rightarrow> mdm_command option" where
  "command_for raws infos uuid p =
     (case snd p of
        ManageToInstall \<Rightarrow> Some (InstallProfileCommand uuid (case raws (fst p) of None \<Rightarrow> [] | Some r \<Rightarrow> r))
      | ManageToRemove \<Rightarrow> Some (RemoveProfileCommand uuid
            (case infos (fst p) of None \<Rightarrow> [] | Some info \<Rightarrow> pi_identifier info))
      | _ \<Rightarrow> None)"

definition acts :: "string \<times> manage_style \<Rightarrow> bool" where
  "acts p \<longleftrightarrow> snd p = ManageToInstall \<or> snd p = ManageToRemove"

lemma profile_commands_run:
  "\<exists>h' us. go_fold (profile_command (tr_env R) raws infos) m cmds h =
       (Inr (cmds @ map2 (command_for raws infos) us (filter acts m)), h') \<and>
     length us = length (filter acts m) \<and> enqueued h' = enqueued h"
proof (induction m arbitrary: cmds h)
  case Nil
  then show ?case by (simp add: go_defs)
next
  case (Cons p m)
  obtain name st where p: "p = (name, st)" by fastforce
  show ?case
  proof (cases "acts p")
    case True
    let ?c = "command_for raws infos (or_id R h) p"
    from Cons.IH [of "cmds @ [?c]" "h @ [IoRead]"] obtain h' us where
      "go_fold (profile_command (tr_env R) raws infos) m (cmds @ [?c]) (h @ [IoRead]) =
        (Inr (cmds @ ?c # map2 (command_for raws infos) us (filter acts m)), h')"
      "length us = length (filter acts m)" "enqueued h' = enqueued h" by auto
    moreover have "profile_command (tr_env R) raws infos p cmds h = (Inr (cmds @ [?c]), h @ [IoRead])"
      using True p by (cases st) (auto simp: acts_def profile_command_def command_for_def go_defs tr_read_def)
    ultimately show ?thesis using True
      by (intro exI [of _ h'] exI [of _ "or_id R h # us"]) (simp add: go_bind_def)
  next
    case False
    then have "profile_command (tr_env R) raws infos p cmds h = (Inr cmds, h)"
      using p by (cases st) (auto simp: acts_def profile_command_def go_defs)
    with Cons.IH [of cmds h] False show ?thesis by (simp add: go_bind_def)
  qed
qed

text \<open>
  What a store that holds the profiles \<open>P\<close> answers (\<open>subsystem/profile/storage/storage.go\<close>; the refinements of
  \<open>SubStores\<close> prove it of the key-value backends): asked for no names, \<open>RetrieveRawProfiles\<close> returns the
  error \<open>ErrNoNames\<close> and \<open>RetrieveProfileInfos\<close> every profile; asked for names that are all stored, both return
  those and no others; a name that is not stored is the error \<open>ErrProfileNotFound\<close>.
\<close>

definition answers_from :: "wf_oracle \<Rightarrow> (string \<rightharpoonup> profile_info \<times> bytes) \<Rightarrow> bool" where
  "answers_from R P \<longleftrightarrow>
     or_raw R [] = Inl ErrNoNames \<and> or_infos R [] = Inr (map_option fst \<circ> P) \<and>
     (\<forall>ns. ns \<noteq> [] \<longrightarrow>
        (if set ns \<subseteq> dom P
         then or_raw R ns = Inr ((map_option snd \<circ> P) |` set ns) \<and> or_infos R ns = Inr ((map_option fst \<circ> P) |` set ns)
         else (\<exists>e. or_raw R ns = Inl e \<and> errors_is e ErrProfileNotFound) \<and>
              (\<exists>e. or_infos R ns = Inl e \<and> errors_is e ErrProfileNotFound)))"

lemma answers_fromD:
  assumes "answers_from R P"
  shows "ns \<noteq> [] \<Longrightarrow> set ns \<subseteq> dom P \<Longrightarrow> or_raw R ns = Inr ((map_option snd \<circ> P) |` set ns)"
    "set ns \<subseteq> dom P \<Longrightarrow> \<exists>infos. or_infos R ns = Inr infos \<and> (\<forall>n\<in>set ns. infos n = map_option fst (P n))"
    "\<not> set ns \<subseteq> dom P \<Longrightarrow> \<exists>e. or_infos R ns = Inl e \<and> errors_is e ErrProfileNotFound"
proof -
  have no: "or_infos R [] = Inr (map_option fst \<circ> P)" using assms by (simp add: answers_from_def)
  have some: "ns \<noteq> [] \<Longrightarrow>
        (if set ns \<subseteq> dom P
         then or_raw R ns = Inr ((map_option snd \<circ> P) |` set ns) \<and> or_infos R ns = Inr ((map_option fst \<circ> P) |` set ns)
         else (\<exists>e. or_raw R ns = Inl e \<and> errors_is e ErrProfileNotFound) \<and>
              (\<exists>e. or_infos R ns = Inl e \<and> errors_is e ErrProfileNotFound))"
    using assms unfolding answers_from_def by blast
  show "ns \<noteq> [] \<Longrightarrow> set ns \<subseteq> dom P \<Longrightarrow> or_raw R ns = Inr ((map_option snd \<circ> P) |` set ns)"
    using some by simp
  show "set ns \<subseteq> dom P \<Longrightarrow> \<exists>infos. or_infos R ns = Inr infos \<and> (\<forall>n\<in>set ns. infos n = map_option fst (P n))"
    using some no by (cases "ns = []") simp_all
  show "\<not> set ns \<subseteq> dom P \<Longrightarrow> \<exists>e. or_infos R ns = Inl e \<and> errors_is e ErrProfileNotFound"
    using some by (cases "ns = []") simp_all
qed

text \<open>The plan reads only the infos of the names it is asked to manage.\<close>

lemma plan_sets_cong:
  assumes "\<forall>n\<in>set (fst (split_install_remove s)). infos n = infos' n"
  shows "installs s infos items = installs s infos' items" "removes s infos items = removes s infos' items"
proof -
  have "infos n = infos' n" if "wanted s n \<noteq> ManageNone" for n using that assms by (simp add: wanted_dom)
  then show "installs s infos items = installs s infos' items" "removes s infos items = removes s infos' items"
    by (auto simp: installs_def removes_def)
qed

lemma installs_wanted: "n \<in> installs s infos items \<Longrightarrow> n \<in> set (fst (split_install_remove s))"
  "n \<in> removes s infos items \<Longrightarrow> n \<in> set (fst (split_install_remove s))"
  by (simp_all add: installs_def removes_def wanted_dom [symmetric])

lemma set_to_install: "set (to_install (profile_plan s infos items)) = installs s infos items"
proof (rule set_eqI)
  fix n
  have "n \<in> set (to_install m) \<longleftrightarrow> (n, ManageToInstall) \<in> set m" for m by (force simp: to_install_def)
  then show "n \<in> set (to_install (profile_plan s infos items)) \<longleftrightarrow> n \<in> installs s infos items"
    by (simp only: profile_plan_styles(2))
qed

lemma list_step_run:
  assumes sr: "wsc_name sr = ''list''" "sr_command_results sr = [Some (ProfileListResponse g items)]"
      "wsc_context sr = Some (CommaStringSliceContext s)"
    and ok: "or_validate R (ProfileListResponse g items) = Inr ()" "\<And>h. or_fail R h = None"
    and infos: "or_infos R (fst (split_install_remove s)) = Inr infos"
    and raws: "to_install (profile_plan s infos items) \<noteq> [] \<Longrightarrow> or_raw R (to_install (profile_plan s infos items)) = Inr raws"
  shows "\<exists>h' us. profile_step_completed (tr_env R) (tr_profiles R) sr h = (Inr (), h') \<and>
     length us = length (filter acts (profile_plan s infos items)) \<and>
     map wse_commands (enqueued h') = map wse_commands (enqueued h) @
       (if us = [] then []
        else [map2 (command_for (if to_install (profile_plan s infos items) = [] then Map.empty else raws) infos) us
                (filter acts (profile_plan s infos items))])"
proof -
  obtain all m0 where sp: "split_install_remove s = (all, m0)" by fastforce
  let ?m = "profile_plan s infos items"
  let ?raws = "if to_install ?m = [] then Map.empty else raws"
  have m: "?m = decide_all (remdups all) infos items m0" by (simp add: profile_plan_def sp)
  obtain h1 us where h1: "go_fold (profile_command (tr_env R) ?raws infos) ?m [] h =
      (Inr (map2 (command_for ?raws infos) us (filter acts ?m)), h1)"
    "length us = length (filter acts ?m)" "enqueued h1 = enqueued h"
    using profile_commands_run [of R ?raws infos ?m "[]" h] by auto
  let ?cmds = "map2 (command_for ?raws infos) us (filter acts ?m)"
  let ?se = "(result_new_step_enqueueing sr)\<lparr>wsc_name := ''install'', wse_commands := ?cmds\<rparr>"
  have "profile_step_completed (tr_env R) (tr_profiles R) sr h =
      (if ?cmds = [] then (Inr (), h1) else (Inr (), h1 @ [IoEnqueue profile_workflow_name ?se True]))"
    using sr ok(1) infos raws h1(1)
    by (cases "to_install ?m = []")
      (simp_all add: profile_step_completed_def list_step_completed_def sp m [symmetric] Let_def go_lift_def
        go_wrap_def go_bind_def go_ret_def tr_call_def ok(2))
  moreover have "?cmds = [] \<longleftrightarrow> us = []" using h1(2) by (cases us; cases "filter acts ?m") auto
  ultimately show ?thesis
    using h1(2,3) by (cases "us = []") (auto intro!: exI [of _ us])
qed

lemma list_step_fails:
  assumes "wsc_name sr = ''list''" "sr_command_results sr = [Some (ProfileListResponse g items)]"
    "wsc_context sr = Some (CommaStringSliceContext s)"
    and "or_validate R (ProfileListResponse g items) = Inr ()" "or_infos R (fst (split_install_remove s)) = Inl e"
  shows "profile_step_completed (tr_env R) (tr_profiles R) sr h = (Inl (Wrapf ''retrieving profile info: %w'' [] e), h)"
  using assms
  by (cases "split_install_remove s")
    (simp add: profile_step_completed_def list_step_completed_def go_bind_def go_wrap_def go_lift_def)

end
