(* ===== verification/WfCmdPlan.thy ===== *)
theory WfCmdPlan
  imports WfBase
begin

text \<open>
  The command plan workflow (\<open>workflow/cmdplan/workflow.go\<close>), with \<open>os.Expand\<close> of the standard
  library, which it uses to put parameters into the name of its plan.
\<close>

section \<open>\<open>os.Expand\<close>\<close>

definition is_shell_special_var :: "char \<Rightarrow> bool" where
  "is_shell_special_var c \<longleftrightarrow> c \<in> set ''*#$@!?-'' \<or> is_digit c"

definition is_alpha_num :: "char \<Rightarrow> bool" where
  "is_alpha_num c \<longleftrightarrow>
     (let n = of_char c :: nat in
      c = CHR ''_'' \<or> is_digit c \<or> (97 \<le> n \<and> n \<le> 122) \<or> (65 \<le> n \<and> n \<le> 90))"

text \<open>The scan to the closing brace from index \<open>i\<close>.\<close>

fun closing_brace :: "nat \<Rightarrow> string \<Rightarrow> nat option" where
  "closing_brace i [] = None"
| "closing_brace i (c # s) = (if c = CHR ''}'' then Some i else closing_brace (Suc i) s)"

text \<open>The variable's name after a dollar and the number of bytes it takes.\<close>

definition get_shell_name :: "string \<Rightarrow> string \<times> nat" where
  "get_shell_name s =
     (if s ! 0 = CHR ''{''
      then
        if length s > 2 \<and> is_shell_special_var (s ! 1) \<and> s ! 2 = CHR ''}'' then ([s ! 1], 3)
        else
          (case closing_brace 1 (drop 1 s) of
             None \<Rightarrow> ([], 1)
           | Some i \<Rightarrow> if i = 1 then ([], 2) else (take (i - 1) (drop 1 s), i + 1))
      else if is_shell_special_var (s ! 0) then ([s ! 0], 1)
      else (let name = takeWhile is_alpha_num s in (name, length name)))"

fun os_expand :: "(string \<Rightarrow> string) \<Rightarrow> string \<Rightarrow> string" where
  "os_expand f [] = []"
| "os_expand f (c # s) =
     (if c = CHR ''$'' \<and> s \<noteq> []
      then
        (case get_shell_name s of
           (name, w) \<Rightarrow>
             (if name = [] \<and> w > 0 then [] else if name = [] then [c] else f name) @ os_expand f (drop w s))
      else c # os_expand f s)"

section \<open>The workflow\<close>

definition cmdplan_name :: string where "cmdplan_name = ''io.micromdm.wf.cmdplan.v1''"

text \<open>\<open>strings.SplitN(v, ":", 2)\<close>.\<close>

definition split_default :: "string \<Rightarrow> string \<times> string option" where
  "split_default v =
     (let k = takeWhile (\<lambda>c. c \<noteq> CHR '':'') v in
      (k, if length k < length v then Some (drop (length k + 1) v) else None))"

definition expand_var :: "params option \<Rightarrow> string \<Rightarrow> string" where
  "expand_var p v =
     (case split_default v of
        (k, dflt) \<Rightarrow>
          (case (case p of None \<Rightarrow> None | Some p \<Rightarrow> p k, dflt) of
             (Some r, _) \<Rightarrow> r
           | (None, Some d) \<Rightarrow> d
           | (None, None) \<Rightarrow> []))"

definition expand_params :: "string \<Rightarrow> params option \<Rightarrow> string" where
  "expand_params s p = os_expand (expand_var p) s"

definition raw_profile_command ::
  "'w wf_env \<Rightarrow> (string \<rightharpoonup> bytes) \<Rightarrow> string \<Rightarrow> mdm_command list \<Rightarrow> ('w, mdm_command list) action" where
  "raw_profile_command E raws name cmds =
     (case raws name of
        None \<Rightarrow> go_fail (Errorf ''raw profile not found: %s'' [name])
      | Some raw \<Rightarrow>
          go_bind (we_id E) (\<lambda>uuid. go_ret (cmds @ [InstallProfileCommand uuid raw])))"

text \<open>
  Every command's \<open>ManifestURL\<close> points to the one loop variable (the module is at Go 1.19), so they all
  read its value after the loop.
\<close>

definition manifest_ids :: "'w wf_env \<Rightarrow> string list \<Rightarrow> ('w, string list) action" where
  "manifest_ids E urls = go_fold (\<lambda>url ids. go_bind (we_id E) (\<lambda>uuid. go_ret (ids @ [uuid]))) urls []"

definition manifest_commands :: "string list \<Rightarrow> string list \<Rightarrow> mdm_command list" where
  "manifest_commands urls ids =
     (let url = foldl (\<lambda>_ url. url) [] urls in
      map (\<lambda>uuid. InstallApplicationCommand uuid (Some 1) (Some url)) ids)"

text \<open>
  The message is empty when the device is to be told. A nil token update, on which the code would
  panic, is not sent by \<open>processCheckinEvent\<close>; here it counts as a mismatch.
\<close>

definition device_configured_error :: "mdm_response event option \<Rightarrow> string" where
  "device_configured_error e =
     (case e of
        None \<Rightarrow> ''empty event''
      | Some e \<Rightarrow>
          if ev_flag e \<noteq> event_enrollment then ''event type mismatch: '' @ event_flag_string (ev_flag e)
          else
            (case ev_data e of
               TokenUpdateData (Some tu) \<Rightarrow>
                 if \<not> tu_awaiting_configuration tu then ''not awaiting configuration'' else []
             | _ \<Rightarrow> ''event data type mismatch''))"

definition commands_from_cmd_plan ::
  "'w wf_env \<Rightarrow> 'w profile_storage \<Rightarrow> cmd_plan option \<Rightarrow> string \<Rightarrow> mdm_response event option
    \<Rightarrow> ('w, mdm_command list) action" where
  "commands_from_cmd_plan E ps plan name e =
     (case plan of
        None \<Rightarrow> go_fail (Errorf ''invalid cmdplan'' [])
      | Some plan \<Rightarrow>
          go_bind (if length (cpl_profile_names plan) > 0
                   then
                     go_bind (go_wrap ''retrieving profiles: %w'' []
                                (ps_retrieve_raw ps (cpl_profile_names plan))) (\<lambda>raws.
                     go_fold (raw_profile_command E raws) (cpl_profile_names plan) [])
                   else go_ret []) (\<lambda>profs.
          go_bind (manifest_ids E (cpl_manifest_urls plan)) (\<lambda>ids.
          let cmds = profs @ manifest_commands (cpl_manifest_urls plan) ids in
          if cpl_device_configured plan = Some True
          then
            if device_configured_error e = []
            then go_bind (we_id E) (\<lambda>uuid. go_ret (cmds @ [DeviceConfiguredCommand uuid]))
            else go_bind (we_log E (device_configured_error e)) (\<lambda>_. go_ret cmds)
          else go_ret cmds)))"

definition cmdplan_start ::
  "'w wf_env \<Rightarrow> 'w profile_storage \<Rightarrow> (string \<Rightarrow> ('w, cmd_plan option) action) \<Rightarrow> mdm_response wf_step_start
    \<Rightarrow> ('w, unit) action" where
  "cmdplan_start E ps retrieve step =
     (case wsc_context step of
        Some (StringContext v) \<Rightarrow>
          if v = [] then go_fail (Errorf ''missing cmdplan name'' [])
          else
            (let name = expand_params v (Some (wsc_params step)) in
             go_bind (go_wrap ''retrieving cmdplan: %w'' [] (retrieve name)) (\<lambda>plan.
             go_bind (go_wrap ''creating commands from cmdplan: %w'' []
                        (commands_from_cmd_plan E ps plan name (ss_event step))) (\<lambda>commands.
             if length commands < 1 then go_fail (Errorf ''no commands to queue'' [])
             else
               we_enqueue E cmdplan_name
                 ((start_new_step_enqueueing step)\<lparr>wse_commands := map Some commands\<rparr>))))
      | _ \<Rightarrow> go_fail ErrIncorrectContextType)"

text \<open>A completed step is only counted and logged.\<close>

definition cmdplan_step_completed :: "mdm_response wf_step_result \<Rightarrow> ('w, unit) action" where
  "cmdplan_step_completed sr = go_ret ()"

definition cmdplan_workflow ::
  "'w wf_env \<Rightarrow> 'w profile_storage \<Rightarrow> (string \<Rightarrow> ('w, cmd_plan option) action) \<Rightarrow> ('w, mdm_response) workflow"
where
  "cmdplan_workflow E ps retrieve =
     \<lparr>wf_name = cmdplan_name, wf_config = None, wf_new_context_value = (\<lambda>_. Some (StringContext [])),
      wf_start = cmdplan_start E ps retrieve, wf_step_completed = cmdplan_step_completed,
      wf_step_timeout = step_timeout_not_used, wf_event = events_not_supported\<rparr>"

section \<open>Expansion\<close>

lemma os_expand_plain: "CHR ''$'' \<notin> set s \<Longrightarrow> os_expand f (s @ t) = s @ os_expand f t"
  by (induction s) auto

lemma closing_brace_eq:
  "CHR ''}'' \<notin> set v \<Longrightarrow> closing_brace i (v @ CHR ''}'' # r) = Some (i + length v)"
  by (induction v arbitrary: i) auto

lemma get_shell_name_braced:
  assumes "v \<noteq> []" "CHR ''}'' \<notin> set v"
  shows "get_shell_name (CHR ''{'' # v @ CHR ''}'' # r) = (v, length v + 2)"
proof (cases "length v = 1")
  case True
  then obtain c where "v = [c]" by (auto simp: length_Suc_conv)
  then show ?thesis using closing_brace_eq [OF assms(2), of 1 r] by (auto simp: get_shell_name_def)
next
  case False
  with assms(1) have l: "length v \<ge> 2" by (cases v) (auto simp: Suc_le_eq)
  have "(CHR ''{'' # v @ CHR ''}'' # r) ! 2 = v ! 1" using l by (cases v) (auto simp: nth_append)
  moreover have "v ! 1 \<in> set v" using l by (intro nth_mem) simp
  then have "v ! 1 \<noteq> CHR ''}''" using assms(2) by metis
  ultimately show ?thesis using closing_brace_eq [OF assms(2), of 1 r] assms(1)
    by (simp add: get_shell_name_def)
qed

lemma os_expand_braced:
  assumes "v \<noteq> []" "CHR ''}'' \<notin> set v"
  shows "os_expand f (''${'' @ v @ ''}'' @ r) = f v @ os_expand f r"
  using get_shell_name_braced [OF assms, of r] assms(1) by simp

text \<open>The text before the variable, the parameter's value or the default, and the rest expanded.\<close>

lemma split_default_eq:
  "CHR '':'' \<notin> set k \<Longrightarrow> split_default k = (k, None)"
  "CHR '':'' \<notin> set k \<Longrightarrow> split_default (k @ CHR '':'' # d) = (k, Some d)"
proof -
  assume k: "CHR '':'' \<notin> set k"
  then have all: "\<forall>c\<in>set k. c \<noteq> CHR '':''" by auto
  have tw: "takeWhile (\<lambda>c. c \<noteq> CHR '':'') k = k"
    "takeWhile (\<lambda>c. c \<noteq> CHR '':'') (k @ CHR '':'' # d) = k"
    using all by (simp_all add: takeWhile_tail)
  show "split_default k = (k, None)" unfolding split_default_def Let_def tw(1) by simp
  show "split_default (k @ CHR '':'' # d) = (k, Some d)" unfolding split_default_def Let_def tw(2) by simp
qed

lemma expand_params_braced:
  assumes "CHR ''$'' \<notin> set pre" "v \<noteq> []" "CHR ''}'' \<notin> set v"
  shows "expand_params (pre @ ''${'' @ v @ ''}'' @ r) p = pre @ expand_var p v @ expand_params r p"
  using os_expand_plain [OF assms(1)] os_expand_braced [OF assms(2,3)]
  unfolding expand_params_def by metis

section \<open>The commands of a plan\<close>

lemma manifest_ids_run:
  "\<exists>h' ids. manifest_ids (tr_env R) urls h = (Inr ids, h') \<and> length ids = length urls \<and> enqueued h' = enqueued h"
proof -
  have "\<exists>h' ids. go_fold (\<lambda>url ids. go_bind (we_id (tr_env R)) (\<lambda>uuid. go_ret (ids @ [uuid]))) urls acc h =
      (Inr (acc @ ids), h') \<and> length ids = length urls \<and> enqueued h' = enqueued h" for acc
  proof (induction urls arbitrary: acc h)
    case (Cons u urls)
    from Cons.IH [of "acc @ [or_id R h]" "h @ [IoRead]"] obtain h' ids where
      "go_fold (\<lambda>url ids. go_bind (we_id (tr_env R)) (\<lambda>uuid. go_ret (ids @ [uuid]))) urls (acc @ [or_id R h]) (h @ [IoRead]) =
        (Inr (acc @ or_id R h # ids), h')" "length ids = length urls" "enqueued h' = enqueued h" by auto
    then show ?case
      by (intro exI [of _ h'] exI [of _ "or_id R h # ids"]) (simp add: go_bind_def go_ret_def tr_read_def)
  qed (simp add: go_defs)
  from this [of "[]"] show ?thesis by (simp add: manifest_ids_def)
qed

lemma raw_profile_commands_run:
  assumes "set names \<subseteq> dom raws"
  shows "\<exists>h' us. go_fold (raw_profile_command (tr_env R) raws) names acc h =
      (Inr (acc @ map2 (\<lambda>u n. InstallProfileCommand u (the (raws n))) us names), h') \<and>
    length us = length names \<and> enqueued h' = enqueued h"
  using assms
proof (induction names arbitrary: acc h)
  case (Cons n names)
  let ?c = "InstallProfileCommand (or_id R h) (the (raws n))"
  from Cons.IH [of "acc @ [?c]" "h @ [IoRead]"] Cons.prems obtain h' us where
    "go_fold (raw_profile_command (tr_env R) raws) names (acc @ [?c]) (h @ [IoRead]) =
      (Inr (acc @ ?c # map2 (\<lambda>u n. InstallProfileCommand u (the (raws n))) us names), h')"
    "length us = length names" "enqueued h' = enqueued h" by auto
  moreover have "raw_profile_command (tr_env R) raws n acc h = (Inr (acc @ [?c]), h @ [IoRead])"
    using Cons.prems by (auto simp: raw_profile_command_def go_defs tr_read_def)
  ultimately show ?case
    by (intro exI [of _ h'] exI [of _ "or_id R h # us"]) (simp add: go_bind_def)
qed (simp add: go_defs)

lemma manifest_commands_last:
  "urls \<noteq> [] \<Longrightarrow> manifest_commands urls ids = map (\<lambda>u. InstallApplicationCommand u (Some 1) (Some (last urls))) ids"
proof -
  have "foldl (\<lambda>_ url. url) d urls = (if urls = [] then d else last urls)" for d :: string
    by (induction urls arbitrary: d) auto
  then show "urls \<noteq> [] \<Longrightarrow> ?thesis" by (simp add: manifest_commands_def)
qed

lemma device_configured_iff:
  "device_configured_error e = [] \<longleftrightarrow>
     (\<exists>tu. e = Some \<lparr>ev_flag = event_enrollment, ev_data = TokenUpdateData (Some tu)\<rparr> \<and> tu_awaiting_configuration tu)"
proof (cases e)
  case (Some x)
  then show ?thesis
    by (cases x) (auto simp: device_configured_error_def split: event_data.split option.split)
qed (simp add: device_configured_error_def)

lemma commands_from_cmd_plan_run:
  assumes raws: "cpl_profile_names plan \<noteq> [] \<Longrightarrow> or_raw R (cpl_profile_names plan) = Inr raws"
      "set (cpl_profile_names plan) \<subseteq> dom raws"
  shows "\<exists>h' us ids vs. commands_from_cmd_plan (tr_env R) (tr_profiles R) (Some plan) name e h =
      (Inr (map2 (\<lambda>u n. InstallProfileCommand u (the (raws n))) us (cpl_profile_names plan) @
            map (\<lambda>u. InstallApplicationCommand u (Some 1) (Some (last (cpl_manifest_urls plan)))) ids @
            map DeviceConfiguredCommand vs), h') \<and>
    length us = length (cpl_profile_names plan) \<and> length ids = length (cpl_manifest_urls plan) \<and>
    length vs = (if cpl_device_configured plan = Some True \<and> device_configured_error e = [] then 1 else 0) \<and>
    enqueued h' = enqueued h"
proof -
  obtain h1 us where h1: "go_fold (raw_profile_command (tr_env R) raws) (cpl_profile_names plan) [] h =
      (Inr (map2 (\<lambda>u n. InstallProfileCommand u (the (raws n))) us (cpl_profile_names plan)), h1)"
    "length us = length (cpl_profile_names plan)" "enqueued h1 = enqueued h"
    using raw_profile_commands_run [OF raws(2), of R "[]" h] by auto
  obtain h2 ids where h2: "manifest_ids (tr_env R) (cpl_manifest_urls plan) h1 = (Inr ids, h2)"
    "length ids = length (cpl_manifest_urls plan)" "enqueued h2 = enqueued h1"
    using manifest_ids_run by blast
  have m: "manifest_commands (cpl_manifest_urls plan) ids =
      map (\<lambda>u. InstallApplicationCommand u (Some 1) (Some (last (cpl_manifest_urls plan)))) ids"
    using manifest_commands_last [of "cpl_manifest_urls plan" ids] h2(2)
    by (cases "cpl_manifest_urls plan") (auto simp: manifest_commands_def)
  let ?a = "map2 (\<lambda>u n. InstallProfileCommand u (the (raws n))) us (cpl_profile_names plan)"
  let ?b = "map (\<lambda>u. InstallApplicationCommand u (Some 1) (Some (last (cpl_manifest_urls plan)))) ids"
  let ?send = "cpl_device_configured plan = Some True \<and> device_configured_error e = []"
  have profs: "(if length (cpl_profile_names plan) > 0
      then go_bind (go_wrap ''retrieving profiles: %w'' [] (ps_retrieve_raw (tr_profiles R) (cpl_profile_names plan)))
             (\<lambda>raws. go_fold (raw_profile_command (tr_env R) raws) (cpl_profile_names plan) [])
      else go_ret []) h = (Inr ?a, h1)"
    using h1(1) raws(1)
    by (cases "cpl_profile_names plan = []") (auto simp: go_wrap_def go_bind_def go_lift_def go_ret_def)
  have "commands_from_cmd_plan (tr_env R) (tr_profiles R) (Some plan) name e h =
      (if ?send then (Inr (?a @ ?b @ [DeviceConfiguredCommand (or_id R h2)]), h2 @ [IoRead]) else (Inr (?a @ ?b), h2))"
    unfolding commands_from_cmd_plan_def option.case
    by (subst go_bind_run, rule profs, subst go_bind_run, rule h2(1))
      (simp add: m Let_def go_bind_def go_ret_def tr_read_def)
  moreover have "enqueued (if ?send then h2 @ [IoRead] else h2) = enqueued h" using h1(3) h2(3) by simp
  ultimately show ?thesis
    using h1(2) h2(2)
    by (intro exI [of _ "if ?send then h2 @ [IoRead] else h2"] exI [of _ us] exI [of _ ids]
        exI [of _ "if ?send then [or_id R h2] else []"]) simp
qed

end
