(* ===== verification/WfCertProf.thy ===== *)
theory WfCertProf
  imports WfBase
begin

text \<open>
  The certificate profile workflow (\<open>workflow/certprof/process.go\<close>, \<open>workflow.go\<close>): it installs a
  profile when the device has no certificate that its filter matches, or one that its criteria
  replace. \<open>x509.ParseCertificate\<close> is a parameter, the instant a certificate expires; the generic
  algorithm of \<open>strings.NewReplacer\<close> is modelled.
\<close>

section \<open>\<open>strings.NewReplacer\<close>\<close>

text \<open>
  At each place the first pair, in the order of the arguments, whose old text is there; the empty
  old text is not matched twice in a row. \<open>prev\<close> tells that the last match was empty.
\<close>

fun lookup_pair :: "(string \<times> string) list \<Rightarrow> bool \<Rightarrow> string \<Rightarrow> (string \<times> string) option" where
  "lookup_pair [] prev s = None"
| "lookup_pair ((old, new) # ps) prev s =
     (if has_prefix s old \<and> \<not> (old = [] \<and> prev) then Some (old, new) else lookup_pair ps prev s)"

function replace_from :: "(string \<times> string) list \<Rightarrow> bool \<Rightarrow> string \<Rightarrow> string" where
  "replace_from ps prev s =
     (case lookup_pair ps prev s of
        Some (old, new) \<Rightarrow>
          if old = [] then new @ replace_from ps True s else new @ replace_from ps False (drop (length old) s)
      | None \<Rightarrow> (case s of [] \<Rightarrow> [] | c # s' \<Rightarrow> c # replace_from ps False s'))"
  by pat_completeness auto

lemma lookup_pair_props:
  "lookup_pair ps prev s = Some (old, new) \<Longrightarrow> has_prefix s old \<and> (prev \<longrightarrow> old \<noteq> []) \<and> (old, new) \<in> set ps"
  by (induction ps prev s rule: lookup_pair.induct) (auto split: if_splits)

termination replace_from
proof (relation "measure (\<lambda>(ps, prev, s). 2 * length s + (if prev then 0 else 1))")
  fix ps :: "(string \<times> string) list" and prev s p old new
  assume l: "lookup_pair ps prev s = Some p" "(old, new) = p"
  show "old = [] \<Longrightarrow> ((ps, True, s), ps, prev, s) \<in> measure (\<lambda>(ps, prev, s). 2 * length s + (if prev then 0 else 1))"
    using lookup_pair_props [of ps prev s old new] l by auto
  assume "old \<noteq> []"
  then have "length old > 0" "length old \<le> length s"
    using lookup_pair_props [of ps prev s old new] l by (auto simp: has_prefix_def)
  then have "Suc (length (drop (length old) s)) \<le> length s"
    unfolding length_drop by linarith
  moreover have "2 * m + 1 < 2 * k + (if prev then 0 else 1)" if "Suc m \<le> k" for m k :: nat
    using that by simp
  ultimately show "((ps, False, drop (length old) s), ps, prev, s) \<in> measure (\<lambda>(ps, prev, s). 2 * length s + (if prev then 0 else 1))"
    unfolding in_measure prod.case if_False by blast
qed auto

declare replace_from.simps [simp del]

text \<open>\<open>replace\<close> hands the map's pairs over in the order of a \<open>range\<close>, here that of the list.\<close>

definition replace_text :: "string \<Rightarrow> (string \<times> string) list \<Rightarrow> string" where
  "replace_text s r = (if length s < 1 \<or> length r < 1 then s else replace_from r False s)"

section \<open>Filter and criteria\<close>

definition cert_matches :: "cert_filter \<Rightarrow> cert_item \<Rightarrow> bool" where
  "cert_matches f item \<longleftrightarrow>
     \<not> (\<not> allow_non_identity f \<and> \<not> cert_is_identity item) \<and>
     \<not> (cn_prefix f \<noteq> [] \<and> \<not> has_prefix (cert_common_name item) (cn_prefix f))"

definition filter_certs :: "cert_filter option \<Rightarrow> cert_item list \<Rightarrow> cert_item list" where
  "filter_certs f items = (case f of None \<Rightarrow> [] | Some f \<Rightarrow> filter (cert_matches f) items)"

text \<open>
  Whether to replace the certificate. \<open>time.Until\<close> saturates at the bounds of a \<open>Duration\<close>, and the
  product of the seconds wraps around.
\<close>

definition saturate :: "int \<Rightarrow> int" where
  "saturate i = max min_int64 (min max_int64 i)"

definition check_criteria ::
  "'w wf_env \<Rightarrow> (bytes \<Rightarrow> time result) \<Rightarrow> cert_criteria option \<Rightarrow> cert_item \<Rightarrow> ('w, bool) action" where
  "check_criteria E not_after c item =
     (case c of
        None \<Rightarrow> go_ret False
      | Some c \<Rightarrow>
          if always_replace c then go_ret True
          else if until_expiry_seconds c > 0
          then
            (case not_after (cert_data item) of
               Inl e \<Rightarrow> go_fail (Wrapf ''parse certificate: %w'' [] e)
             | Inr t \<Rightarrow>
                 go_bind (we_now E) (\<lambda>now.
                 go_ret (saturate (t - now) < int64 (1000000000 * until_expiry_seconds c))))
          else go_ret False)"

section \<open>The workflow\<close>

definition certprof_default_name :: string where
  "certprof_default_name = ''io.micromdm.wf.certprof.v1''"
definition step_name_profile :: string where "step_name_profile = ''profile''"

definition certprof_start ::
  "string \<Rightarrow> 'w wf_env \<Rightarrow> mdm_response wf_step_start \<Rightarrow> ('w, unit) action" where
  "certprof_start wname E step =
     (case wsc_context step of
        Some (CertProfContext c) \<Rightarrow>
          go_bind (go_wrap ''validating context: %w'' [] (go_lift (certprof_context_validate (Some c)))) (\<lambda>_.
          go_bind (we_id E) (\<lambda>uuid.
          we_enqueue E wname
            ((start_new_step_enqueueing step)
               \<lparr>wsc_context := Some (CertProfContext c),
                wse_commands :=
                  [Some (CertificateListCommand uuid (if \<not> no_managed_only c then Some True else None))]\<rparr>)))
      | _ \<Rightarrow> go_fail ErrInvalidContext)"

text \<open>The decision after the filter: whether to go on and install the profile.\<close>

definition replace_decision ::
  "'w wf_env \<Rightarrow> (bytes \<Rightarrow> time result) \<Rightarrow> certprof_context \<Rightarrow> cert_item list \<Rightarrow> ('w, bool) action" where
  "replace_decision E not_after c items =
     (case filter_certs (cp_filter c) items of
        [] \<Rightarrow> go_ret True
      | [item] \<Rightarrow> go_wrap ''checking criteria: %w'' [] (check_criteria E not_after (cp_criteria c) item)
      | cl \<Rightarrow> go_fail (Errorf ''too many certs after filter: %d; before filter: %d''
                        [digits (length cl), digits (length items)]))"

definition cert_list_step_completed ::
  "string \<Rightarrow> 'w wf_env \<Rightarrow> 'w profile_storage \<Rightarrow> (bytes \<Rightarrow> time result) \<Rightarrow> mdm_response wf_step_result
    \<Rightarrow> ('w, unit) action" where
  "cert_list_step_completed wname E ps not_after sr =
     (if length (sr_command_results sr) \<noteq> 1 then go_fail ErrStepResultCommandLenMismatch
      else
        (case sr_command_results sr ! 0 of
           Some (CertificateListResponse g items) \<Rightarrow>
             go_bind (go_wrap ''validating certificate list response: %w'' []
                        (go_lift (we_validate E (CertificateListResponse g items)))) (\<lambda>_.
             case wsc_context sr of
               Some (CertProfContext c) \<Rightarrow>
                 go_bind (go_wrap ''validating context: %w'' []
                            (go_lift (certprof_context_validate (Some c)))) (\<lambda>_.
                 go_bind (replace_decision E not_after c items) (\<lambda>replace.
                 if \<not> replace then go_ret ()
                 else
                   go_bind (go_wrap ''retrieving raw profile: %s: %w'' [cp_profile c]
                              (ps_retrieve_raw ps [cp_profile c])) (\<lambda>profiles.
                   let profile = replace_text (case profiles (cp_profile c) of None \<Rightarrow> [] | Some p \<Rightarrow> p)
                                   (text_replacements c) in
                   go_bind (we_id E) (\<lambda>uuid.
                   we_enqueue E wname
                     ((result_new_step_enqueueing sr)
                        \<lparr>wsc_name := step_name_profile,
                         wse_commands := [Some (InstallProfileCommand uuid profile)]\<rparr>)))))
             | _ \<Rightarrow> go_fail ErrInvalidContext)
         | _ \<Rightarrow> go_fail ErrIncorrectCommandType))"

definition profile_install_completed ::
  "'w wf_env \<Rightarrow> mdm_response wf_step_result \<Rightarrow> ('w, unit) action" where
  "profile_install_completed E sr =
     (if length (sr_command_results sr) \<noteq> 1 then go_fail ErrStepResultCommandLenMismatch
      else
        (case sr_command_results sr ! 0 of
           Some (InstallProfileResponse g) \<Rightarrow>
             go_wrap ''validating install profile response: %w'' []
               (go_lift (we_validate E (InstallProfileResponse g)))
         | _ \<Rightarrow> go_fail ErrIncorrectCommandType))"

definition certprof_step_completed ::
  "string \<Rightarrow> 'w wf_env \<Rightarrow> 'w profile_storage \<Rightarrow> (bytes \<Rightarrow> time result) \<Rightarrow> mdm_response wf_step_result
    \<Rightarrow> ('w, unit) action" where
  "certprof_step_completed wname E ps not_after sr =
     (if wsc_name sr = [] then cert_list_step_completed wname E ps not_after sr
      else if wsc_name sr = step_name_profile then profile_install_completed E sr
      else go_fail (Wrapf ''%w: %s'' [wsc_name sr] ErrUnknownStepName))"

definition certprof_workflow ::
  "string \<Rightarrow> 'w wf_env \<Rightarrow> 'w profile_storage \<Rightarrow> (bytes \<Rightarrow> time result) \<Rightarrow> ('w, mdm_response) workflow" where
  "certprof_workflow wname E ps not_after =
     \<lparr>wf_name = wname, wf_config = None, wf_new_context_value = (\<lambda>_. Some (CertProfContext empty_certprof_context)),
      wf_start = certprof_start wname E, wf_step_completed = certprof_step_completed wname E ps not_after,
      wf_step_timeout = step_timeout_not_used, wf_event = events_not_supported\<rparr>"

section \<open>When the profile is installed\<close>

lemma filter_certs_iff:
  "item \<in> set (filter_certs (Some f) items) \<longleftrightarrow>
     item \<in> set items \<and> (allow_non_identity f \<or> cert_is_identity item) \<and>
     (\<exists>rest. cert_common_name item = cn_prefix f @ rest)"
  by (auto simp: filter_certs_def cert_matches_def has_prefix_iff)

text \<open>Whether a certificate is replaced, at instant \<open>now\<close>.\<close>

definition replaces :: "(bytes \<Rightarrow> time result) \<Rightarrow> cert_criteria option \<Rightarrow> time \<Rightarrow> cert_item \<Rightarrow> bool" where
  "replaces not_after c now item \<longleftrightarrow>
     (\<exists>c'. c = Some c' \<and>
       (always_replace c' \<or>
        (until_expiry_seconds c' > 0 \<and>
         (\<exists>t. not_after (cert_data item) = Inr t \<and>
              saturate (t - now) < int64 (1000000000 * until_expiry_seconds c')))))"

lemma check_criteria_run:
  assumes "\<And>c'. c = Some c' \<Longrightarrow> until_expiry_seconds c' > 0 \<Longrightarrow> \<exists>t. not_after (cert_data item) = Inr t"
  shows "\<exists>h'. check_criteria (tr_env R) not_after c item h = (Inr (replaces not_after c (or_now R h) item), h') \<and>
     enqueued h' = enqueued h"
  using assms
  by (cases c) (auto simp: check_criteria_def replaces_def go_defs tr_read_def split: sum.split)

lemma cert_list_run:
  assumes sr: "wsc_name sr = []" "sr_command_results sr = [Some (CertificateListResponse g items)]"
      "wsc_context sr = Some (CertProfContext c)"
    and valid: "certprof_context_validate (Some c) = Inr ()"
    and ok: "or_validate R (CertificateListResponse g items) = Inr ()" "\<And>h. or_fail R h = None"
    and raws: "or_raw R [cp_profile c] = Inr raws"
    and one: "filter_certs (cp_filter c) items = [] \<or> filter_certs (cp_filter c) items = [item]"
    and times: "\<And>c'. cp_criteria c = Some c' \<Longrightarrow> until_expiry_seconds c' > 0 \<Longrightarrow>
         \<exists>t. not_after (cert_data item) = Inr t"
  shows "\<exists>h' uuid. certprof_step_completed wname (tr_env R) (tr_profiles R) not_after sr h = (Inr (), h') \<and>
     map wse_commands (enqueued h') = map wse_commands (enqueued h) @
       (if filter_certs (cp_filter c) items = [] \<or> replaces not_after (cp_criteria c) (or_now R h) item
        then [[Some (InstallProfileCommand uuid
                 (replace_text (case raws (cp_profile c) of None \<Rightarrow> [] | Some p \<Rightarrow> p) (text_replacements c)))]]
        else [])"
proof -
  let ?go = "filter_certs (cp_filter c) items = [] \<or> replaces not_after (cp_criteria c) (or_now R h) item"
  have "\<exists>h1. check_criteria (tr_env R) not_after (cp_criteria c) item h =
      (Inr (replaces not_after (cp_criteria c) (or_now R h) item), h1) \<and> enqueued h1 = enqueued h"
    by (rule check_criteria_run) (rule times)
  then obtain h1 where h1: "replace_decision (tr_env R) not_after c items h = (Inr ?go, h1)" "enqueued h1 = enqueued h"
    using one by (auto simp: replace_decision_def go_wrap_def go_ret_def)
  let ?text = "replace_text (case raws (cp_profile c) of None \<Rightarrow> [] | Some p \<Rightarrow> p) (text_replacements c)"
  let ?se = "(result_new_step_enqueueing sr)\<lparr>wsc_name := step_name_profile,
      wse_commands := [Some (InstallProfileCommand (or_id R h1) ?text)]\<rparr>"
  have "certprof_step_completed wname (tr_env R) (tr_profiles R) not_after sr h =
      (if ?go then (Inr (), h1 @ [IoRead, IoEnqueue wname ?se True]) else (Inr (), h1))"
    using sr valid ok(1) raws h1(1)
    by (simp add: certprof_step_completed_def cert_list_step_completed_def go_lift_def go_wrap_def go_bind_def
        go_ret_def tr_read_def tr_call_def ok(2) Let_def)
  then show ?thesis using h1(2)
    by (intro exI [of _ "if ?go then h1 @ [IoRead, IoEnqueue wname ?se True] else h1"] exI [of _ "or_id R h1"]) simp
qed

section \<open>Replacement\<close>

text \<open>Text without any of the old texts is kept, and an old text that is found is replaced.\<close>

lemma lookup_pair_none:
  "(\<forall>(old, new)\<in>set ps. \<not> has_prefix s old) \<Longrightarrow> lookup_pair ps prev s = None"
  by (induction ps) auto

lemmas replace_from_unfold = replace_from.simps [of ps prev "c # s" for ps prev c s]
  replace_from.simps [of ps prev "[]" for ps prev]

lemma replace_step:
  "lookup_pair ps prev s = Some (old, new) \<Longrightarrow> old \<noteq> [] \<Longrightarrow>
     replace_from ps prev s = new @ replace_from ps False (drop (length old) s)"
  "lookup_pair ps prev (c # s) = None \<Longrightarrow> replace_from ps prev (c # s) = c # replace_from ps False s"
  "lookup_pair ps prev [] = None \<Longrightarrow> replace_from ps prev [] = []"
  by (simp_all add: replace_from.simps [of ps prev s] replace_from_unfold)

definition occurs_in :: "string \<Rightarrow> string \<Rightarrow> bool" where
  "occurs_in old s \<longleftrightarrow> (\<exists>pre post. s = pre @ old @ post)"

lemma occurs_in_tl: "\<not> occurs_in old (c # s) \<Longrightarrow> \<not> occurs_in old s"
  unfolding occurs_in_def by (metis append_Cons)

lemma lookup_pair_absent:
  assumes "\<forall>p\<in>set ps. \<not> occurs_in (fst p) s"
  shows "lookup_pair ps prev s = None"
proof (rule lookup_pair_none, clarify)
  fix old new
  assume "(old, new) \<in> set ps" "has_prefix s old"
  then obtain r where "s = [] @ old @ r" by (auto simp: has_prefix_iff)
  then have "occurs_in old s" unfolding occurs_in_def by blast
  with assms \<open>(old, new) \<in> set ps\<close> show False by auto
qed

lemma replace_nothing:
  assumes "\<forall>p\<in>set ps. \<not> occurs_in (fst p) s"
  shows "replace_from ps False s = s"
  using assms
proof (induction s)
  case Nil
  then show ?case by (simp add: lookup_pair_absent replace_step)
next
  case (Cons c s)
  then have "\<forall>p\<in>set ps. \<not> occurs_in (fst p) s" using occurs_in_tl by blast
  with Cons show ?case by (simp add: lookup_pair_absent replace_step)
qed

lemma replace_single:
  assumes "old \<noteq> []" "\<forall>k < length pre. \<not> has_prefix (drop k (pre @ old @ post)) old"
  shows "replace_from [(old, new)] False (pre @ old @ post) = pre @ new @ replace_from [(old, new)] False post"
  using assms(2)
proof (induction pre)
  case Nil
  have "lookup_pair [(old, new)] False (old @ post) = Some (old, new)" by (simp add: has_prefix_iff assms(1))
  with assms(1) show ?case by (simp add: replace_step)
next
  case (Cons c pre)
  have "\<not> has_prefix (c # pre @ old @ post) old" using Cons.prems [rule_format, of 0] by simp
  then have "lookup_pair [(old, new)] False (c # pre @ old @ post) = None" by simp
  moreover have "\<not> has_prefix (drop k (pre @ old @ post)) old" if "k < length pre" for k
    using Cons.prems [rule_format, of "Suc k"] that by simp
  ultimately show ?case using Cons.IH by (simp add: replace_step)
qed

end
