(* ===== verification/WfInventory.thy ===== *)
theory WfInventory
  imports WfBase
begin

text \<open>
  The inventory workflow (\<open>workflow/inventory/workflow.go\<close>), which stores what devices tell of
  themselves, and the device information log (\<open>workflow/devinfolog/workflow.go\<close>).
\<close>

section \<open>Inventory\<close>

definition inventory_name :: string where "inventory_name = ''io.micromdm.wf.inventory.v1''"

definition inventory_config :: config where
  "inventory_config =
     \<lparr>cfg_timeout = 0, cfg_exclusivity = exclusive,
      cfg_all_command_response_request_types = [''SecurityInfo''], cfg_events = 0\<rparr>"

definition inventory_queries :: "string list" where
  "inventory_queries =
     [''Model'', ''SerialNumber'', ''Model'', ''ModelName'', ''DeviceName'', ''BuildVersion'', ''OSVersion'',
      ''EthernetMAC'', ''IsAppleSilicon'', ''HasBattery'', ''IsMultiUser'', ''SupportsLOMDevice'']"

definition inventory_start :: "'w wf_env \<Rightarrow> mdm_response wf_step_start \<Rightarrow> ('w, unit) action" where
  "inventory_start E step =
     go_bind (we_id E) (\<lambda>uuid.
     go_bind (we_id E) (\<lambda>uuid2.
     we_enqueue E inventory_name
       ((start_new_step_enqueueing step)
          \<lparr>wse_commands := [Some (DeviceInformationCommand uuid inventory_queries),
                            Some (SecurityInfoCommand uuid2)]\<rparr>)))"

definition store_if_present :: "string \<Rightarrow> ('a \<Rightarrow> inv_value) \<Rightarrow> 'a option \<Rightarrow> inv_values \<Rightarrow> inv_values" where
  "store_if_present k f p v = (case p of None \<Rightarrow> v | Some x \<Rightarrow> v(k \<mapsto> f x))"

definition device_info_values :: "device_info \<Rightarrow> inv_values" where
  "device_info_values qr =
     store_if_present key_is_multi_user InvBool (di_is_multi_user qr)
     (store_if_present key_supports_lom InvBool (di_supports_lom qr)
     (store_if_present key_has_battery InvBool (di_has_battery qr)
     (store_if_present key_apple_silicon InvBool (di_is_apple_silicon qr)
     (store_if_present key_supervised InvBool (di_is_supervised qr)
     (store_if_present key_ethernet_mac InvString (di_ethernet_mac qr)
     (store_if_present key_os_version InvString (di_os_version qr)
     (store_if_present key_build_version InvString (di_build_version qr)
     (store_if_present key_device_name InvString (di_device_name qr)
     (store_if_present key_model_name InvString (di_model_name qr)
     (store_if_present key_model InvString (di_model qr)
     (store_if_present key_serial_number InvString (di_serial_number qr) Map.empty)))))))))))"

definition security_info_values :: "security_info \<Rightarrow> inv_values" where
  "security_info_values si =
     store_if_present key_fde_enabled InvBool (si_fde_enabled si)
     (store_if_present key_sip_enabled InvBool (si_sip_enabled si) Map.empty)"

text \<open>Values that were found are stored with their source and the time.\<close>

definition store_values ::
  "'w wf_env \<Rightarrow> 'w inventory_storage \<Rightarrow> string \<Rightarrow> string \<Rightarrow> inv_values \<Rightarrow> ('w, unit) action" where
  "store_values E sto source i v =
     go_bind (we_now E) (\<lambda>now.
     is_store sto i (v(key_last_source \<mapsto> InvString source, key_modified \<mapsto> InvTime now)))"

text \<open>The loop over the results returns at the first device information that had a value.\<close>

primrec inventory_results ::
  "'w wf_env \<Rightarrow> 'w inventory_storage \<Rightarrow> string \<Rightarrow> mdm_response option list \<Rightarrow> ('w, unit) action" where
  "inventory_results E sto i [] = go_ret ()"
| "inventory_results E sto i (r # rs) =
     (case r of
        Some (DeviceInformationResponse g qr) \<Rightarrow>
          go_bind (go_wrap ''device info response: %w'' []
                     (go_lift (we_validate E (DeviceInformationResponse g qr)))) (\<lambda>_.
          if device_info_values qr \<noteq> Map.empty
          then store_values E sto ''DeviceInformation'' i (device_info_values qr)
          else inventory_results E sto i rs)
      | _ \<Rightarrow> inventory_results E sto i rs)"

definition inventory_step_completed ::
  "'w wf_env \<Rightarrow> 'w inventory_storage \<Rightarrow> mdm_response wf_step_result \<Rightarrow> ('w, unit) action" where
  "inventory_step_completed E sto sr =
     (if length (sr_command_results sr) \<noteq> 2 then go_fail ErrStepResultCommandLenMismatch
      else inventory_results E sto (sr_id sr) (sr_command_results sr))"

definition inventory_event ::
  "'w wf_env \<Rightarrow> 'w inventory_storage \<Rightarrow> mdm_response event \<Rightarrow> string \<Rightarrow> params option \<Rightarrow> ('w, unit) action" where
  "inventory_event E sto ev i mctx =
     (case ev_data ev of
        ResponseData (SecurityInfoResponse g si) \<Rightarrow>
          go_bind (go_wrap ''security info response: %w'' []
                     (go_lift (we_validate E (SecurityInfoResponse g si)))) (\<lambda>_.
          if security_info_values si \<noteq> Map.empty
          then store_values E sto ''SecurityInfo'' i (security_info_values si)
          else go_ret ())
      | _ \<Rightarrow> go_fail (Errorf ''unknown event data type for event: %s'' [event_flag_string (ev_flag ev)]))"

definition inventory_workflow :: "'w wf_env \<Rightarrow> 'w inventory_storage \<Rightarrow> ('w, mdm_response) workflow" where
  "inventory_workflow E sto =
     \<lparr>wf_name = inventory_name, wf_config = Some inventory_config, wf_new_context_value = (\<lambda>_. None),
      wf_start = inventory_start E, wf_step_completed = inventory_step_completed E sto,
      wf_step_timeout = step_timeout_not_used, wf_event = inventory_event E sto\<rparr>"

section \<open>The device information log\<close>

definition devinfolog_default_name :: string where
  "devinfolog_default_name = ''io.micromdm.wf.devinfolog.v1''"

definition devinfolog_queries :: "string list" where
  "devinfolog_queries =
     [''UDID'', ''SerialNumber'', ''Model'', ''ModelName'', ''DeviceName'', ''OSVersion'', ''BuildVersion'']"

definition devinfolog_start ::
  "string \<Rightarrow> 'w wf_env \<Rightarrow> mdm_response wf_step_start \<Rightarrow> ('w, unit) action" where
  "devinfolog_start wname E step =
     go_bind (we_id E) (\<lambda>uuid.
     we_enqueue E wname
       ((start_new_step_enqueueing step)
          \<lparr>wse_commands := [Some (DeviceInformationCommand uuid devinfolog_queries)]\<rparr>))"

definition empty_if_nil :: "string option \<Rightarrow> string" where
  "empty_if_nil x = (case x of None \<Rightarrow> [] | Some s \<Rightarrow> s)"

text \<open>\<open>strings.Join(..., ", ")\<close>: the separator is two bytes.\<close>

fun join_comma :: "string list \<Rightarrow> string" where
  "join_comma [] = []"
| "join_comma [s] = s"
| "join_comma (s # ss) = s @ '', '' @ join_comma ss"

definition devinfo_line :: "device_info \<Rightarrow> string" where
  "devinfo_line qr =
     join_comma
       [''UDID='' @ empty_if_nil (di_udid qr), ''SerialNumber='' @ empty_if_nil (di_serial_number qr),
        ''Model='' @ empty_if_nil (di_model qr), ''ModelName='' @ empty_if_nil (di_model_name qr),
        ''DeviceName='' @ empty_if_nil (di_device_name qr), ''OSVersion='' @ empty_if_nil (di_os_version qr),
        ''BuildVersion='' @ empty_if_nil (di_build_version qr)]"

definition devinfolog_step_completed ::
  "'w wf_env \<Rightarrow> mdm_response wf_step_result \<Rightarrow> ('w, unit) action" where
  "devinfolog_step_completed E sr =
     (if length (sr_command_results sr) \<noteq> 1 then go_fail ErrStepResultCommandLenMismatch
      else
        (case sr_command_results sr ! 0 of
           Some (DeviceInformationResponse g qr) \<Rightarrow>
             go_bind (go_wrap ''validating device information response: %w'' []
                        (go_lift (we_validate E (DeviceInformationResponse g qr)))) (\<lambda>_.
             we_log E (devinfo_line qr))
         | _ \<Rightarrow> go_fail ErrIncorrectCommandType))"

definition devinfolog_workflow :: "string \<Rightarrow> 'w wf_env \<Rightarrow> ('w, mdm_response) workflow" where
  "devinfolog_workflow wname E =
     \<lparr>wf_name = wname, wf_config = None, wf_new_context_value = (\<lambda>_. None),
      wf_start = devinfolog_start wname E, wf_step_completed = devinfolog_step_completed E,
      wf_step_timeout = step_timeout_not_used, wf_event = events_not_supported\<rparr>"

section \<open>What is stored\<close>

lemma store_if_present_apply:
  "store_if_present k f p v k' = (if k' = k \<and> p \<noteq> None then Some (f (the p)) else v k')"
  by (simp add: store_if_present_def split: option.split)

lemma security_info_values_apply:
  "security_info_values si key_sip_enabled = map_option InvBool (si_sip_enabled si)"
  "security_info_values si key_fde_enabled = map_option InvBool (si_fde_enabled si)"
  "k \<noteq> key_sip_enabled \<Longrightarrow> k \<noteq> key_fde_enabled \<Longrightarrow> security_info_values si k = None"
  by (auto simp: security_info_values_def store_if_present_apply inv_key_defs)

lemma security_info_empty:
  "security_info_values si = Map.empty \<longleftrightarrow> si_sip_enabled si = None \<and> si_fde_enabled si = None"
  by (auto simp: security_info_values_def store_if_present_def fun_eq_iff inv_key_defs split: option.splits)

text \<open>The supervision of a device is stored, but it is not among the queries that are sent.\<close>

lemma device_info_supervised:
  "device_info_values qr key_supervised = map_option InvBool (di_is_supervised qr)"
  by (cases "di_is_supervised qr") (simp_all add: device_info_values_def store_if_present_apply inv_key_defs)

lemma queries_lack_supervised: "''IsSupervised'' \<notin> set inventory_queries"
  by (simp add: inventory_queries_def)

lemma inventory_event_run:
  assumes "or_validate R (SecurityInfoResponse g si) = Inr ()" "\<And>h. or_fail R h = None"
  shows "\<exists>t. inventory_event (tr_env R) (tr_inventory R)
       \<lparr>ev_flag = event_all_command_response, ev_data = ResponseData (SecurityInfoResponse g si)\<rparr> i mctx h =
     (Inr (), h @ (if si_sip_enabled si = None \<and> si_fde_enabled si = None then []
        else [IoRead, IoInventory i ((security_info_values si)
               (key_last_source \<mapsto> InvString ''SecurityInfo'', key_modified \<mapsto> InvTime t)) True]))"
  using assms
  by (auto simp: inventory_event_def store_values_def security_info_empty go_defs tr_read_def tr_call_def
      simp del: fun_upd_apply)

end
