(* ===== verification/WfProps.thy ===== *)
theory WfProps
  imports PartProps WfLock WfFileVault WfProfile WfCmdPlan WfCertProf WfInventory
begin

text \<open>
  The properties of the workflows, on the world of traces of \<open>WfBase\<close>: what a workflow enqueues, stores
  and escrows, for every behaviour of its environment.
\<close>

text \<open>A store with two profiles, and an environment in which nothing fails.\<close>

definition demo_profiles :: "string \<rightharpoonup> profile_info \<times> bytes" where
  "demo_profiles =
     [''wifi'' \<mapsto> (\<lparr>pi_identifier = ''com.example.wifi'', pi_uuid = ''1''\<rparr>, ''raw''),
      ''vpn'' \<mapsto> (\<lparr>pi_identifier = ''com.example.vpn'', pi_uuid = ''2''\<rparr>, ''other'')]"

definition demo_oracle :: wf_oracle where
  "demo_oracle =
     \<lparr>or_fail = (\<lambda>_. None), or_id = (\<lambda>_. ''id''), or_now = (\<lambda>_. 0), or_digit = (\<lambda>_. 7), or_validate = (\<lambda>_. Inr ()),
      or_cert = (\<lambda>_. Inr ''cert''), or_prk = (\<lambda>_. Inr ''prk''),
      or_raw = (\<lambda>ns. if ns = [] then Inl ErrNoNames else lookup_all (map_option snd \<circ> demo_profiles) ns),
      or_infos = (\<lambda>ns. if ns = [] then Inr (map_option fst \<circ> demo_profiles)
                      else lookup_all (map_option fst \<circ> demo_profiles) ns)\<rparr>"

lemma demo_oracle_sel [simp]:
  "or_fail demo_oracle h = None" "or_now demo_oracle h = 0" "or_validate demo_oracle r = Inr ()"
  by (simp_all add: demo_oracle_def)

lemma lookup_all_cases:
  "if set ns \<subseteq> dom P then lookup_all (map_option f \<circ> P) ns = Inr ((map_option f \<circ> P) |` set ns)
   else \<exists>e. lookup_all (map_option f \<circ> P) ns = Inl e \<and> errors_is e ErrProfileNotFound"
proof (cases "set ns \<subseteq> dom P")
  case True
  then have "find (\<lambda>n. (map_option f \<circ> P) n = None) ns = None" by (auto simp: find_None_iff)
  with True show ?thesis by (simp add: lookup_all_def)
next
  case False
  then obtain n where "find (\<lambda>n. (map_option f \<circ> P) n = None) ns = Some n"
    by (cases "find (\<lambda>n. (map_option f \<circ> P) n = None) ns") (auto simp: find_None_iff)
  with False show ?thesis by (simp add: lookup_all_def)
qed

lemma demo_answers: "answers_from demo_oracle demo_profiles"
  using lookup_all_cases [of _ demo_profiles fst] lookup_all_cases [of _ demo_profiles snd]
  by (auto simp: answers_from_def demo_oracle_def)

definition demo_result :: "string \<Rightarrow> ctx_value option \<Rightarrow> mdm_response \<Rightarrow> mdm_response wf_step_result" where
  "demo_result name c r =
     \<lparr>wsc_params = Map.empty, wsc_instance_id = ''inst'', wsc_name = name, wsc_context = c, sr_id = ''AAA'',
      sr_command_results = [Some r]\<rparr>"

definition acknowledged :: generic_response where
  "acknowledged = \<lparr>gr_uuid = ''id'', gr_status = ''Acknowledged''\<rparr>"

section \<open>The lock workflow\<close>

text \<open>
  C33: Whatever fails and whenever it fails, the lock workflow never enqueues a lock command for an enrollment
  unless the PIN of that very command was stored in the enrollment's inventory before.
\<close>

theorem lock_escrows_pin_first:
  "pins_escrowed (snd (lock_start (tr_env R) (tr_inventory R) step []))"
proof -
  have "pins_escrowed []" by (simp add: pins_escrowed_def)
  from lock_start_escrows [OF this, of R step] show ?thesis by (auto simp: wp_ex)
qed

section \<open>The FileVault workflows\<close>

lemma install_answer:
  assumes "\<And>h. or_fail R h = None" "or_validate R (InstallProfileResponse g) = Inr ()"
    and "wsc_name (last (enqueued h)) = step_name_install"
  obtains h' se where "fv_answers R sr [InstallProfileResponse g] h = (Inr (), h')" "escrows h' = escrows h"
    "enqueued h' = enqueued h @ [se]" "wsc_name se = step_name_poll" "wsc_context se = Some (IntContext poll_counter)"
proof -
  let ?sr = "sr\<lparr>wsc_name := wsc_name (last (enqueued h)), wsc_context := wsc_context (last (enqueued h)),
           sr_command_results := [Some (InstallProfileResponse g)]\<rparr>"
  obtain h' se where r: "enqueue_poll (tr_env R) ?sr poll_counter h = (Inr (), h')" "escrows h' = escrows h"
    "enqueued h' = enqueued h @ [se]" "wsc_name se = step_name_poll" "wsc_context se = Some (IntContext poll_counter)"
    using enqueue_poll_run [OF assms(1), of ?sr poll_counter h] by blast
  have "fv_answers R sr [InstallProfileResponse g] h = (Inr (), h')"
    using r(1) assms(2,3)
    by (simp add: go_bind_def go_ret_def fvenable_step_completed_def install_step_completed_def tr_env_def go_wrap_def go_lift_def)
  with r that show thesis by blast
qed

lemma fv_answers_append:
  "fv_answers R sr (rs @ rs') h =
     (case fv_answers R sr rs h of (Inr _, h') \<Rightarrow> fv_answers R sr rs' h' | (Inl e, h') \<Rightarrow> (Inl e, h'))"
  by (induction rs arbitrary: h) (simp_all add: go_defs split: prod.splits sum.splits)

text \<open>
  After the profile is installed the FileVault workflow polls 182 times while the device reports no recovery
  key, two more than the counter of 180 says, and it never looks at the answer to the last poll: even one that
  carries the key ends the workflow with an error and the key is not escrowed.
\<close>

theorem last_poll_is_ignored:
  assumes "\<And>h. or_fail R h = None" "or_validate R (InstallProfileResponse g) = Inr ()"
    and "enqueued h \<noteq> []" "wsc_name (last (enqueued h)) = step_name_install"
    and "length rs = 181" "list_all no_key_yet rs"
  shows "\<exists>h' ses. fv_answers R sr (InstallProfileResponse g # rs) h = (Inr (), h') \<and>
           enqueued h' = enqueued h @ ses \<and> length ses = 182 \<and>
           list_all (\<lambda>se. wsc_name se = step_name_poll) ses \<and>
           fv_answers R sr (InstallProfileResponse g # rs @ [SecurityInfoResponse g' si]) h =
             (Inl (Errorf ''maximum poll counter reached, ending workflow'' []), h') \<and>
           escrows h' = escrows h"
proof -
  obtain h1 se where h1: "fv_answers R sr [InstallProfileResponse g] h = (Inr (), h1)" "escrows h1 = escrows h"
    "enqueued h1 = enqueued h @ [se]" "wsc_name se = step_name_poll" "wsc_context se = Some (IntContext poll_counter)"
    using install_answer [OF assms(1,2,4)] .
  obtain h' ses where h': "fv_answers R sr rs h1 = (Inr (), h')" "escrows h' = escrows h1"
    "enqueued h' = enqueued h1 @ ses" "map wsc_name ses = replicate (length rs) step_name_poll"
    "map wsc_context ses = map (\<lambda>k. Some (IntContext (poll_counter - 1 - int k))) [0..<length rs]"
    using polls_run [OF assms(1), of h1 poll_counter rs sr] h1(3-5) assms(5,6)
    by (auto simp: list_all_iff poll_counter_def)
  have len: "length ses = 181" using h'(4) assms(5) by (metis length_map length_replicate)
  have "list_all (\<lambda>n. n = step_name_poll) (map wsc_name (se # ses))"
    by (simp add: h'(4) h1(4) list_all_iff)
  then have names: "list_all (\<lambda>se. wsc_name se = step_name_poll) (se # ses)" by (simp add: list_all_iff)
  have ne: "ses \<noteq> []" using len by auto
  have "wsc_context (last ses) = last (map wsc_context ses)" using ne by (simp add: last_map)
  also have "\<dots> = Some (IntContext (-1))" unfolding h'(5) assms(5) by (simp add: last_map poll_counter_def)
  finally have "wsc_context (last (enqueued h')) = Some (IntContext (-1))" using ne by (simp add: h'(3))
  moreover have "wsc_name (last (enqueued h')) = step_name_poll"
    using names ne by (simp add: h'(3) list_all_iff)
  ultimately have fin: "fv_answers R sr [SecurityInfoResponse g' si] h' =
      (Inl (Errorf ''maximum poll counter reached, ending workflow'' []), h')"
    by (rule poll_exhausted [rotated])
  have "fv_answers R sr (InstallProfileResponse g # rs) h = (Inr (), h')"
    using fv_answers_append [of R sr "[InstallProfileResponse g]" rs h] h1(1) h'(1) by simp
  moreover have "fv_answers R sr (InstallProfileResponse g # rs @ [SecurityInfoResponse g' si]) h =
      (Inl (Errorf ''maximum poll counter reached, ending workflow'' []), h')"
    using fv_answers_append [of R sr "[InstallProfileResponse g] @ rs" "[SecurityInfoResponse g' si]" h]
      calculation fin by simp
  ultimately show ?thesis using h'(2,3) h1(2,3) len names by (intro exI [of _ h'] exI [of _ "se # ses"]) simp
qed

definition no_key :: security_info where
  "no_key = \<lparr>si_sip_enabled = None, si_fde_enabled = Some False, si_prk_cms = None\<rparr>"

definition has_key :: security_info where
  "has_key = \<lparr>si_sip_enabled = None, si_fde_enabled = Some True, si_prk_cms = Some ''cms''\<rparr>"

definition fv_installing :: "wf_io list" where
  "fv_installing =
     [IoEnqueue fvenable_name
        \<lparr>wsc_params = Map.empty, wsc_instance_id = ''inst'', wsc_name = step_name_install, wsc_context = None,
         wse_ids = [''AAA''], wse_commands = [], wse_timeout = 0, wse_not_until = 0\<rparr> True]"

theorem last_poll_is_ignored_witness:
  "\<exists>h'. fv_answers demo_oracle (demo_result [] None (SecurityInfoResponse acknowledged no_key))
          (InstallProfileResponse acknowledged # replicate 181 (SecurityInfoResponse acknowledged no_key) @
             [SecurityInfoResponse acknowledged has_key]) fv_installing =
        (Inl (Errorf ''maximum poll counter reached, ending workflow'' []), h') \<and> escrows h' = []"
proof -
  have H: "or_validate demo_oracle (InstallProfileResponse acknowledged) = Inr ()" "enqueued fv_installing \<noteq> []"
    "wsc_name (last (enqueued fv_installing)) = step_name_install"
    "length (replicate 181 (SecurityInfoResponse acknowledged no_key)) = 181"
    "list_all no_key_yet (replicate 181 (SecurityInfoResponse acknowledged no_key))"
    by (simp_all add: fv_installing_def list_all_iff no_key_yet_def no_key_def bool_ptr_def)
  have "escrows fv_installing = []" by (simp add: escrows_def fv_installing_def List.map_filter_simps)
  then show ?thesis
    using last_poll_is_ignored [OF _ H, of "demo_result [] None (SecurityInfoResponse acknowledged no_key)" acknowledged has_key]
    by fastforce
qed

text \<open>
  An answer that reports FileVault on and carries the encrypted recovery key escrows exactly that key for the
  enrollment and enqueues nothing more, as long as the poll counter has not run below zero.
\<close>

theorem poll_escrows_key:
  assumes "\<And>h. or_fail R h = None" "or_validate R (SecurityInfoResponse g si) = Inr ()"
    and "wsc_name (last (enqueued h)) = step_name_poll" "wsc_context (last (enqueued h)) = Some (IntContext c)" "c \<ge> 0"
    and "si_fde_enabled si = Some True" "si_prk_cms si = Some cms"
  shows "fv_answers R sr [SecurityInfoResponse g si] h = (Inr (), h @ [IoEscrow (sr_id sr) cms True])"
  using assms
  by (simp add: go_defs fvenable_step_completed_def poll_step_completed_def poll_escrow_def tr_env_def tr_fv_def tr_call_def
      step_name_poll_def step_name_install_def bool_ptr_def)

definition fv_polling :: "wf_io list" where
  "fv_polling =
     [IoEnqueue fvenable_name
        \<lparr>wsc_params = Map.empty, wsc_instance_id = ''inst'', wsc_name = step_name_poll, wsc_context = Some (IntContext 3),
         wse_ids = [''AAA''], wse_commands = [], wse_timeout = 0, wse_not_until = 0\<rparr> True]"

theorem poll_escrows_key_witness:
  "fv_answers demo_oracle (demo_result [] None (SecurityInfoResponse acknowledged no_key))
     [SecurityInfoResponse acknowledged has_key] fv_polling = (Inr (), fv_polling @ [IoEscrow ''AAA'' ''cms'' True])"
  using poll_escrows_key [of demo_oracle acknowledged has_key fv_polling 3 "''cms''"
      "demo_result [] None (SecurityInfoResponse acknowledged no_key)"]
  by (simp add: fv_polling_def has_key_def demo_result_def)

text \<open>
  On the key-value profile store the FileVault workflow cannot use its built-in profile: when no profile is
  stored under the workflow's name, it does not start but fails with the profile-not-found error.
\<close>

theorem builtin_profile_unused:
  assumes "kv_laws E view" "kv_laws.prof_rep view (get w) P" "P fvenable_name = None" "put (get w) w = w"
  shows "fvenable_start F fv (kv_profile_storage E get put) step w =
     (Inl (Wrapf ''getting profile: %w'' [] (Wrapf ''retrieving profile %s: %w'' [fvenable_name]
        (Wrapf ''%w: %s: %v'' [fvenable_name] ErrProfileNotFound))), w)"
proof -
  have "retrieve_raw_profiles E [fvenable_name] (get w) =
      (Inl (Wrapf ''%w: %s: %v'' [fvenable_name] ErrProfileNotFound), get w)"
    using kv_laws.retrieve_raw_refines [OF assms(1,2), of "[fvenable_name]"] assms(3)
    by (auto simp: wp_ex lookup_all_def)
  then show ?thesis
    using assms(4) by (simp add: fvenable_start_def fv_profile_template_def kv_profile_storage_def go_zoom_def go_defs)
qed

definition demo_start :: "mdm_response wf_step_start" where
  "demo_start =
     \<lparr>wsc_params = Map.empty, wsc_instance_id = ''inst'', wsc_name = [], wsc_context = None, ss_event = None, ss_ids = [''AAA'']\<rparr>"

theorem builtin_profile_unused_witness:
  "\<forall>F fv. \<exists>e. fvenable_start F fv (kv_profile_storage inmem_env id (\<lambda>b _. b)) demo_start [] = (Inl e, [])"
  using builtin_profile_unused [OF inmem.kv_laws_axioms, of id "[]" Map.empty "\<lambda>b _. b" _ _ demo_start] prof_rep_empty
  by simp

section \<open>The profile workflow\<close>

lemma filter_acts_sets:
  "fst ` {p \<in> set (filter acts (profile_plan s infos items)). snd p = ManageToInstall} = installs s infos items"
  "fst ` {p \<in> set (filter acts (profile_plan s infos items)). snd p = ManageToRemove} = removes s infos items"
  using profile_plan_styles(2,3) [of _ s infos items] by (force simp: acts_def image_iff)+

lemma plan_pairs:
  "(\<lambda>p. (fst p, snd p = ManageToInstall)) ` set (filter acts (profile_plan s infos items)) =
     installs s infos items \<times> {True} \<union> removes s infos items \<times> {False}"
  using profile_plan_styles(2,3) [of _ s infos items] by (force simp: acts_def image_iff)

definition profile_payload ::
  "(string \<rightharpoonup> bytes) \<Rightarrow> (string \<rightharpoonup> profile_info) \<Rightarrow> string \<times> bool \<Rightarrow> string \<Rightarrow> mdm_command option" where
  "profile_payload raws infos p uuid =
     (if snd p then Some (InstallProfileCommand uuid (case raws (fst p) of None \<Rightarrow> [] | Some r \<Rightarrow> r))
      else Some (RemoveProfileCommand uuid (case infos (fst p) of None \<Rightarrow> [] | Some info \<Rightarrow> pi_identifier info)))"

lemma command_for_payload:
  "acts p \<Longrightarrow> command_for raws infos uuid p = profile_payload raws infos (fst p, snd p = ManageToInstall) uuid"
  by (auto simp: acts_def command_for_def profile_payload_def split: manage_style.splits)

lemma commands_payload:
  "list_all acts ps \<Longrightarrow> length us = length ps \<Longrightarrow>
     map2 (command_for raws infos) us ps =
       map2 (profile_payload raws infos) (map (\<lambda>p. (fst p, snd p = ManageToInstall)) ps) us"
proof (induction us ps rule: list_induct2')
  case (4 u us p ps)
  then show ?case by (simp add: command_for_payload)
qed simp_all

lemma payload_cong:
  "list_all (\<lambda>p. if snd p then raws (fst p) = raws' (fst p) else infos (fst p) = infos' (fst p)) ps \<Longrightarrow>
     map2 (profile_payload raws infos) ps us = map2 (profile_payload raws' infos') ps us"
  by (induction ps us rule: list_induct2') (simp_all add: profile_payload_def split: if_splits)

text \<open>
  C34: On a store that holds all the managed profiles, the profile workflow enqueues from the list of installed
  profiles one step, with one install command, carrying the stored bytes, for every managed profile that is not on
  the device in its current version and one remove command, carrying the stored identifier, for every profile to
  remove that is on the device, each name once, and no step when there is nothing to do. It never asks the store
  for the bytes of no profiles, which would be an error. When a managed profile is not stored it fails with the
  profile-not-found error and enqueues nothing.
\<close>

theorem profile_step_exact:
  assumes "sr_command_results sr = [Some (ProfileListResponse g items)]" "wsc_name sr = ''list''"
    and "wsc_context sr = Some (CommaStringSliceContext s)"
    and "or_validate R (ProfileListResponse g items) = Inr ()" "\<And>h. or_fail R h = None"
    and "answers_from R P"
  defines "infos \<equiv> map_option fst \<circ> P" and "raws \<equiv> map_option snd \<circ> P"
  shows "if set (fst (split_install_remove s)) \<subseteq> dom P
         then \<exists>h' ps us. profile_step_completed (tr_env R) (tr_profiles R) sr h = (Inr (), h') \<and>
           set ps = installs s infos items \<times> {True} \<union> removes s infos items \<times> {False} \<and>
           distinct (map fst ps) \<and> length us = length ps \<and>
           map wse_commands (enqueued h') = map wse_commands (enqueued h) @
             (if ps = [] then [] else [map2 (profile_payload raws infos) ps us])
         else \<exists>e. profile_step_completed (tr_env R) (tr_profiles R) sr h = (Inl e, h) \<and> errors_is e ErrProfileNotFound"
proof (cases "set (fst (split_install_remove s)) \<subseteq> dom P")
  case True
  then obtain asked where asked: "or_infos R (fst (split_install_remove s)) = Inr asked"
    "\<forall>n\<in>set (fst (split_install_remove s)). asked n = infos n"
    using answers_fromD(2) [OF assms(6)] unfolding infos_def by fastforce
  note sets = plan_sets_cong [OF asked(2)]
  let ?plan = "profile_plan s asked items"
  let ?qs = "filter acts ?plan" and ?got = "raws |` set (to_install ?plan)"
  let ?ps = "map (\<lambda>p. (fst p, snd p = ManageToInstall)) ?qs"
  let ?raws = "if to_install ?plan = [] then Map.empty else ?got"
  have "set (to_install ?plan) \<subseteq> dom P" using installs_wanted(1) True by (fastforce simp: set_to_install)
  then have raw: "to_install ?plan \<noteq> [] \<Longrightarrow> or_raw R (to_install ?plan) = Inr ?got"
    using answers_fromD(1) [OF assms(6)] unfolding raws_def by blast
  obtain h' us where r: "profile_step_completed (tr_env R) (tr_profiles R) sr h = (Inr (), h')" "length us = length ?qs"
    "map wse_commands (enqueued h') = map wse_commands (enqueued h) @
       (if us = [] then [] else [map2 (command_for ?raws asked) us ?qs])"
    using list_step_run [OF assms(2,1,3,4,5) asked(1) raw, of h] by blast
  have ps: "set ?ps = installs s infos items \<times> {True} \<union> removes s infos items \<times> {False}"
    using plan_pairs sets by simp
  have "map2 (command_for ?raws asked) us ?qs = map2 (profile_payload ?raws asked) ?ps us"
    by (rule commands_payload) (use r(2) in \<open>simp_all add: list_all_iff\<close>)
  also have "\<dots> = map2 (profile_payload raws infos) ?ps us"
  proof (rule payload_cong, unfold list_all_iff, rule ballI)
    fix p assume "p \<in> set ?ps"
    then have p: "if snd p then fst p \<in> installs s infos items else fst p \<in> removes s infos items"
      unfolding ps by (auto split: if_splits)
    show "if snd p then ?raws (fst p) = raws (fst p) else asked (fst p) = infos (fst p)"
    proof (cases "snd p")
      case True
      then have "fst p \<in> set (to_install ?plan)" using p sets by (simp add: set_to_install)
      then show ?thesis using True by auto
    next
      case False
      then show ?thesis using p asked(2) installs_wanted(2) by auto
    qed
  qed
  finally have "map wse_commands (enqueued h') = map wse_commands (enqueued h) @
       (if ?ps = [] then [] else [map2 (profile_payload raws infos) ?ps us])"
    using r(2,3) by (cases us) auto
  moreover have "distinct (map fst ?ps)"
    using profile_plan_styles(1) [of s asked items] by (simp add: comp_def distinct_map_filter)
  moreover have "length us = length ?ps" using r(2) by simp
  ultimately have "\<exists>h' ps us. profile_step_completed (tr_env R) (tr_profiles R) sr h = (Inr (), h') \<and>
           set ps = installs s infos items \<times> {True} \<union> removes s infos items \<times> {False} \<and>
           distinct (map fst ps) \<and> length us = length ps \<and>
           map wse_commands (enqueued h') = map wse_commands (enqueued h) @
             (if ps = [] then [] else [map2 (profile_payload raws infos) ps us])"
    using r(1) ps by blast
  then show ?thesis using True by (simp only: if_True)
next
  case False
  then obtain e where "or_infos R (fst (split_install_remove s)) = Inl e" "errors_is e ErrProfileNotFound"
    using answers_fromD(3) [OF assms(6)] by blast
  with False list_step_fails [OF assms(2,1,3,4), of e h] show ?thesis by auto
qed

text \<open>
  One profile to install and one to remove from a device that has only the second.
\<close>

theorem profile_step_exact_witness:
  "\<exists>h' u v. profile_step_completed (tr_env demo_oracle) (tr_profiles demo_oracle)
          (demo_result ''list'' (Some (CommaStringSliceContext [''wifi'', ''-vpn'']))
            (ProfileListResponse acknowledged [\<lparr>pli_identifier = ''com.example.vpn'', pli_uuid = ''2''\<rparr>])) [] = (Inr (), h') \<and>
        (map wse_commands (enqueued h') =
           [[Some (InstallProfileCommand u ''raw''), Some (RemoveProfileCommand v ''com.example.vpn'')]] \<or>
         map wse_commands (enqueued h') =
           [[Some (RemoveProfileCommand v ''com.example.vpn''), Some (InstallProfileCommand u ''raw'')]])"
proof -
  let ?items = "[\<lparr>pli_identifier = ''com.example.vpn'', pli_uuid = ''2''\<rparr>]"
  let ?s = "[''wifi'', ''-vpn'']"
  let ?sr = "demo_result ''list'' (Some (CommaStringSliceContext ?s)) (ProfileListResponse acknowledged ?items)"
  let ?infos = "map_option fst \<circ> demo_profiles" and ?raws = "map_option snd \<circ> demo_profiles"
  have w: "wanted ?s n = (if n = ''wifi'' then ManageToInstall else if n = ''vpn'' then ManageRemoveReq else ManageNone)" for n
    by (simp add: wanted_def style_of_def split_entry_def has_prefix_def)
  have s: "installs ?s ?infos ?items = {''wifi''}" "removes ?s ?infos ?items = {''vpn''}"
    by (auto simp: installs_def removes_def w current_on_device_def on_device_def demo_profiles_def)
  have stored: "set (fst (split_install_remove ?s)) \<subseteq> dom demo_profiles"
    by (simp add: fst_split split_entry_def has_prefix_def demo_profiles_def)
  have sr: "sr_command_results ?sr = [Some (ProfileListResponse acknowledged ?items)]" "wsc_name ?sr = ''list''"
    "wsc_context ?sr = Some (CommaStringSliceContext ?s)"
    by (simp_all add: demo_result_def)
  obtain h' ps us where r: "profile_step_completed (tr_env demo_oracle) (tr_profiles demo_oracle) ?sr [] = (Inr (), h')"
    "set ps = {''wifi''} \<times> {True} \<union> {''vpn''} \<times> {False}" "distinct (map fst ps)" "length us = length ps"
    "map wse_commands (enqueued h') = map wse_commands (enqueued []) @
       (if ps = [] then [] else [map2 (profile_payload ?raws ?infos) ps us])"
    using profile_step_exact [OF sr demo_oracle_sel(3) demo_oracle_sel(1) demo_answers, of "[]"]
    unfolding if_P [OF stored] s by (elim exE conjE) (rule that)
  have "length ps = 2" using r(2,3) distinct_card [of ps] by (simp add: distinct_map insert_commute)
  then obtain p q where ps: "ps = [p, q]" by (auto simp: length_Suc_conv numeral_2_eq_2)
  then obtain u v where us: "us = [u, v]" using r(4) by (auto simp: length_Suc_conv)
  have cmds: "map wse_commands (enqueued h') = [[profile_payload ?raws ?infos p u, profile_payload ?raws ?infos q v]]"
    using r(5) by (simp add: ps us)
  have pay: "profile_payload ?raws ?infos (''wifi'', True) x = Some (InstallProfileCommand x ''raw'')"
    "profile_payload ?raws ?infos (''vpn'', False) x = Some (RemoveProfileCommand x ''com.example.vpn'')" for x
    by (simp_all add: profile_payload_def demo_profiles_def)
  have "p = (''wifi'', True) \<and> q = (''vpn'', False) \<or> p = (''vpn'', False) \<and> q = (''wifi'', True)"
    using r(2,3) by (auto simp: ps doubleton_eq_iff)
  then show ?thesis
  proof (elim disjE conjE)
    assume "p = (''wifi'', True)" "q = (''vpn'', False)"
    with cmds pay have "map wse_commands (enqueued h') =
        [[Some (InstallProfileCommand u ''raw''), Some (RemoveProfileCommand v ''com.example.vpn'')]]" by simp
    with r(1) show ?thesis by (intro exI [of _ h'] exI [of _ u] exI [of _ v] conjI disjI1)
  next
    assume "p = (''vpn'', False)" "q = (''wifi'', True)"
    with cmds pay have "map wse_commands (enqueued h') =
        [[Some (RemoveProfileCommand u ''com.example.vpn''), Some (InstallProfileCommand v ''raw'')]]" by simp
    with r(1) show ?thesis by (intro exI [of _ h'] exI [of _ v] exI [of _ u] conjI disjI2)
  qed
qed

section \<open>The command plan workflow\<close>

text \<open>
  The commands made from a command plan are one install command with the stored bytes for every profile of
  the plan, in order, then one application command for every manifest URL, each of which carries the URL of the
  last manifest and not its own, then a device-configured command when the plan asks for it and the workflow was
  started by the Enrollment event of a device that awaits configuration.
\<close>

theorem cmd_plan_commands:
  assumes "cpl_profile_names plan \<noteq> [] \<Longrightarrow> or_raw R (cpl_profile_names plan) = Inr raws"
    and "set (cpl_profile_names plan) \<subseteq> dom raws"
  shows "\<exists>h' us ids vs. commands_from_cmd_plan (tr_env R) (tr_profiles R) (Some plan) name e h =
      (Inr (map2 (\<lambda>u n. InstallProfileCommand u (the (raws n))) us (cpl_profile_names plan) @
            map (\<lambda>u. InstallApplicationCommand u (Some 1) (Some (last (cpl_manifest_urls plan)))) ids @
            map DeviceConfiguredCommand vs), h') \<and>
    length us = length (cpl_profile_names plan) \<and> length ids = length (cpl_manifest_urls plan) \<and>
    length vs =
      (if cpl_device_configured plan = Some True \<and>
          (\<exists>tu. e = Some \<lparr>ev_flag = event_enrollment, ev_data = TokenUpdateData (Some tu)\<rparr> \<and> tu_awaiting_configuration tu)
       then 1 else 0)"
  using commands_from_cmd_plan_run [OF assms, of name e h] unfolding device_configured_iff by blast

theorem cmd_plan_commands_witness:
  "\<exists>h' u v. commands_from_cmd_plan (tr_env demo_oracle) (tr_profiles demo_oracle)
       (Some \<lparr>cpl_profile_names = [], cpl_manifest_urls = [''https://a'', ''https://b''], cpl_device_configured = None\<rparr>)
       ''plan'' None [] =
     (Inr [InstallApplicationCommand u (Some 1) (Some ''https://b''),
           InstallApplicationCommand v (Some 1) (Some ''https://b'')], h')"
proof -
  let ?p = "\<lparr>cpl_profile_names = [], cpl_manifest_urls = [''https://a'', ''https://b''], cpl_device_configured = None\<rparr>"
  obtain h' us ids vs where r: "commands_from_cmd_plan (tr_env demo_oracle) (tr_profiles demo_oracle) (Some ?p) ''plan'' None [] =
      (Inr (map2 (\<lambda>u n. InstallProfileCommand u ''raw'') us [] @
            map (\<lambda>u. InstallApplicationCommand u (Some 1) (Some ''https://b'')) ids @ map DeviceConfiguredCommand vs), h')"
    "length us = 0" "length ids = 2" "length vs = 0"
    using cmd_plan_commands [where R = demo_oracle and plan = ?p and raws = "\<lambda>_. Some ''raw''" and name = "''plan''"
        and e = None and h = "[]"] by auto
  then obtain u v where "ids = [u, v]" by (auto simp: length_Suc_conv numeral_2_eq_2)
  then show ?thesis using r by auto
qed

section \<open>The certificate profile workflow\<close>

text \<open>
  C35: When at most one certificate of the device passes the filter, the certificate profile workflow installs the
  profile, with the text replacements applied, exactly when no certificate passes or the one that does is to be
  replaced: always, or because it expires within the seconds of the criteria.
\<close>

theorem certprof_decision:
  assumes "wsc_name sr = []" "sr_command_results sr = [Some (CertificateListResponse g items)]"
    and "wsc_context sr = Some (CertProfContext c)" "certprof_context_validate (Some c) = Inr ()"
    and "or_validate R (CertificateListResponse g items) = Inr ()" "\<And>h. or_fail R h = None"
    and "or_raw R [cp_profile c] = Inr raws"
    and "filter_certs (cp_filter c) items = [] \<or> filter_certs (cp_filter c) items = [item]"
    and "\<And>c'. cp_criteria c = Some c' \<Longrightarrow> until_expiry_seconds c' > 0 \<Longrightarrow> \<exists>t. not_after (cert_data item) = Inr t"
  shows "\<exists>h' uuid. certprof_step_completed wname (tr_env R) (tr_profiles R) not_after sr h = (Inr (), h') \<and>
     map wse_commands (enqueued h') = map wse_commands (enqueued h) @
       (if filter_certs (cp_filter c) items = [] \<or> replaces not_after (cp_criteria c) (or_now R h) item
        then [[Some (InstallProfileCommand uuid
                 (replace_text (case raws (cp_profile c) of None \<Rightarrow> [] | Some p \<Rightarrow> p) (text_replacements c)))]]
        else [])"
  by (rule cert_list_run [OF assms(1-8)]) (rule assms(9))

definition demo_certprof :: certprof_context where
  "demo_certprof =
     \<lparr>no_managed_only = False, cp_profile = ''wifi'', text_replacements = [(''a'', ''o'')],
      cp_filter = Some \<lparr>cn_prefix = ''dev'', allow_non_identity = False\<rparr>, cp_criteria = None\<rparr>"

theorem certprof_decision_witness:
  "\<exists>h' uuid. certprof_step_completed ''wf'' (tr_env demo_oracle) (tr_profiles demo_oracle) (\<lambda>_. Inr 0)
       (demo_result [] (Some (CertProfContext demo_certprof)) (CertificateListResponse acknowledged [])) [] = (Inr (), h') \<and>
     map wse_commands (enqueued h') = [[Some (InstallProfileCommand uuid ''row'')]]"
proof -
  have rep: "replace_text ''raw'' [(''a'', ''o'')] = ''row''"
    by (simp add: replace_text_def replace_step(1) [of _ _ _ "''a''" "''o''"] replace_step(2,3) has_prefix_def)
  have f: "filter_certs (cp_filter demo_certprof) [] = []" by (simp add: demo_certprof_def filter_certs_def)
  have v: "certprof_context_validate (Some demo_certprof) = Inr ()"
    by (simp add: certprof_context_validate_def demo_certprof_def)
  have raws: "or_raw demo_oracle [''wifi''] = Inr ((map_option snd \<circ> demo_profiles) |` {''wifi''})"
    using answers_fromD(1) [OF demo_answers, of "[''wifi'']"] by (simp add: demo_profiles_def)
  show ?thesis
    using certprof_decision [of "demo_result [] (Some (CertProfContext demo_certprof)) (CertificateListResponse acknowledged [])"
        acknowledged "[]" demo_certprof demo_oracle "(map_option snd \<circ> demo_profiles) |` {''wifi''}"
        "\<lparr>cert_common_name = [], cert_data = [], cert_is_identity = False\<rparr>" "\<lambda>_. Inr 0" "''wf''" "[]"] f v raws
    by (simp add: demo_result_def rep demo_certprof_def demo_profiles_def)
qed

end
