(* ===== verification/MySQLTables.thy ===== *)
theory MySQLTables
  imports StorageTypes
begin

text \<open>
  The MySQL backend's database: the tables of \<open>engine/storage/mysql/schema.sql\<close> as the Go code reads
  and writes them (\<open>sqlc/models.go\<close>), the handle with its transactions (\<open>engine/storage/mysql/mysql.go\<close>),
  and what is known of the server and the driver, which are not part of the repository, as a record of
  parameters. A table is the list of its rows; a nullable column is an \<open>option\<close> unless the code reads
  NULL as the empty value (\<open>[]byte\<close>).
\<close>

section \<open>Rows\<close>

record step_row =
  row_id :: int
  row_workflow_name :: string
  row_instance_id :: string
  row_step_name :: "string option"
  row_context :: bytes
  row_not_until :: "time option"
  row_timeout :: "time option"
  row_process_id :: "string option"

record id_command_row =
  ic_enrollment_id :: string
  ic_command_uuid :: string
  ic_step_id :: int
  ic_request_type :: string
  ic_completed :: bool
  ic_result :: bytes
  ic_last_push :: "time option"
  ic_updated_at :: time

record step_command_row =
  sc_command_uuid :: string
  sc_step_id :: int
  sc_command :: bytes
  sc_request_type :: string

record event_row =
  er_event_name :: string
  er_context :: "string option"
  er_event_context :: "string option"
  er_workflow_name :: string
  er_event_type :: string

record status_row =
  ws_enrollment_id :: string
  ws_workflow_name :: string
  ws_last_created_unix :: int

record tables =
  t_steps :: "step_row list"
  t_id_commands :: "id_command_row list"
  t_step_commands :: "step_command_row list"
  t_events :: "event_row list"
  t_status :: "status_row list"

section \<open>The server, the driver and the random source\<close>

text \<open>
  Two strings are equal to the server when their \<open>collation\<close> keys are; \<open>accepts n\<close> says whether a text
  column of \<open>n\<close> characters takes a value; \<open>timestamp\<close> is the instant a \<open>TIMESTAMP\<close> column keeps of a Go
  instant (whole seconds; \<open>None\<close> outside the column's range) and \<open>time_arg\<close> the instant that a query's
  argument carries. \<open>rand_read\<close> is the source \<open>math/rand\<close> reads from. A call to the server may fail before
  the server does anything, or lose its answer after the server has done the work.
\<close>

datatype db_fault = Works | Fails | ReplyLost

record mysql_env =
  collation :: "string \<Rightarrow> string"
  accepts :: "nat \<Rightarrow> string \<Rightarrow> bool"
  timestamp :: "time \<Rightarrow> time option"
  time_arg :: "time \<Rightarrow> time"
  rand_read :: "nat \<Rightarrow> bytes"
  db_fault :: "nat \<Rightarrow> db_fault"

definition sql_eq :: "mysql_env \<Rightarrow> string \<Rightarrow> string \<Rightarrow> bool" where
  "sql_eq E a b \<longleftrightarrow> collation E a = collation E b"

text \<open>
  \<open>MySQLStorage\<close>: the database it is connected to, the next \<open>AUTO_INCREMENT\<close> value of the step table
  (which a rollback does not take back), the calls made so far, the reads of the random source, the
  server's clock (\<open>CURRENT_TIMESTAMP\<close>) and the program's (\<open>time.Now\<close>).
\<close>

record mysql =
  db_tables :: tables
  db_next_id :: int
  db_calls :: nat
  rand_reads :: nat
  server_clock :: time
  go_clock :: time

definition err_no_rows :: error where
  "err_no_rows = Errorf ''sql: no rows in result set'' []"

definition err_db :: error where
  "err_db = Errorf ''database error'' []"

definition db_call :: "mysql_env \<Rightarrow> (mysql, 'a) action \<Rightarrow> (mysql, 'a) action" where
  "db_call E m =
     (\<lambda>s. let s' = s\<lparr>db_calls := Suc (db_calls s)\<rparr> in
        case db_fault E (db_calls s) of
          Works \<Rightarrow> m s'
        | Fails \<Rightarrow> (Inl err_db, s')
        | ReplyLost \<Rightarrow> (Inl err_db, snd (m s')))"

text \<open>
  A query (\<open>QueryContext\<close>), a query of one row (\<open>QueryRowContext\<close> and \<open>Scan\<close>) and a statement
  (\<open>ExecContext\<close>), each given by what it does to the tables. A statement that the server rejects
  changes nothing.
\<close>

definition my_query :: "mysql_env \<Rightarrow> (tables \<Rightarrow> 'a) \<Rightarrow> (mysql, 'a) action" where
  "my_query E q = db_call E (go_read (\<lambda>s. q (db_tables s)))"

definition my_one :: "mysql_env \<Rightarrow> (tables \<Rightarrow> 'a list) \<Rightarrow> (mysql, 'a) action" where
  "my_one E q =
     go_bind (my_query E q) (\<lambda>rows.
     case rows of [] \<Rightarrow> go_fail err_no_rows | r # _ \<Rightarrow> go_ret r)"

definition my_exec :: "mysql_env \<Rightarrow> (time \<Rightarrow> tables \<Rightarrow> tables result) \<Rightarrow> (mysql, unit) action" where
  "my_exec E f =
     db_call E (\<lambda>s. case f (server_clock s) (db_tables s) of
                      Inl e \<Rightarrow> (Inl e, s)
                    | Inr t \<Rightarrow> (Inr (), s\<lparr>db_tables := t\<rparr>))"

section \<open>Transactions\<close>

text \<open>
  \<open>tx\<close>: begin, run \<open>g\<close>, roll back when it returns an error and commit otherwise. The server drops an
  open transaction when it cannot be rolled back or committed, because the connection is gone.
\<close>

definition tx :: "mysql_env \<Rightarrow> (mysql, 'a) action \<Rightarrow> (mysql, 'a) action" where
  "tx E g =
     (\<lambda>s. case go_wrap ''tx begin: %w'' [] (db_call E (go_ret ())) s of
        (Inl e, s) \<Rightarrow> (Inl e, s)
      | (Inr _, s) \<Rightarrow>
          (case g s of
             (Inl e, s') \<Rightarrow>
               (case db_call E (go_ret ()) (s'\<lparr>db_tables := db_tables s\<rparr>) of
                  (Inl rb, s'') \<Rightarrow> (Inl (Wrapf ''tx rollback: %w; while trying to handle error: %v'' [] rb), s'')
                | (Inr _, s'') \<Rightarrow> (Inl (Wrapf ''tx rolled back: %w'' [] e), s''))
           | (Inr x, s') \<Rightarrow>
               (case go_wrap ''tx commit: %w'' []
                       (db_call E (\<lambda>v. (Inr (), v\<lparr>db_tables := db_tables s'\<rparr>)))
                       (s'\<lparr>db_tables := db_tables s\<rparr>) of
                  (Inl e, s'') \<Rightarrow> (Inl e, s'')
                | (Inr _, s'') \<Rightarrow> (Inr x, s''))))"

definition sql_null_string :: "string \<Rightarrow> string option" where
  "sql_null_string s = (if s \<noteq> [] then Some s else None)"

definition null_string :: "string option \<Rightarrow> string" where
  "null_string s = (case s of None \<Rightarrow> [] | Some s \<Rightarrow> s)"

definition sql_null_time :: "time \<Rightarrow> time option" where
  "sql_null_time t = (if is_zero_time t then None else Some t)"

lemma null_string_sql [simp]: "null_string (sql_null_string s) = s"
  by (simp add: null_string_def sql_null_string_def)

end
