(* ===== verification/MySQLQueries.thy ===== *)
theory MySQLQueries
  imports MySQLTables "HOL-Library.Product_Lexorder" "HOL-Library.List_Lexorder" "HOL-Library.Char_ord"
begin

text \<open>
  The statements of \<open>engine/storage/mysql/sqlc\<close>, in the order of \<open>query.sql\<close>, \<open>query_worker.sql\<close> and
  \<open>query_event.sql\<close>, as functions on the tables: a \<open>SELECT\<close> gives its rows (in the order of the table
  where the statement names none), the others the new tables or the server's refusal (a value its column
  does not take, a duplicate key, a foreign key). The argument \<open>now\<close> of a changing statement is
  \<open>CURRENT_TIMESTAMP\<close>, a value of the server's own that is stored as it is; an instant that the program passes
  is converted (\<open>timestamp_null\<close>).
\<close>

section \<open>Statements on one table\<close>

definition sql_update :: "('r \<Rightarrow> bool) \<Rightarrow> ('r \<Rightarrow> 'r) \<Rightarrow> 'r list \<Rightarrow> 'r list" where
  "sql_update P f = map (\<lambda>r. if P r then f r else r)"

text \<open>\<open>UPDATE ... LIMIT 1\<close>\<close>

primrec sql_update_one :: "('r \<Rightarrow> bool) \<Rightarrow> ('r \<Rightarrow> 'r) \<Rightarrow> 'r list \<Rightarrow> 'r list" where
  "sql_update_one P f [] = []"
| "sql_update_one P f (r # rs) = (if P r then f r # rs else r # sql_update_one P f rs)"

definition sql_delete :: "('r \<Rightarrow> bool) \<Rightarrow> 'r list \<Rightarrow> 'r list" where
  "sql_delete P = filter (\<lambda>r. \<not> P r)"

primrec sql_distinct :: "mysql_env \<Rightarrow> string list \<Rightarrow> string list" where
  "sql_distinct E [] = []"
| "sql_distinct E (x # xs) = x # filter (\<lambda>y. \<not> sql_eq E x y) (sql_distinct E xs)"

definition sql_in :: "mysql_env \<Rightarrow> string \<Rightarrow> string list \<Rightarrow> bool" where
  "sql_in E x xs = list_ex (sql_eq E x) xs"

definition err_too_long :: error where "err_too_long = Errorf ''Data too long for column'' []"
definition err_datetime :: error where "err_datetime = Errorf ''Incorrect datetime value'' []"
definition err_duplicate :: error where "err_duplicate = Errorf ''Duplicate entry'' []"
definition err_foreign_key :: error where "err_foreign_key = Errorf ''foreign key constraint fails'' []"

lemmas sql_errors = err_too_long_def err_datetime_def err_duplicate_def err_foreign_key_def

definition accepts_null :: "mysql_env \<Rightarrow> nat \<Rightarrow> string option \<Rightarrow> bool" where
  "accepts_null E n v = (case v of None \<Rightarrow> True | Some s \<Rightarrow> accepts E n s)"

definition timestamp_null :: "mysql_env \<Rightarrow> time option \<Rightarrow> time option result" where
  "timestamp_null E v =
     (case v of None \<Rightarrow> Inr None
      | Some t \<Rightarrow> (case timestamp E t of None \<Rightarrow> Inl err_datetime | Some u \<Rightarrow> Inr (Some u)))"

definition mediumtext :: nat where "mediumtext = 16777215"

text \<open>The key of a row of \<open>id_commands\<close>; an update of a row of it moves \<open>updated_at\<close> when it changes the row.\<close>

definition is_id_command :: "mysql_env \<Rightarrow> string \<Rightarrow> string \<Rightarrow> id_command_row \<Rightarrow> bool" where
  "is_id_command E eid uuid c \<longleftrightarrow> sql_eq E (ic_enrollment_id c) eid \<and> sql_eq E (ic_command_uuid c) uuid"

definition ic_touch :: "time \<Rightarrow> (id_command_row \<Rightarrow> id_command_row) \<Rightarrow> id_command_row \<Rightarrow> id_command_row" where
  "ic_touch now f c = (let c' = f c in if c' = c then c else c'\<lparr>ic_updated_at := now\<rparr>)"

text \<open>Joins: whether a step has an ID and is \<open>P\<close>; whether a step has commands, of either kind.\<close>

definition step_of_id :: "(step_row \<Rightarrow> bool) \<Rightarrow> int \<Rightarrow> tables \<Rightarrow> bool" where
  "step_of_id P i t = list_ex (\<lambda>s. row_id s = i \<and> P s) (t_steps t)"

definition has_id_commands :: "tables \<Rightarrow> int \<Rightarrow> bool" where
  "has_id_commands t i = list_ex (\<lambda>c. ic_step_id c = i) (t_id_commands t)"

definition has_step_commands :: "tables \<Rightarrow> int \<Rightarrow> bool" where
  "has_step_commands t i = list_ex (\<lambda>c. sc_step_id c = i) (t_step_commands t)"

text \<open>Deleting steps: refused when a row of another table refers to one of them.\<close>

definition delete_steps :: "(step_row \<Rightarrow> bool) \<Rightarrow> tables \<Rightarrow> tables result" where
  "delete_steps P t =
     (if list_ex (\<lambda>s. P s \<and> (has_id_commands t (row_id s) \<or> has_step_commands t (row_id s))) (t_steps t)
      then Inl err_foreign_key
      else Inr (t\<lparr>t_steps := sql_delete P (t_steps t)\<rparr>))"

section \<open>\<open>query.sql\<close>\<close>

definition q_get_request_type :: "mysql_env \<Rightarrow> string \<Rightarrow> string \<Rightarrow> tables \<Rightarrow> string list" where
  "q_get_request_type E eid uuid t =
     [ic_request_type c. c \<leftarrow> t_id_commands t, is_id_command E eid uuid c]"

definition q_create_step ::
  "mysql_env \<Rightarrow> string \<Rightarrow> string \<Rightarrow> string option \<Rightarrow> bytes \<Rightarrow> time option \<Rightarrow> time option
    \<Rightarrow> (mysql, int) action" where
  "q_create_step E wname inst name ctx not_until timeout =
     db_call E (\<lambda>s.
       let i = db_next_id s; t = db_tables s; s' = s\<lparr>db_next_id := i + 1\<rparr> in
       if \<not> (accepts E 255 wname \<and> accepts E 255 inst \<and> accepts_null E 255 name \<and> accepts E mediumtext ctx)
       then (Inl err_too_long, s')
       else case timestamp_null E not_until of Inl e \<Rightarrow> (Inl e, s')
       | Inr nu \<Rightarrow> (case timestamp_null E timeout of Inl e \<Rightarrow> (Inl e, s')
       | Inr to \<Rightarrow>
           (Inr i, s'\<lparr>db_tables := t\<lparr>t_steps := t_steps t @
              [\<lparr>row_id = i, row_workflow_name = wname, row_instance_id = inst, row_step_name = name,
                row_context = ctx, row_not_until = nu, row_timeout = to, row_process_id = None\<rparr>]\<rparr>\<rparr>)))"

definition q_create_id_command ::
  "mysql_env \<Rightarrow> string \<Rightarrow> string \<Rightarrow> int \<Rightarrow> string \<Rightarrow> time option \<Rightarrow> time \<Rightarrow> tables \<Rightarrow> tables result" where
  "q_create_id_command E eid uuid step_id req_type last_push now t =
     (if \<not> (accepts E 255 eid \<and> accepts E 127 uuid \<and> accepts E 63 req_type) then Inl err_too_long
      else case timestamp_null E last_push of Inl e \<Rightarrow> Inl e
      | Inr lp \<Rightarrow>
          if list_ex (is_id_command E eid uuid) (t_id_commands t) then Inl err_duplicate
          else if \<not> step_of_id (\<lambda>_. True) step_id t then Inl err_foreign_key
          else Inr (t\<lparr>t_id_commands := t_id_commands t @
                 [\<lparr>ic_enrollment_id = eid, ic_command_uuid = uuid, ic_step_id = step_id,
                   ic_request_type = req_type, ic_completed = False, ic_result = [], ic_last_push = lp,
                   ic_updated_at = now\<rparr>]\<rparr>))"

definition q_delete_id_command_by_workflow ::
  "mysql_env \<Rightarrow> string \<Rightarrow> string \<Rightarrow> time \<Rightarrow> tables \<Rightarrow> tables result" where
  "q_delete_id_command_by_workflow E eid wname now t =
     Inr (t\<lparr>t_id_commands := sql_delete (\<lambda>c.
            step_of_id (\<lambda>s. sql_eq E (row_workflow_name s) wname) (ic_step_id c) t \<and>
            sql_eq E (ic_enrollment_id c) eid) (t_id_commands t)\<rparr>)"

definition q_delete_id_commands :: "mysql_env \<Rightarrow> string \<Rightarrow> time \<Rightarrow> tables \<Rightarrow> tables result" where
  "q_delete_id_commands E eid now t =
     Inr (t\<lparr>t_id_commands := sql_delete (\<lambda>c. sql_eq E (ic_enrollment_id c) eid) (t_id_commands t)\<rparr>)"

definition q_delete_unused_step_commands :: "mysql_env \<Rightarrow> time \<Rightarrow> tables \<Rightarrow> tables result" where
  "q_delete_unused_step_commands E now t =
     Inr (t\<lparr>t_step_commands := sql_delete (\<lambda>sc.
            \<not> list_ex (\<lambda>c. sql_eq E (sc_command_uuid sc) (ic_command_uuid c)) (t_id_commands t))
            (t_step_commands t)\<rparr>)"

definition q_delete_workflow_step_having_no_commands :: "time \<Rightarrow> tables \<Rightarrow> tables result" where
  "q_delete_workflow_step_having_no_commands now t =
     delete_steps (\<lambda>s. \<not> has_id_commands t (row_id s)) t"

definition q_delete_workflow_step_having_no_commands_by_workflow_name ::
  "mysql_env \<Rightarrow> string \<Rightarrow> time \<Rightarrow> tables \<Rightarrow> tables result" where
  "q_delete_workflow_step_having_no_commands_by_workflow_name E wname now t =
     delete_steps (\<lambda>s. \<not> has_id_commands t (row_id s) \<and> sql_eq E (row_workflow_name s) wname) t"

definition q_delete_workflow_step_having_no_commands_by_step_id ::
  "int \<Rightarrow> time \<Rightarrow> tables \<Rightarrow> tables result" where
  "q_delete_workflow_step_having_no_commands_by_step_id i now t =
     delete_steps (\<lambda>s. \<not> has_id_commands t (row_id s) \<and> row_id s = i) t"

definition q_update_id_command_timestamp ::
  "mysql_env \<Rightarrow> string \<Rightarrow> string \<Rightarrow> time \<Rightarrow> tables \<Rightarrow> tables result" where
  "q_update_id_command_timestamp E eid uuid now t =
     Inr (t\<lparr>t_id_commands := sql_update_one (is_id_command E eid uuid) (\<lambda>c. c\<lparr>ic_updated_at := now\<rparr>)
            (t_id_commands t)\<rparr>)"

definition q_update_id_command ::
  "mysql_env \<Rightarrow> bool \<Rightarrow> bytes \<Rightarrow> string \<Rightarrow> string \<Rightarrow> time \<Rightarrow> tables \<Rightarrow> tables result" where
  "q_update_id_command E completed report eid uuid now t =
     (if list_ex (is_id_command E eid uuid) (t_id_commands t) \<and> \<not> accepts E mediumtext report
      then Inl err_too_long
      else Inr (t\<lparr>t_id_commands := sql_update_one (is_id_command E eid uuid)
             (ic_touch now (\<lambda>c. c\<lparr>ic_completed := completed, ic_result := report\<rparr>)) (t_id_commands t)\<rparr>))"

definition q_count_outstanding_id_workflow_step_commands ::
  "mysql_env \<Rightarrow> string \<Rightarrow> string \<Rightarrow> tables \<Rightarrow> (int \<times> int) list" where
  "q_count_outstanding_id_workflow_step_commands E eid uuid t =
     (let joined = [ic_step_id c1. c1 \<leftarrow> t_id_commands t, c2 \<leftarrow> t_id_commands t,
                      ic_step_id c1 = ic_step_id c2 \<and> sql_eq E (ic_enrollment_id c1) eid \<and>
                      \<not> ic_completed c1 \<and> sql_eq E (ic_enrollment_id c2) (ic_enrollment_id c1) \<and>
                      sql_eq E (ic_command_uuid c2) uuid] in
      take 1 (map (\<lambda>i. (int (count_list joined i), i)) (remdups joined)))"

definition q_get_step_by_id :: "int \<Rightarrow> tables \<Rightarrow> (string \<times> string \<times> string option \<times> bytes) list" where
  "q_get_step_by_id i t =
     [(row_workflow_name s, row_instance_id s, row_step_name s, row_context s).
        s \<leftarrow> t_steps t, row_id s = i]"

text \<open>A \<open>LEFT JOIN\<close> gives a row of the left table once for each partner, and once when it has none.\<close>

definition q_get_id_commands_by_step_id_and_lock ::
  "mysql_env \<Rightarrow> string \<Rightarrow> int \<Rightarrow> tables \<Rightarrow> (string \<times> string \<times> bytes) list" where
  "q_get_id_commands_by_step_id_and_lock E eid i t =
     concat [replicate (max 1 (length [sc \<leftarrow> t_step_commands t. sc_step_id sc = row_id s]))
               (ic_command_uuid c, ic_request_type c, ic_result c).
             c \<leftarrow> t_id_commands t, s \<leftarrow> t_steps t,
             ic_step_id c = row_id s \<and> sql_eq E (ic_enrollment_id c) eid \<and> row_id s = i \<and> ic_completed c]"

definition q_remove_id_commands_by_step_id ::
  "mysql_env \<Rightarrow> string \<Rightarrow> int \<Rightarrow> time \<Rightarrow> tables \<Rightarrow> tables result" where
  "q_remove_id_commands_by_step_id E eid i now t =
     Inr (t\<lparr>t_id_commands := sql_delete (\<lambda>c. sql_eq E (ic_enrollment_id c) eid \<and> ic_step_id c = i)
            (t_id_commands t)\<rparr>)"

definition q_create_step_command ::
  "mysql_env \<Rightarrow> int \<Rightarrow> string \<Rightarrow> string \<Rightarrow> bytes \<Rightarrow> time \<Rightarrow> tables \<Rightarrow> tables result" where
  "q_create_step_command E i uuid req_type command now t =
     (if \<not> (accepts E 127 uuid \<and> accepts E 63 req_type \<and> accepts E mediumtext command) then Inl err_too_long
      else if list_ex (\<lambda>sc. sql_eq E (sc_command_uuid sc) uuid \<and> sc_step_id sc = i) (t_step_commands t)
        then Inl err_duplicate
      else if \<not> step_of_id (\<lambda>_. True) i t then Inl err_foreign_key
      else Inr (t\<lparr>t_step_commands := t_step_commands t @
             [\<lparr>sc_command_uuid = uuid, sc_step_id = i, sc_command = command, sc_request_type = req_type\<rparr>]\<rparr>))"

definition q_get_outstanding_ids :: "mysql_env \<Rightarrow> string list \<Rightarrow> string \<Rightarrow> tables \<Rightarrow> string list" where
  "q_get_outstanding_ids E ids wname t =
     sql_distinct E [ic_enrollment_id c. c \<leftarrow> t_id_commands t, s \<leftarrow> t_steps t,
       row_id s = ic_step_id c \<and> sql_in E (ic_enrollment_id c) ids \<and> \<not> ic_completed c \<and>
       sql_eq E (row_workflow_name s) wname]"

definition q_get_workflow_last_started :: "mysql_env \<Rightarrow> string \<Rightarrow> string \<Rightarrow> tables \<Rightarrow> int list" where
  "q_get_workflow_last_started E eid wname t =
     [ws_last_created_unix r. r \<leftarrow> t_status t,
        sql_eq E (ws_enrollment_id r) eid \<and> sql_eq E (ws_workflow_name r) wname]"

definition q_clear_workflow_status :: "mysql_env \<Rightarrow> string \<Rightarrow> time \<Rightarrow> tables \<Rightarrow> tables result" where
  "q_clear_workflow_status E eid now t =
     Inr (t\<lparr>t_status := sql_delete (\<lambda>r. sql_eq E (ws_enrollment_id r) eid) (t_status t)\<rparr>)"

section \<open>\<open>query_worker.sql\<close>\<close>

text \<open>A comparison with NULL is not true.\<close>

definition is_process :: "string \<Rightarrow> step_row \<Rightarrow> bool" where
  "is_process p s \<longleftrightarrow> row_process_id s = Some p"

definition q_update_step_after_not_until ::
  "mysql_env \<Rightarrow> string \<Rightarrow> time \<Rightarrow> time \<Rightarrow> tables \<Rightarrow> tables result" where
  "q_update_step_after_not_until E p at now t =
     Inr (t\<lparr>t_steps := sql_update
            (\<lambda>s. row_process_id s = None \<and>
                 (case row_not_until s of None \<Rightarrow> False | Some u \<Rightarrow> u < time_arg E at))
            (\<lambda>s. s\<lparr>row_process_id := Some p\<rparr>) (t_steps t)\<rparr>)"

definition q_get_steps_by_process_id ::
  "string \<Rightarrow> tables \<Rightarrow> (int \<times> string \<times> string \<times> string option) list" where
  "q_get_steps_by_process_id p t =
     [(row_id s, row_workflow_name s, row_instance_id s, row_step_name s). s \<leftarrow> t_steps t, is_process p s]"

definition q_get_step_commands_by_process_id ::
  "string \<Rightarrow> tables \<Rightarrow> (int \<times> string \<times> string \<times> bytes) list" where
  "q_get_step_commands_by_process_id p t =
     [(sc_step_id sc, sc_command_uuid sc, sc_request_type sc, sc_command sc).
        sc \<leftarrow> t_step_commands t, s \<leftarrow> t_steps t, sc_step_id sc = row_id s \<and> is_process p s]"

definition q_get_id_command_ids_by_process_id :: "string \<Rightarrow> tables \<Rightarrow> (int \<times> string) list" where
  "q_get_id_command_ids_by_process_id p t =
     [(ic_step_id c, ic_enrollment_id c).
        c \<leftarrow> t_id_commands t, s \<leftarrow> t_steps t, ic_step_id c = row_id s \<and> is_process p s]"

definition q_remove_step_commands_by_process_id :: "string \<Rightarrow> time \<Rightarrow> tables \<Rightarrow> tables result" where
  "q_remove_step_commands_by_process_id p now t =
     Inr (t\<lparr>t_step_commands := sql_delete (\<lambda>sc. step_of_id (is_process p) (sc_step_id sc) t)
            (t_step_commands t)\<rparr>)"

definition q_update_last_push_by_process_id :: "string \<Rightarrow> time \<Rightarrow> tables \<Rightarrow> tables result" where
  "q_update_last_push_by_process_id p now t =
     Inr (t\<lparr>t_id_commands := sql_update (\<lambda>c. step_of_id (is_process p) (ic_step_id c) t)
            (ic_touch now (\<lambda>c. c\<lparr>ic_last_push := Some now\<rparr>)) (t_id_commands t)\<rparr>)"

definition q_update_step_after_timeout ::
  "mysql_env \<Rightarrow> string \<Rightarrow> time \<Rightarrow> time \<Rightarrow> tables \<Rightarrow> tables result" where
  "q_update_step_after_timeout E p at now t =
     Inr (t\<lparr>t_steps := sql_update
            (\<lambda>s. row_process_id s = None \<and>
                 (case row_timeout s of None \<Rightarrow> False | Some u \<Rightarrow> u \<le> time_arg E at))
            (\<lambda>s. s\<lparr>row_process_id := Some p\<rparr>) (t_steps t)\<rparr>)"

definition q_get_steps_with_context_by_process_id ::
  "string \<Rightarrow> tables \<Rightarrow> (int \<times> string \<times> string \<times> string option \<times> bytes) list" where
  "q_get_steps_with_context_by_process_id p t =
     [(row_id s, row_workflow_name s, row_instance_id s, row_step_name s, row_context s).
        s \<leftarrow> t_steps t, is_process p s]"

definition q_get_id_command_details_by_process_id :: "mysql_env \<Rightarrow> string \<Rightarrow> tables \<Rightarrow> id_command_row list" where
  "q_get_id_command_details_by_process_id E p t =
     sort_key (\<lambda>c. (ic_step_id c, collation E (ic_enrollment_id c)))
       [c. c \<leftarrow> t_id_commands t, s \<leftarrow> t_steps t, ic_step_id c = row_id s \<and> is_process p s]"

definition q_remove_id_commands_by_process_id :: "string \<Rightarrow> time \<Rightarrow> tables \<Rightarrow> tables result" where
  "q_remove_id_commands_by_process_id p now t =
     Inr (t\<lparr>t_id_commands := sql_delete (\<lambda>c. step_of_id (is_process p) (ic_step_id c) t) (t_id_commands t)\<rparr>)"

definition q_remove_steps_by_process_id :: "string \<Rightarrow> time \<Rightarrow> tables \<Rightarrow> tables result" where
  "q_remove_steps_by_process_id p now t = delete_steps (is_process p) t"

definition pushed_before :: "mysql_env \<Rightarrow> time option \<Rightarrow> id_command_row \<Rightarrow> bool" where
  "pushed_before E if_before c =
     (case ic_last_push c of None \<Rightarrow> False
      | Some lp \<Rightarrow> (case if_before of None \<Rightarrow> False | Some b \<Rightarrow> lp < time_arg E b))"

definition q_get_repush_ids :: "mysql_env \<Rightarrow> time option \<Rightarrow> tables \<Rightarrow> string list" where
  "q_get_repush_ids E if_before t =
     sql_distinct E [ic_enrollment_id c. c \<leftarrow> t_id_commands t, pushed_before E if_before c]"

definition q_update_repush_ids ::
  "mysql_env \<Rightarrow> time option \<Rightarrow> time option \<Rightarrow> time \<Rightarrow> tables \<Rightarrow> tables result" where
  "q_update_repush_ids E last_push if_before now t =
     (if \<not> list_ex (pushed_before E if_before) (t_id_commands t) then Inr t
      else case timestamp_null E last_push of Inl e \<Rightarrow> Inl e
      | Inr lp \<Rightarrow>
          Inr (t\<lparr>t_id_commands := sql_update (pushed_before E if_before)
                 (ic_touch now (\<lambda>c. c\<lparr>ic_last_push := lp\<rparr>)) (t_id_commands t)\<rparr>))"

section \<open>\<open>query_event.sql\<close>\<close>

definition q_get_events_by_names :: "mysql_env \<Rightarrow> string list \<Rightarrow> tables \<Rightarrow> event_row list" where
  "q_get_events_by_names E names t = [r \<leftarrow> t_events t. sql_in E (er_event_name r) names]"

definition q_get_events_by_type :: "mysql_env \<Rightarrow> string \<Rightarrow> tables \<Rightarrow> event_row list" where
  "q_get_events_by_type E ty t = [r \<leftarrow> t_events t. sql_eq E (er_event_type r) ty]"

definition q_remove_event :: "mysql_env \<Rightarrow> string \<Rightarrow> time \<Rightarrow> tables \<Rightarrow> tables result" where
  "q_remove_event E name now t =
     Inr (t\<lparr>t_events := sql_delete (\<lambda>r. sql_eq E (er_event_name r) name) (t_events t)\<rparr>)"

end
