(* ===== verification/MySQLStorage.thy ===== *)
theory MySQLStorage
  imports MySQLQueries
begin

text \<open>
  \<open>engine/storage/mysql/storage.go\<close>, \<open>worker.go\<close> and \<open>event.go\<close>: the MySQL backend of the workflow
  engine, operation by operation, over the statements of \<open>MySQLQueries\<close>. A Go map that is ranged over is
  an association list.
\<close>

section \<open>Responses\<close>

definition my_retrieve_command_request_type ::
  "mysql_env \<Rightarrow> string \<Rightarrow> string \<Rightarrow> (mysql, string \<times> bool) action" where
  "my_retrieve_command_request_type E eid uuid =
     (if eid = [] \<or> uuid = [] then go_fail (Errorf ''empty id or command uuid'' [])
      else
        go_bind (go_try (my_one E (q_get_request_type E eid uuid))) (\<lambda>r.
        case r of
          Inl e \<Rightarrow> if errors_is e err_no_rows then go_ret ([], False) else go_fail e
        | Inr rt \<Rightarrow> go_ret (rt, rt \<noteq> [])))"

definition db_result :: "string \<times> string \<times> bytes \<Rightarrow> command_result" where
  "db_result r =
     (case r of (uuid, rt, report) \<Rightarrow>
        \<lparr>cr_uuid = uuid, cr_request_type = rt, cr_report = report, cr_completed = True\<rparr>)"

text \<open>The transaction that takes a completed step out of the database.\<close>

definition my_complete_step ::
  "mysql_env \<Rightarrow> string \<Rightarrow> command_result \<Rightarrow> int \<Rightarrow> (mysql, step_result) action" where
  "my_complete_step E eid sc step_id =
     go_bind (go_wrap ''get step by id (%d): %w'' [itoa step_id] (my_one E (q_get_step_by_id step_id)))
       (\<lambda>(wname, inst, name, ctx).
     go_bind (go_wrap ''get id commands by step by id (%d): %w'' [itoa step_id]
                (my_query E (q_get_id_commands_by_step_id_and_lock E eid step_id))) (\<lambda>rows.
     go_bind (go_wrap ''remove id commands by step by id (%d): %w'' [itoa step_id]
                (my_exec E (q_remove_id_commands_by_step_id E eid step_id))) (\<lambda>_.
     go_bind (go_wrap ''delete workflow with no commands (%d): %w'' [itoa step_id]
                (my_exec E (q_delete_workflow_step_having_no_commands_by_step_id step_id))) (\<lambda>_.
     go_ret \<lparr>ctx_workflow_name = wname, ctx_instance_id = inst, ctx_name = null_string name,
             ctx_context = ctx, res_ids = [eid], res_commands = sc # map db_result rows\<rparr>))))"

text \<open>
  The operation has two parts between which other operations may run, as only the second is in a
  transaction: counting the outstanding commands, and acting on the count.
\<close>

definition my_count_outstanding ::
  "mysql_env \<Rightarrow> string \<Rightarrow> command_result \<Rightarrow> (mysql, int \<times> int) action" where
  "my_count_outstanding E eid sc =
     go_wrap ''counting outstanding id workflow steps: %w'' []
       (my_one E (q_count_outstanding_id_workflow_step_commands E eid (cr_uuid sc)))"

definition my_act_on_count ::
  "mysql_env \<Rightarrow> string \<Rightarrow> command_result \<Rightarrow> int \<times> int \<Rightarrow> (mysql, step_result option) action" where
  "my_act_on_count E eid sc cmd_ct =
     (case cmd_ct of (count, step_id) \<Rightarrow>
       if step_id < 1 then go_fail (Errorf ''no step ID found (id=%s, uuid=%s)'' [eid, cr_uuid sc])
       else if count > 1 then
         go_bind (go_wrap ''updating id command: %w'' []
                    (my_exec E (q_update_id_command E (cr_completed sc) (cr_report sc) eid (cr_uuid sc)))) (\<lambda>_.
         go_ret None)
       else
         go_bind (go_wrap ''tx step completed: %w'' [] (tx E (my_complete_step E eid sc step_id))) (\<lambda>ret.
         go_ret (Some ret)))"

definition my_store_command_response ::
  "mysql_env \<Rightarrow> string \<Rightarrow> command_result option \<Rightarrow> (mysql, step_result option) action" where
  "my_store_command_response E eid sc =
     (case sc of None \<Rightarrow> go_fail (Errorf ''nil storage command'' [])
      | Some sc \<Rightarrow>
          if \<not> cr_completed sc then
            go_bind (go_wrap ''updating id command timestamp: %w'' []
                       (my_exec E (q_update_id_command_timestamp E eid (cr_uuid sc)))) (\<lambda>_.
            go_ret None)
          else
            go_bind (my_count_outstanding E eid sc) (\<lambda>cmd_ct. my_act_on_count E eid sc cmd_ct))"

section \<open>Storing a step\<close>

definition my_store_id_command ::
  "mysql_env \<Rightarrow> step_config \<Rightarrow> time \<Rightarrow> int \<Rightarrow> command_raw \<Rightarrow> string \<Rightarrow> (mysql, unit) action" where
  "my_store_id_command E step push_time step_id sc eid =
     go_wrap ''creating id command: %w'' []
       (my_exec E (q_create_id_command E eid (raw_uuid sc) step_id (raw_request_type sc)
          (if is_zero_time (cfg_not_until step) then Some push_time else None)))"

definition my_store_step_command ::
  "mysql_env \<Rightarrow> step_config \<Rightarrow> time \<Rightarrow> int \<Rightarrow> command_raw \<Rightarrow> (mysql, unit) action" where
  "my_store_step_command E step push_time step_id sc =
     go_bind (if \<not> is_zero_time (cfg_not_until step)
              then go_wrap ''creating step command: %w'' []
                     (my_exec E (q_create_step_command E step_id (raw_uuid sc) (raw_request_type sc)
                        (raw_command sc)))
              else go_ret ()) (\<lambda>_.
     go_for (enq_ids step) (my_store_id_command E step push_time step_id sc))"

definition my_store_step ::
  "mysql_env \<Rightarrow> step_config option \<Rightarrow> time \<Rightarrow> (mysql, unit) action" where
  "my_store_step E step push_time =
     go_bind (go_wrap ''validating step: %w'' [] (go_lift (validate_step_config step))) (\<lambda>_.
     case step of None \<Rightarrow> go_ret () | Some step \<Rightarrow>
     tx E (
       go_bind (go_wrap ''creating step: %w'' []
                  (q_create_step E (ctx_workflow_name step) (ctx_instance_id step)
                     (sql_null_string (ctx_name step)) (ctx_context step)
                     (sql_null_time (cfg_not_until step)) (sql_null_time (cfg_step_timeout step)))) (\<lambda>step_id.
       go_for (enq_commands step) (my_store_step_command E step push_time step_id))))"

section \<open>Outstanding steps and cancellation\<close>

definition my_retrieve_outstanding_workflow_status ::
  "mysql_env \<Rightarrow> string \<Rightarrow> string list \<Rightarrow> (mysql, string list) action" where
  "my_retrieve_outstanding_workflow_status E name ids =
     go_wrap ''getting outstanding ids (%d): %w'' [digits (length ids)]
       (my_query E (q_get_outstanding_ids E ids name))"

definition my_cancel_steps :: "mysql_env \<Rightarrow> string \<Rightarrow> string \<Rightarrow> (mysql, unit) action" where
  "my_cancel_steps E eid name =
     (if eid = [] then go_fail (Errorf ''must supply both id and workflow name'' [])
      else tx E (
        go_bind (if name \<noteq> []
                 then go_wrap ''delete id command by workflow (%s, %s): %w'' [eid, name]
                        (my_exec E (q_delete_id_command_by_workflow E eid name))
                 else go_wrap ''delete id command (%s): %w'' [eid]
                        (my_exec E (q_delete_id_commands E eid))) (\<lambda>_.
        go_bind (go_wrap ''delete unused step commands: %w'' []
                   (my_exec E (q_delete_unused_step_commands E))) (\<lambda>_.
        go_wrap ''delete workflow step having no commands (%s): %w'' [name]
          (if name \<noteq> []
           then my_exec E (q_delete_workflow_step_having_no_commands_by_workflow_name E name)
           else my_exec E q_delete_workflow_step_having_no_commands)))))"

section \<open>Workflow status\<close>

text \<open>\<open>Time.Unix\<close> and \<open>time.Unix\<close>: whole seconds since 1970, which begins 62135596800 seconds after Go's zero time.\<close>

definition unix_seconds :: "time \<Rightarrow> int" where
  "unix_seconds t = t div 1000000000 - 62135596800"

definition unix_time :: "int \<Rightarrow> time" where
  "unix_time n = (n + 62135596800) * 1000000000"

definition my_retrieve_workflow_started ::
  "mysql_env \<Rightarrow> string \<Rightarrow> string \<Rightarrow> (mysql, time) action" where
  "my_retrieve_workflow_started E eid name =
     go_bind (go_try (my_one E (q_get_workflow_last_started E eid name))) (\<lambda>r.
     case r of
       Inl e \<Rightarrow> if errors_is e err_no_rows then go_ret 0 else go_fail e
     | Inr epoch \<Rightarrow> go_ret (unix_time epoch))"

text \<open>\<open>INSERT ... ON DUPLICATE KEY UPDATE\<close> of one row for every enrollment: one statement.\<close>

definition upsert_status :: "mysql_env \<Rightarrow> string \<Rightarrow> int \<Rightarrow> string \<Rightarrow> status_row list \<Rightarrow> status_row list" where
  "upsert_status E name secs eid rows =
     (let same = (\<lambda>r. sql_eq E (ws_enrollment_id r) eid \<and> sql_eq E (ws_workflow_name r) name) in
      if list_ex same rows then sql_update same (\<lambda>r. r\<lparr>ws_last_created_unix := secs\<rparr>) rows
      else rows @ [\<lparr>ws_enrollment_id = eid, ws_workflow_name = name, ws_last_created_unix = secs\<rparr>])"

definition insert_statuses ::
  "mysql_env \<Rightarrow> string list \<Rightarrow> string \<Rightarrow> int \<Rightarrow> time \<Rightarrow> tables \<Rightarrow> tables result" where
  "insert_statuses E ids name secs now t =
     (if \<not> list_all (\<lambda>eid. accepts E 255 eid \<and> accepts E 255 name) ids then Inl err_too_long
      else Inr (t\<lparr>t_status := fold (upsert_status E name secs) ids (t_status t)\<rparr>))"

definition my_record_workflow_started ::
  "mysql_env \<Rightarrow> string list \<Rightarrow> string \<Rightarrow> time \<Rightarrow> (mysql, unit) action" where
  "my_record_workflow_started E ids name started =
     (if length ids < 1 then go_fail (Errorf ''no id(s) provided'' [])
      else my_exec E (insert_statuses E ids name (unix_seconds started)))"

definition my_clear_workflow_status :: "mysql_env \<Rightarrow> string \<Rightarrow> (mysql, unit) action" where
  "my_clear_workflow_status E eid = my_exec E (q_clear_workflow_status E eid)"

section \<open>The worker's operations\<close>

definition hex_digit :: "nat \<Rightarrow> char" where
  "hex_digit n = ''0123456789abcdef'' ! (n mod 16)"

definition hex_encode :: "bytes \<Rightarrow> string" where
  "hex_encode p = concat (map (\<lambda>c. [hex_digit (of_char c div 16), hex_digit (of_char c)]) p)"

definition process_id :: "mysql_env \<Rightarrow> string \<Rightarrow> nat \<Rightarrow> string" where
  "process_id E prefix k = prefix @ ''.'' @ hex_encode (rand_read E k)"

definition rand_hex_string :: "mysql_env \<Rightarrow> string \<Rightarrow> (mysql, string) action" where
  "rand_hex_string E prefix =
     (\<lambda>s. (Inr (process_id E prefix (rand_reads s)), s\<lparr>rand_reads := Suc (rand_reads s)\<rparr>))"

text \<open>An entry of a map of pointers, changed through the pointer; nothing happens when there is none.\<close>

definition map_entry_at :: "'k \<Rightarrow> ('v \<Rightarrow> 'v) \<Rightarrow> ('k \<times> 'v) list \<Rightarrow> ('k \<times> 'v) list" where
  "map_entry_at k f m = map (\<lambda>(k', v). (k', if k' = k then f v else v)) m"

definition empty_enqueueing :: "string \<Rightarrow> string \<Rightarrow> string option \<Rightarrow> step_enqueueing" where
  "empty_enqueueing wname inst name =
     \<lparr>ctx_workflow_name = wname, ctx_instance_id = inst, ctx_name = null_string name, ctx_context = [],
      enq_ids = [], enq_commands = []\<rparr>"

definition add_enrollment :: "string \<Rightarrow> step_enqueueing \<Rightarrow> step_enqueueing" where
  "add_enrollment eid se = se\<lparr>enq_ids := enq_ids se @ [eid]\<rparr>"

definition add_command :: "command_raw \<Rightarrow> step_enqueueing \<Rightarrow> step_enqueueing" where
  "add_command c se = se\<lparr>enq_commands := enq_commands se @ [c]\<rparr>"

definition released_steps ::
  "(int \<times> string \<times> string \<times> string option) list \<Rightarrow> (int \<times> string) list
    \<Rightarrow> (int \<times> string \<times> string \<times> bytes) list \<Rightarrow> step_enqueueing list" where
  "released_steps steps cmd_ids cmds =
     (let m = fold (\<lambda>(i, wname, inst, name). AList.update i (empty_enqueueing wname inst name)) steps [];
          m = fold (\<lambda>(i, eid). map_entry_at i (add_enrollment eid)) cmd_ids m;
          m = fold (\<lambda>(i, uuid, rt, raw). map_entry_at i (add_command
                 \<lparr>raw_uuid = uuid, raw_request_type = rt, raw_command = raw\<rparr>)) cmds m
      in map snd m)"

definition my_retrieve_steps_to_enqueue ::
  "mysql_env \<Rightarrow> time \<Rightarrow> (mysql, step_enqueueing list) action" where
  "my_retrieve_steps_to_enqueue E push_time =
     (if is_zero_time push_time then go_fail (Errorf ''empty push time'' [])
      else tx E (
        go_bind (rand_hex_string E ''notu'') (\<lambda>p.
        go_bind (go_wrap ''update step with not until proc (%s): %w'' [p]
                   (my_exec E (q_update_step_after_not_until E p push_time))) (\<lambda>_.
        go_bind (go_wrap ''get step: %w'' [] (my_query E (q_get_steps_by_process_id p))) (\<lambda>steps.
        go_bind (go_wrap ''get command ids: %w'' [] (my_query E (q_get_id_command_ids_by_process_id p)))
          (\<lambda>cmd_ids.
        go_bind (go_wrap ''get step commands: %w'' []
                   (my_query E (q_get_step_commands_by_process_id p))) (\<lambda>cmds.
        go_bind (go_wrap ''remove step commands by not until proc (%s): %w'' [p]
                   (my_exec E (q_remove_step_commands_by_process_id p))) (\<lambda>_.
        go_bind (go_wrap ''update last push by not until proc (%s): %w'' [p]
                   (my_exec E (q_update_last_push_by_process_id p))) (\<lambda>_.
        go_ret (released_steps steps cmd_ids cmds))))))))))"

definition result_of_row :: "id_command_row \<Rightarrow> command_result" where
  "result_of_row c =
     \<lparr>cr_uuid = ic_command_uuid c, cr_request_type = ic_request_type c, cr_report = ic_result c,
      cr_completed = ic_completed c\<rparr>"

definition timed_out_body ::
  "(int \<times> step_context) list \<Rightarrow> id_command_row \<Rightarrow> (string \<times> step_result) list
    \<Rightarrow> (string \<times> step_result) list" where
  "timed_out_body contexts c rs =
     (case map_of contexts (ic_step_id c) of
        None \<Rightarrow> rs
      | Some sc \<Rightarrow>
          let rs' = (if map_of rs (ic_enrollment_id c) = None
                     then rs @ [(ic_enrollment_id c,
                       step_context.extend sc (step_result.fields [ic_enrollment_id c] []))]
                     else rs)
          in map_entry_at (ic_enrollment_id c)
               (\<lambda>r. r\<lparr>res_commands := res_commands r @ [result_of_row c]\<rparr>) rs')"

definition timed_out_steps ::
  "(int \<times> string \<times> string \<times> string option \<times> bytes) list \<Rightarrow> id_command_row list \<Rightarrow> step_result list" where
  "timed_out_steps steps cmds =
     (let contexts = fold (\<lambda>(i, wname, inst, name, ctx). AList.update i
            \<lparr>ctx_workflow_name = wname, ctx_instance_id = inst, ctx_name = null_string name,
             ctx_context = ctx\<rparr>) steps []
      in map snd (fold (timed_out_body contexts) cmds []))"

definition my_retrieve_timed_out_steps :: "mysql_env \<Rightarrow> (mysql, step_result list) action" where
  "my_retrieve_timed_out_steps E =
     go_bind (go_read go_clock) (\<lambda>now.
     tx E (
       go_bind (rand_hex_string E ''tout'') (\<lambda>p.
       go_bind (go_wrap ''update step with not until proc (%s): %w'' [p]
                  (my_exec E (q_update_step_after_timeout E p now))) (\<lambda>_.
       go_bind (go_wrap ''get step: %w'' [] (my_query E (q_get_steps_with_context_by_process_id p))) (\<lambda>steps.
       go_bind (go_wrap ''get command ids: %w'' []
                  (my_query E (q_get_id_command_details_by_process_id E p))) (\<lambda>cmds.
       go_bind (go_wrap ''remove step commands by timeout proc (%s): %w'' [p]
                  (my_exec E (q_remove_step_commands_by_process_id p))) (\<lambda>_.
       go_bind (go_wrap ''remove id commands by timeout proc (%s): %w'' [p]
                  (my_exec E (q_remove_id_commands_by_process_id p))) (\<lambda>_.
       go_bind (go_wrap ''remove steps by timeout proc (%s): %w'' [p]
                  (my_exec E (q_remove_steps_by_process_id p))) (\<lambda>_.
       go_ret (timed_out_steps steps cmds))))))))))"

definition my_retrieve_and_mark_re_pushed ::
  "mysql_env \<Rightarrow> time \<Rightarrow> time \<Rightarrow> (mysql, string list) action" where
  "my_retrieve_and_mark_re_pushed E if_before push_time =
     tx E (
       go_bind (go_wrap ''get repush ids: %w'' []
                  (my_query E (q_get_repush_ids E (sql_null_time if_before)))) (\<lambda>ids.
       go_bind (go_wrap ''update repush ids: %w'' []
                  (my_exec E (q_update_repush_ids E (sql_null_time push_time) (sql_null_time if_before))))
         (\<lambda>_.
       go_ret ids)))"

section \<open>Event subscriptions\<close>

definition subscription_of_row :: "event_row \<Rightarrow> event_subscription" where
  "subscription_of_row r =
     \<lparr>es_event = er_event_type r, es_workflow = er_workflow_name r, es_context = null_string (er_context r),
      es_event_context = null_string (er_event_context r)\<rparr>"

definition my_retrieve_event_subscriptions ::
  "mysql_env \<Rightarrow> string list \<Rightarrow> (mysql, string \<rightharpoonup> event_subscription) action" where
  "my_retrieve_event_subscriptions E names =
     go_bind (go_wrap ''get events by name: %w'' [] (my_query E (q_get_events_by_names E names))) (\<lambda>rows.
     go_ret (fold (\<lambda>r m. m(er_event_name r \<mapsto> subscription_of_row r)) rows Map.empty))"

definition my_retrieve_event_subscriptions_by_event ::
  "mysql_env \<Rightarrow> event_flag \<Rightarrow> (mysql, event_subscription list) action" where
  "my_retrieve_event_subscriptions_by_event E f =
     go_bind (go_wrap ''get events by type: %w'' []
                (my_query E (q_get_events_by_type E (event_flag_string f)))) (\<lambda>rows.
     go_ret (map subscription_of_row rows))"

definition upsert_event :: "mysql_env \<Rightarrow> event_row \<Rightarrow> time \<Rightarrow> tables \<Rightarrow> tables result" where
  "upsert_event E new now t =
     (if \<not> (accepts E 255 (er_event_name new) \<and> accepts E 63 (er_event_type new) \<and>
            accepts E 255 (er_workflow_name new) \<and> accepts_null E mediumtext (er_event_context new) \<and>
            accepts_null E mediumtext (er_context new))
      then Inl err_too_long
      else
        let same = (\<lambda>r. sql_eq E (er_event_name r) (er_event_name new)) in
        Inr (t\<lparr>t_events :=
          (if list_ex same (t_events t)
           then sql_update same (\<lambda>r. new\<lparr>er_event_name := er_event_name r\<rparr>) (t_events t)
           else t_events t @ [new])\<rparr>))"

definition my_store_event_subscription ::
  "mysql_env \<Rightarrow> string \<Rightarrow> event_subscription \<Rightarrow> (mysql, unit) action" where
  "my_store_event_subscription E name es =
     my_exec E (upsert_event E
       \<lparr>er_event_name = name, er_context = sql_null_string (es_context es),
        er_event_context = sql_null_string (es_event_context es), er_workflow_name = es_workflow es,
        er_event_type = es_event es\<rparr>)"

definition my_delete_event_subscription :: "mysql_env \<Rightarrow> string \<Rightarrow> (mysql, unit) action" where
  "my_delete_event_subscription E name = my_exec E (q_remove_event E name)"

end
