(* ===== verification/MySQLFacts.thy ===== *)
theory MySQLFacts
  imports MySQLStorage
begin

text \<open>
  Facts about the MySQL backend that its properties share: what a call does under any pattern of
  failures, that a transaction that fails leaves the tables alone, the integrity of the tables (keys,
  foreign keys, no step without commands) and that every operation keeps it, and the effect of the
  operations when the server answers every call.
\<close>

section \<open>Runs that succeed\<close>

text \<open>\<open>E\<close> without failures; two states that differ in the number of calls made at most.\<close>

definition sure :: "mysql_env \<Rightarrow> mysql_env" where
  "sure E = E\<lparr>db_fault := (\<lambda>_. Works)\<rparr>"

definition same_db :: "mysql \<Rightarrow> mysql \<Rightarrow> bool" where
  "same_db s s0 \<longleftrightarrow> s\<lparr>db_calls := 0\<rparr> = s0\<lparr>db_calls := 0\<rparr>"

lemma same_db_refl [simp]: "same_db s s"
  by (simp add: same_db_def)

lemma same_db_calls [simp]: "same_db (s\<lparr>db_calls := k\<rparr>) s0 = same_db s s0" "same_db s (s0\<lparr>db_calls := k\<rparr>) = same_db s s0"
  by (simp_all add: same_db_def)

lemma same_dbD:
  assumes "same_db s s0"
  shows "db_tables s = db_tables s0" "db_next_id s = db_next_id s0" "rand_reads s = rand_reads s0"
    "server_clock s = server_clock s0" "go_clock s = go_clock s0"
  using assms by (cases s; cases s0; simp add: same_db_def)+

lemma same_dbI:
  assumes "db_tables s = db_tables s0" "db_next_id s = db_next_id s0" "rand_reads s = rand_reads s0"
    "server_clock s = server_clock s0" "go_clock s = go_clock s0"
  shows "same_db s s0"
  using assms by (cases s; cases s0; simp add: same_db_def)

lemma sure_sel [simp]:
  "collation (sure E) = collation E" "accepts (sure E) = accepts E" "timestamp (sure E) = timestamp E"
  "time_arg (sure E) = time_arg E" "rand_read (sure E) = rand_read E" "db_fault (sure E) k = Works"
  by (simp_all add: sure_def)

text \<open>A call that succeeds does what it does when no call fails.\<close>

definition repeats :: "(mysql, 'a) action \<Rightarrow> (mysql, 'a) action \<Rightarrow> bool" where
  "repeats m m0 \<longleftrightarrow>
     (\<forall>s s0 x s'. same_db s s0 \<longrightarrow> m s = (Inr x, s') \<longrightarrow> (\<exists>s0'. m0 s0 = (Inr x, s0') \<and> same_db s' s0'))"

named_theorems repeats_intros \<open>calls that repeat without failures\<close>

lemma repeatsD:
  "repeats m m0 \<Longrightarrow> same_db s s0 \<Longrightarrow> m s = (Inr x, s') \<Longrightarrow> \<exists>s0'. m0 s0 = (Inr x, s0') \<and> same_db s' s0'"
  unfolding repeats_def by blast

lemma repeats_ret [repeats_intros]: "repeats (go_ret x) (go_ret x)"
  by (auto simp: repeats_def go_defs)

lemma repeats_fail [repeats_intros]: "repeats (go_fail e) m"
  by (auto simp: repeats_def go_defs)

lemma repeats_lift [repeats_intros]: "repeats (go_lift r) (go_lift r)"
  by (auto simp: repeats_def go_defs)

lemma repeats_bind [repeats_intros]:
  assumes "repeats m m0" "\<And>x. repeats (f x) (f0 x)"
  shows "repeats (go_bind m f) (go_bind m0 f0)"
proof -
  have "\<exists>s0'. go_bind m0 f0 s0 = (Inr x, s0') \<and> same_db s' s0'"
    if eq: "same_db s s0" and run: "go_bind m f s = (Inr x, s')" for s s0 x s'
  proof -
    from run obtain y t where y: "m s = (Inr y, t)" "f y t = (Inr x, s')"
      by (auto simp: go_bind_def split: prod.splits sum.splits)
    from repeatsD [OF assms(1) eq y(1)] obtain t0 where t0: "m0 s0 = (Inr y, t0)" "same_db t t0" by blast
    from repeatsD [OF assms(2) t0(2) y(2)] t0(1) show ?thesis by (auto simp: go_bind_def)
  qed
  then show ?thesis unfolding repeats_def by blast
qed

lemma repeats_wrap [repeats_intros]: "repeats m m0 \<Longrightarrow> repeats (go_wrap f as m) (go_wrap f as m0)"
  unfolding repeats_def by (fastforce simp: go_wrap_def split: prod.splits sum.splits)

lemma repeats_for [repeats_intros]:
  assumes "\<And>x. repeats (f x) (f0 x)"
  shows "repeats (go_for xs f) (go_for xs f0)"
  by (induction xs) (auto intro!: repeats_intros assms)

lemma repeats_if [repeats_intros]:
  "(b \<Longrightarrow> repeats m m0) \<Longrightarrow> (\<not> b \<Longrightarrow> repeats n n0) \<Longrightarrow> repeats (if b then m else n) (if b then m0 else n0)"
  by simp

lemma repeats_prod [repeats_intros]:
  "(\<And>x y. repeats (f x y) (f0 x y)) \<Longrightarrow> repeats (case p of (x, y) \<Rightarrow> f x y) (case p of (x, y) \<Rightarrow> f0 x y)"
  by (cases p) simp

lemma repeats_list [repeats_intros]:
  "repeats m m0 \<Longrightarrow> (\<And>x xs. repeats (f x xs) (f0 x xs)) \<Longrightarrow>
     repeats (case l of [] \<Rightarrow> m | x # xs \<Rightarrow> f x xs) (case l of [] \<Rightarrow> m0 | x # xs \<Rightarrow> f0 x xs)"
  by (cases l) simp_all

lemma repeats_call [repeats_intros]:
  assumes "repeats m m0"
  shows "repeats (db_call E m) (db_call (sure E) m0)"
proof -
  have "\<exists>s0'. db_call (sure E) m0 s0 = (Inr x, s0') \<and> same_db s' s0'"
    if eq: "same_db s s0" and run: "db_call E m s = (Inr x, s')" for s s0 x s'
  proof -
    from run have "m (s\<lparr>db_calls := Suc (db_calls s)\<rparr>) = (Inr x, s')"
      by (auto simp: db_call_def Let_def split: db_fault.splits)
    with repeatsD [OF assms, of "s\<lparr>db_calls := Suc (db_calls s)\<rparr>" "s0\<lparr>db_calls := Suc (db_calls s0)\<rparr>"] eq
    show ?thesis by (simp add: db_call_def Let_def)
  qed
  then show ?thesis unfolding repeats_def by blast
qed

lemma repeats_read [repeats_intros]: "repeats (go_read (\<lambda>s. q (db_tables s))) (go_read (\<lambda>s. q (db_tables s)))"
  by (auto simp: repeats_def go_defs dest: same_dbD(1))

lemma repeats_query [repeats_intros]: "repeats (my_query E q) (my_query (sure E) q)"
  unfolding my_query_def by (intro repeats_intros)

lemma repeats_one [repeats_intros]: "repeats (my_one E q) (my_one (sure E) q)"
  unfolding my_one_def by (intro repeats_intros)

lemma repeats_exec [repeats_intros]: "repeats (my_exec E f) (my_exec (sure E) f)"
  unfolding my_exec_def
proof (rule repeats_call)
  show "repeats (\<lambda>s. case f (server_clock s) (db_tables s) of Inl e \<Rightarrow> (Inl e, s) | Inr t \<Rightarrow> (Inr (), s\<lparr>db_tables := t\<rparr>))
     (\<lambda>s. case f (server_clock s) (db_tables s) of Inl e \<Rightarrow> (Inl e, s) | Inr t \<Rightarrow> (Inr (), s\<lparr>db_tables := t\<rparr>))"
    unfolding repeats_def
    by (auto simp: same_dbD intro!: same_dbI split: sum.splits dest: same_dbD)
qed

lemma repeats_rand [repeats_intros]: "repeats (rand_hex_string E p) (rand_hex_string (sure E) p)"
  by (auto simp: repeats_def rand_hex_string_def process_id_def same_dbD intro!: same_dbI)

lemma repeats_create_step [repeats_intros]:
  "repeats (q_create_step E w i n c nu to) (q_create_step (sure E) w i n c nu to)"
  unfolding q_create_step_def
  by (rule repeats_call)
    (auto simp: repeats_def Let_def accepts_null_def timestamp_null_def same_dbD intro!: same_dbI
      split: if_splits sum.splits option.splits)

section \<open>Transactions\<close>

text \<open>The two things a transaction can leave behind.\<close>

lemma db_call_ret:
  "db_call E (go_ret x) s =
     (if db_fault E (db_calls s) = Works then Inr x else Inl err_db, s\<lparr>db_calls := Suc (db_calls s)\<rparr>)"
  by (cases "db_fault E (db_calls s)") (simp_all add: db_call_def go_ret_def Let_def)

lemma db_call_commit:
  "db_call E (\<lambda>v. (Inr (), v\<lparr>db_tables := t\<rparr>)) s =
     (if db_fault E (db_calls s) = Works then Inr () else Inl err_db,
      if db_fault E (db_calls s) = Fails then s\<lparr>db_calls := Suc (db_calls s)\<rparr>
      else s\<lparr>db_calls := Suc (db_calls s), db_tables := t\<rparr>)"
  by (cases "db_fault E (db_calls s)") (simp_all add: db_call_def Let_def)

lemma tx_cases:
  assumes run: "tx E g s = (r, s')"
  shows "(\<exists>e. r = Inl e \<and> db_tables s' = db_tables s) \<or>
         (\<exists>x t b. t = s\<lparr>db_calls := Suc (db_calls s)\<rparr> \<and> g t = (Inr x, b) \<and>
            (r = Inr x \<or> (\<exists>e. r = Inl e)) \<and> same_db s' b)"
proof -
  let ?t = "s\<lparr>db_calls := Suc (db_calls s)\<rparr>"
  obtain q b where g: "g ?t = (q, b)" by fastforce
  show ?thesis
  proof (cases "db_fault E (db_calls s) = Works")
    case False
    with run show ?thesis by (auto simp: tx_def go_wrap_def db_call_ret)
  next
    case begun: True
    show ?thesis
    proof (cases q)
      case (Inl e)
      with run g begun show ?thesis
        by (auto simp: tx_def go_wrap_def db_call_ret split: if_splits)
    next
      case (Inr x)
      have b: "same_db (b\<lparr>db_tables := u, db_calls := k, db_tables := db_tables b\<rparr>) b" for u k
        by (simp add: same_db_def)
      from Inr run g begun b show ?thesis
        by (auto simp: tx_def go_wrap_def db_call_ret db_call_commit split: if_splits)
    qed
  qed
qed

text \<open>
  Under any failures: the call succeeds and does what it does without failures, or fails, and then has
  done nothing or all of it.
\<close>

definition all_or_nothing :: "(mysql, 'a) action \<Rightarrow> (mysql, 'a) action \<Rightarrow> bool" where
  "all_or_nothing m m0 \<longleftrightarrow>
     (\<forall>s s0. same_db s s0 \<longrightarrow>
        (\<forall>x. fst (m s) = Inr x \<longrightarrow> fst (m0 s0) = Inr x \<and> db_tables (snd (m s)) = db_tables (snd (m0 s0))) \<and>
        (db_tables (snd (m s)) = db_tables s \<or>
           db_tables (snd (m s)) = db_tables (snd (m0 s0)) \<and>
           db_next_id (snd (m s)) = db_next_id (snd (m0 s0))))"

named_theorems atomic_intros \<open>calls that do all or nothing\<close>

lemma all_or_nothingD:
  assumes "all_or_nothing m m0" "same_db s s0"
  shows "fst (m s) = Inr x \<Longrightarrow> fst (m0 s0) = Inr x \<and> db_tables (snd (m s)) = db_tables (snd (m0 s0))"
    "db_tables (snd (m s)) = db_tables s \<or>
       db_tables (snd (m s)) = db_tables (snd (m0 s0)) \<and> db_next_id (snd (m s)) = db_next_id (snd (m0 s0))"
  using assms unfolding all_or_nothing_def by blast+

lemma tx_sure_run:
  "g (s\<lparr>db_calls := Suc (db_calls s)\<rparr>) = (Inr x, b) \<Longrightarrow>
     fst (tx (sure E) g s) = Inr x \<and> same_db (snd (tx (sure E) g s)) b"
  by (simp add: tx_def go_wrap_def db_call_ret db_call_commit same_db_def)

lemma atomic_tx [atomic_intros]:
  assumes "repeats g g0"
  shows "all_or_nothing (tx E g) (tx (sure E) g0)"
proof -
  have "(\<forall>x. fst (tx E g s) = Inr x \<longrightarrow> fst (tx (sure E) g0 s0) = Inr x \<and>
            db_tables (snd (tx E g s)) = db_tables (snd (tx (sure E) g0 s0))) \<and>
        (db_tables (snd (tx E g s)) = db_tables s \<or>
           db_tables (snd (tx E g s)) = db_tables (snd (tx (sure E) g0 s0)) \<and>
           db_next_id (snd (tx E g s)) = db_next_id (snd (tx (sure E) g0 s0)))"
    if eq: "same_db s s0" for s s0
  proof -
    obtain r s' where run: "tx E g s = (r, s')" by fastforce
    consider e where "r = Inl e" "db_tables s' = db_tables s"
      | x b where "g (s\<lparr>db_calls := Suc (db_calls s)\<rparr>) = (Inr x, b)" "r = Inr x \<or> (\<exists>e. r = Inl e)" "same_db s' b"
      using tx_cases [OF run] by blast
    then show ?thesis
    proof cases
      case 1
      with run show ?thesis by simp
    next
      case 2
      from eq have "same_db (s\<lparr>db_calls := Suc (db_calls s)\<rparr>) (s0\<lparr>db_calls := Suc (db_calls s0)\<rparr>)" by simp
      from repeatsD [OF assms this 2(1)] obtain b0 where
        b0: "g0 (s0\<lparr>db_calls := Suc (db_calls s0)\<rparr>) = (Inr x, b0)" "same_db b b0" by blast
      have "db_tables s' = db_tables (snd (tx (sure E) g0 s0))"
        "db_next_id s' = db_next_id (snd (tx (sure E) g0 s0))"
        using 2(3) b0(2) tx_sure_run [of g0 s0 x b0 E, OF b0(1)] same_dbD(1,2) by metis+
      with run 2(2) tx_sure_run [of g0 s0 x b0 E, OF b0(1)] show ?thesis by auto
    qed
  qed
  then show ?thesis unfolding all_or_nothing_def by blast
qed

lemma atomic_exec [atomic_intros]: "all_or_nothing (my_exec E f) (my_exec (sure E) f)"
proof -
  have "(\<forall>x. fst (my_exec E f s) = Inr x \<longrightarrow> fst (my_exec (sure E) f s0) = Inr x \<and>
            db_tables (snd (my_exec E f s)) = db_tables (snd (my_exec (sure E) f s0))) \<and>
        (db_tables (snd (my_exec E f s)) = db_tables s \<or>
           db_tables (snd (my_exec E f s)) = db_tables (snd (my_exec (sure E) f s0)) \<and>
           db_next_id (snd (my_exec E f s)) = db_next_id (snd (my_exec (sure E) f s0)))"
    if "same_db s s0" for s s0
    using same_dbD [OF that]
    by (cases "f (server_clock s0) (db_tables s0)"; cases "db_fault E (db_calls s)")
      (simp_all add: my_exec_def db_call_def Let_def)
  then show ?thesis unfolding all_or_nothing_def by blast
qed

lemma fst_wrap: "fst (go_wrap f as m s) = (case fst (m s) of Inl e \<Rightarrow> Inl (Wrapf f as e) | Inr x \<Rightarrow> Inr x)"
  and snd_wrap [simp]: "snd (go_wrap f as m s) = snd (m s)"
  by (cases "m s"; cases "fst (m s)"; simp add: go_wrap_def)+

lemma fst_bind_ret: "fst (go_bind m (\<lambda>x. go_ret (g x)) s) = (case fst (m s) of Inl e \<Rightarrow> Inl e | Inr x \<Rightarrow> Inr (g x))"
  and snd_bind_ret [simp]: "snd (go_bind m (\<lambda>x. go_ret (g x)) s) = snd (m s)"
  by (cases "m s"; cases "fst (m s)"; simp add: go_bind_def go_ret_def)+

lemma atomic_wrap [atomic_intros]:
  "all_or_nothing m m0 \<Longrightarrow> all_or_nothing (go_wrap f as m) (go_wrap f as m0)"
  unfolding all_or_nothing_def by (auto simp: fst_wrap split: sum.splits)

lemma atomic_bind_ret [atomic_intros]:
  "all_or_nothing m m0 \<Longrightarrow> all_or_nothing (go_bind m (\<lambda>x. go_ret (g x))) (go_bind m0 (\<lambda>x. go_ret (g x)))"
  unfolding all_or_nothing_def by (auto simp: fst_bind_ret split: sum.splits)

lemma atomic_fail [atomic_intros]: "all_or_nothing (go_fail e) (go_fail e)"
  by (simp add: all_or_nothing_def go_defs)

lemma atomic_ret [atomic_intros]: "all_or_nothing (go_ret x) (go_ret x)"
  by (auto simp: all_or_nothing_def go_defs same_dbD)

definition reads_only :: "(mysql, 'a) action \<Rightarrow> bool" where
  "reads_only m \<longleftrightarrow> (\<forall>s. db_tables (snd (m s)) = db_tables s)"

lemma atomic_read_bind:
  assumes "reads_only m" "repeats m m0" "\<And>x. all_or_nothing (f x) (f0 x)"
  shows "all_or_nothing (go_bind m f) (go_bind m0 f0)"
proof -
  have "(\<forall>x. fst (go_bind m f s) = Inr x \<longrightarrow> fst (go_bind m0 f0 s0) = Inr x \<and>
            db_tables (snd (go_bind m f s)) = db_tables (snd (go_bind m0 f0 s0))) \<and>
        (db_tables (snd (go_bind m f s)) = db_tables s \<or>
           db_tables (snd (go_bind m f s)) = db_tables (snd (go_bind m0 f0 s0)) \<and>
           db_next_id (snd (go_bind m f s)) = db_next_id (snd (go_bind m0 f0 s0)))"
    if eq: "same_db s s0" for s s0
  proof -
    obtain q u where q: "m s = (q, u)" by fastforce
    with assms(1) have u: "db_tables u = db_tables s" by (metis reads_only_def snd_conv)
    show ?thesis
    proof (cases q)
      case (Inl e)
      with q u show ?thesis by (simp add: go_bind_def)
    next
      case (Inr y)
      from repeatsD [OF assms(2) eq] q Inr obtain u0 where u0: "m0 s0 = (Inr y, u0)" "same_db u u0" by blast
      from all_or_nothingD [OF assms(3) [of y] u0(2)] q u Inr u0(1) show ?thesis
        by (simp add: go_bind_def)
    qed
  qed
  then show ?thesis unfolding all_or_nothing_def by blast
qed

lemma reads_only_query [simp]: "reads_only (my_query E q)"
proof -
  have "db_tables (snd (my_query E q s)) = db_tables s" for s
    by (cases "db_fault E (db_calls s)") (simp_all add: my_query_def db_call_def Let_def go_read_def)
  then show ?thesis by (simp add: reads_only_def)
qed

lemma reads_only_wrap [simp]: "reads_only m \<Longrightarrow> reads_only (go_wrap f as m)"
  by (simp add: reads_only_def)

lemma reads_only_bind:
  assumes "reads_only m" "\<And>x. reads_only (f x)"
  shows "reads_only (go_bind m f)"
proof -
  have "db_tables (snd (go_bind m f s)) = db_tables s" for s
    using assms by (cases "m s"; cases "fst (m s)"; simp add: go_bind_def reads_only_def) (metis snd_conv)+
  then show ?thesis by (simp add: reads_only_def)
qed

lemma reads_only_ret [simp]: "reads_only (go_ret x)" and reads_only_fail [simp]: "reads_only (go_fail e)"
  by (simp_all add: reads_only_def go_defs)

lemma reads_only_one [simp]: "reads_only (my_one E q)"
  unfolding my_one_def by (rule reads_only_bind) (simp_all split: list.splits)

lemma reads_only_clock [simp]: "reads_only (go_read g)"
  by (simp add: reads_only_def go_defs)

section \<open>The operations\<close>

text \<open>The operations of the backend that change the database.\<close>

datatype my_op =
    MyResponse string "command_result option"
  | MyStoreStep "step_config option" time
  | MyCancelSteps string string
  | MyRecordStarted "string list" string time
  | MyClearStatus string
  | MyStepsToEnqueue time
  | MyTimedOutSteps
  | MyRePushed time time
  | MyStoreEvent string event_subscription
  | MyDeleteEvent string

definition silently :: "(mysql, 'a) action \<Rightarrow> (mysql, unit) action" where
  "silently m = go_bind m (\<lambda>_. go_ret ())"

primrec my_run :: "mysql_env \<Rightarrow> my_op \<Rightarrow> (mysql, unit) action" where
  "my_run E (MyResponse eid sc) = silently (my_store_command_response E eid sc)"
| "my_run E (MyStoreStep step at) = my_store_step E step at"
| "my_run E (MyCancelSteps eid name) = my_cancel_steps E eid name"
| "my_run E (MyRecordStarted ids name at) = my_record_workflow_started E ids name at"
| "my_run E (MyClearStatus eid) = my_clear_workflow_status E eid"
| "my_run E (MyStepsToEnqueue at) = silently (my_retrieve_steps_to_enqueue E at)"
| "my_run E MyTimedOutSteps = silently (my_retrieve_timed_out_steps E)"
| "my_run E (MyRePushed before at) = silently (my_retrieve_and_mark_re_pushed E before at)"
| "my_run E (MyStoreEvent name es) = my_store_event_subscription E name es"
| "my_run E (MyDeleteEvent name) = my_delete_event_subscription E name"

text \<open>The statements do not look at the failures.\<close>

lemma sql_eq_sure [simp]: "sql_eq (sure E) = sql_eq E"
  by (simp add: sql_eq_def fun_eq_iff)

lemma is_id_command_sure [simp]: "is_id_command (sure E) = is_id_command E"
  by (simp add: is_id_command_def fun_eq_iff)

lemma sql_in_sure [simp]: "sql_in (sure E) = sql_in E"
  by (simp add: sql_in_def fun_eq_iff)

lemma sql_distinct_sure [simp]: "sql_distinct (sure E) xs = sql_distinct E xs"
  by (induction xs) simp_all

lemma null_sure [simp]: "accepts_null (sure E) = accepts_null E" "timestamp_null (sure E) = timestamp_null E"
  by (simp_all add: accepts_null_def timestamp_null_def fun_eq_iff cong: option.case_cong)

lemma pushed_before_sure [simp]: "pushed_before (sure E) = pushed_before E"
  by (simp add: pushed_before_def fun_eq_iff cong: option.case_cong)

lemma upsert_status_sure [simp]: "upsert_status (sure E) = upsert_status E"
  by (simp add: upsert_status_def fun_eq_iff)

lemmas query_defs =
  q_get_request_type_def q_create_id_command_def q_delete_id_command_by_workflow_def
  q_delete_id_commands_def q_delete_unused_step_commands_def
  q_delete_workflow_step_having_no_commands_def
  q_delete_workflow_step_having_no_commands_by_workflow_name_def
  q_delete_workflow_step_having_no_commands_by_step_id_def q_update_id_command_timestamp_def
  q_update_id_command_def q_count_outstanding_id_workflow_step_commands_def q_get_step_by_id_def
  q_get_id_commands_by_step_id_and_lock_def q_remove_id_commands_by_step_id_def
  q_create_step_command_def q_get_outstanding_ids_def q_get_workflow_last_started_def
  q_clear_workflow_status_def q_update_step_after_not_until_def q_get_steps_by_process_id_def
  q_get_step_commands_by_process_id_def q_get_id_command_ids_by_process_id_def
  q_remove_step_commands_by_process_id_def q_update_last_push_by_process_id_def
  q_update_step_after_timeout_def q_get_steps_with_context_by_process_id_def
  q_get_id_command_details_by_process_id_def q_remove_id_commands_by_process_id_def
  q_remove_steps_by_process_id_def q_get_repush_ids_def q_update_repush_ids_def
  q_get_events_by_names_def q_get_events_by_type_def q_remove_event_def

lemma queries_sure [simp]:
  "q_create_id_command (sure E) = q_create_id_command E"
  "q_delete_id_command_by_workflow (sure E) = q_delete_id_command_by_workflow E"
  "q_delete_id_commands (sure E) = q_delete_id_commands E"
  "q_delete_unused_step_commands (sure E) = q_delete_unused_step_commands E"
  "q_delete_workflow_step_having_no_commands_by_workflow_name (sure E) =
     q_delete_workflow_step_having_no_commands_by_workflow_name E"
  "q_update_id_command_timestamp (sure E) = q_update_id_command_timestamp E"
  "q_update_id_command (sure E) = q_update_id_command E"
  "q_count_outstanding_id_workflow_step_commands (sure E) = q_count_outstanding_id_workflow_step_commands E"
  "q_get_id_commands_by_step_id_and_lock (sure E) = q_get_id_commands_by_step_id_and_lock E"
  "q_remove_id_commands_by_step_id (sure E) = q_remove_id_commands_by_step_id E"
  "q_create_step_command (sure E) = q_create_step_command E"
  "q_clear_workflow_status (sure E) = q_clear_workflow_status E"
  "q_update_step_after_not_until (sure E) = q_update_step_after_not_until E"
  "q_update_step_after_timeout (sure E) = q_update_step_after_timeout E"
  "q_get_id_command_details_by_process_id (sure E) = q_get_id_command_details_by_process_id E"
  "q_get_repush_ids (sure E) = q_get_repush_ids E"
  "q_update_repush_ids (sure E) = q_update_repush_ids E"
  "q_remove_event (sure E) = q_remove_event E"
  "insert_statuses (sure E) = insert_statuses E"
  "upsert_event (sure E) = upsert_event E"
  by (simp_all add: query_defs insert_statuses_def upsert_event_def fun_eq_iff cong: sum.case_cong option.case_cong)

lemma silently_atomic: "all_or_nothing m m0 \<Longrightarrow> all_or_nothing (silently m) (silently m0)"
  unfolding silently_def by (rule atomic_bind_ret)

lemma atomic_response:
  "all_or_nothing (my_store_command_response E eid sc) (my_store_command_response (sure E) eid sc)"
proof (cases sc)
  case None
  then show ?thesis by (simp add: my_store_command_response_def atomic_fail)
next
  case (Some c)
  have act: "all_or_nothing (my_act_on_count E eid c ct) (my_act_on_count (sure E) eid c ct)" for ct
    by (cases ct) (auto simp: my_act_on_count_def my_complete_step_def intro!: atomic_intros repeats_intros)
  show ?thesis
  proof (cases "cr_completed c")
    case True
    with Some show ?thesis
      unfolding my_store_command_response_def my_count_outstanding_def
      by (auto intro!: atomic_read_bind act repeats_intros)
  next
    case False
    with Some show ?thesis
      by (auto simp: my_store_command_response_def intro!: atomic_intros)
  qed
qed

lemma repeats_store_step_command:
  "repeats (my_store_step_command E step at i sc) (my_store_step_command (sure E) step at i sc)"
  unfolding my_store_step_command_def my_store_id_command_def by (auto intro!: repeats_intros)

lemma atomic_store_step: "all_or_nothing (my_store_step E so at) (my_store_step (sure E) so at)"
  unfolding my_store_step_def
proof (rule atomic_read_bind)
  show "reads_only (go_wrap ''validating step: %w'' [] (go_lift (validate_step_config so)))"
    by (simp add: reads_only_def go_lift_def)
qed (auto intro!: repeats_intros atomic_intros repeats_store_step_command split: option.split)

lemma atomic_cancel: "all_or_nothing (my_cancel_steps E eid name) (my_cancel_steps (sure E) eid name)"
  by (auto simp: my_cancel_steps_def intro!: atomic_intros repeats_intros)

lemma atomic_enqueue: "all_or_nothing (my_retrieve_steps_to_enqueue E at) (my_retrieve_steps_to_enqueue (sure E) at)"
  by (auto simp: my_retrieve_steps_to_enqueue_def intro!: atomic_intros repeats_intros)

lemma atomic_time_out: "all_or_nothing (my_retrieve_timed_out_steps E) (my_retrieve_timed_out_steps (sure E))"
  unfolding my_retrieve_timed_out_steps_def
proof (rule atomic_read_bind)
  show "repeats (go_read go_clock) (go_read go_clock)"
    by (auto simp: repeats_def go_defs dest: same_dbD(5))
qed (auto intro!: atomic_intros repeats_intros)

lemma atomic_re_push:
  "all_or_nothing (my_retrieve_and_mark_re_pushed E before at) (my_retrieve_and_mark_re_pushed (sure E) before at)"
  by (auto simp: my_retrieve_and_mark_re_pushed_def intro!: atomic_intros repeats_intros)

lemma atomic_run: "all_or_nothing (my_run E opn) (my_run (sure E) opn)"
proof (cases opn)
  case (MyRecordStarted ids name at)
  then show ?thesis by (auto simp: my_record_workflow_started_def intro!: atomic_intros)
qed (simp_all add: silently_atomic atomic_response atomic_store_step atomic_cancel atomic_enqueue
    atomic_time_out atomic_re_push my_clear_workflow_status_def my_store_event_subscription_def
    my_delete_event_subscription_def atomic_exec)

text \<open>No operation takes an ID of the step table back.\<close>

definition grows :: "(mysql, 'a) action \<Rightarrow> bool" where
  "grows m \<longleftrightarrow> (\<forall>s. db_next_id s \<le> db_next_id (snd (m s)))"

named_theorems grows_intros \<open>calls that keep the step table's IDs issued\<close>

lemma grows_bind [grows_intros]:
  assumes "grows m" "\<And>x. grows (f x)"
  shows "grows (go_bind m f)"
proof -
  have "db_next_id s \<le> db_next_id (snd (go_bind m f s))" for s
  proof -
    obtain q u where q: "m s = (q, u)" by fastforce
    have "db_next_id s \<le> db_next_id u" using assms(1) q by (metis grows_def snd_conv)
    moreover have "db_next_id u \<le> db_next_id (snd (f x u))" for x using assms(2) by (simp add: grows_def)
    ultimately show ?thesis using q by (cases q) (auto simp: go_bind_def intro: order_trans)
  qed
  then show ?thesis by (simp add: grows_def)
qed

lemma grows_basic [grows_intros]:
  "grows (go_ret x)" "grows (go_fail e)" "grows (go_lift r)" "grows (go_read g)" "grows (rand_hex_string E p)"
  by (simp_all add: grows_def go_defs rand_hex_string_def)

lemma grows_wrap [grows_intros]: "grows m \<Longrightarrow> grows (go_wrap f as m)"
  by (simp add: grows_def)

lemma grows_try [grows_intros]: "grows m \<Longrightarrow> grows (go_try m)"
  by (auto simp: grows_def go_defs split: prod.splits) (metis snd_conv)

lemma grows_for [grows_intros]: "(\<And>x. grows (f x)) \<Longrightarrow> grows (go_for xs f)"
  by (induction xs) (auto intro!: grows_intros)

lemma grows_if [grows_intros]: "(b \<Longrightarrow> grows m) \<Longrightarrow> (\<not> b \<Longrightarrow> grows n) \<Longrightarrow> grows (if b then m else n)"
  by simp

lemma grows_prod [grows_intros]: "(\<And>x y. grows (f x y)) \<Longrightarrow> grows (case p of (x, y) \<Rightarrow> f x y)"
  by (cases p) simp

lemma grows_option [grows_intros]:
  "grows m \<Longrightarrow> (\<And>x. grows (f x)) \<Longrightarrow> grows (case v of None \<Rightarrow> m | Some x \<Rightarrow> f x)"
  by (cases v) simp_all

lemma grows_list [grows_intros]:
  "grows m \<Longrightarrow> (\<And>x xs. grows (f x xs)) \<Longrightarrow> grows (case l of [] \<Rightarrow> m | x # xs \<Rightarrow> f x xs)"
  by (cases l) simp_all

lemma grows_call:
  assumes "\<And>s. db_next_id s \<le> db_next_id (snd (m s))"
  shows "grows (db_call E m)"
proof -
  have "db_next_id s \<le> db_next_id (snd (db_call E m s))" for s
    using assms [of "s\<lparr>db_calls := Suc (db_calls s)\<rparr>"]
    by (cases "db_fault E (db_calls s)") (simp_all add: db_call_def Let_def)
  then show ?thesis by (simp add: grows_def)
qed

lemma grows_query [grows_intros]: "grows (my_query E q)"
  unfolding my_query_def by (rule grows_call) (simp add: go_defs)

lemma grows_one [grows_intros]: "grows (my_one E q)"
  unfolding my_one_def by (intro grows_intros)

lemma grows_exec [grows_intros]: "grows (my_exec E f)"
  unfolding my_exec_def by (rule grows_call) (simp split: sum.split)

lemma grows_create_step [grows_intros]: "grows (q_create_step E w i n c nu to)"
  unfolding q_create_step_def by (rule grows_call) (simp add: Let_def split: sum.split)

lemma grows_tx [grows_intros]:
  assumes "grows g"
  shows "grows (tx E g)"
proof -
  have "db_next_id s \<le> db_next_id (snd (tx E g s))" for s
  proof -
    obtain q u where q: "g (s\<lparr>db_calls := Suc (db_calls s)\<rparr>) = (q, u)" by fastforce
    have "db_next_id s \<le> db_next_id u"
      using assms q unfolding grows_def by (metis mysql.select_convs(2) mysql.update_convs(3) mysql.surjective snd_conv)
    with q show ?thesis
      by (cases q) (auto simp: tx_def go_wrap_def db_call_ret db_call_commit)
  qed
  then show ?thesis by (simp add: grows_def)
qed

lemma grows_run: "grows (my_run E opn)"
  by (cases opn)
    (auto simp: silently_def my_store_command_response_def my_count_outstanding_def my_act_on_count_def
      my_complete_step_def my_store_step_def my_store_step_command_def my_store_id_command_def
      my_cancel_steps_def my_record_workflow_started_def my_clear_workflow_status_def
      my_retrieve_steps_to_enqueue_def my_retrieve_timed_out_steps_def
      my_retrieve_and_mark_re_pushed_def my_store_event_subscription_def my_delete_event_subscription_def
      intro!: grows_intros)

section \<open>When the server answers every call\<close>

definition works :: "mysql_env \<Rightarrow> bool" where
  "works E \<longleftrightarrow> (\<forall>k. db_fault E k = Works)"

lemma works_sure [simp]: "works (sure E)"
  by (simp add: works_def)

definition tick :: "mysql \<Rightarrow> mysql" where
  "tick s = s\<lparr>db_calls := Suc (db_calls s)\<rparr>"

lemma tick_sel [simp]:
  "db_tables (tick s) = db_tables s" "db_next_id (tick s) = db_next_id s" "rand_reads (tick s) = rand_reads s"
  "server_clock (tick s) = server_clock s" "go_clock (tick s) = go_clock s"
  by (simp_all add: tick_def)

lemma call_works: "works E \<Longrightarrow> db_call E m s = m (tick s)"
  by (simp add: db_call_def Let_def works_def tick_def)

lemma wp_query: "works E \<Longrightarrow> wp (my_query E q) Q s = Q (Inr (q (db_tables s))) (tick s)"
  by (simp add: wp_def my_query_def call_works go_defs)

lemma wp_one:
  "works E \<Longrightarrow> wp (my_one E q) Q s =
     (case q (db_tables s) of [] \<Rightarrow> Q (Inl err_no_rows) (tick s) | x # _ \<Rightarrow> Q (Inr x) (tick s))"
  by (simp add: my_one_def wp_query split: list.split)

lemma wp_exec:
  "works E \<Longrightarrow> wp (my_exec E f) Q s =
     (case f (server_clock s) (db_tables s) of
        Inl e \<Rightarrow> Q (Inl e) (tick s)
      | Inr t \<Rightarrow> Q (Inr ()) ((tick s)\<lparr>db_tables := t\<rparr>))"
  by (simp add: wp_def my_exec_def call_works split: sum.split)

lemma wp_tx:
  assumes "works E"
  shows "wp (tx E g) Q s =
     wp g (\<lambda>r s'. case r of
        Inl e \<Rightarrow> Q (Inl (Wrapf ''tx rolled back: %w'' [] e)) (tick (s'\<lparr>db_tables := db_tables s\<rparr>))
      | Inr x \<Rightarrow> Q (Inr x) (tick s')) (tick s)"
proof -
  have "tick (v\<lparr>db_tables := t\<rparr>)\<lparr>db_tables := db_tables v\<rparr> = tick v" for v t
    by (simp add: tick_def)
  then show ?thesis
    by (cases "g (tick s)"; cases "fst (g (tick s))"; simp add: wp_def tx_def go_wrap_def call_works [OF assms] go_ret_def)
qed

lemma wp_rand [simp]:
  "wp (rand_hex_string E p) Q s =
     Q (Inr (process_id E p (rand_reads s))) (s\<lparr>rand_reads := Suc (rand_reads s)\<rparr>)"
  by (simp add: wp_def rand_hex_string_def)

lemmas wp_my = wp_query wp_one wp_exec wp_tx

end
