(* ===== verification/MySQLInv.thy ===== *)
theory MySQLInv
  imports MySQLFacts
begin

text \<open>
  The integrity of the MySQL tables: primary keys, foreign keys, step IDs among those issued, and no step
  without a command. Every operation keeps it, under any failures; and what \<open>StoreStep\<close> does exactly.
\<close>

section \<open>The statements, by their members\<close>

lemma step_of_id_iff: "step_of_id P i t \<longleftrightarrow> (\<exists>s\<in>set (t_steps t). row_id s = i \<and> P s)"
  by (auto simp: step_of_id_def list_ex_iff)

lemma has_id_commands_iff: "has_id_commands t i \<longleftrightarrow> (\<exists>c\<in>set (t_id_commands t). ic_step_id c = i)"
  by (auto simp: has_id_commands_def list_ex_iff)

lemma has_step_commands_iff: "has_step_commands t i \<longleftrightarrow> (\<exists>c\<in>set (t_step_commands t). sc_step_id c = i)"
  by (auto simp: has_step_commands_def list_ex_iff)

lemma sql_in_iff: "sql_in E x xs \<longleftrightarrow> (\<exists>y\<in>set xs. sql_eq E x y)"
  by (auto simp: sql_in_def list_ex_iff)

lemma set_sql_delete [simp]: "set (sql_delete P xs) = {x \<in> set xs. \<not> P x}"
  by (auto simp: sql_delete_def)

lemma set_sql_update: "set (sql_update P f xs) = f ` {x \<in> set xs. P x} \<union> {x \<in> set xs. \<not> P x}"
  by (auto simp: sql_update_def image_iff)

lemma distinct_sql_delete: "distinct (map k xs) \<Longrightarrow> distinct (map k (sql_delete P xs))"
  by (simp add: sql_delete_def distinct_map_filter)

lemma map_sql_update: "(\<And>x. k (f x) = k x) \<Longrightarrow> map k (sql_update P f xs) = map k xs"
  by (simp add: sql_update_def)

lemma map_sql_update_one: "(\<And>x. k (f x) = k x) \<Longrightarrow> map k (sql_update_one P f xs) = map k xs"
  by (induction xs) simp_all

lemma ic_touch_keeps [simp]:
  "(\<And>c. ic_enrollment_id (f c) = ic_enrollment_id c) \<Longrightarrow> ic_enrollment_id (ic_touch now f c) = ic_enrollment_id c"
  "(\<And>c. ic_command_uuid (f c) = ic_command_uuid c) \<Longrightarrow> ic_command_uuid (ic_touch now f c) = ic_command_uuid c"
  "(\<And>c. ic_step_id (f c) = ic_step_id c) \<Longrightarrow> ic_step_id (ic_touch now f c) = ic_step_id c"
  by (simp_all add: ic_touch_def Let_def)

section \<open>Integrity\<close>

definition ic_key :: "mysql_env \<Rightarrow> id_command_row \<Rightarrow> string \<times> string" where
  "ic_key E c = (collation E (ic_enrollment_id c), collation E (ic_command_uuid c))"

definition sc_key :: "mysql_env \<Rightarrow> step_command_row \<Rightarrow> string \<times> int" where
  "sc_key E c = (collation E (sc_command_uuid c), sc_step_id c)"

definition ws_key :: "mysql_env \<Rightarrow> status_row \<Rightarrow> string \<times> string" where
  "ws_key E r = (collation E (ws_enrollment_id r), collation E (ws_workflow_name r))"

definition er_key :: "mysql_env \<Rightarrow> event_row \<Rightarrow> string" where
  "er_key E r = collation E (er_event_name r)"

definition primary_keys :: "mysql_env \<Rightarrow> tables \<Rightarrow> bool" where
  "primary_keys E t \<longleftrightarrow>
     distinct (map row_id (t_steps t)) \<and> distinct (map (ic_key E) (t_id_commands t)) \<and>
     distinct (map (sc_key E) (t_step_commands t)) \<and> distinct (map (er_key E) (t_events t)) \<and>
     distinct (map (ws_key E) (t_status t))"

definition foreign_keys :: "tables \<Rightarrow> bool" where
  "foreign_keys t \<longleftrightarrow>
     ic_step_id ` set (t_id_commands t) \<subseteq> row_id ` set (t_steps t) \<and>
     sc_step_id ` set (t_step_commands t) \<subseteq> row_id ` set (t_steps t)"

definition no_idle_step :: "tables \<Rightarrow> bool" where
  "no_idle_step t \<longleftrightarrow> row_id ` set (t_steps t) \<subseteq> ic_step_id ` set (t_id_commands t)"

definition ids_issued_by :: "int \<Rightarrow> tables \<Rightarrow> bool" where
  "ids_issued_by n t \<longleftrightarrow> (\<forall>s\<in>set (t_steps t). 1 \<le> row_id s \<and> row_id s < n)"

definition intact :: "mysql_env \<Rightarrow> int \<Rightarrow> tables \<Rightarrow> bool" where
  "intact E n t \<longleftrightarrow> primary_keys E t \<and> foreign_keys t \<and> no_idle_step t \<and> ids_issued_by n t \<and> 1 \<le> n"

lemmas integrity_defs =
  intact_def primary_keys_def foreign_keys_def no_idle_step_def ids_issued_by_def

lemma intact_mono: "intact E n t \<Longrightarrow> n \<le> n' \<Longrightarrow> intact E n' t"
  by (auto simp: integrity_defs intro: less_le_trans)

lemma sql_eq_key: "is_id_command E eid uuid c \<longleftrightarrow> ic_key E c = (collation E eid, collation E uuid)"
  by (simp add: is_id_command_def sql_eq_def ic_key_def)

lemma step_row_unique:
  assumes "primary_keys E t" "s \<in> set (t_steps t)" "s' \<in> set (t_steps t)" "row_id s = row_id s'"
  shows "s = s'"
  using assms by (auto simp: primary_keys_def distinct_map dest: inj_onD)

lemma ic_row_unique:
  assumes "primary_keys E t" "c \<in> set (t_id_commands t)" "c' \<in> set (t_id_commands t)" "ic_key E c = ic_key E c'"
  shows "c = c'"
  using assms by (auto simp: primary_keys_def distinct_map dest: inj_onD)

section \<open>Statements that keep it\<close>

text \<open>Changing rows of \<open>id_commands\<close> without their key and step; marking steps.\<close>

lemma intact_update_id_commands:
  assumes "intact E n t" "map (ic_key E) cs = map (ic_key E) (t_id_commands t)"
    "ic_step_id ` set cs = ic_step_id ` set (t_id_commands t)"
  shows "intact E n (t\<lparr>t_id_commands := cs\<rparr>)"
  using assms by (simp add: integrity_defs)

lemma touched_rows:
  assumes "\<And>c. ic_enrollment_id (f c) = ic_enrollment_id c" "\<And>c. ic_command_uuid (f c) = ic_command_uuid c"
    "\<And>c. ic_step_id (f c) = ic_step_id c"
  shows "map (ic_key E) (sql_update_one P f cs) = map (ic_key E) cs"
    "map (ic_key E) (sql_update P f cs) = map (ic_key E) cs"
    "ic_step_id ` set (sql_update_one P f cs) = ic_step_id ` set cs"
    "ic_step_id ` set (sql_update P f cs) = ic_step_id ` set cs"
proof -
  have "map ic_step_id (sql_update_one P f cs) = map ic_step_id cs"
    "map ic_step_id (sql_update P f cs) = map ic_step_id cs"
    by (rule map_sql_update_one map_sql_update; simp add: assms)+
  then show "ic_step_id ` set (sql_update_one P f cs) = ic_step_id ` set cs"
    "ic_step_id ` set (sql_update P f cs) = ic_step_id ` set cs" by (metis set_map)+
qed (rule map_sql_update_one map_sql_update; simp add: ic_key_def assms)+

lemma intact_touch:
  assumes "intact E n t" "\<And>c. ic_enrollment_id (f c) = ic_enrollment_id c"
    "\<And>c. ic_command_uuid (f c) = ic_command_uuid c" "\<And>c. ic_step_id (f c) = ic_step_id c"
  shows "intact E n (t\<lparr>t_id_commands := sql_update_one P f (t_id_commands t)\<rparr>)"
    "intact E n (t\<lparr>t_id_commands := sql_update P f (t_id_commands t)\<rparr>)"
  by (rule intact_update_id_commands [OF assms(1)] touched_rows [OF assms(2-4)])+

lemma intact_update_steps:
  assumes "intact E n t" "map row_id ss = map row_id (t_steps t)"
  shows "intact E n (t\<lparr>t_steps := ss\<rparr>)"
proof -
  have "row_id ` set ss = row_id ` set (t_steps t)" using assms(2) by (metis set_map)
  moreover have "\<forall>s\<in>set ss. 1 \<le> row_id s \<and> row_id s < n"
  proof
    fix s assume "s \<in> set ss"
    then have "row_id s \<in> row_id ` set (t_steps t)" using calculation by (metis imageI)
    with assms(1) show "1 \<le> row_id s \<and> row_id s < n" by (auto simp: intact_def ids_issued_by_def)
  qed
  ultimately show ?thesis using assms by (simp add: integrity_defs)
qed

lemma map_row_id_process: "map row_id (sql_update P (\<lambda>s. s\<lparr>row_process_id := p\<rparr>) ss) = map row_id ss"
  by (rule map_sql_update) simp

lemma intact_step_commands:
  "intact E n t \<Longrightarrow> intact E n (t\<lparr>t_step_commands := sql_delete P (t_step_commands t)\<rparr>)"
  by (auto simp: integrity_defs distinct_sql_delete)

lemma intact_events: "intact E n t \<Longrightarrow> distinct (map (er_key E) rs) \<Longrightarrow> intact E n (t\<lparr>t_events := rs\<rparr>)"
  by (simp add: integrity_defs)

lemma intact_status: "intact E n t \<Longrightarrow> distinct (map (ws_key E) rs) \<Longrightarrow> intact E n (t\<lparr>t_status := rs\<rparr>)"
  by (simp add: integrity_defs)

text \<open>
  Deleting commands of enrollments, and then the steps left without any: the steps to delete must be
  among those, and every step that lost its last command must be deleted.
\<close>

lemma intact_delete:
  assumes t: "intact E n t" and cs: "cs = sql_delete P (t_id_commands t)"
    and scs: "distinct (map (sc_key E) scs)" "set scs \<subseteq> set (t_step_commands t)"
    and gone: "delete_steps D (t\<lparr>t_id_commands := cs, t_step_commands := scs\<rparr>) = Inr t'"
    and idle: "\<And>s. s \<in> set (t_steps t) \<Longrightarrow> \<not> D s \<Longrightarrow> row_id s \<in> ic_step_id ` set cs"
  shows "intact E n t'"
proof -
  let ?u = "t\<lparr>t_id_commands := cs, t_step_commands := scs\<rparr>"
  have free: "\<not> has_id_commands ?u (row_id s)" "\<not> has_step_commands ?u (row_id s)"
    if "s \<in> set (t_steps t)" "D s" for s
    using gone that by (auto simp: delete_steps_def list_ex_iff split: if_splits)
  from gone have t': "t' = ?u\<lparr>t_steps := sql_delete D (t_steps t)\<rparr>"
    by (auto simp: delete_steps_def split: if_splits)
  have "primary_keys E t'"
    using t scs(1) by (auto simp: t' cs intact_def primary_keys_def distinct_sql_delete)
  moreover have "foreign_keys t'"
  proof -
    have "ic_step_id c \<in> row_id ` set (t_steps t')" if c: "c \<in> set cs" for c
    proof -
      from c t cs obtain s where s: "s \<in> set (t_steps t)" "row_id s = ic_step_id c"
        by (auto simp: intact_def foreign_keys_def image_subset_iff image_iff)
      with free(1) [OF s(1)] c have "\<not> D s" by (auto simp: has_id_commands_iff)
      with s show ?thesis by (auto simp: t' image_iff)
    qed
    moreover have "sc_step_id c \<in> row_id ` set (t_steps t')" if c: "c \<in> set scs" for c
    proof -
      from c scs(2) have "c \<in> set (t_step_commands t)" by auto
      with t obtain s where s: "s \<in> set (t_steps t)" "row_id s = sc_step_id c"
        by (auto simp: intact_def foreign_keys_def image_subset_iff image_iff)
      with free(2) [OF s(1)] c have "\<not> D s" by (auto simp: has_step_commands_iff)
      with s show ?thesis by (auto simp: t' image_iff)
    qed
    ultimately show ?thesis by (auto simp: foreign_keys_def t')
  qed
  moreover have "no_idle_step t'" using idle by (auto simp: t' no_idle_step_def)
  moreover have "ids_issued_by n t'" using t by (auto simp: t' intact_def ids_issued_by_def)
  ultimately show ?thesis using t by (simp add: intact_def)
qed

section \<open>Storing a step, exactly\<close>

definition new_step_row :: "mysql_env \<Rightarrow> step_config \<Rightarrow> int \<Rightarrow> step_row" where
  "new_step_row E step i =
     \<lparr>row_id = i, row_workflow_name = ctx_workflow_name step, row_instance_id = ctx_instance_id step,
      row_step_name = sql_null_string (ctx_name step), row_context = ctx_context step,
      row_not_until = projr (timestamp_null E (sql_null_time (cfg_not_until step))),
      row_timeout = projr (timestamp_null E (sql_null_time (cfg_step_timeout step))), row_process_id = None\<rparr>"

definition push_arg :: "step_config \<Rightarrow> time \<Rightarrow> time option" where
  "push_arg step at = (if is_zero_time (cfg_not_until step) then Some at else None)"

definition new_id_row :: "mysql_env \<Rightarrow> step_config \<Rightarrow> time \<Rightarrow> time \<Rightarrow> int \<Rightarrow> command_raw \<Rightarrow> string \<Rightarrow> id_command_row" where
  "new_id_row E step at now i sc eid =
     \<lparr>ic_enrollment_id = eid, ic_command_uuid = raw_uuid sc, ic_step_id = i,
      ic_request_type = raw_request_type sc, ic_completed = False, ic_result = [],
      ic_last_push = projr (timestamp_null E (push_arg step at)), ic_updated_at = now\<rparr>"

definition new_id_rows :: "mysql_env \<Rightarrow> step_config \<Rightarrow> time \<Rightarrow> time \<Rightarrow> int \<Rightarrow> command_raw list \<Rightarrow> id_command_row list" where
  "new_id_rows E step at now i scs = concat (map (\<lambda>sc. map (new_id_row E step at now i sc) (enq_ids step)) scs)"

definition new_step_command_rows :: "step_config \<Rightarrow> int \<Rightarrow> command_raw list \<Rightarrow> step_command_row list" where
  "new_step_command_rows step i scs =
     (if is_zero_time (cfg_not_until step) then []
      else map (\<lambda>sc. \<lparr>sc_command_uuid = raw_uuid sc, sc_step_id = i, sc_command = raw_command sc,
                      sc_request_type = raw_request_type sc\<rparr>) scs)"

definition new_keys :: "mysql_env \<Rightarrow> string list \<Rightarrow> command_raw list \<Rightarrow> (string \<times> string) list" where
  "new_keys E ids scs = concat (map (\<lambda>sc. map (\<lambda>eid. (collation E eid, collation E (raw_uuid sc))) ids) scs)"

definition id_row_ok :: "mysql_env \<Rightarrow> step_config \<Rightarrow> time \<Rightarrow> command_raw \<Rightarrow> string \<Rightarrow> bool" where
  "id_row_ok E step at sc eid \<longleftrightarrow>
     accepts E 255 eid \<and> accepts E 127 (raw_uuid sc) \<and> accepts E 63 (raw_request_type sc) \<and>
     isl (timestamp_null E (push_arg step at)) = False"

definition command_ok :: "mysql_env \<Rightarrow> step_config \<Rightarrow> command_raw \<Rightarrow> bool" where
  "command_ok E step sc \<longleftrightarrow>
     is_zero_time (cfg_not_until step) \<or>
     accepts E 127 (raw_uuid sc) \<and> accepts E 63 (raw_request_type sc) \<and> accepts E mediumtext (raw_command sc)"

lemma new_rows_Nil [simp]: "new_id_rows E step at now i [] = []" "new_step_command_rows step i [] = []"
  by (simp_all add: new_id_rows_def new_step_command_rows_def)

lemma tables_swap:
  "t\<lparr>t_step_commands := a, t_id_commands := b\<rparr> = t\<lparr>t_id_commands := b, t_step_commands := a\<rparr>"
  by simp

lemma wp_store_id_command:
  assumes w: "works E" and i: "step_of_id (\<lambda>_. True) i (db_tables s)"
    and ok: "id_row_ok E step at sc eid \<Longrightarrow> (collation E eid, collation E (raw_uuid sc)) \<notin> ic_key E ` set (t_id_commands (db_tables s)) \<Longrightarrow>
       Q (Inr ()) ((tick s)\<lparr>db_tables := (db_tables s)\<lparr>t_id_commands := t_id_commands (db_tables s) @
            [new_id_row E step at (server_clock s) i sc eid]\<rparr>\<rparr>)"
    and no: "\<And>e. \<not> (id_row_ok E step at sc eid \<and> (collation E eid, collation E (raw_uuid sc)) \<notin> ic_key E ` set (t_id_commands (db_tables s))) \<Longrightarrow>
       Q (Inl e) (tick s)"
  shows "wp (my_store_id_command E step at i sc eid) Q s"
proof -
  have dup: "list_ex (is_id_command E eid (raw_uuid sc)) cs \<longleftrightarrow> (collation E eid, collation E (raw_uuid sc)) \<in> ic_key E ` set cs" for cs
    unfolding list_ex_iff sql_eq_key image_iff by metis
  show ?thesis
    using ok no i
    by (cases "timestamp_null E (push_arg step at)")
      (auto simp: my_store_id_command_def wp_exec [OF w] q_create_id_command_def dup id_row_ok_def
        new_id_row_def push_arg_def [symmetric])
qed

lemma wp_store_id_commands:
  assumes w: "works E"
  shows "step_of_id (\<lambda>_. True) i (db_tables s) \<Longrightarrow> distinct (map (ic_key E) (t_id_commands (db_tables s))) \<Longrightarrow>
    ((\<forall>eid\<in>set ids. id_row_ok E step at sc eid) \<Longrightarrow>
       distinct (map (ic_key E) (t_id_commands (db_tables s)) @ map (\<lambda>eid. (collation E eid, collation E (raw_uuid sc))) ids) \<Longrightarrow>
       \<forall>k. Q (Inr ()) (s\<lparr>db_calls := k, db_tables := (db_tables s)\<lparr>t_id_commands := t_id_commands (db_tables s) @
            map (new_id_row E step at (server_clock s) i sc) ids\<rparr>\<rparr>)) \<Longrightarrow>
    (\<not> ((\<forall>eid\<in>set ids. id_row_ok E step at sc eid) \<and>
       distinct (map (ic_key E) (t_id_commands (db_tables s)) @ map (\<lambda>eid. (collation E eid, collation E (raw_uuid sc))) ids)) \<Longrightarrow>
       \<forall>e s'. Q (Inl e) s') \<Longrightarrow>
    wp (go_for ids (my_store_id_command E step at i sc)) Q s"
proof (induction ids arbitrary: s)
  case Nil
  then have "\<forall>k. Q (Inr ()) (s\<lparr>db_calls := k\<rparr>)" by simp
  from spec [OF this, of "db_calls s"] show ?case by simp
next
  case (Cons eid ids)
  let ?k = "\<lambda>eid. (collation E eid, collation E (raw_uuid sc))"
  let ?t = "db_tables s"
  let ?s = "(tick s)\<lparr>db_tables := ?t\<lparr>t_id_commands := t_id_commands ?t @ [new_id_row E step at (server_clock s) i sc eid]\<rparr>\<rparr>"
  have key: "ic_key E (new_id_row E step at now i sc eid) = ?k eid" for now eid
    by (simp add: ic_key_def new_id_row_def)
  show ?case
    unfolding go_for.simps wp_bind
  proof (rule wp_store_id_command [OF w Cons.prems(1)])
    assume ok: "id_row_ok E step at sc eid" and new: "?k eid \<notin> ic_key E ` set (t_id_commands ?t)"
    have "wp (go_for ids (my_store_id_command E step at i sc)) Q ?s"
    proof (rule Cons.IH)
      show "step_of_id (\<lambda>_. True) i (db_tables ?s)" using Cons.prems(1) by (simp add: step_of_id_def)
      show "distinct (map (ic_key E) (t_id_commands (db_tables ?s)))" using Cons.prems(2) new by (simp add: key)
    next
      assume a: "\<forall>eid\<in>set ids. id_row_ok E step at sc eid"
        and d: "distinct (map (ic_key E) (t_id_commands (db_tables ?s)) @ map ?k ids)"
      have "distinct (map (ic_key E) (t_id_commands ?t) @ map ?k (eid # ids))" using d by (simp add: key)
      from Cons.prems(3) [OF _ this] a ok show "\<forall>k. Q (Inr ()) (?s\<lparr>db_calls := k,
          db_tables := (db_tables ?s)\<lparr>t_id_commands := t_id_commands (db_tables ?s) @ map (new_id_row E step at (server_clock ?s) i sc) ids\<rparr>\<rparr>)"
        by (simp add: tick_def)
    next
      assume "\<not> ((\<forall>eid\<in>set ids. id_row_ok E step at sc eid) \<and> distinct (map (ic_key E) (t_id_commands (db_tables ?s)) @ map ?k ids))"
      then show "\<forall>e s'. Q (Inl e) s'" by (intro Cons.prems(4)) (auto simp: key)
    qed
    then show "case Inr () of Inl e \<Rightarrow> Q (Inl e) ?s | Inr x \<Rightarrow> wp (go_for ids (my_store_id_command E step at i sc)) Q ?s"
      by simp
  next
    fix e
    assume "\<not> (id_row_ok E step at sc eid \<and> ?k eid \<notin> ic_key E ` set (t_id_commands ?t))"
    then have "\<forall>e s'. Q (Inl e) s'" by (intro Cons.prems(4)) auto
    then show "case Inl e of Inl e \<Rightarrow> Q (Inl e) (tick s) | Inr x \<Rightarrow> wp (go_for ids (my_store_id_command E step at i sc)) Q (tick s)"
      by simp
  qed
qed

definition command_fresh :: "mysql_env \<Rightarrow> step_config \<Rightarrow> tables \<Rightarrow> int \<Rightarrow> command_raw \<Rightarrow> bool" where
  "command_fresh E step t i sc \<longleftrightarrow>
     distinct (map (ic_key E) (t_id_commands t) @ new_keys E (enq_ids step) [sc]) \<and>
     (\<forall>c\<in>set (t_step_commands t). sc_step_id c = i \<longrightarrow>
        is_zero_time (cfg_not_until step) \<or> collation E (sc_command_uuid c) \<noteq> collation E (raw_uuid sc))"

lemma wp_my_store_step_command:
  assumes w: "works E" and i: "step_of_id (\<lambda>_. True) i t" and t: "t = db_tables s"
    and keys: "distinct (map (ic_key E) (t_id_commands t))"
    and ok: "command_ok E step sc \<Longrightarrow> \<forall>eid\<in>set (enq_ids step). id_row_ok E step at sc eid \<Longrightarrow> command_fresh E step t i sc \<Longrightarrow>
       \<forall>k. Q (Inr ()) (s\<lparr>db_calls := k, db_tables := t
          \<lparr>t_id_commands := t_id_commands t @ new_id_rows E step at (server_clock s) i [sc],
           t_step_commands := t_step_commands t @ new_step_command_rows step i [sc]\<rparr>\<rparr>)"
    and no: "\<not> (command_ok E step sc \<and> (\<forall>eid\<in>set (enq_ids step). id_row_ok E step at sc eid) \<and> command_fresh E step t i sc) \<Longrightarrow>
       \<forall>e s'. Q (Inl e) s'"
  shows "wp (my_store_step_command E step at i sc) Q s"
proof (cases "is_zero_time (cfg_not_until step)")
  case True
  have "wp (go_for (enq_ids step) (my_store_id_command E step at i sc)) Q s"
  proof (rule wp_store_id_commands [OF w])
    assume "\<forall>eid\<in>set (enq_ids step). id_row_ok E step at sc eid"
      "distinct (map (ic_key E) (t_id_commands (db_tables s)) @ map (\<lambda>eid. (collation E eid, collation E (raw_uuid sc))) (enq_ids step))"
    with ok True show "\<forall>k. Q (Inr ()) (s\<lparr>db_calls := k, db_tables := (db_tables s)\<lparr>t_id_commands := t_id_commands (db_tables s) @
            map (new_id_row E step at (server_clock s) i sc) (enq_ids step)\<rparr>\<rparr>)"
      by (simp add: command_fresh_def t new_keys_def new_id_rows_def new_step_command_rows_def command_ok_def)
  next
    assume "\<not> ((\<forall>eid\<in>set (enq_ids step). id_row_ok E step at sc eid) \<and>
      distinct (map (ic_key E) (t_id_commands (db_tables s)) @ map (\<lambda>eid. (collation E eid, collation E (raw_uuid sc))) (enq_ids step)))"
    then show "\<forall>e s'. Q (Inl e) s'" by (intro no) (auto simp: command_fresh_def t new_keys_def)
  qed (use i keys t in simp_all)
  with True show ?thesis by (simp add: my_store_step_command_def)
next
  case False
  let ?row = "\<lparr>sc_command_uuid = raw_uuid sc, sc_step_id = i, sc_command = raw_command sc, sc_request_type = raw_request_type sc\<rparr>"
  let ?free = "\<forall>c\<in>set (t_step_commands t). sc_step_id c = i \<longrightarrow> collation E (sc_command_uuid c) \<noteq> collation E (raw_uuid sc)"
  have dup: "list_ex (\<lambda>c. sql_eq E (sc_command_uuid c) (raw_uuid sc) \<and> sc_step_id c = i) (t_step_commands t) \<longleftrightarrow> \<not> ?free"
    by (auto simp: list_ex_iff sql_eq_def)
  have run: "q_create_step_command E i (raw_uuid sc) (raw_request_type sc) (raw_command sc) now t =
      (if \<not> command_ok E step sc then Inl err_too_long else if \<not> ?free then Inl err_duplicate
       else Inr (t\<lparr>t_step_commands := t_step_commands t @ [?row]\<rparr>))" for now
    using False i by (auto simp: q_create_step_command_def command_ok_def dup)
  let ?s = "(tick s)\<lparr>db_tables := t\<lparr>t_step_commands := t_step_commands t @ [?row]\<rparr>\<rparr>"
  have rest: "wp (go_for (enq_ids step) (my_store_id_command E step at i sc)) Q ?s" if c: "command_ok E step sc" "?free"
  proof (rule wp_store_id_commands [OF w])
    assume "\<forall>eid\<in>set (enq_ids step). id_row_ok E step at sc eid"
      "distinct (map (ic_key E) (t_id_commands (db_tables ?s)) @ map (\<lambda>eid. (collation E eid, collation E (raw_uuid sc))) (enq_ids step))"
    with ok False c show "\<forall>k. Q (Inr ()) (?s\<lparr>db_calls := k, db_tables := (db_tables ?s)\<lparr>t_id_commands := t_id_commands (db_tables ?s) @
            map (new_id_row E step at (server_clock ?s) i sc) (enq_ids step)\<rparr>\<rparr>)"
      by (simp add: command_fresh_def new_keys_def new_id_rows_def new_step_command_rows_def tick_def tables_swap)
  next
    assume "\<not> ((\<forall>eid\<in>set (enq_ids step). id_row_ok E step at sc eid) \<and>
      distinct (map (ic_key E) (t_id_commands (db_tables ?s)) @ map (\<lambda>eid. (collation E eid, collation E (raw_uuid sc))) (enq_ids step)))"
    then show "\<forall>e s'. Q (Inl e) s'" by (intro no) (auto simp: command_fresh_def new_keys_def)
  qed (use i keys in \<open>simp_all add: step_of_id_def\<close>)
  have "\<forall>e s'. Q (Inl e) s'" if "\<not> (command_ok E step sc \<and> ?free)"
    by (rule no) (use that False in \<open>auto simp: command_fresh_def\<close>)
  with rest False show ?thesis
    by (simp add: my_store_step_command_def wp_exec [OF w] run flip: t)
qed

definition commands_fresh :: "mysql_env \<Rightarrow> step_config \<Rightarrow> tables \<Rightarrow> int \<Rightarrow> command_raw list \<Rightarrow> bool" where
  "commands_fresh E step t i scs \<longleftrightarrow>
     distinct (map (ic_key E) (t_id_commands t) @ new_keys E (enq_ids step) scs) \<and>
     (is_zero_time (cfg_not_until step) \<or>
      distinct (map (\<lambda>sc. collation E (raw_uuid sc)) scs) \<and>
      (\<forall>c\<in>set (t_step_commands t). sc_step_id c = i \<longrightarrow>
         (\<forall>sc\<in>set scs. collation E (sc_command_uuid c) \<noteq> collation E (raw_uuid sc))))"

definition commands_ok :: "mysql_env \<Rightarrow> step_config \<Rightarrow> time \<Rightarrow> command_raw list \<Rightarrow> bool" where
  "commands_ok E step at scs \<longleftrightarrow>
     (\<forall>sc\<in>set scs. command_ok E step sc \<and> (\<forall>eid\<in>set (enq_ids step). id_row_ok E step at sc eid))"

definition add_commands ::
  "mysql_env \<Rightarrow> step_config \<Rightarrow> time \<Rightarrow> time \<Rightarrow> int \<Rightarrow> command_raw list \<Rightarrow> tables \<Rightarrow> tables" where
  "add_commands E step at now i scs t =
     t\<lparr>t_id_commands := t_id_commands t @ new_id_rows E step at now i scs,
       t_step_commands := t_step_commands t @ new_step_command_rows step i scs\<rparr>"

lemma key_new_id_rows: "map (ic_key E) (new_id_rows E step at now i scs) = new_keys E (enq_ids step) scs"
  by (induction scs) (auto simp: new_id_rows_def new_keys_def ic_key_def new_id_row_def)

lemma add_commands_Cons:
  "add_commands E step at now i (sc # scs) t =
     add_commands E step at now i scs (add_commands E step at now i [sc] t)"
  by (simp add: add_commands_def new_id_rows_def new_step_command_rows_def)

lemma add_commands_sel [simp]:
  "t_steps (add_commands E step at now i scs t) = t_steps t"
  "t_events (add_commands E step at now i scs t) = t_events t"
  "t_status (add_commands E step at now i scs t) = t_status t"
  "map (ic_key E) (t_id_commands (add_commands E step at now i scs t)) =
     map (ic_key E) (t_id_commands t) @ new_keys E (enq_ids step) scs"
  by (simp_all add: add_commands_def key_new_id_rows)

lemma commands_fresh_Cons:
  "commands_fresh E step t i (sc # scs) \<longleftrightarrow>
     command_fresh E step t i sc \<and> commands_fresh E step (add_commands E step at now i [sc] t) i scs"
proof -
  have keys: "new_keys E (enq_ids step) (sc # scs) = new_keys E (enq_ids step) [sc] @ new_keys E (enq_ids step) scs"
    by (simp add: new_keys_def)
  have added: "t_step_commands (add_commands E step at now i [sc] t) =
      t_step_commands t @ new_step_command_rows step i [sc]"
    by (simp add: add_commands_def)
  show ?thesis
    unfolding commands_fresh_def command_fresh_def keys add_commands_sel append_assoc added
    by (auto simp: new_step_command_rows_def)
qed

lemma wp_my_store_step_commands:
  assumes w: "works E"
  shows "step_of_id (\<lambda>_. True) i (db_tables s) \<Longrightarrow> distinct (map (ic_key E) (t_id_commands (db_tables s))) \<Longrightarrow>
    (commands_ok E step at scs \<Longrightarrow> commands_fresh E step (db_tables s) i scs \<Longrightarrow>
       \<forall>k. Q (Inr ()) (s\<lparr>db_calls := k, db_tables := add_commands E step at (server_clock s) i scs (db_tables s)\<rparr>)) \<Longrightarrow>
    (\<not> (commands_ok E step at scs \<and> commands_fresh E step (db_tables s) i scs) \<Longrightarrow> \<forall>e s'. Q (Inl e) s') \<Longrightarrow>
    wp (go_for scs (my_store_step_command E step at i)) Q s"
proof (induction scs arbitrary: s)
  case Nil
  have "db_tables s\<lparr>t_id_commands := t_id_commands (db_tables s), t_step_commands := t_step_commands (db_tables s)\<rparr> = db_tables s"
    by simp
  with Nil have "\<forall>k. Q (Inr ()) (s\<lparr>db_calls := k\<rparr>)"
    by (simp add: commands_ok_def commands_fresh_def new_keys_def add_commands_def)
  from spec [OF this, of "db_calls s"] show ?case by simp
next
  case (Cons sc scs)
  let ?t = "db_tables s"
  let ?u = "add_commands E step at (server_clock s) i [sc] ?t"
  show ?case
    unfolding go_for.simps wp_bind
  proof (rule wp_my_store_step_command [OF w Cons.prems(1) refl Cons.prems(2)])
    assume ok: "command_ok E step sc" "\<forall>eid\<in>set (enq_ids step). id_row_ok E step at sc eid"
      and fresh: "command_fresh E step ?t i sc"
    have "wp (go_for scs (my_store_step_command E step at i)) Q (s\<lparr>db_calls := k, db_tables := ?u\<rparr>)" for k
    proof (rule Cons.IH)
      show "step_of_id (\<lambda>_. True) i (db_tables (s\<lparr>db_calls := k, db_tables := ?u\<rparr>))"
        using Cons.prems(1) by (simp add: step_of_id_def)
      show "distinct (map (ic_key E) (t_id_commands (db_tables (s\<lparr>db_calls := k, db_tables := ?u\<rparr>))))"
        using fresh by (simp add: command_fresh_def)
    next
      assume "commands_ok E step at scs" "commands_fresh E step (db_tables (s\<lparr>db_calls := k, db_tables := ?u\<rparr>)) i scs"
      then have "\<forall>k. Q (Inr ()) (s\<lparr>db_calls := k, db_tables := add_commands E step at (server_clock s) i (sc # scs) ?t\<rparr>)"
        using ok fresh
        by (intro Cons.prems(3)) (auto simp: commands_ok_def commands_fresh_Cons [where at = at and now = "server_clock s"])
      then show "\<forall>k'. Q (Inr ()) (s\<lparr>db_calls := k, db_tables := ?u\<rparr>\<lparr>db_calls := k',
          db_tables := add_commands E step at (server_clock (s\<lparr>db_calls := k, db_tables := ?u\<rparr>)) i scs
            (db_tables (s\<lparr>db_calls := k, db_tables := ?u\<rparr>))\<rparr>)"
        by (simp add: add_commands_Cons [symmetric])
    next
      assume "\<not> (commands_ok E step at scs \<and> commands_fresh E step (db_tables (s\<lparr>db_calls := k, db_tables := ?u\<rparr>)) i scs)"
      then show "\<forall>e s'. Q (Inl e) s'"
        by (intro Cons.prems(4)) (auto simp: commands_ok_def commands_fresh_Cons [where at = at and now = "server_clock s"])
    qed
    then show "\<forall>k. case Inr () of Inl e \<Rightarrow> Q (Inl e) (s\<lparr>db_calls := k, db_tables := ?t
          \<lparr>t_id_commands := t_id_commands ?t @ new_id_rows E step at (server_clock s) i [sc],
           t_step_commands := t_step_commands ?t @ new_step_command_rows step i [sc]\<rparr>\<rparr>)
        | Inr x \<Rightarrow> wp (go_for scs (my_store_step_command E step at i)) Q (s\<lparr>db_calls := k, db_tables := ?t
          \<lparr>t_id_commands := t_id_commands ?t @ new_id_rows E step at (server_clock s) i [sc],
           t_step_commands := t_step_commands ?t @ new_step_command_rows step i [sc]\<rparr>\<rparr>)"
      by (simp add: add_commands_def)
  next
    assume "\<not> (command_ok E step sc \<and> (\<forall>eid\<in>set (enq_ids step). id_row_ok E step at sc eid) \<and> command_fresh E step ?t i sc)"
    then have "\<forall>e s'. Q (Inl e) s'"
      by (intro Cons.prems(4)) (auto simp: commands_ok_def commands_fresh_Cons [where at = at and now = "server_clock s"])
    then show "\<forall>e s'. case Inl e of Inl e \<Rightarrow> Q (Inl e) s' | Inr x \<Rightarrow> wp (go_for scs (my_store_step_command E step at i)) Q s'"
      by simp
  qed
qed

section \<open>\<open>StoreStep\<close>\<close>

text \<open>When the server takes a step, and the tables with the step in them.\<close>

definition my_storable :: "mysql_env \<Rightarrow> step_config \<Rightarrow> time \<Rightarrow> tables \<Rightarrow> bool" where
  "my_storable E step at t \<longleftrightarrow>
     validate_step_config (Some step) = Inr () \<and>
     accepts E 255 (ctx_workflow_name step) \<and> accepts E 255 (ctx_instance_id step) \<and>
     accepts_null E 255 (sql_null_string (ctx_name step)) \<and> accepts E mediumtext (ctx_context step) \<and>
     \<not> isl (timestamp_null E (sql_null_time (cfg_not_until step))) \<and>
     \<not> isl (timestamp_null E (sql_null_time (cfg_step_timeout step))) \<and>
     commands_ok E step at (enq_commands step) \<and>
     distinct (map (ic_key E) (t_id_commands t) @ new_keys E (enq_ids step) (enq_commands step))"

definition with_step :: "mysql_env \<Rightarrow> step_config \<Rightarrow> time \<Rightarrow> time \<Rightarrow> int \<Rightarrow> tables \<Rightarrow> tables" where
  "with_step E step at now i t =
     add_commands E step at now i (enq_commands step)
       (t\<lparr>t_steps := t_steps t @ [new_step_row E step i]\<rparr>)"

lemma distinct_keys_uuids:
  "ids \<noteq> [] \<Longrightarrow> distinct (new_keys E ids scs) \<Longrightarrow> distinct (map (\<lambda>sc. collation E (raw_uuid sc)) scs)"
proof (induction scs)
  case (Cons sc scs)
  obtain i js where ids: "ids = i # js" using Cons.prems(1) by (cases ids) auto
  have "collation E (raw_uuid sc) \<noteq> collation E (raw_uuid sc')" if "sc' \<in> set scs" for sc'
    using Cons.prems(2) that by (auto simp: new_keys_def ids)
  with Cons show ?case by (auto simp: new_keys_def)
qed simp

lemma my_storable_fresh:
  assumes "intact E i t" "validate_step_config (Some step) = Inr ()"
  shows "commands_fresh E step (t\<lparr>t_steps := ss\<rparr>) i (enq_commands step) \<longleftrightarrow>
     distinct (map (ic_key E) (t_id_commands t) @ new_keys E (enq_ids step) (enq_commands step))"
proof -
  have "sc_step_id c \<noteq> i" if "c \<in> set (t_step_commands t)" for c
    using assms(1) that by (fastforce simp: intact_def foreign_keys_def ids_issued_by_def)
  moreover have "enq_ids step \<noteq> []" using assms(2) by (simp add: validate_step_config_iff)
  ultimately show ?thesis
    using distinct_keys_uuids [of "enq_ids step" E "enq_commands step"] by (auto simp: commands_fresh_def)
qed

lemma wp_create_step:
  assumes w: "works E"
    and ok: "accepts E 255 (ctx_workflow_name step) \<and> accepts E 255 (ctx_instance_id step) \<and>
         accepts_null E 255 (sql_null_string (ctx_name step)) \<and> accepts E mediumtext (ctx_context step) \<and>
         \<not> isl (timestamp_null E (sql_null_time (cfg_not_until step))) \<and>
         \<not> isl (timestamp_null E (sql_null_time (cfg_step_timeout step))) \<Longrightarrow>
       Q (Inr (db_next_id s)) ((tick s)\<lparr>db_next_id := db_next_id s + 1, db_tables := (db_tables s)
            \<lparr>t_steps := t_steps (db_tables s) @ [new_step_row E step (db_next_id s)]\<rparr>\<rparr>)"
    and no: "\<not> (accepts E 255 (ctx_workflow_name step) \<and> accepts E 255 (ctx_instance_id step) \<and>
         accepts_null E 255 (sql_null_string (ctx_name step)) \<and> accepts E mediumtext (ctx_context step) \<and>
         \<not> isl (timestamp_null E (sql_null_time (cfg_not_until step))) \<and>
         \<not> isl (timestamp_null E (sql_null_time (cfg_step_timeout step)))) \<Longrightarrow> \<forall>e s'. Q (Inl e) s'"
  shows "wp (q_create_step E (ctx_workflow_name step) (ctx_instance_id step)
            (sql_null_string (ctx_name step)) (ctx_context step)
            (sql_null_time (cfg_not_until step)) (sql_null_time (cfg_step_timeout step))) Q s"
  using ok no
  by (cases "timestamp_null E (sql_null_time (cfg_not_until step))";
      cases "timestamp_null E (sql_null_time (cfg_step_timeout step))")
    (auto simp: wp_def q_create_step_def call_works [OF w] Let_def new_step_row_def)

lemma wp_my_store_step:
  assumes w: "works E" and t: "intact E (db_next_id s) (db_tables s)"
    and ok: "my_storable E step at (db_tables s) \<Longrightarrow>
       \<forall>k. Q (Inr ()) (s\<lparr>db_calls := k, db_next_id := db_next_id s + 1,
              db_tables := with_step E step at (server_clock s) (db_next_id s) (db_tables s)\<rparr>)"
    and no: "\<not> my_storable E step at (db_tables s) \<Longrightarrow> \<forall>e s'. db_tables s' = db_tables s \<longrightarrow> Q (Inl e) s'"
  shows "wp (my_store_step E (Some step) at) Q s"
proof (cases "validate_step_config (Some step)")
  case (Inl e)
  then show ?thesis using no by (simp add: my_store_step_def my_storable_def)
next
  case (Inr u)
  then have valid: "validate_step_config (Some step) = Inr ()" by simp
  let ?i = "db_next_id s" and ?t = "db_tables s"
  let ?s = "(tick (tick s))\<lparr>db_next_id := ?i + 1, db_tables := ?t\<lparr>t_steps := t_steps ?t @ [new_step_row E step ?i]\<rparr>\<rparr>"
  have row: "row_id (new_step_row E step ?i) = ?i" by (simp add: new_step_row_def)
  have d: "distinct (map (ic_key E) (t_id_commands ?t))" using t by (simp add: intact_def primary_keys_def)
  have swap: "s\<lparr>db_next_id := a, db_tables := b, db_calls := k\<rparr> = s\<lparr>db_calls := k, db_next_id := a, db_tables := b\<rparr>" for a b k
    by simp
  define D where "D \<longleftrightarrow> distinct (map (ic_key E) (t_id_commands ?t) @ new_keys E (enq_ids step) (enq_commands step))"
  define C where "C \<longleftrightarrow> commands_fresh E step (?t\<lparr>t_steps := t_steps ?t @ [new_step_row E step ?i]\<rparr>) ?i (enq_commands step)"
  have CD: "C \<longleftrightarrow> D" unfolding C_def D_def by (rule my_storable_fresh [OF t valid])
  note st = my_storable_def [of E step at ?t, folded D_def]
  show ?thesis
  proof (cases "my_storable E step at ?t")
    case True
    then have Q: "Q (Inr ()) (s\<lparr>db_calls := k, db_next_id := ?i + 1, db_tables := with_step E step at (server_clock s) ?i ?t\<rparr>)" for k
      using ok by blast
    from True show ?thesis
      using valid CD d Q
      by (auto simp: my_store_step_def wp_tx [OF w] st C_def [symmetric] step_of_id_def row with_step_def tick_def swap
          intro!: wp_create_step [OF w] wp_my_store_step_commands [OF w])
  next
    case False
    then have Q: "db_tables s' = ?t \<Longrightarrow> Q (Inl e) s'" for e s' using no by blast
    from False show ?thesis
      using valid CD d
      by (auto simp: my_store_step_def wp_tx [OF w] st C_def [symmetric] step_of_id_def row tick_def
          intro!: wp_create_step [OF w] wp_my_store_step_commands [OF w] Q)
  qed
qed

lemma with_step_intact:
  assumes t: "intact E i t" and st: "my_storable E step at t"
  shows "intact E (i + 1) (with_step E step at now i t)"
proof -
  let ?t = "with_step E step at now i t"
  have ne: "enq_ids step \<noteq> []" "enq_commands step \<noteq> []"
    and keys: "distinct (map (ic_key E) (t_id_commands t) @ new_keys E (enq_ids step) (enq_commands step))"
    using st by (auto simp: my_storable_def validate_step_config_iff)
  have steps: "t_steps ?t = t_steps t @ [new_step_row E step i]" by (simp add: with_step_def)
  have cmds: "t_id_commands ?t = t_id_commands t @ new_id_rows E step at now i (enq_commands step)"
    "t_step_commands ?t = t_step_commands t @ new_step_command_rows step i (enq_commands step)"
    by (simp_all add: with_step_def add_commands_def)
  have new: "row_id (new_step_row E step i) = i" by (simp add: new_step_row_def)
  have rows: "ic_step_id ` set (new_id_rows E step at now i (enq_commands step)) = {i}"
    using ne by (auto simp: new_id_rows_def new_id_row_def neq_Nil_conv)
  have scs: "sc_step_id ` set (new_step_command_rows step i (enq_commands step)) \<subseteq> {i}"
    by (auto simp: new_step_command_rows_def)
  have below: "row_id s \<noteq> i" if "s \<in> set (t_steps t)" for s
    using t that by (auto simp: intact_def ids_issued_by_def)
  have fk: "sc_step_id c \<noteq> i" if "c \<in> set (t_step_commands t)" for c
    using t that below by (fastforce simp: intact_def foreign_keys_def)
  have "distinct (map (sc_key E) (t_step_commands ?t))"
    using distinct_keys_uuids [OF ne(1), of E "enq_commands step"] keys t fk
    by (auto simp: cmds new_step_command_rows_def sc_key_def comp_def distinct_map inj_on_def
        intact_def primary_keys_def image_iff)
  then have "primary_keys E ?t"
    using t keys below unfolding intact_def primary_keys_def cmds steps map_append key_new_id_rows
    by (auto simp: new with_step_def)
  moreover have "foreign_keys ?t"
    using t rows scs unfolding intact_def foreign_keys_def cmds steps set_append image_Un
    by (auto simp: new)
  moreover have "no_idle_step ?t"
    using t rows unfolding intact_def no_idle_step_def cmds steps set_append image_Un by (auto simp: new)
  moreover have "ids_issued_by (i + 1) ?t" using t by (auto simp: intact_def ids_issued_by_def steps new)
  ultimately show ?thesis using t by (simp add: intact_def)
qed

end
