(* ===== verification/MySQLSound.thy ===== *)
theory MySQLSound
  imports MySQLInv
begin

text \<open>
  Every operation of the MySQL backend keeps the integrity of the tables, whatever calls to the server
  fail: with a server that answers each operation does, and a failed operation leaves the tables it found
  or those of the operation that succeeds.
\<close>

section \<open>Every operation keeps the integrity\<close>

abbreviation sound :: "mysql_env \<Rightarrow> mysql \<Rightarrow> bool" where
  "sound E s \<equiv> intact E (db_next_id s) (db_tables s)"

lemma has_command_of:
  assumes "intact E n t" "s \<in> set (t_steps t)"
  obtains c where "c \<in> set (t_id_commands t)" "ic_step_id c = row_id s"
  using assms by (force simp: intact_def no_idle_step_def image_subset_iff image_iff)

lemma step_id_in: "c \<in> set cs \<Longrightarrow> ic_step_id c = i \<Longrightarrow> i \<in> ic_step_id ` set cs"
  by auto

lemma intact_unique_step:
  "intact E n t \<Longrightarrow> s \<in> set (t_steps t) \<Longrightarrow> step_of_id P (row_id s) t \<longleftrightarrow> P s"
  using step_row_unique unfolding intact_def step_of_id_iff by metis

lemma sound_cancel:
  assumes w: "works E" and s: "sound E s"
  shows "wp (my_cancel_steps E eid name) (\<lambda>_. sound E) s"
proof (cases "eid = []")
  case False
  let ?t = "db_tables s"
  define P where "P c \<longleftrightarrow> (name \<noteq> [] \<longrightarrow> step_of_id (\<lambda>s. sql_eq E (row_workflow_name s) name) (ic_step_id c) ?t) \<and>
      sql_eq E (ic_enrollment_id c) eid" for c :: id_command_row
  define cs where "cs = sql_delete P (t_id_commands ?t)"
  define scs where "scs = sql_delete (\<lambda>sc. \<not> list_ex (\<lambda>c. sql_eq E (sc_command_uuid sc) (ic_command_uuid c)) cs) (t_step_commands ?t)"
  let ?u = "?t\<lparr>t_id_commands := cs, t_step_commands := scs\<rparr>"
  define D where "D r \<longleftrightarrow> \<not> has_id_commands ?u (row_id r) \<and> (name \<noteq> [] \<longrightarrow> sql_eq E (row_workflow_name r) name)" for r :: step_row
  have ok: "intact E (db_next_id s) t'" if "delete_steps D ?u = Inr t'" for t'
  proof (rule intact_delete [OF s cs_def _ _ that])
    show "distinct (map (sc_key E) scs)" using s by (simp add: scs_def distinct_sql_delete intact_def primary_keys_def)
    show "set scs \<subseteq> set (t_step_commands ?t)" by (auto simp: scs_def)
  next
    fix r assume r: "r \<in> set (t_steps ?t)" "\<not> D r"
    obtain c where c: "c \<in> set (t_id_commands ?t)" "ic_step_id c = row_id r" using has_command_of [OF s r(1)] .
    show "row_id r \<in> ic_step_id ` set cs"
    proof (cases "has_id_commands ?u (row_id r)")
      case True
      then show ?thesis by (auto simp: has_id_commands_iff intro: step_id_in)
    next
      case False
      with r(2) have "name \<noteq> []" "\<not> sql_eq E (row_workflow_name r) name" by (auto simp: D_def)
      then have "\<not> P c" using c(2) intact_unique_step [OF s r(1)] by (simp add: P_def)
      with c show ?thesis by (intro step_id_in) (simp_all add: cs_def)
    qed
  qed
  have del: "(if name \<noteq> [] then q_delete_id_command_by_workflow E eid name now ?t else q_delete_id_commands E eid now ?t)
      = Inr (?t\<lparr>t_id_commands := cs\<rparr>)" for now
    by (simp add: q_delete_id_command_by_workflow_def q_delete_id_commands_def cs_def P_def [abs_def])
  have unused: "q_delete_unused_step_commands E now (?t\<lparr>t_id_commands := cs\<rparr>) = Inr ?u" for now
    by (simp add: q_delete_unused_step_commands_def scs_def)
  have steps: "(if name \<noteq> [] then q_delete_workflow_step_having_no_commands_by_workflow_name E name now ?u
        else q_delete_workflow_step_having_no_commands now ?u) = delete_steps D ?u" for now
    by (simp add: q_delete_workflow_step_having_no_commands_by_workflow_name_def
        q_delete_workflow_step_having_no_commands_def D_def [abs_def])
  show ?thesis
    using False del [of "server_clock s"] unused [of "server_clock s"] steps [of "server_clock s"] ok s
    by (cases "name = []"; cases "delete_steps D ?u"; simp add: my_cancel_steps_def wp_my [OF w])
qed (use s in \<open>simp add: my_cancel_steps_def\<close>)

lemma sound_act:
  assumes w: "works E" and s: "sound E s"
  shows "wp (my_act_on_count E eid sc ct) (\<lambda>_. sound E) s"
proof -
  obtain count i where ct: "ct = (count, i)" by fastforce
  let ?t = "db_tables s"
  define cs where "cs = sql_delete (\<lambda>c. sql_eq E (ic_enrollment_id c) eid \<and> ic_step_id c = i) (t_id_commands ?t)"
  let ?u = "?t\<lparr>t_id_commands := cs\<rparr>"
  define D where "D r \<longleftrightarrow> \<not> has_id_commands ?u (row_id r) \<and> row_id r = i" for r :: step_row
  have ok: "intact E (db_next_id s) t'" if del: "delete_steps D ?u = Inr t'" for t'
  proof (rule intact_delete [OF s cs_def])
    show "delete_steps D (?t\<lparr>t_id_commands := cs, t_step_commands := t_step_commands ?t\<rparr>) = Inr t'"
      using del by simp
    show "distinct (map (sc_key E) (t_step_commands ?t))" using s by (simp add: intact_def primary_keys_def)
  next
    fix r assume r: "r \<in> set (t_steps ?t)" "\<not> D r"
    obtain c where c: "c \<in> set (t_id_commands ?t)" "ic_step_id c = row_id r" using has_command_of [OF s r(1)] .
    show "row_id r \<in> ic_step_id ` set cs"
    proof (cases "row_id r = i")
      case True
      with r(2) show ?thesis by (auto simp: D_def has_id_commands_iff intro: step_id_in)
    next
      case False
      with c show ?thesis by (intro step_id_in) (simp_all add: cs_def)
    qed
  qed simp
  have del: "q_remove_id_commands_by_step_id E eid i now ?t = Inr ?u" for now
    by (simp add: q_remove_id_commands_by_step_id_def cs_def)
  have steps: "q_delete_workflow_step_having_no_commands_by_step_id i now ?u = delete_steps D ?u" for now
    by (simp add: q_delete_workflow_step_having_no_commands_by_step_id_def D_def [abs_def])
  have upd: "intact E (db_next_id s) t'" if "q_update_id_command E b r eid u now ?t = Inr t'" for b r u now t'
    using that by (auto simp: q_update_id_command_def intro!: intact_touch(1) [OF s] split: if_splits)
  show ?thesis
    using s ok upd
    by (cases "delete_steps D ?u"; cases "q_get_step_by_id i ?t")
      (auto simp: ct my_act_on_count_def my_complete_step_def wp_my [OF w] del steps split: sum.split)
qed

lemma sound_response:
  assumes w: "works E" and s: "sound E s"
  shows "wp (my_store_command_response E eid sc) (\<lambda>_. sound E) s"
proof -
  have touch: "intact E (db_next_id s) t'" if "q_update_id_command_timestamp E eid u now (db_tables s) = Inr t'" for u now t'
    using that by (auto simp: q_update_id_command_timestamp_def intro!: intact_touch(1) [OF s])
  have "sound E (tick s)" using s by simp
  then show ?thesis
    using s touch sound_act [OF w]
    by (auto simp: my_store_command_response_def my_count_outstanding_def wp_my [OF w] split: option.split sum.split list.split)
qed

lemma intact_process:
  assumes "intact E n t"
  shows "intact E n (t\<lparr>t_steps := sql_update P (\<lambda>s. s\<lparr>row_process_id := p\<rparr>) (t_steps t)\<rparr>)"
  by (rule intact_update_steps [OF assms]) (rule map_row_id_process)

lemma intact_mark:
  assumes "intact E n t"
  shows "\<exists>t'. q_update_step_after_not_until E p at now t = Inr t' \<and> intact E n t'"
    "\<exists>t'. q_update_step_after_timeout E p at now t = Inr t' \<and> intact E n t'"
  using intact_process [OF assms] by (simp_all add: q_update_step_after_not_until_def q_update_step_after_timeout_def)

lemma intact_remove_step_commands:
  "intact E n t \<Longrightarrow> \<exists>t'. q_remove_step_commands_by_process_id p now t = Inr t' \<and> intact E n t'"
  by (simp add: q_remove_step_commands_by_process_id_def intact_step_commands)

lemma intact_last_push:
  "intact E n t \<Longrightarrow> \<exists>t'. q_update_last_push_by_process_id p now t = Inr t' \<and> intact E n t'"
  by (auto simp: q_update_last_push_by_process_id_def intro!: intact_touch(2))

lemma sound_enqueue:
  assumes w: "works E" and s: "sound E s"
  shows "wp (my_retrieve_steps_to_enqueue E at) (\<lambda>_. sound E) s"
proof (cases "is_zero_time at")
  case False
  let ?p = "process_id E ''notu'' (rand_reads s)" and ?now = "server_clock s"
  obtain t1 where t1: "q_update_step_after_not_until E ?p at ?now (db_tables s) = Inr t1" "intact E (db_next_id s) t1"
    using intact_mark(1) [OF s] by blast
  obtain t2 where t2: "q_remove_step_commands_by_process_id ?p ?now t1 = Inr t2" "intact E (db_next_id s) t2"
    using intact_remove_step_commands [OF t1(2)] by blast
  obtain t3 where t3: "q_update_last_push_by_process_id ?p ?now t2 = Inr t3" "intact E (db_next_id s) t3"
    using intact_last_push [OF t2(2)] by blast
  show ?thesis using False t1 t2 t3 by (simp add: my_retrieve_steps_to_enqueue_def wp_my [OF w])
qed (use s in \<open>simp add: my_retrieve_steps_to_enqueue_def\<close>)

text \<open>The commands and the steps that are marked with \<open>p\<close> go together.\<close>

lemma intact_remove_process:
  assumes t: "intact E n t"
  shows "\<exists>t' t''. q_remove_step_commands_by_process_id p now t = Inr t' \<and>
     q_remove_id_commands_by_process_id p now t' = Inr t'' \<and>
     q_remove_steps_by_process_id p now t'' =
       Inr (t''\<lparr>t_steps := sql_delete (is_process p) (t_steps t)\<rparr>) \<and>
     intact E n (t''\<lparr>t_steps := sql_delete (is_process p) (t_steps t)\<rparr>) \<and>
     t'' = t\<lparr>t_id_commands := sql_delete (\<lambda>c. step_of_id (is_process p) (ic_step_id c) t) (t_id_commands t),
            t_step_commands := sql_delete (\<lambda>c. step_of_id (is_process p) (sc_step_id c) t) (t_step_commands t)\<rparr>"
proof -
  let ?cs = "sql_delete (\<lambda>c. step_of_id (is_process p) (ic_step_id c) t) (t_id_commands t)"
  let ?scs = "sql_delete (\<lambda>c. step_of_id (is_process p) (sc_step_id c) t) (t_step_commands t)"
  let ?u = "t\<lparr>t_id_commands := ?cs, t_step_commands := ?scs\<rparr>"
  have del: "delete_steps (is_process p) ?u = Inr (?u\<lparr>t_steps := sql_delete (is_process p) (t_steps t)\<rparr>)"
    by (auto simp: delete_steps_def list_ex_iff has_id_commands_iff has_step_commands_iff step_of_id_iff)
  have "intact E n (?u\<lparr>t_steps := sql_delete (is_process p) (t_steps t)\<rparr>)"
  proof (rule intact_delete [OF t refl _ _ del])
    fix r assume r: "r \<in> set (t_steps t)" "\<not> is_process p r"
    obtain c where "c \<in> set (t_id_commands t)" "ic_step_id c = row_id r" using has_command_of [OF t r(1)] .
    with r(2) show "row_id r \<in> ic_step_id ` set ?cs"
      by (intro step_id_in) (simp_all add: intact_unique_step [OF t r(1)])
  qed (use t in \<open>auto simp: intact_def primary_keys_def distinct_sql_delete\<close>)
  then show ?thesis
    using del by (simp add: q_remove_step_commands_by_process_id_def q_remove_id_commands_by_process_id_def
        q_remove_steps_by_process_id_def step_of_id_def tables_swap)
qed

lemma sound_time_out:
  assumes w: "works E" and s: "sound E s"
  shows "wp (my_retrieve_timed_out_steps E) (\<lambda>_. sound E) s"
proof -
  let ?p = "process_id E ''tout'' (rand_reads s)" and ?now = "server_clock s"
  obtain t1 where t1: "q_update_step_after_timeout E ?p (go_clock s) ?now (db_tables s) = Inr t1" "intact E (db_next_id s) t1"
    using intact_mark(2) [OF s] by blast
  from intact_remove_process [OF t1(2), of ?p ?now] t1(1) show ?thesis
    by (auto simp: my_retrieve_timed_out_steps_def wp_my [OF w])
qed

lemma sound_re_push:
  assumes w: "works E" and s: "sound E s"
  shows "wp (my_retrieve_and_mark_re_pushed E before at) (\<lambda>_. sound E) s"
proof -
  have "intact E (db_next_id s) t'" if "q_update_repush_ids E lp b now (db_tables s) = Inr t'" for lp b now t'
    using that s by (auto simp: q_update_repush_ids_def split: if_splits sum.splits intro!: intact_touch(2))
  then show ?thesis using s by (auto simp: my_retrieve_and_mark_re_pushed_def wp_my [OF w] split: sum.split)
qed

lemma ws_key_upsert:
  "distinct (map (ws_key E) rows) \<Longrightarrow> distinct (map (ws_key E) (upsert_status E name secs eid rows))"
  by (auto simp: upsert_status_def Let_def list_ex_iff sql_eq_def ws_key_def map_sql_update)

lemma intact_statuses:
  assumes t: "intact E n t" and run: "insert_statuses E ids name secs now t = Inr t'"
  shows "intact E n t'"
proof -
  have "distinct (map (ws_key E) (fold (upsert_status E name secs) ids rows))"
    if "distinct (map (ws_key E) rows)" for rows
    using that by (induction ids arbitrary: rows) (simp_all add: ws_key_upsert)
  moreover have "distinct (map (ws_key E) (t_status t))" using t by (simp add: intact_def primary_keys_def)
  ultimately show ?thesis
    using run t by (auto simp: insert_statuses_def intro!: intact_status split: if_splits)
qed

lemma intact_upsert_event:
  assumes t: "intact E n t" and run: "upsert_event E new now t = Inr t'"
  shows "intact E n t'"
proof -
  let ?same = "\<lambda>r. sql_eq E (er_event_name r) (er_event_name new)"
  have "distinct (map (er_key E) (t_events t))" using t by (simp add: intact_def primary_keys_def)
  then have "distinct (map (er_key E)
      (if list_ex ?same (t_events t) then sql_update ?same (\<lambda>r. new\<lparr>er_event_name := er_event_name r\<rparr>) (t_events t)
       else t_events t @ [new]))"
    by (auto simp: list_ex_iff sql_eq_def er_key_def map_sql_update)
  with run t show ?thesis by (auto simp: upsert_event_def Let_def intro!: intact_events split: if_splits)
qed

lemma sound_run_works:
  assumes w: "works E" and s: "sound E s"
  shows "wp (my_run E opn) (\<lambda>_. sound E) s"
proof (cases opn)
  case (MyResponse eid sc)
  show ?thesis using sound_response [OF w s] unfolding MyResponse my_run.simps silently_def wp_bind wp_ret
    by (rule wp_mono) (auto split: sum.split)
next
  case (MyStoreStep so at)
  show ?thesis
  proof (cases so)
    case None
    with s MyStoreStep show ?thesis by (simp add: my_store_step_def split: sum.split)
  next
    case (Some step)
    have "wp (my_store_step E (Some step) at) (\<lambda>_ s'. db_tables s' = db_tables s \<or> sound E s') s"
      by (rule wp_my_store_step [OF w s]) (auto simp: with_step_intact [OF s])
    moreover have "db_next_id s \<le> db_next_id (snd (my_store_step E (Some step) at s))"
      using grows_run [of E "MyStoreStep so at"] by (simp add: grows_def Some)
    ultimately show ?thesis
      using s by (auto simp: MyStoreStep Some wp_def intro: intact_mono split: prod.splits)
  qed
next
  case (MyStepsToEnqueue at)
  show ?thesis using sound_enqueue [OF w s] unfolding MyStepsToEnqueue my_run.simps silently_def wp_bind wp_ret
    by (rule wp_mono) (auto split: sum.split)
next
  case MyTimedOutSteps
  show ?thesis using sound_time_out [OF w s] unfolding MyTimedOutSteps my_run.simps silently_def wp_bind wp_ret
    by (rule wp_mono) (auto split: sum.split)
next
  case (MyRePushed b at)
  show ?thesis using sound_re_push [OF w s] unfolding MyRePushed my_run.simps silently_def wp_bind wp_ret
    by (rule wp_mono) (auto split: sum.split)
next
  case (MyClearStatus eid)
  with s show ?thesis
    by (auto simp: my_clear_workflow_status_def wp_exec [OF w] q_clear_workflow_status_def
        intro!: intact_status distinct_sql_delete) (simp add: intact_def primary_keys_def)
next
  case (MyDeleteEvent name)
  with s show ?thesis
    by (auto simp: my_delete_event_subscription_def wp_exec [OF w] q_remove_event_def
        intro!: intact_events distinct_sql_delete) (simp add: intact_def primary_keys_def)
next
  case (MyRecordStarted ids name at)
  with s intact_statuses [OF s] show ?thesis
    by (auto simp: my_record_workflow_started_def wp_exec [OF w] split: sum.split)
next
  case (MyStoreEvent name es)
  with s intact_upsert_event [OF s] show ?thesis
    by (auto simp: my_store_event_subscription_def wp_exec [OF w] split: sum.split)
qed (simp add: sound_cancel [OF w s])

text \<open>Under any failures: what a failed call leaves is what it found or what it would have done.\<close>

lemma intact_sure: "intact (sure E) n t \<longleftrightarrow> intact E n t"
  by (simp add: intact_def primary_keys_def ic_key_def [abs_def] sc_key_def [abs_def] er_key_def [abs_def] ws_key_def [abs_def])

lemma sound_run:
  assumes s: "sound E s"
  shows "sound E (snd (my_run E opn s))"
proof -
  have "wp (my_run (sure E) opn) (\<lambda>_. sound (sure E)) s"
    by (rule sound_run_works) (simp_all add: s intact_sure)
  then have sure: "sound E (snd (my_run (sure E) opn s))"
    by (auto simp: wp_def intact_sure split: prod.splits)
  have "db_next_id s \<le> db_next_id (snd (my_run E opn s))" using grows_run [of E opn] by (simp add: grows_def)
  with s sure all_or_nothingD(2) [OF atomic_run same_db_refl, of E opn s] show ?thesis
    by (auto intro: intact_mono)
qed

end
