(* ===== verification/MySQLEffect.thy ===== *)
theory MySQLEffect
  imports MySQLSound
begin

text \<open>
  What the operations of the MySQL backend compute from intact tables when the server answers: the count
  of outstanding commands, the completion of a step, the release of delayed steps and the time-outs.
\<close>

section \<open>Lists of rows\<close>

lemma concat_map_single:
  assumes "distinct xs" "x \<in> set xs" "\<And>y. y \<in> set xs \<Longrightarrow> y \<noteq> x \<Longrightarrow> f y = []"
  shows "concat (map f xs) = f x"
  using assms
proof (induction xs)
  case (Cons a xs)
  show ?case
  proof (cases "a = x")
    case True
    with Cons.prems have "\<forall>y\<in>set xs. f y = []" by auto
    then have "concat (map f xs) = []" by (induction xs) auto
    with True show ?thesis by simp
  next
    case False
    with Cons show ?thesis by simp
  qed
qed simp

lemma concat_map_none: "(\<And>y. y \<in> set xs \<Longrightarrow> f y = []) \<Longrightarrow> concat (map f xs) = []"
  by (induction xs) auto

lemma concat_map_filter: "concat (map (\<lambda>x. if P x then [f x] else []) xs) = map f (filter P xs)"
  by (induction xs) auto

lemma concat_map_const: "concat (map (\<lambda>x. if P x then [i] else []) xs) = replicate (length (filter P xs)) i"
  by (induction xs) auto

lemma count_replicate [simp]: "count_list (replicate k i) i = k"
  by (induction k) simp_all

lemma filter_single:
  assumes "distinct (map k xs)" "x \<in> set xs"
  shows "filter (\<lambda>y. k y = k x) xs = [x]"
  using assms by (induction xs) (auto simp: filter_empty_conv intro: rev_image_eqI)

section \<open>Counting\<close>

definition rows_of :: "mysql_env \<Rightarrow> string \<Rightarrow> int \<Rightarrow> tables \<Rightarrow> id_command_row list" where
  "rows_of E eid i t = [c \<leftarrow> t_id_commands t. sql_eq E (ic_enrollment_id c) eid \<and> ic_step_id c = i]"

definition open_rows :: "mysql_env \<Rightarrow> string \<Rightarrow> int \<Rightarrow> tables \<Rightarrow> id_command_row list" where
  "open_rows E eid i t = [c \<leftarrow> rows_of E eid i t. \<not> ic_completed c]"

definition done_rows :: "mysql_env \<Rightarrow> string \<Rightarrow> int \<Rightarrow> tables \<Rightarrow> id_command_row list" where
  "done_rows E eid i t = [c \<leftarrow> rows_of E eid i t. ic_completed c]"

lemma count_outstanding:
  assumes t: "intact E n t" and c: "c \<in> set (t_id_commands t)" "is_id_command E eid uuid c"
  shows "q_count_outstanding_id_workflow_step_commands E eid uuid t =
     (if open_rows E eid (ic_step_id c) t = [] then []
      else [(int (length (open_rows E eid (ic_step_id c) t)), ic_step_id c)])"
proof -
  let ?cs = "t_id_commands t" and ?i = "ic_step_id c"
  have d: "distinct (map (ic_key E) ?cs)" using t by (simp add: intact_def primary_keys_def)
  then have dd: "distinct ?cs" by (simp add: distinct_map)
  let ?P = "\<lambda>c1. ic_step_id c1 = ?i \<and> sql_eq E (ic_enrollment_id c1) eid \<and> \<not> ic_completed c1"
  have inner: "concat (map (\<lambda>c2. if ic_step_id c1 = ic_step_id c2 \<and> sql_eq E (ic_enrollment_id c1) eid \<and> \<not> ic_completed c1 \<and>
        sql_eq E (ic_enrollment_id c2) (ic_enrollment_id c1) \<and> sql_eq E (ic_command_uuid c2) uuid
      then [ic_step_id c1] else []) ?cs) = (if ?P c1 then [?i] else [])" for c1
  proof (subst concat_map_single [OF dd c(1)])
    fix c2 assume c2: "c2 \<in> set ?cs" "c2 \<noteq> c"
    then have "\<not> is_id_command E eid uuid c2"
      using ic_row_unique [of E t c2 c] t c by (auto simp: sql_eq_key intact_def)
    then show "(if ic_step_id c1 = ic_step_id c2 \<and> sql_eq E (ic_enrollment_id c1) eid \<and> \<not> ic_completed c1 \<and>
        sql_eq E (ic_enrollment_id c2) (ic_enrollment_id c1) \<and> sql_eq E (ic_command_uuid c2) uuid
      then [ic_step_id c1] else []) = []" by (auto simp: is_id_command_def sql_eq_def)
  next
    have "sql_eq E (ic_enrollment_id c) (ic_enrollment_id c1) \<longleftrightarrow> sql_eq E (ic_enrollment_id c1) eid"
      and "sql_eq E (ic_command_uuid c) uuid"
      using c(2) by (simp_all add: is_id_command_def sql_eq_def eq_commute)
    then show "(if ic_step_id c1 = ?i \<and> sql_eq E (ic_enrollment_id c1) eid \<and> \<not> ic_completed c1 \<and>
        sql_eq E (ic_enrollment_id c) (ic_enrollment_id c1) \<and> sql_eq E (ic_command_uuid c) uuid
      then [ic_step_id c1] else []) = (if ?P c1 then [?i] else [])" by simp
  qed
  have "concat (map (\<lambda>c1. if ?P c1 then [?i] else []) ?cs) = replicate (length (open_rows E eid ?i t)) ?i"
    unfolding concat_map_const by (simp add: open_rows_def rows_of_def conj_ac)
  then have joined: "concat (map (\<lambda>c1. concat (map (\<lambda>c2. if ic_step_id c1 = ic_step_id c2 \<and> sql_eq E (ic_enrollment_id c1) eid \<and> \<not> ic_completed c1 \<and>
        sql_eq E (ic_enrollment_id c2) (ic_enrollment_id c1) \<and> sql_eq E (ic_command_uuid c2) uuid
      then [ic_step_id c1] else []) ?cs)) ?cs) = replicate (length (open_rows E eid ?i t)) ?i"
    by (simp add: inner)
  have "remdups (replicate (Suc k) ?i) = [?i]" for k by (induction k) simp_all
  then have "remdups (replicate (length (open_rows E eid ?i t)) ?i) = (if open_rows E eid ?i t = [] then [] else [?i])"
    by (metis length_0_conv not0_implies_Suc remdups.simps(1) replicate_empty)
  with joined show ?thesis
    by (simp add: q_count_outstanding_id_workflow_step_commands_def Let_def count_replicate)
qed

lemma count_unknown:
  assumes "\<forall>c\<in>set (t_id_commands t). \<not> is_id_command E eid uuid c"
  shows "q_count_outstanding_id_workflow_step_commands E eid uuid t = []"
proof -
  have "concat (map (\<lambda>c1. concat (map (\<lambda>c2. if ic_step_id c1 = ic_step_id c2 \<and> sql_eq E (ic_enrollment_id c1) eid \<and> \<not> ic_completed c1 \<and>
        sql_eq E (ic_enrollment_id c2) (ic_enrollment_id c1) \<and> sql_eq E (ic_command_uuid c2) uuid
      then [ic_step_id c1] else []) (t_id_commands t))) (t_id_commands t)) = []"
    using assms by (auto intro!: concat_map_none simp: is_id_command_def sql_eq_def)
  then show ?thesis by (simp add: q_count_outstanding_id_workflow_step_commands_def Let_def)
qed

section \<open>Completing a step\<close>

lemma step_by_id:
  assumes "intact E n t" "r \<in> set (t_steps t)"
  shows "q_get_step_by_id (row_id r) t =
     [(row_workflow_name r, row_instance_id r, row_step_name r, row_context r)]"
proof -
  have "filter (\<lambda>s. row_id s = row_id r) (t_steps t) = [r]"
    by (rule filter_single) (use assms in \<open>simp_all add: intact_def primary_keys_def\<close>)
  then show ?thesis by (simp add: q_get_step_by_id_def concat_map_filter)
qed

definition row_result :: "id_command_row \<Rightarrow> string \<times> string \<times> bytes" where
  "row_result c = (ic_command_uuid c, ic_request_type c, ic_result c)"

lemma completed_rows:
  assumes t: "intact E n t" and r: "r \<in> set (t_steps t)" and no: "\<not> has_step_commands t (row_id r)"
  shows "q_get_id_commands_by_step_id_and_lock E eid (row_id r) t = map row_result (done_rows E eid (row_id r) t)"
proof -
  let ?i = "row_id r"
  have d: "distinct (map row_id (t_steps t))" using t by (simp add: intact_def primary_keys_def)
  have dd: "distinct (t_steps t)" using d by (simp add: distinct_map)
  have none: "length [sc \<leftarrow> t_step_commands t. sc_step_id sc = ?i] = 0"
    using no by (auto simp: has_step_commands_iff filter_empty_conv)
  let ?P = "\<lambda>c. ic_step_id c = ?i \<and> sql_eq E (ic_enrollment_id c) eid \<and> ic_completed c"
  have inner: "concat (map (\<lambda>s. if ic_step_id c = row_id s \<and> sql_eq E (ic_enrollment_id c) eid \<and> row_id s = ?i \<and> ic_completed c
        then [replicate (max 1 (length [sc \<leftarrow> t_step_commands t. sc_step_id sc = row_id s])) (row_result c)] else []) (t_steps t))
      = (if ?P c then [[row_result c]] else [])" for c
  proof (subst concat_map_single [OF dd r])
    fix s assume "s \<in> set (t_steps t)" "s \<noteq> r"
    then have "row_id s \<noteq> ?i" using d r by (auto simp: distinct_map dest: inj_onD)
    then show "(if ic_step_id c = row_id s \<and> sql_eq E (ic_enrollment_id c) eid \<and> row_id s = ?i \<and> ic_completed c
        then [replicate (max 1 (length [sc \<leftarrow> t_step_commands t. sc_step_id sc = row_id s])) (row_result c)] else []) = []" by simp
  qed (use none in auto)
  have "concat (concat (map (\<lambda>c. if ?P c then [[row_result c]] else []) cs)) = map row_result (filter ?P cs)" for cs
    by (induction cs) auto
  with inner show ?thesis
    by (simp add: q_get_id_commands_by_step_id_and_lock_def done_rows_def rows_of_def conj_ac row_result_def cong: if_cong)
qed

text \<open>
  The transaction: the result is the response at hand and the completed commands; the enrollment's
  commands of the step go, and the step when no other enrollment has commands of it.
\<close>

definition without_rows :: "mysql_env \<Rightarrow> string \<Rightarrow> int \<Rightarrow> tables \<Rightarrow> tables" where
  "without_rows E eid i t =
     (let u = t\<lparr>t_id_commands := sql_delete (\<lambda>c. sql_eq E (ic_enrollment_id c) eid \<and> ic_step_id c = i) (t_id_commands t)\<rparr>
      in u\<lparr>t_steps := sql_delete (\<lambda>s. \<not> has_id_commands u (row_id s) \<and> row_id s = i) (t_steps t)\<rparr>)"

definition completed_result :: "mysql_env \<Rightarrow> string \<Rightarrow> command_result \<Rightarrow> step_row \<Rightarrow> tables \<Rightarrow> step_result" where
  "completed_result E eid sc r t =
     \<lparr>ctx_workflow_name = row_workflow_name r, ctx_instance_id = row_instance_id r,
      ctx_name = null_string (row_step_name r), ctx_context = row_context r, res_ids = [eid],
      res_commands = sc # map (\<lambda>c. db_result (row_result c)) (done_rows E eid (row_id r) t)\<rparr>"

lemma wp_complete:
  assumes w: "works E" and s: "sound E s" and r: "r \<in> set (t_steps (db_tables s))"
    and no: "\<not> has_step_commands (db_tables s) (row_id r)" and one: "count \<le> 1"
    and Q: "\<And>s'. db_tables s' = without_rows E eid (row_id r) (db_tables s) \<Longrightarrow> db_next_id s' = db_next_id s \<Longrightarrow>
        Q (Inr (Some (completed_result E eid sc r (db_tables s)))) s'"
  shows "wp (my_act_on_count E eid sc (count, row_id r)) Q s"
proof -
  let ?t = "db_tables s" and ?i = "row_id r"
  let ?u = "?t\<lparr>t_id_commands := sql_delete (\<lambda>c. sql_eq E (ic_enrollment_id c) eid \<and> ic_step_id c = ?i) (t_id_commands ?t)\<rparr>"
  have i: "1 \<le> ?i" using s r by (auto simp: intact_def ids_issued_by_def)
  have del: "q_remove_id_commands_by_step_id E eid ?i now ?t = Inr ?u" for now
    by (simp add: q_remove_id_commands_by_step_id_def)
  have steps: "q_delete_workflow_step_having_no_commands_by_step_id ?i now ?u = Inr (without_rows E eid ?i ?t)" for now
    using no by (auto simp: q_delete_workflow_step_having_no_commands_by_step_id_def delete_steps_def list_ex_iff
        has_step_commands_def without_rows_def Let_def)
  show ?thesis
    using i one
    by (auto simp: my_act_on_count_def my_complete_step_def wp_my [OF w] step_by_id [OF s r] completed_rows [OF s r no]
        del steps completed_result_def [symmetric] comp_def intro!: Q)
qed

lemma wp_count:
  assumes w: "works E" and s: "sound E s"
    and c: "c \<in> set (t_id_commands (db_tables s))" "is_id_command E eid (cr_uuid sc) c"
  shows "wp (my_count_outstanding E eid sc) Q s =
     (if open_rows E eid (ic_step_id c) (db_tables s) = []
      then Q (Inl (Wrapf ''counting outstanding id workflow steps: %w'' [] err_no_rows)) (tick s)
      else Q (Inr (int (length (open_rows E eid (ic_step_id c) (db_tables s))), ic_step_id c)) (tick s))"
  by (simp add: my_count_outstanding_def wp_my [OF w] count_outstanding [OF s c])

lemma step_row_of:
  assumes "intact E n t" "c \<in> set (t_id_commands t)"
  obtains r where "r \<in> set (t_steps t)" "row_id r = ic_step_id c"
  using assms by (force simp: intact_def foreign_keys_def image_subset_iff image_iff)

lemma row_in_rows_of:
  "c \<in> set (t_id_commands t) \<Longrightarrow> is_id_command E eid uuid c \<Longrightarrow> c \<in> set (rows_of E eid (ic_step_id c) t)"
  by (simp add: rows_of_def is_id_command_def)

text \<open>Storing a response while at least one other command is open: the row of the command is completed.\<close>

definition complete_row :: "mysql_env \<Rightarrow> string \<Rightarrow> command_result \<Rightarrow> time \<Rightarrow> tables \<Rightarrow> tables" where
  "complete_row E eid sc now t =
     t\<lparr>t_id_commands := sql_update_one (is_id_command E eid (cr_uuid sc))
         (ic_touch now (\<lambda>c. c\<lparr>ic_completed := cr_completed sc, ic_result := cr_report sc\<rparr>)) (t_id_commands t)\<rparr>"

lemma wp_update:
  assumes w: "works E" and acc: "accepts E mediumtext (cr_report sc)" and i: "1 \<le> i" and more: "1 < count"
    and Q: "Q (Inr None) ((tick s)\<lparr>db_tables := complete_row E eid sc (server_clock s) (db_tables s)\<rparr>)"
  shows "wp (my_act_on_count E eid sc (count, i)) Q s"
  using i more Q by (simp add: my_act_on_count_def wp_my [OF w] q_update_id_command_def acc complete_row_def)

lemma set_update_one:
  assumes "distinct (map k xs)" "x \<in> set xs" "\<And>y. P y \<longleftrightarrow> k y = k x"
  shows "set (sql_update_one P f xs) = insert (f x) (set xs - {x})"
  using assms
proof (induction xs)
  case (Cons a xs)
  show ?case
  proof (cases "a = x")
    case True
    with Cons.prems show ?thesis by auto
  next
    case False
    with Cons.prems have "x \<in> set xs" "k a \<noteq> k x" by auto
    with Cons False show ?thesis by auto
  qed
qed simp

lemma complete_row_rows:
  assumes t: "intact E n t" and c: "c \<in> set (t_id_commands t)" "is_id_command E eid (cr_uuid sc) c"
  shows "set (t_id_commands (complete_row E eid sc now t)) =
     insert (ic_touch now (\<lambda>c. c\<lparr>ic_completed := cr_completed sc, ic_result := cr_report sc\<rparr>) c) (set (t_id_commands t) - {c})"
proof -
  have "distinct (map (ic_key E) (t_id_commands t))" using t by (simp add: intact_def primary_keys_def)
  then show ?thesis
    unfolding complete_row_def by (simp add: set_update_one [of "ic_key E"] c sql_eq_key c(2) [unfolded sql_eq_key])
qed

lemma complete_row_intact: "intact E n t \<Longrightarrow> intact E n (complete_row E eid sc now t)"
  unfolding complete_row_def by (rule intact_touch(1)) simp_all

lemma touched_row:
  "ic_completed (ic_touch now (\<lambda>c. c\<lparr>ic_completed := b, ic_result := rep\<rparr>) c) = b"
  "ic_result (ic_touch now (\<lambda>c. c\<lparr>ic_completed := b, ic_result := rep\<rparr>) c) = rep"
  "ic_request_type (ic_touch now (\<lambda>c. c\<lparr>ic_completed := b, ic_result := rep\<rparr>) c) = ic_request_type c"
  by (auto simp: ic_touch_def Let_def) (metis id_command_row.select_convs(5) id_command_row.surjective id_command_row.update_convs(5,6) id_command_row.select_convs(6))+

section \<open>Releasing delayed steps\<close>

lemma alist_update_new: "k \<notin> fst ` set m \<Longrightarrow> AList.update k v m = m @ [(k, v)]"
  by (induction m) auto

lemma fold_update_new:
  assumes "distinct (map k xs)" "k ` set xs \<inter> fst ` set m = {}"
  shows "fold (\<lambda>x. AList.update (k x) (v x)) xs m = m @ map (\<lambda>x. (k x, v x)) xs"
  using assms
proof (induction xs arbitrary: m)
  case (Cons x xs)
  then have "AList.update (k x) (v x) m = m @ [(k x, v x)]" by (intro alist_update_new) auto
  with Cons show ?case by auto
qed simp

lemma fold_add_enrollment:
  "fold (\<lambda>(i, eid). map_entry_at i (add_enrollment eid)) xs m =
     map (\<lambda>(k, v). (k, v\<lparr>enq_ids := enq_ids v @ [eid. (i, eid) \<leftarrow> xs, i = k]\<rparr>)) m"
  by (induction xs arbitrary: m) (auto simp: map_entry_at_def add_enrollment_def split_beta)

lemma fold_add_command:
  "fold (\<lambda>(i, uuid, rt, raw). map_entry_at i (add_command
       \<lparr>raw_uuid = uuid, raw_request_type = rt, raw_command = raw\<rparr>)) xs m =
     map (\<lambda>(k, v). (k, v\<lparr>enq_commands := enq_commands v @
       [\<lparr>raw_uuid = uuid, raw_request_type = rt, raw_command = raw\<rparr>. (i, uuid, rt, raw) \<leftarrow> xs, i = k]\<rparr>)) m"
  by (induction xs arbitrary: m) (auto simp: map_entry_at_def add_command_def split_beta)

definition raw_of_row :: "step_command_row \<Rightarrow> command_raw" where
  "raw_of_row c = \<lparr>raw_uuid = sc_command_uuid c, raw_request_type = sc_request_type c, raw_command = sc_command c\<rparr>"

definition due_release :: "mysql_env \<Rightarrow> time \<Rightarrow> step_row \<Rightarrow> bool" where
  "due_release E at r \<longleftrightarrow> row_process_id r = None \<and>
     (case row_not_until r of None \<Rightarrow> False | Some u \<Rightarrow> u < time_arg E at)"

definition release_of :: "tables \<Rightarrow> step_row \<Rightarrow> step_enqueueing" where
  "release_of t r =
     \<lparr>ctx_workflow_name = row_workflow_name r, ctx_instance_id = row_instance_id r,
      ctx_name = null_string (row_step_name r), ctx_context = [],
      enq_ids = map ic_enrollment_id [c \<leftarrow> t_id_commands t. ic_step_id c = row_id r],
      enq_commands = map raw_of_row [c \<leftarrow> t_step_commands t. sc_step_id c = row_id r]\<rparr>"

definition mark :: "string \<Rightarrow> step_row \<Rightarrow> step_row" where
  "mark p r = r\<lparr>row_process_id := Some p\<rparr>"

lemma mark_sel [simp]:
  "row_id (mark p r) = row_id r" "row_workflow_name (mark p r) = row_workflow_name r"
  "row_instance_id (mark p r) = row_instance_id r" "row_step_name (mark p r) = row_step_name r"
  "row_context (mark p r) = row_context r" "row_timeout (mark p r) = row_timeout r"
  "row_process_id (mark p r) = Some p" "is_process p (mark p r)"
  by (simp_all add: mark_def is_process_def)

text \<open>The rows that a statement has just marked are those it found due, when the mark is new.\<close>

lemma marked_rows:
  assumes "\<forall>r\<in>set ss. \<not> is_process p r"
  shows "filter (is_process p) (sql_update D (mark p) ss) = map (mark p) (filter D ss)"
  using assms by (induction ss) (auto simp: sql_update_def)

lemma joined_rows:
  assumes "distinct (map row_id ss)"
  shows "[f c. c \<leftarrow> cs, s \<leftarrow> ss, k c = row_id s \<and> P s] =
     map f [c \<leftarrow> cs. \<exists>s\<in>set ss. row_id s = k c \<and> P s]"
proof (induction cs)
  case (Cons c cs)
  have "concat (map (\<lambda>s. if k c = row_id s \<and> P s then [f c] else []) ss) =
     (if \<exists>s\<in>set ss. row_id s = k c \<and> P s then [f c] else [])"
    using assms by (induction ss) (auto intro!: concat_map_none, metis image_eqI)
  with Cons show ?case by simp
qed simp

lemma released_exact:
  assumes "distinct (map row_id R)"
  shows "released_steps (map (\<lambda>r. (row_id r, row_workflow_name r, row_instance_id r, row_step_name r)) R) cids cmds =
     map (\<lambda>r. \<lparr>ctx_workflow_name = row_workflow_name r, ctx_instance_id = row_instance_id r,
       ctx_name = null_string (row_step_name r), ctx_context = [],
       enq_ids = [eid. (i, eid) \<leftarrow> cids, i = row_id r],
       enq_commands = [\<lparr>raw_uuid = uuid, raw_request_type = rt, raw_command = raw\<rparr>. (i, uuid, rt, raw) \<leftarrow> cmds, i = row_id r]\<rparr>) R"
proof -
  have "fold (\<lambda>(i, wname, inst, name). AList.update i (empty_enqueueing wname inst name))
      (map (\<lambda>r. (row_id r, row_workflow_name r, row_instance_id r, row_step_name r)) R) [] =
     map (\<lambda>r. (row_id r, empty_enqueueing (row_workflow_name r) (row_instance_id r) (row_step_name r))) R"
    using fold_update_new [OF assms, of "[]" "\<lambda>r. empty_enqueueing (row_workflow_name r) (row_instance_id r) (row_step_name r)"]
    by (simp add: fold_map comp_def)
  then show ?thesis
    by (simp add: released_steps_def Let_def fold_add_enrollment fold_add_command comp_def empty_enqueueing_def)
qed

text \<open>The tables after the release: due steps marked, their stored commands gone, their pushes noted.\<close>

definition after_release :: "mysql_env \<Rightarrow> string \<Rightarrow> time \<Rightarrow> time \<Rightarrow> tables \<Rightarrow> tables" where
  "after_release E p at now t =
     (let due = (\<lambda>i. step_of_id (due_release E at) i t) in
      t\<lparr>t_steps := sql_update (due_release E at) (mark p) (t_steps t),
        t_step_commands := sql_delete (\<lambda>c. due (sc_step_id c)) (t_step_commands t),
        t_id_commands := sql_update (\<lambda>c. due (ic_step_id c)) (ic_touch now (\<lambda>c. c\<lparr>ic_last_push := Some now\<rparr>))
          (t_id_commands t)\<rparr>)"

lemma marked_step_of_id:
  assumes "\<forall>r\<in>set (t_steps t). \<not> is_process p r"
  shows "step_of_id (is_process p) i (t\<lparr>t_steps := sql_update D (mark p) (t_steps t)\<rparr>) = step_of_id D i t"
  using assms by (auto simp: step_of_id_iff set_sql_update bex_Un)

lemma wp_enqueue:
  assumes w: "works E" and s: "sound E s" and at: "at \<noteq> 0"
    and fresh: "\<forall>r\<in>set (t_steps (db_tables s)). \<not> is_process (process_id E ''notu'' (rand_reads s)) r"
    and Q: "\<And>s'. db_tables s' = after_release E (process_id E ''notu'' (rand_reads s)) at (server_clock s) (db_tables s) \<Longrightarrow>
        db_next_id s' = db_next_id s \<Longrightarrow> rand_reads s' = Suc (rand_reads s) \<Longrightarrow> server_clock s' = server_clock s \<Longrightarrow>
        Q (Inr (map (release_of (db_tables s)) [r \<leftarrow> t_steps (db_tables s). due_release E at r])) s'"
  shows "wp (my_retrieve_steps_to_enqueue E at) Q s"
proof -
  let ?p = "process_id E ''notu'' (rand_reads s)" and ?t = "db_tables s" and ?now = "server_clock s"
  let ?D = "due_release E at"
  let ?t1 = "?t\<lparr>t_steps := sql_update ?D (mark ?p) (t_steps ?t)\<rparr>"
  let ?R = "map (mark ?p) (filter ?D (t_steps ?t))"
  have d: "distinct (map row_id (t_steps ?t))" using s by (simp add: intact_def primary_keys_def)
  have d1: "distinct (map row_id (t_steps ?t1))" using d by (simp add: map_sql_update)
  have dR: "distinct (map row_id ?R)" using d by (simp add: comp_def distinct_map_filter)
  have q1: "q_update_step_after_not_until E ?p at ?now ?t = Inr ?t1"
    by (simp add: q_update_step_after_not_until_def due_release_def [abs_def] mark_def [abs_def])
  have R: "filter (is_process ?p) (t_steps ?t1) = ?R" using marked_rows [OF fresh] by simp
  have steps: "q_get_steps_by_process_id ?p ?t1 =
      map (\<lambda>r. (row_id r, row_workflow_name r, row_instance_id r, row_step_name r)) ?R"
    unfolding R [symmetric] by (simp add: q_get_steps_by_process_id_def concat_map_filter)
  have ex: "(\<exists>r\<in>set (t_steps ?t1). row_id r = i \<and> is_process ?p r) \<longleftrightarrow> step_of_id ?D i ?t" for i
    using marked_step_of_id [OF fresh, of i ?D] by (simp add: step_of_id_iff)
  have cids: "q_get_id_command_ids_by_process_id ?p ?t1 =
      map (\<lambda>c. (ic_step_id c, ic_enrollment_id c)) [c \<leftarrow> t_id_commands ?t. step_of_id ?D (ic_step_id c) ?t]"
    unfolding q_get_id_command_ids_by_process_id_def
      joined_rows [OF d1, where k = ic_step_id and P = "is_process ?p" and f = "\<lambda>c. (ic_step_id c, ic_enrollment_id c)"] ex
    by simp
  have scmds: "q_get_step_commands_by_process_id ?p ?t1 =
      map (\<lambda>c. (sc_step_id c, sc_command_uuid c, sc_request_type c, sc_command c))
        [c \<leftarrow> t_step_commands ?t. step_of_id ?D (sc_step_id c) ?t]"
    unfolding q_get_step_commands_by_process_id_def
      joined_rows [OF d1, where k = sc_step_id and P = "is_process ?p" and
        f = "\<lambda>c. (sc_step_id c, sc_command_uuid c, sc_request_type c, sc_command c)"] ex
    by simp
  have due: "step_of_id ?D (row_id r) ?t" if "r \<in> set (filter ?D (t_steps ?t))" for r
    using that by (auto simp: step_of_id_iff)
  have mine: "filter (\<lambda>c. step_of_id ?D (k c) ?t \<and> k c = row_id r) cs = filter (\<lambda>c. k c = row_id r) cs"
    if "r \<in> set (t_steps ?t)" "?D r" for r and k :: "'k \<Rightarrow> int" and cs
    by (rule filter_cong) (use due [of r] that in auto)
  have result: "released_steps (q_get_steps_by_process_id ?p ?t1) (q_get_id_command_ids_by_process_id ?p ?t1)
       (q_get_step_commands_by_process_id ?p ?t1) = map (release_of ?t) (filter ?D (t_steps ?t))"
    unfolding steps released_exact [OF dR] cids scmds
    by (auto simp: release_of_def raw_of_row_def [abs_def] comp_def concat_map_filter filter_map mine)
  have q2: "q_remove_step_commands_by_process_id ?p ?now ?t1 =
      Inr (?t1\<lparr>t_step_commands := sql_delete (\<lambda>c. step_of_id ?D (sc_step_id c) ?t) (t_step_commands ?t)\<rparr>)"
    by (simp add: q_remove_step_commands_by_process_id_def marked_step_of_id [OF fresh])
  have q3: "q_update_last_push_by_process_id ?p ?now
      (?t1\<lparr>t_step_commands := sql_delete (\<lambda>c. step_of_id ?D (sc_step_id c) ?t) (t_step_commands ?t)\<rparr>) =
      Inr (after_release E ?p at ?now ?t)"
    using marked_step_of_id [OF fresh, of _ ?D]
    by (simp add: q_update_last_push_by_process_id_def after_release_def Let_def step_of_id_def)
  show ?thesis
    using at by (simp add: my_retrieve_steps_to_enqueue_def wp_my [OF w] q1 q2 q3 result Q)
qed

section \<open>Time-outs\<close>

definition due_timeout :: "mysql_env \<Rightarrow> time \<Rightarrow> step_row \<Rightarrow> bool" where
  "due_timeout E at r \<longleftrightarrow> row_process_id r = None \<and>
     (case row_timeout r of None \<Rightarrow> False | Some u \<Rightarrow> u \<le> time_arg E at)"

definition context_of_row :: "step_row \<Rightarrow> step_context" where
  "context_of_row r =
     \<lparr>ctx_workflow_name = row_workflow_name r, ctx_instance_id = row_instance_id r,
      ctx_name = null_string (row_step_name r), ctx_context = row_context r\<rparr>"

text \<open>The commands of the timed-out steps, in the order of the query.\<close>

definition timed_out_rows :: "mysql_env \<Rightarrow> time \<Rightarrow> tables \<Rightarrow> id_command_row list" where
  "timed_out_rows E at t =
     sort_key (\<lambda>c. (ic_step_id c, collation E (ic_enrollment_id c)))
       [c \<leftarrow> t_id_commands t. step_of_id (due_timeout E at) (ic_step_id c) t]"

lemma map_of_entry_at:
  "map_of (map_entry_at k f m) k' = (if k' = k then map_option f (map_of m k) else map_of m k')"
  by (induction m) (auto simp: map_entry_at_def)

lemma keys_entry_at [simp]: "map fst (map_entry_at k f m) = map fst m"
  by (induction m) (auto simp: map_entry_at_def)

definition merged :: "(int \<rightharpoonup> step_context) \<Rightarrow> id_command_row list \<Rightarrow> string \<Rightarrow> step_result option" where
  "merged ctx cs eid =
     (case [c \<leftarrow> cs. ic_enrollment_id c = eid] of
        [] \<Rightarrow> None
      | c # cs' \<Rightarrow> Some (step_context.extend (the (ctx (ic_step_id c)))
          (step_result.fields [eid] (map result_of_row (c # cs')))))"

lemma merged_snoc:
  "merged ctx (cs @ [c]) eid =
     (if ic_enrollment_id c \<noteq> eid then merged ctx cs eid
      else case merged ctx cs eid of
        None \<Rightarrow> Some (step_context.extend (the (ctx (ic_step_id c))) (step_result.fields [eid] [result_of_row c]))
      | Some r \<Rightarrow> Some (r\<lparr>res_commands := res_commands r @ [result_of_row c]\<rparr>))"
  by (auto simp: merged_def step_context.defs step_result.defs split: list.split)

lemma fold_timed_out:
  assumes "\<forall>c\<in>set cs. map_of contexts (ic_step_id c) \<noteq> None"
  shows "distinct (map fst (fold (timed_out_body contexts) cs [])) \<and>
     map_of (fold (timed_out_body contexts) cs []) = merged (map_of contexts) cs"
  using assms
proof (induction cs rule: rev_induct)
  case Nil
  show ?case by (simp add: merged_def fun_eq_iff)
next
  case (snoc c cs)
  define m where "m = fold (timed_out_body contexts) cs []"
  from snoc have d: "distinct (map fst m)" and m: "map_of m = merged (map_of contexts) cs" by (simp_all add: m_def)
  obtain sc where sc: "map_of contexts (ic_step_id c) = Some sc" using snoc.prems by auto
  let ?e = "ic_enrollment_id c"
  let ?new = "step_context.extend sc (step_result.fields [?e] [])"
  let ?m = "if map_of m ?e = None then m @ [(?e, ?new)] else m"
  have step: "timed_out_body contexts c m =
      map_entry_at ?e (\<lambda>r. r\<lparr>res_commands := res_commands r @ [result_of_row c]\<rparr>) ?m"
    by (simp add: timed_out_body_def sc)
  have "distinct (map fst ?m)" using d by (auto simp: map_of_eq_None_iff)
  moreover have "map_of ?m k = (if k = ?e \<and> map_of m ?e = None then Some ?new else map_of m k)" for k
    by (auto simp: map_add_def split: option.split)
  ultimately show ?case
    unfolding fold_append comp_apply fold_simps m_def [symmetric] step
    by (auto simp: map_of_entry_at merged_snoc m sc fun_eq_iff step_context.defs step_result.defs split: option.split)
qed

definition step_context_of :: "tables \<Rightarrow> int \<Rightarrow> step_context option" where
  "step_context_of t i =
     (case [r \<leftarrow> t_steps t. row_id r = i] of [] \<Rightarrow> None | r # _ \<Rightarrow> Some (context_of_row r))"

definition after_time_out :: "mysql_env \<Rightarrow> time \<Rightarrow> tables \<Rightarrow> tables" where
  "after_time_out E at t =
     (let due = (\<lambda>i. step_of_id (due_timeout E at) i t) in
      t\<lparr>t_steps := sql_delete (due_timeout E at) (t_steps t),
        t_step_commands := sql_delete (\<lambda>c. due (sc_step_id c)) (t_step_commands t),
        t_id_commands := sql_delete (\<lambda>c. due (ic_step_id c)) (t_id_commands t)\<rparr>)"

lemma filter_marked_out:
  "\<forall>r\<in>set ss. \<not> is_process p r \<Longrightarrow> sql_delete (is_process p) (sql_update D (mark p) ss) = sql_delete D ss"
  by (induction ss) (auto simp: sql_update_def sql_delete_def)

lemma step_context_of_row:
  assumes "distinct (map row_id (t_steps t))" "r \<in> set (t_steps t)"
  shows "step_context_of t (row_id r) = Some (context_of_row r)"
  using filter_single [OF assms] by (simp add: step_context_of_def)

lemma wp_time_out:
  assumes w: "works E" and s: "sound E s"
    and fresh: "\<forall>r\<in>set (t_steps (db_tables s)). \<not> is_process (process_id E ''tout'' (rand_reads s)) r"
    and Q: "\<And>m s'. distinct (map fst m) \<Longrightarrow>
        map_of m = merged (step_context_of (db_tables s)) (timed_out_rows E (go_clock s) (db_tables s)) \<Longrightarrow>
        db_tables s' = after_time_out E (go_clock s) (db_tables s) \<Longrightarrow> db_next_id s' = db_next_id s \<Longrightarrow>
        Q (Inr (map snd m)) s'"
  shows "wp (my_retrieve_timed_out_steps E) Q s"
proof -
  let ?p = "process_id E ''tout'' (rand_reads s)" and ?t = "db_tables s" and ?now = "server_clock s"
  let ?D = "due_timeout E (go_clock s)"
  let ?t1 = "?t\<lparr>t_steps := sql_update ?D (mark ?p) (t_steps ?t)\<rparr>"
  let ?R = "map (mark ?p) (filter ?D (t_steps ?t))"
  have d: "distinct (map row_id (t_steps ?t))" using s by (simp add: intact_def primary_keys_def)
  have d1: "distinct (map row_id (t_steps ?t1))" using d by (simp add: map_sql_update)
  have dR: "distinct (map row_id ?R)" using d by (simp add: comp_def distinct_map_filter)
  have q1: "q_update_step_after_timeout E ?p (go_clock s) ?now ?t = Inr ?t1"
    by (simp add: q_update_step_after_timeout_def due_timeout_def [abs_def] mark_def [abs_def])
  have t1: "intact E (db_next_id s) ?t1"
    using intact_update_steps [OF s, of "t_steps ?t1"] by (simp add: map_sql_update)
  have R: "filter (is_process ?p) (t_steps ?t1) = ?R" using marked_rows [OF fresh] by simp
  have steps: "q_get_steps_with_context_by_process_id ?p ?t1 =
      map (\<lambda>r. (row_id r, row_workflow_name r, row_instance_id r, row_step_name r, row_context r)) ?R"
    unfolding R [symmetric] by (simp add: q_get_steps_with_context_by_process_id_def concat_map_filter)
  have ex: "(\<exists>r\<in>set (t_steps ?t1). row_id r = i \<and> is_process ?p r) \<longleftrightarrow> step_of_id ?D i ?t" for i
    using marked_step_of_id [OF fresh, of i ?D] by (simp add: step_of_id_iff)
  have cmds: "q_get_id_command_details_by_process_id E ?p ?t1 = timed_out_rows E (go_clock s) ?t"
    unfolding q_get_id_command_details_by_process_id_def timed_out_rows_def
      joined_rows [OF d1, where k = ic_step_id and P = "is_process ?p" and f = "\<lambda>c. c"] ex
    by simp
  let ?ctx = "map (\<lambda>r. (row_id r, context_of_row r)) (filter ?D (t_steps ?t))"
  have ctx: "fold (\<lambda>(i, wname, inst, name, ctx). AList.update i
        \<lparr>ctx_workflow_name = wname, ctx_instance_id = inst, ctx_name = null_string name, ctx_context = ctx\<rparr>)
      (q_get_steps_with_context_by_process_id ?p ?t1) [] = ?ctx"
    using fold_update_new [OF dR, of "[]" context_of_row]
    by (simp add: steps fold_map comp_def context_of_row_def)
  have at_ctx: "map_of ?ctx (ic_step_id c) = step_context_of ?t (ic_step_id c) \<and> map_of ?ctx (ic_step_id c) \<noteq> None"
    if c: "c \<in> set (timed_out_rows E (go_clock s) ?t)" for c
  proof -
    from c obtain r where r: "r \<in> set (t_steps ?t)" "?D r" "row_id r = ic_step_id c"
      by (auto simp: timed_out_rows_def step_of_id_iff)
    have "distinct (map fst ?ctx)" using d by (simp add: comp_def distinct_map_filter)
    then have "map_of ?ctx (row_id r) = Some (context_of_row r)" using r(1,2) by (intro map_of_is_SomeI) auto
    with r step_context_of_row [OF d r(1)] show ?thesis by simp
  qed
  have same: "merged (map_of ?ctx) cs = merged (step_context_of ?t) cs"
    if "set cs \<subseteq> set (timed_out_rows E (go_clock s) ?t)" for cs
  proof
    fix eid show "merged (map_of ?ctx) cs eid = merged (step_context_of ?t) cs eid"
    proof (cases "[c \<leftarrow> cs. ic_enrollment_id c = eid]")
      case (Cons c cs')
      then have "c \<in> set (filter (\<lambda>c. ic_enrollment_id c = eid) cs)" by (metis list.set_intros(1))
      then have "c \<in> set cs" by simp
      with that at_ctx [of c] Cons show ?thesis by (auto simp: merged_def)
    qed (simp add: merged_def)
  qed
  have all: "\<forall>c\<in>set (timed_out_rows E (go_clock s) ?t). map_of ?ctx (ic_step_id c) \<noteq> None"
    using at_ctx by blast
  have m: "distinct (map fst (fold (timed_out_body ?ctx) (timed_out_rows E (go_clock s) ?t) []))"
    by (rule fold_timed_out [OF all, THEN conjunct1])
  have m': "map_of (fold (timed_out_body ?ctx) (timed_out_rows E (go_clock s) ?t) []) =
       merged (step_context_of ?t) (timed_out_rows E (go_clock s) ?t)"
    by (rule trans [OF fold_timed_out [OF all, THEN conjunct2] same]) simp
  have rs: "timed_out_steps (q_get_steps_with_context_by_process_id ?p ?t1) (timed_out_rows E (go_clock s) ?t) =
      map snd (fold (timed_out_body ?ctx) (timed_out_rows E (go_clock s) ?t) [])"
    by (simp add: timed_out_steps_def Let_def ctx)
  obtain t2 t3 where t2: "q_remove_step_commands_by_process_id ?p ?now ?t1 = Inr t2"
    "q_remove_id_commands_by_process_id ?p ?now t2 = Inr t3"
    "q_remove_steps_by_process_id ?p ?now t3 = Inr (t3\<lparr>t_steps := sql_delete (is_process ?p) (t_steps ?t1)\<rparr>)"
    "t3 = ?t1\<lparr>t_id_commands := sql_delete (\<lambda>c. step_of_id (is_process ?p) (ic_step_id c) ?t1) (t_id_commands ?t1),
            t_step_commands := sql_delete (\<lambda>c. step_of_id (is_process ?p) (sc_step_id c) ?t1) (t_step_commands ?t1)\<rparr>"
    using intact_remove_process [OF t1, of ?p ?now] by blast
  have final: "t3\<lparr>t_steps := sql_delete (is_process ?p) (t_steps ?t1)\<rparr> = after_time_out E (go_clock s) ?t"
    using marked_step_of_id [OF fresh, of _ ?D]
    by (simp add: t2(4) after_time_out_def Let_def filter_marked_out [OF fresh])
  show ?thesis
    unfolding my_retrieve_timed_out_steps_def
    by (simp add: wp_my [OF w] q1 cmds t2(1-3) final [symmetric] rs Q [OF m m'])
qed

end
