(* ===== verification/MySQLEngine.thy ===== *)
theory MySQLEngine
  imports MySQLEffect EngineContract
begin

text \<open>
  The MySQL backend as the engine's storage: the records of operations that the engine, the worker and
  the event dispatch call, and the proof that it keeps the engine's storage contract when the server
  answers and tells all strings apart. Start times come back as whole seconds.
\<close>

definition mysql_storage ::
  "mysql_env \<Rightarrow> ('w \<Rightarrow> mysql) \<Rightarrow> (mysql \<Rightarrow> 'w \<Rightarrow> 'w) \<Rightarrow> 'w storage" where
  "mysql_storage E get put =
     \<lparr>st_retrieve_command_request_type = (\<lambda>i u. go_zoom get put (my_retrieve_command_request_type E i u)),
      st_store_command_response = (\<lambda>i sc. go_zoom get put (my_store_command_response E i (Some sc))),
      st_store_step = (\<lambda>so t. go_zoom get put (my_store_step E so t)),
      st_retrieve_outstanding = (\<lambda>name ids. go_zoom get put (my_retrieve_outstanding_workflow_status E name ids)),
      st_cancel_steps = (\<lambda>i name. go_zoom get put (my_cancel_steps E i name)),
      st_retrieve_workflow_started = (\<lambda>i name. go_zoom get put (my_retrieve_workflow_started E i name)),
      st_record_workflow_started = (\<lambda>ids name t. go_zoom get put (my_record_workflow_started E ids name t)),
      st_clear_workflow_status = (\<lambda>i. go_zoom get put (my_clear_workflow_status E i))\<rparr>"

definition mysql_worker_storage ::
  "mysql_env \<Rightarrow> ('w \<Rightarrow> mysql) \<Rightarrow> (mysql \<Rightarrow> 'w \<Rightarrow> 'w) \<Rightarrow> 'w worker_storage" where
  "mysql_worker_storage E get put =
     \<lparr>st_retrieve_steps_to_enqueue = (\<lambda>t. go_zoom get put (my_retrieve_steps_to_enqueue E t)),
      st_retrieve_timed_out_steps = go_zoom get put (my_retrieve_timed_out_steps E),
      st_retrieve_and_mark_repushed = (\<lambda>t t'. go_zoom get put (my_retrieve_and_mark_re_pushed E t t'))\<rparr>"

definition mysql_event_storage ::
  "mysql_env \<Rightarrow> ('w \<Rightarrow> mysql) \<Rightarrow> (mysql \<Rightarrow> 'w \<Rightarrow> 'w) \<Rightarrow> 'w event_storage" where
  "mysql_event_storage E get put =
     \<lparr>st_retrieve_event_subscriptions_by_event =
        (\<lambda>f. go_zoom get put (my_retrieve_event_subscriptions_by_event E f)),
      st_subscriptions_before_error = (\<lambda>_ _. [])\<rparr>"

section \<open>Outstanding enrollments\<close>

definition open_in_workflow :: "tables \<Rightarrow> string \<Rightarrow> string \<Rightarrow> bool" where
  "open_in_workflow t name eid \<longleftrightarrow>
     (\<exists>c\<in>set (t_id_commands t). \<exists>r\<in>set (t_steps t). row_id r = ic_step_id c \<and>
        ic_enrollment_id c = eid \<and> \<not> ic_completed c \<and> row_workflow_name r = name)"

lemma sql_distinct_inj:
  assumes "inj (collation E)"
  shows "distinct (sql_distinct E xs) \<and> set (sql_distinct E xs) = set xs"
  using assms by (induction xs) (auto simp: sql_eq_def inj_eq)

lemma outstanding_ids:
  assumes "inj (collation E)"
  shows "distinct (q_get_outstanding_ids E ids name t)"
    "set (q_get_outstanding_ids E ids name t) = {i \<in> set ids. open_in_workflow t name i}"
proof -
  show "distinct (q_get_outstanding_ids E ids name t)"
    using sql_distinct_inj [OF assms] by (simp add: q_get_outstanding_ids_def)
  show "set (q_get_outstanding_ids E ids name t) = {i \<in> set ids. open_in_workflow t name i}"
    using sql_distinct_inj [OF assms]
    by (auto simp: q_get_outstanding_ids_def open_in_workflow_def sql_in_iff sql_eq_def inj_eq [OF assms])
qed

section \<open>Start times\<close>

definition whole_seconds :: "time \<Rightarrow> time" where
  "whole_seconds t = unix_time (unix_seconds t)"

lemma whole_seconds_bounds: "whole_seconds t \<le> t \<and> t < whole_seconds t + 1000000000"
proof -
  have "whole_seconds t = t div 1000000000 * 1000000000" by (simp add: whole_seconds_def unix_time_def unix_seconds_def)
  moreover have "t div 1000000000 * 1000000000 + t mod 1000000000 = t" by simp
  moreover have "0 \<le> t mod 1000000000" "t mod 1000000000 < 1000000000" by simp_all
  ultimately show ?thesis by linarith
qed

definition started_secs :: "mysql_env \<Rightarrow> tables \<Rightarrow> string \<Rightarrow> string \<Rightarrow> time" where
  "started_secs E t eid name =
     (case q_get_workflow_last_started E eid name t of [] \<Rightarrow> 0 | n # _ \<Rightarrow> unix_time n)"

lemma upsert_row:
  "\<exists>r\<in>set (upsert_status E name secs eid rows).
     ws_key E r = (collation E eid, collation E name) \<and> ws_last_created_unix r = secs"
proof -
  let ?same = "\<lambda>r. sql_eq E (ws_enrollment_id r) eid \<and> sql_eq E (ws_workflow_name r) name"
  show ?thesis
  proof (cases "list_ex ?same rows")
    case True
    then obtain r where "r \<in> set rows" "?same r" by (auto simp: list_ex_iff)
    with True show ?thesis
      by (intro bexI [of _ "r\<lparr>ws_last_created_unix := secs\<rparr>"])
        (auto simp: upsert_status_def Let_def set_sql_update ws_key_def sql_eq_def)
  qed (simp add: upsert_status_def ws_key_def)
qed

lemma upsert_keeps:
  assumes "\<exists>r\<in>set rows. ws_key E r = k \<and> ws_last_created_unix r = secs"
  shows "\<exists>r\<in>set (upsert_status E name secs eid rows). ws_key E r = k \<and> ws_last_created_unix r = secs"
proof -
  let ?f = "\<lambda>r :: status_row. r\<lparr>ws_last_created_unix := secs\<rparr>"
  obtain r where r: "r \<in> set rows" "ws_key E r = k" "ws_last_created_unix r = secs" using assms by blast
  have "?f r = r" using r(3) by simp
  then have "r \<in> set (sql_update P ?f rows)" for P using r(1) by (cases "P r") (auto simp: set_sql_update image_iff)
  with r show ?thesis by (auto simp: upsert_status_def Let_def)
qed

lemma started_after_insert:
  fixes t :: tables
  assumes t: "intact E n t" and run: "insert_statuses E ids name secs now t = Inr t'" and i: "i \<in> set ids"
  shows "started_secs E t' i name = unix_time secs"
proof -
  have ex: "\<exists>r\<in>set (fold (upsert_status E name secs) ids rows).
      ws_key E r = (collation E i, collation E name) \<and> ws_last_created_unix r = secs" for rows
    using i
  proof (induction ids arbitrary: rows)
    case (Cons x xs)
    have keep: "\<exists>r\<in>set (fold (upsert_status E name secs) ys rows). ws_key E r = k \<and> ws_last_created_unix r = secs"
      if "\<exists>r\<in>set rows. ws_key E r = k \<and> ws_last_created_unix r = secs" for ys rows k
      using that by (induction ys arbitrary: rows) (auto intro: upsert_keeps)
    show ?case
    proof (cases "x = i")
      case True
      then show ?thesis using keep [OF upsert_row] by simp
    qed (use Cons in simp)
  qed simp
  from ex [of "t_status t"] obtain r where r: "r \<in> set (t_status t')" "ws_key E r = (collation E i, collation E name)"
    "ws_last_created_unix r = secs" using run by (auto simp: insert_statuses_def split: if_splits)
  have "distinct (map (ws_key E) (t_status t'))"
    using intact_statuses [OF t run] by (simp add: intact_def primary_keys_def)
  from filter_single [OF this r(1)] r
  have "[r \<leftarrow> t_status t'. sql_eq E (ws_enrollment_id r) i \<and> sql_eq E (ws_workflow_name r) name] = [r]"
    by (simp add: ws_key_def sql_eq_def)
  with r(3) show ?thesis
    by (simp add: started_secs_def q_get_workflow_last_started_def concat_map_filter)
qed

section \<open>The contract\<close>

locale mysql_system =
  fixes E :: mysql_env and get :: "'w \<Rightarrow> mysql" and put :: "mysql \<Rightarrow> 'w \<Rightarrow> 'w"
  assumes works: "works E" and tells_apart: "inj (collation E)"
    and get_put [simp]: "get (put s w) = s"
    and put_get [simp]: "put (get w) w = w"
    and put_put [simp]: "put s (put t w) = put s w"
begin

definition my_outst :: "'w \<Rightarrow> string \<Rightarrow> string list \<Rightarrow> string \<Rightarrow> bool" where
  "my_outst w name ids i \<longleftrightarrow> open_in_workflow (db_tables (get w)) name i"

definition my_started :: "'w \<Rightarrow> string \<Rightarrow> string \<Rightarrow> time" where
  "my_started w i name = started_secs E (db_tables (get w)) i name"

text \<open>A query leaves the world as it was, except for the count of calls.\<close>

definition my_same :: "'w \<Rightarrow> 'w \<Rightarrow> bool" where
  "my_same w w' \<longleftrightarrow> (\<exists>s. w' = put s w \<and> same_db (get w) s)"

lemma my_same_tick: "my_same w (put (tick (get w)) w)"
  unfolding my_same_def by (intro exI [of _ "tick (get w)"]) (simp add: tick_def)

lemma retrieve_outstanding_run:
  "st_retrieve_outstanding (mysql_storage E get put) name ids w =
     (Inr (q_get_outstanding_ids E ids name (db_tables (get w))), put (tick (get w)) w)"
proof -
  have "wp (my_retrieve_outstanding_workflow_status E name ids)
      (\<lambda>r s. r = Inr (q_get_outstanding_ids E ids name (db_tables (get w))) \<and> s = tick (get w)) (get w)"
    by (simp add: my_retrieve_outstanding_workflow_status_def wp_my [OF works])
  then show ?thesis by (auto simp: mysql_storage_def go_zoom_def wp_def split: prod.splits)
qed

lemma retrieve_started_run:
  "st_retrieve_workflow_started (mysql_storage E get put) i name w =
     (Inr (my_started w i name), put (tick (get w)) w)"
proof -
  have "errors_is err_no_rows err_no_rows" by (simp add: err_no_rows_def)
  then have "wp (my_retrieve_workflow_started E i name)
      (\<lambda>r s. r = Inr (my_started w i name) \<and> s = tick (get w)) (get w)"
    by (simp add: my_retrieve_workflow_started_def wp_my [OF works] my_started_def started_secs_def split: list.split)
  then show ?thesis by (auto simp: mysql_storage_def go_zoom_def wp_def split: prod.splits)
qed

lemma outst_status:
  "open_in_workflow (t\<lparr>t_status := rs\<rparr>) = open_in_workflow t"
  by (simp add: open_in_workflow_def fun_eq_iff)

end

sublocale mysql_system < mysto: storage_contract "mysql_storage E get put" "\<lambda>w. sound E (get w)" my_outst
    my_started "\<lambda>i name. accepts E 255 i \<and> accepts E 255 name" whole_seconds my_same
proof (unfold_locales, goal_cases)
  case (1 w)
  show ?case unfolding my_same_def by (intro exI [of _ "get w"]) simp
next
  case (2 w w')
  then obtain s where "w' = put s w" "same_db (get w) s" by (auto simp: my_same_def)
  with 2(2) same_dbD(1,2) [of "get w" s] show ?case
    by (simp add: my_outst_def my_started_def fun_eq_iff)
next
  case (3 w name ids)
  show ?case
    using outstanding_ids [OF tells_apart] my_same_tick
    by (simp add: retrieve_outstanding_run my_outst_def)
next
  case (4 w i name)
  show ?case using my_same_tick by (simp add: retrieve_started_run)
next
  case (5 w t ids name)
  let ?s = "get w"
  from 5(4) have "list_all (\<lambda>i. accepts E 255 i \<and> accepts E 255 name) ids" by (auto simp: list_all_iff)
  then have ins: "insert_statuses E ids name (unix_seconds t) (server_clock ?s) (db_tables ?s) =
      Inr ((db_tables ?s)\<lparr>t_status := fold (upsert_status E name (unix_seconds t)) ids (t_status (db_tables ?s))\<rparr>)"
    by (simp add: insert_statuses_def)
  let ?t = "(db_tables ?s)\<lparr>t_status := fold (upsert_status E name (unix_seconds t)) ids (t_status (db_tables ?s))\<rparr>"
  have run: "wp (my_record_workflow_started E ids name t) (\<lambda>r s. r = Inr () \<and> s = (tick ?s)\<lparr>db_tables := ?t\<rparr>) ?s"
    using 5(3) by (simp add: my_record_workflow_started_def wp_my [OF works] ins Suc_le_eq)
  have "started_secs E ?t i name = whole_seconds t" if "i \<in> set ids" for i
    unfolding whole_seconds_def by (rule started_after_insert [OF 5(1) ins that])
  with run intact_statuses [OF 5(1) ins] show ?case
    by (auto simp: mysql_storage_def go_zoom_def wp_def my_outst_def [abs_def] my_started_def outst_status split: prod.splits)
next
  case (6 w i)
  let ?s = "get w"
  let ?t = "(db_tables ?s)\<lparr>t_status := sql_delete (\<lambda>r. sql_eq E (ws_enrollment_id r) i) (t_status (db_tables ?s))\<rparr>"
  have run: "wp (my_clear_workflow_status E i) (\<lambda>r s. r = Inr () \<and> s = (tick ?s)\<lparr>db_tables := ?t\<rparr>) ?s"
    by (simp add: my_clear_workflow_status_def wp_my [OF works] q_clear_workflow_status_def)
  have none: "started_secs E ?t i name = 0" for name
  proof -
    have "q_get_workflow_last_started E i name ?t = []"
      by (auto simp: q_get_workflow_last_started_def intro!: concat_map_none)
    then show ?thesis by (simp add: started_secs_def)
  qed
  have "intact E (db_next_id ?s) ?t"
    using 6 by (intro intact_status distinct_sql_delete) (auto simp: intact_def primary_keys_def)
  with run none show ?case
    by (auto simp: mysql_storage_def go_zoom_def wp_def my_outst_def [abs_def] my_started_def outst_status split: prod.splits)
qed

section \<open>A server\<close>

text \<open>
  A server that answers every call, compares strings byte by byte, checks the length of a text in bytes,
  rounds instants to whole seconds and takes arguments in microseconds; and a database alone as the world.
\<close>

definition plain_server :: mysql_env where
  "plain_server =
     \<lparr>collation = (\<lambda>s. s), accepts = (\<lambda>n s. length s \<le> n),
      timestamp = (\<lambda>t. Some ((t + 500000000) div 1000000000 * 1000000000)),
      time_arg = (\<lambda>t. t div 1000 * 1000), rand_read = (\<lambda>k. replicate 20 (char_of k)), db_fault = (\<lambda>_. Works)\<rparr>"

lemma plain_server_sel [simp]:
  "collation plain_server = (\<lambda>s. s)" "accepts plain_server n s = (length s \<le> n)"
  "timestamp plain_server t = Some ((t + 500000000) div 1000000000 * 1000000000)"
  "time_arg plain_server t = t div 1000 * 1000" "rand_read plain_server k = replicate 20 (char_of k)"
  "db_fault plain_server k = Works" "works plain_server"
  by (simp_all add: plain_server_def works_def)

lemma sql_eq_plain [simp]: "sql_eq plain_server a b \<longleftrightarrow> a = b"
  by (simp add: sql_eq_def)

interpretation plain: mysql_system plain_server "\<lambda>s. s" "\<lambda>s _. s"
  by unfold_locales simp_all

end
