(* ===== verification/MySQLProps.thy ===== *)
theory MySQLProps
  imports MySQLEngine EngineProps
begin

text \<open>
  The properties of the MySQL backend: integrity of the tables in every reachable database, operations that
  do all or nothing, storing a step, responses (alone, repeated and at the same time), the release of
  delayed steps, time-outs, event subscriptions and the engine on this backend. The witnesses run on
  \<open>plain_server\<close> with the tables below.
\<close>

section \<open>Databases\<close>

definition empty_tables :: tables where
  "empty_tables = \<lparr>t_steps = [], t_id_commands = [], t_step_commands = [], t_events = [], t_status = []\<rparr>"

definition database :: "tables \<Rightarrow> int \<Rightarrow> time \<Rightarrow> mysql" where
  "database t n now =
     \<lparr>db_tables = t, db_next_id = n, db_calls = 0, rand_reads = 0, server_clock = now, go_clock = now\<rparr>"

lemma database_sel [simp]:
  "db_tables (database t n now) = t" "db_next_id (database t n now) = n" "rand_reads (database t n now) = 0"
  "server_clock (database t n now) = now" "go_clock (database t n now) = now"
  by (simp_all add: database_def)

text \<open>A database grows from an empty one by operations, any of whose calls may fail, while the clocks move.\<close>

inductive reachable_db :: "mysql_env \<Rightarrow> mysql \<Rightarrow> bool" for E where
  created: "reachable_db E (database empty_tables 1 now)"
| operation: "reachable_db E s \<Longrightarrow> reachable_db E (snd (my_run E opn s))"
| clocks: "reachable_db E s \<Longrightarrow> reachable_db E (s\<lparr>server_clock := a, go_clock := b\<rparr>)"

lemma reachable_sound: "reachable_db E s \<Longrightarrow> sound E s"
proof (induction rule: reachable_db.induct)
  case (created now)
  show ?case by (simp add: empty_tables_def integrity_defs)
qed (simp_all add: sound_run)

text \<open>
  C3: In every database that operations reach from the empty one, whatever calls to the server fail, the
  primary keys are unique, every command belongs to a step that exists, every step has a command, and step
  IDs are among those issued.
\<close>

theorem mysql_integrity:
  assumes "reachable_db E s"
  shows "primary_keys E (db_tables s) \<and> foreign_keys (db_tables s) \<and> no_idle_step (db_tables s) \<and>
     ids_issued_by (db_next_id s) (db_tables s)"
  using reachable_sound [OF assms] by (simp add: intact_def)

definition one_step :: step_config where
  "one_step =
     \<lparr>ctx_workflow_name = ''wf'', ctx_instance_id = ''inst'', ctx_name = [], ctx_context = [],
      enq_ids = [''AAA'', ''BBB''],
      enq_commands = [\<lparr>raw_uuid = ''U1'', raw_request_type = ''DeviceInformation'', raw_command = ''c1''\<rparr>],
      cfg_not_until = 0, cfg_step_timeout = 0\<rparr>"

lemma one_step_sel [simp]:
  "enq_ids one_step = [''AAA'', ''BBB'']" "cfg_not_until one_step = 0"
  "enq_commands one_step = [\<lparr>raw_uuid = ''U1'', raw_request_type = ''DeviceInformation'', raw_command = ''c1''\<rparr>]"
  by (simp_all add: one_step_def)

lemma one_step_valid: "validate_step_config (Some one_step) = Inr ()"
  by (simp add: validate_step_config_iff one_step_def)

lemma one_step_storable: "my_storable plain_server one_step 5 empty_tables"
  using one_step_valid
  by (simp add: my_storable_def one_step_def accepts_null_def mediumtext_def timestamp_null_def sql_null_string_def
      sql_null_time_def commands_ok_def command_ok_def id_row_ok_def push_arg_def new_keys_def empty_tables_def)

lemma empty_intact: "1 \<le> n \<Longrightarrow> intact E n empty_tables"
  by (simp add: empty_tables_def integrity_defs)

theorem mysql_integrity_witness:
  "\<exists>s :: mysql. no_idle_step (db_tables s) \<and> map row_id (t_steps (db_tables s)) = [1]"
proof -
  let ?b = "database empty_tables 1 7"
  let ?s = "snd (my_run plain_server (MyStoreStep (Some one_step) 5) ?b)"
  have "reachable_db plain_server ?s" by (intro reachable_db.operation reachable_db.created)
  from mysql_integrity [OF this] have "no_idle_step (db_tables ?s)" by blast
  moreover have "wp (my_store_step plain_server (Some one_step) 5)
      (\<lambda>_ s. map row_id (t_steps (db_tables s)) = [1]) ?b"
    by (rule wp_my_store_step)
      (simp_all add: empty_intact one_step_storable with_step_def new_step_row_def, simp_all add: empty_tables_def)
  then have "map row_id (t_steps (db_tables ?s)) = [1]" by (auto simp: wp_def split: prod.splits)
  ultimately show ?thesis by (intro exI [of _ ?s] conjI)
qed

text \<open>
  C8: Whatever calls to the server fail, an operation that succeeds does what it does when no call fails,
  and one that fails has changed nothing or all that it changes when no call fails.
\<close>

theorem mysql_all_or_nothing:
  assumes "my_run E opn s = (r, s')" "my_run (sure E) opn s = (r0, s0')"
  shows "(r = Inr () \<longrightarrow> r0 = Inr () \<and> db_tables s' = db_tables s0') \<and>
     (db_tables s' = db_tables s \<or> db_tables s' = db_tables s0')"
  using all_or_nothingD [OF atomic_run same_db_refl, of E opn s] assms by auto

theorem mysql_all_or_nothing_witness:
  "\<exists>E s r s'. my_run E (MyStoreStep (Some one_step) 5) s = (r, s') \<and> isl r \<and> db_tables s' = db_tables s"
proof -
  let ?E = "plain_server\<lparr>db_fault := (\<lambda>k. if k = 3 then Fails else Works)\<rparr>"
  let ?s = "database empty_tables 1 7"
  obtain r s' where run: "my_run ?E (MyStoreStep (Some one_step) 5) ?s = (r, s')" by fastforce
  obtain r0 s0 where run0: "my_run (sure ?E) (MyStoreStep (Some one_step) 5) ?s = (r0, s0)" by fastforce
  have "isl r \<and> db_tables s' = db_tables ?s"
    using run one_step_valid
    by (auto simp: my_store_step_def go_defs tx_def q_create_step_def db_call_def Let_def one_step_def database_def
        accepts_null_def mediumtext_def timestamp_null_def sql_null_string_def sql_null_time_def
        my_store_step_command_def my_store_id_command_def my_exec_def q_create_id_command_def step_of_id_def
        is_id_command_def empty_tables_def plain_server_def)
  with mysql_all_or_nothing [OF run run0] run show ?thesis by (intro exI [of _ ?E] exI [of _ ?s] exI [of _ r] exI [of _ s']) simp
qed

section \<open>Steps\<close>

text \<open>
  C14: A valid step whose values the columns take and whose commands are new is stored whole: a step row with
  the next ID, a command row for every command and enrollment in order, pushed now unless the step is delayed,
  and the raw commands when it is delayed. Any other step is refused and nothing changes.
\<close>

theorem mysql_store_step:
  assumes "works E" "intact E (db_next_id s) (db_tables s)"
  shows "let t = db_tables s; i = db_next_id s; r = fst (my_store_step E (Some step) at s);
             t' = db_tables (snd (my_store_step E (Some step) at s)) in
     if my_storable E step at t
     then r = Inr () \<and> t_steps t' = t_steps t @ [new_step_row E step i] \<and>
          t_id_commands t' = t_id_commands t @
            concat (map (\<lambda>sc. map (new_id_row E step at (server_clock s) i sc) (enq_ids step)) (enq_commands step)) \<and>
          t_step_commands t' = t_step_commands t @
            (if is_zero_time (cfg_not_until step) then []
             else map (\<lambda>sc. \<lparr>sc_command_uuid = raw_uuid sc, sc_step_id = i, sc_command = raw_command sc,
                             sc_request_type = raw_request_type sc\<rparr>) (enq_commands step))
     else (\<exists>e. r = Inl e) \<and> t' = t"
proof -
  let ?t = "db_tables s" and ?i = "db_next_id s"
  have "wp (my_store_step E (Some step) at)
      (\<lambda>r s'. if my_storable E step at ?t then r = Inr () \<and> db_tables s' = with_step E step at (server_clock s) ?i ?t
              else (\<exists>e. r = Inl e) \<and> db_tables s' = ?t) s"
    by (rule wp_my_store_step [OF assms]) simp_all
  then show ?thesis
    by (auto simp: wp_def Let_def with_step_def add_commands_def new_id_rows_def new_step_command_rows_def
        split: prod.splits if_splits)
qed

theorem mysql_store_step_witness:
  "fst (my_store_step plain_server (Some one_step) 5 (database empty_tables 1 7)) = Inr () \<and>
   map ic_enrollment_id (t_id_commands (db_tables
     (snd (my_store_step plain_server (Some one_step) 5 (database empty_tables 1 7))))) = [''AAA'', ''BBB'']"
proof -
  have "works plain_server" "intact plain_server (db_next_id (database empty_tables 1 7)) (db_tables (database empty_tables 1 7))"
    by (simp_all add: empty_intact)
  from mysql_store_step [OF this, of one_step 5] show ?thesis
    unfolding Let_def database_sel if_P [OF one_step_storable]
    by (simp add: new_id_row_def empty_tables_def)
qed

section \<open>Responses\<close>

text \<open>
  C15: The response to an enrollment's last open command of a step completes the step: the result carries the
  step's context, this response first and then the enrollment's earlier responses, its commands of the step
  are deleted, and the step too unless another enrollment still has commands of it.
\<close>

theorem mysql_last_response:
  assumes "works E" "intact E (db_next_id s) (db_tables s)" "cr_completed sc"
    and "c \<in> set (t_id_commands (db_tables s))" "is_id_command E eid (cr_uuid sc) c"
    and "open_rows E eid (ic_step_id c) (db_tables s) = [c]"
    and "r \<in> set (t_steps (db_tables s))" "row_id r = ic_step_id c" "\<not> has_step_commands (db_tables s) (row_id r)"
  shows "\<exists>s'. my_store_command_response E eid (Some sc) s = (Inr (Some
        \<lparr>ctx_workflow_name = row_workflow_name r, ctx_instance_id = row_instance_id r,
         ctx_name = null_string (row_step_name r), ctx_context = row_context r, res_ids = [eid],
         res_commands = sc # map (\<lambda>c. db_result (row_result c)) (done_rows E eid (row_id r) (db_tables s))\<rparr>), s') \<and>
     set (t_id_commands (db_tables s')) = {d \<in> set (t_id_commands (db_tables s)).
        \<not> (sql_eq E (ic_enrollment_id d) eid \<and> ic_step_id d = row_id r)} \<and>
     set (t_steps (db_tables s')) = {q \<in> set (t_steps (db_tables s)).
        q \<noteq> r \<or> (\<exists>d\<in>set (t_id_commands (db_tables s)). ic_step_id d = row_id r \<and> \<not> sql_eq E (ic_enrollment_id d) eid)}"
proof -
  have wp: "wp (my_store_command_response E eid (Some sc))
      (\<lambda>x s'. x = Inr (Some (completed_result E eid sc r (db_tables s))) \<and>
              db_tables s' = without_rows E eid (row_id r) (db_tables s)) s"
  proof -
    have "wp (my_act_on_count E eid sc (1, row_id r))
      (\<lambda>x s'. x = Inr (Some (completed_result E eid sc r (db_tables s))) \<and>
              db_tables s' = without_rows E eid (row_id r) (db_tables s)) (tick s)"
      by (rule wp_complete [OF assms(1)]) (use assms in simp_all)
    then show ?thesis
      using assms(3,6,8) by (simp add: my_store_command_response_def wp_count [OF assms(1,2,4,5)])
  qed
  have row: "row_id q = row_id r \<longleftrightarrow> q = r" if "q \<in> set (t_steps (db_tables s))" for q
    using step_row_unique [OF _ that assms(7)] assms(2) by (auto simp: intact_def)
  have "set (t_steps (without_rows E eid (row_id r) (db_tables s))) = {q \<in> set (t_steps (db_tables s)).
        q \<noteq> r \<or> (\<exists>d\<in>set (t_id_commands (db_tables s)). ic_step_id d = row_id r \<and> \<not> sql_eq E (ic_enrollment_id d) eid)}"
    using row by (auto simp: without_rows_def Let_def has_id_commands_iff)
  moreover have "set (t_id_commands (without_rows E eid (row_id r) (db_tables s))) = {d \<in> set (t_id_commands (db_tables s)).
        \<not> (sql_eq E (ic_enrollment_id d) eid \<and> ic_step_id d = row_id r)}"
    by (auto simp: without_rows_def Let_def)
  ultimately show ?thesis using wp by (auto simp: wp_ex completed_result_def)
qed

text \<open>Rows for the witnesses: steps of \<open>wf\<close> and commands of type \<open>RT\<close>.\<close>

definition plain_row :: "int \<Rightarrow> time option \<Rightarrow> time option \<Rightarrow> step_row" where
  "plain_row i not_until timeout =
     \<lparr>row_id = i, row_workflow_name = ''wf'', row_instance_id = ''inst'', row_step_name = None,
      row_context = itoa i, row_not_until = not_until, row_timeout = timeout, row_process_id = None\<rparr>"

definition plain_command :: "string \<Rightarrow> string \<Rightarrow> int \<Rightarrow> bool \<Rightarrow> id_command_row" where
  "plain_command eid uuid i completed =
     \<lparr>ic_enrollment_id = eid, ic_command_uuid = uuid, ic_step_id = i, ic_request_type = ''RT'',
      ic_completed = completed, ic_result = (if completed then ''old'' else []), ic_last_push = None,
      ic_updated_at = 0\<rparr>"

definition plain_tables :: "step_row list \<Rightarrow> id_command_row list \<Rightarrow> step_command_row list \<Rightarrow> tables" where
  "plain_tables ss cs scs =
     \<lparr>t_steps = ss, t_id_commands = cs, t_step_commands = scs, t_events = [], t_status = []\<rparr>"

lemma plain_sel [simp]:
  "row_id (plain_row i nu to) = i" "row_workflow_name (plain_row i nu to) = ''wf''"
  "row_timeout (plain_row i nu to) = to" "row_not_until (plain_row i nu to) = nu"
  "row_process_id (plain_row i nu to) = None" "row_step_name (plain_row i nu to) = None"
  "row_context (plain_row i nu to) = itoa i" "row_instance_id (plain_row i nu to) = ''inst''"
  "ic_enrollment_id (plain_command eid u i b) = eid" "ic_command_uuid (plain_command eid u i b) = u"
  "ic_step_id (plain_command eid u i b) = i" "ic_completed (plain_command eid u i b) = b"
  "ic_request_type (plain_command eid u i b) = ''RT''"
  "t_steps (plain_tables ss cs scs) = ss" "t_id_commands (plain_tables ss cs scs) = cs"
  "t_step_commands (plain_tables ss cs scs) = scs" "t_events (plain_tables ss cs scs) = []"
  "t_status (plain_tables ss cs scs) = []"
  by (simp_all add: plain_row_def plain_command_def plain_tables_def)

definition response :: "string \<Rightarrow> command_result" where
  "response uuid = \<lparr>cr_uuid = uuid, cr_request_type = ''RT'', cr_report = ''new'', cr_completed = True\<rparr>"

lemma response_sel [simp]:
  "cr_uuid (response u) = u" "cr_completed (response u)" "cr_report (response u) = ''new''"
  by (simp_all add: response_def)

definition two_commands :: "bool \<Rightarrow> bool \<Rightarrow> tables" where
  "two_commands a b =
     plain_tables [plain_row 1 None None] [plain_command ''AAA'' ''U1'' 1 a, plain_command ''AAA'' ''U2'' 1 b] []"

lemma two_commands_facts [simp]:
  "intact plain_server 2 (two_commands a b)" "t_steps (two_commands a b) = [plain_row 1 None None]"
  "t_id_commands (two_commands a b) = [plain_command ''AAA'' ''U1'' 1 a, plain_command ''AAA'' ''U2'' 1 b]"
  "\<not> has_step_commands (two_commands a b) i"
  by (simp_all add: two_commands_def integrity_defs ic_key_def has_step_commands_iff)

theorem mysql_last_response_witness:
  "\<exists>s res. my_store_command_response plain_server ''AAA'' (Some (response ''U2''))
       (database (two_commands True False) 2 7) = (Inr (Some res), s) \<and>
     map cr_uuid (res_commands res) = [''U2'', ''U1''] \<and> t_steps (db_tables s) = []"
proof -
  let ?s = "database (two_commands True False) 2 7" and ?c = "plain_command ''AAA'' ''U2'' 1 False"
  have "cr_completed (response ''U2'')" "?c \<in> set (t_id_commands (db_tables ?s))"
    "is_id_command plain_server ''AAA'' (cr_uuid (response ''U2'')) ?c"
    "open_rows plain_server ''AAA'' (ic_step_id ?c) (db_tables ?s) = [?c]"
    by (simp_all add: is_id_command_def open_rows_def rows_of_def)
  from mysql_last_response [OF _ _ this, of "plain_row 1 None None"] show ?thesis
    by (auto simp: done_rows_def rows_of_def db_result_def row_result_def)
qed

text \<open>
  C39: When an enrollment answers a command of a step a second time while one other command of the step is
  open, the step completes as if all were answered: the result lists no response to the open command, whose
  row is deleted.
\<close>

theorem mysql_repeated_response:
  assumes "works E" "intact E (db_next_id s) (db_tables s)" "cr_completed sc"
    and "c \<in> set (t_id_commands (db_tables s))" "is_id_command E eid (cr_uuid sc) c" "ic_completed c"
    and "open_rows E eid (ic_step_id c) (db_tables s) = [b]"
    and "r \<in> set (t_steps (db_tables s))" "row_id r = ic_step_id c" "\<not> has_step_commands (db_tables s) (row_id r)"
  shows "\<exists>res s'. my_store_command_response E eid (Some sc) s = (Inr (Some res), s') \<and> res_ids res = [eid] \<and>
     (\<forall>x\<in>set (res_commands res). cr_uuid x \<noteq> ic_command_uuid b) \<and> b \<notin> set (t_id_commands (db_tables s'))"
proof -
  have "b \<in> set (open_rows E eid (ic_step_id c) (db_tables s))" using assms(7) by simp
  then have b: "b \<in> set (t_id_commands (db_tables s))" "sql_eq E (ic_enrollment_id b) eid" "ic_step_id b = row_id r" "\<not> ic_completed b"
    using assms(9) by (simp_all add: open_rows_def rows_of_def)
  have pk: "primary_keys E (db_tables s)" using assms(2) by (simp add: intact_def)
  have uuid: "collation E (ic_command_uuid d) \<noteq> collation E (ic_command_uuid b)"
    if "d \<in> set (t_id_commands (db_tables s))" "sql_eq E (ic_enrollment_id d) eid" "ic_completed d" for d
    using ic_row_unique [OF pk that(1) b(1)] that b(2,4) by (auto simp: ic_key_def sql_eq_def)
  have wp: "wp (my_store_command_response E eid (Some sc))
      (\<lambda>x s'. x = Inr (Some (completed_result E eid sc r (db_tables s))) \<and>
              db_tables s' = without_rows E eid (row_id r) (db_tables s)) s"
  proof -
    have "wp (my_act_on_count E eid sc (1, row_id r))
      (\<lambda>x s'. x = Inr (Some (completed_result E eid sc r (db_tables s))) \<and>
              db_tables s' = without_rows E eid (row_id r) (db_tables s)) (tick s)"
      by (rule wp_complete [OF assms(1)]) (use assms in simp_all)
    then show ?thesis
      using assms(3,7,9) by (simp add: my_store_command_response_def wp_count [OF assms(1,2,4,5)])
  qed
  have "cr_uuid sc \<noteq> ic_command_uuid b"
    using uuid [OF assms(4)] assms(5,6) by (auto simp: is_id_command_def sql_eq_def)
  moreover have "ic_command_uuid d \<noteq> ic_command_uuid b" if "d \<in> set (done_rows E eid (row_id r) (db_tables s))" for d
    using uuid [of d] that by (auto simp: done_rows_def rows_of_def)
  ultimately have "\<forall>x\<in>set (res_commands (completed_result E eid sc r (db_tables s))). cr_uuid x \<noteq> ic_command_uuid b"
    by (auto simp: completed_result_def db_result_def row_result_def)
  moreover have "b \<notin> set (t_id_commands (without_rows E eid (row_id r) (db_tables s)))"
    using b by (simp add: without_rows_def Let_def)
  ultimately show ?thesis using wp by (auto simp: wp_ex completed_result_def)
qed

theorem mysql_repeated_response_witness:
  "\<exists>res s'. my_store_command_response plain_server ''AAA'' (Some (response ''U1''))
     (database (two_commands True False) 2 7) = (Inr (Some res), s') \<and> ''U2'' \<notin> cr_uuid ` set (res_commands res)"
proof -
  let ?s = "database (two_commands True False) 2 7" and ?c = "plain_command ''AAA'' ''U1'' 1 True"
  have "cr_completed (response ''U1'')" "?c \<in> set (t_id_commands (db_tables ?s))"
    "is_id_command plain_server ''AAA'' (cr_uuid (response ''U1'')) ?c" "ic_completed ?c"
    "open_rows plain_server ''AAA'' (ic_step_id ?c) (db_tables ?s) = [plain_command ''AAA'' ''U2'' 1 False]"
    by (simp_all add: is_id_command_def open_rows_def rows_of_def)
  from mysql_repeated_response [OF _ _ this, of "plain_row 1 None None"] show ?thesis by force
qed

text \<open>Two responses of which both counts run before either is acted on.\<close>

definition both_counted_first ::
  "mysql_env \<Rightarrow> string \<Rightarrow> command_result \<Rightarrow> command_result
    \<Rightarrow> (mysql, step_result option \<times> step_result option) action" where
  "both_counted_first E eid sa sb =
     go_bind (my_count_outstanding E eid sa) (\<lambda>ca.
     go_bind (my_count_outstanding E eid sb) (\<lambda>cb.
     go_bind (my_act_on_count E eid sa ca) (\<lambda>ra.
     go_bind (my_act_on_count E eid sb cb) (\<lambda>rb.
     go_ret (ra, rb)))))"

lemma two_open_rows:
  assumes "open_rows E eid i t = [a, b]"
  shows "a \<in> set (t_id_commands t)" "sql_eq E (ic_enrollment_id a) eid" "ic_step_id a = i"
    "b \<in> set (t_id_commands t)" "sql_eq E (ic_enrollment_id b) eid" "ic_step_id b = i"
    "\<And>d. d \<in> set (t_id_commands t) \<Longrightarrow> sql_eq E (ic_enrollment_id d) eid \<Longrightarrow> ic_step_id d = i \<Longrightarrow> \<not> ic_completed d \<Longrightarrow>
       d = a \<or> d = b"
proof -
  have "set (open_rows E eid i t) = {a, b}" using assms by simp
  then show "a \<in> set (t_id_commands t)" "sql_eq E (ic_enrollment_id a) eid" "ic_step_id a = i"
    "b \<in> set (t_id_commands t)" "sql_eq E (ic_enrollment_id b) eid" "ic_step_id b = i"
    "\<And>d. d \<in> set (t_id_commands t) \<Longrightarrow> sql_eq E (ic_enrollment_id d) eid \<Longrightarrow> ic_step_id d = i \<Longrightarrow> \<not> ic_completed d \<Longrightarrow>
       d = a \<or> d = b"
    by (auto simp: open_rows_def rows_of_def set_eq_iff)
qed

text \<open>Once both are stored no command of the enrollment is open.\<close>

lemma both_completed:
  assumes t: "intact E n t" and d: "cr_completed sa" "cr_completed sb"
    and "is_id_command E eid (cr_uuid sa) a" "is_id_command E eid (cr_uuid sb) b" "open_rows E eid i t = [a, b]"
  shows "open_rows E eid i (complete_row E eid sb now (complete_row E eid sa now t)) = []"
proof -
  note ab = two_open_rows [OF assms(6)]
  let ?t1 = "complete_row E eid sa now t"
  let ?a' = "ic_touch now (\<lambda>c. c\<lparr>ic_completed := True, ic_result := cr_report sa\<rparr>) a"
  let ?b' = "ic_touch now (\<lambda>c. c\<lparr>ic_completed := True, ic_result := cr_report sb\<rparr>) b"
  have "distinct (t_id_commands t)" using t by (auto simp: intact_def primary_keys_def distinct_map)
  then have "distinct (open_rows E eid i t)" by (simp add: open_rows_def rows_of_def)
  then have "a \<noteq> b" using assms(6) by simp
  have t1: "set (t_id_commands ?t1) = insert ?a' (set (t_id_commands t) - {a})"
    using complete_row_rows [OF t ab(1) assms(4)] d by simp
  have t2: "set (t_id_commands (complete_row E eid sb now ?t1)) = insert ?b' (set (t_id_commands ?t1) - {b})"
    using complete_row_rows [OF complete_row_intact [OF t] _ assms(5)] d t1 ab(4) \<open>a \<noteq> b\<close> by simp
  have "ic_completed d" if "d \<in> set (t_id_commands (complete_row E eid sb now ?t1))"
    "sql_eq E (ic_enrollment_id d) eid" "ic_step_id d = i" for d
  proof (rule ccontr)
    assume n: "\<not> ic_completed d"
    have "d \<noteq> ?a'" "d \<noteq> ?b'" using n touched_row(1) by metis+
    with that(1) t1 t2 have "d \<in> set (t_id_commands t)" "d \<noteq> a" "d \<noteq> b" by auto
    with ab(7) that(2,3) n show False by blast
  qed
  then show ?thesis by (auto simp: open_rows_def rows_of_def filter_empty_conv)
qed

text \<open>
  When the responses to an enrollment's two last open commands of a step are counted before either is
  stored, neither completes the step: both are stored, no command of the enrollment is open any more, the
  step stays, and every further response to one of its commands is an error.
\<close>

theorem mysql_responses_race:
  assumes "works E" "intact E (db_next_id s) (db_tables s)"
    and "cr_completed sa" "cr_completed sb" "accepts E mediumtext (cr_report sa)" "accepts E mediumtext (cr_report sb)"
    and "is_id_command E eid (cr_uuid sa) a" "is_id_command E eid (cr_uuid sb) b"
    and "open_rows E eid (row_id r) (db_tables s) = [a, b]" "r \<in> set (t_steps (db_tables s))"
  shows "\<exists>s'. both_counted_first E eid sa sb s = (Inr (None, None), s') \<and>
     open_rows E eid (row_id r) (db_tables s') = [] \<and> r \<in> set (t_steps (db_tables s')) \<and>
     (\<forall>sc. cr_completed sc \<and> (\<exists>d\<in>set (rows_of E eid (row_id r) (db_tables s')). is_id_command E eid (cr_uuid sc) d) \<longrightarrow>
        (\<exists>e. fst (my_store_command_response E eid (Some sc) s') = Inl e))"
proof -
  let ?t = "db_tables s" and ?i = "row_id r" and ?n = "db_next_id s" and ?now = "server_clock s"
  let ?t2 = "complete_row E eid sb ?now (complete_row E eid sa ?now ?t)"
  note ab = two_open_rows [OF assms(9)]
  have i: "1 \<le> ?i" using assms(2,10) by (auto simp: intact_def ids_issued_by_def)
  have int2: "intact E ?n ?t2" by (intro complete_row_intact assms(2))
  have steps: "t_steps ?t2 = t_steps ?t" by (simp add: complete_row_def)
  have none: "open_rows E eid ?i ?t2 = []" by (rule both_completed [OF assms(2,3,4,7,8,9)])
  have "wp (both_counted_first E eid sa sb) (\<lambda>x s'. x = Inr (None, None) \<and> db_tables s' = ?t2 \<and> db_next_id s' = ?n) s"
    using i
    by (simp add: both_counted_first_def wp_count [OF assms(1,2) ab(1) assms(7)] ab(3-6) assms(9)
        wp_count [OF assms(1) _ _ assms(8)] assms(2)
        wp_update [OF assms(1) assms(5)] wp_update [OF assms(1) assms(6)])
  then obtain s' where s': "both_counted_first E eid sa sb s = (Inr (None, None), s')" "db_tables s' = ?t2" "db_next_id s' = ?n"
    by (auto simp: wp_ex)
  have "\<exists>e. fst (my_store_command_response E eid (Some sc) s') = Inl e"
    if sc: "cr_completed sc" and d: "d \<in> set (rows_of E eid ?i ?t2)" "is_id_command E eid (cr_uuid sc) d" for sc d
  proof -
    have "d \<in> set (t_id_commands (db_tables s'))" "ic_step_id d = ?i" using d(1) s'(2) by (simp_all add: rows_of_def)
    then have "wp (my_store_command_response E eid (Some sc)) (\<lambda>x _. \<exists>e. x = Inl e) s'"
      using sc none s'(2,3) int2 by (simp add: my_store_command_response_def wp_count [OF assms(1) _ _ d(2)])
    then show ?thesis by (auto simp: wp_def split: prod.splits)
  qed
  with s' none steps assms(10) show ?thesis by (intro exI [of _ s']) auto
qed

theorem mysql_responses_race_witness:
  "\<exists>s. both_counted_first plain_server ''AAA'' (response ''U1'') (response ''U2'')
     (database (two_commands False False) 2 7) = (Inr (None, None), s) \<and> plain_row 1 None None \<in> set (t_steps (db_tables s))"
proof -
  let ?s = "database (two_commands False False) 2 7"
  have "open_rows plain_server ''AAA'' (row_id (plain_row 1 None None)) (db_tables ?s) =
      [plain_command ''AAA'' ''U1'' 1 False, plain_command ''AAA'' ''U2'' 1 False]"
    by (simp add: open_rows_def rows_of_def)
  from mysql_responses_race [OF _ _ _ _ _ _ _ _ this, of "response ''U1''" "response ''U2''"] show ?thesis
    by (auto simp: is_id_command_def mediumtext_def)
qed

section \<open>Delayed steps and time-outs\<close>

text \<open>
  C30: The release returns exactly the unmarked steps whose delay has passed, each with the enrollment of every
  one of its command rows (so an enrollment appears once for each command) and its stored raw commands; none
  of them is due again, and their raw commands are gone.
\<close>

theorem mysql_release:
  assumes "works E" "intact E (db_next_id s) (db_tables s)" "at \<noteq> 0"
    and "\<forall>r\<in>set (t_steps (db_tables s)). \<not> is_process (process_id E ''notu'' (rand_reads s)) r"
  shows "\<exists>s'. my_retrieve_steps_to_enqueue E at s =
     (Inr (map (\<lambda>r. \<lparr>ctx_workflow_name = row_workflow_name r, ctx_instance_id = row_instance_id r,
          ctx_name = null_string (row_step_name r), ctx_context = [],
          enq_ids = map ic_enrollment_id [c \<leftarrow> t_id_commands (db_tables s). ic_step_id c = row_id r],
          enq_commands = map raw_of_row [c \<leftarrow> t_step_commands (db_tables s). sc_step_id c = row_id r]\<rparr>)
        [r \<leftarrow> t_steps (db_tables s). due_release E at r]), s') \<and>
     (\<forall>r\<in>set (t_steps (db_tables s')). \<not> due_release E at r) \<and>
     (\<forall>c\<in>set (t_step_commands (db_tables s')). \<exists>r\<in>set (t_steps (db_tables s)). row_id r = sc_step_id c \<and> \<not> due_release E at r)"
proof -
  let ?t = "db_tables s" and ?p = "process_id E ''notu'' (rand_reads s)"
  obtain s' where s': "my_retrieve_steps_to_enqueue E at s =
      (Inr (map (release_of ?t) [r \<leftarrow> t_steps ?t. due_release E at r]), s')"
    "db_tables s' = after_release E ?p at (server_clock s) ?t"
    using wp_enqueue [OF assms, of "\<lambda>x s'. x = Inr (map (release_of ?t) [r \<leftarrow> t_steps ?t. due_release E at r]) \<and>
        db_tables s' = after_release E ?p at (server_clock s) ?t"] by (auto simp: wp_ex)
  have "\<not> due_release E at (mark ?p r)" for r by (simp add: due_release_def)
  then have "\<forall>r\<in>set (t_steps (db_tables s')). \<not> due_release E at r"
    by (auto simp: s'(2) after_release_def Let_def set_sql_update)
  moreover have "\<exists>r\<in>set (t_steps ?t). row_id r = sc_step_id c \<and> \<not> due_release E at r"
    if "c \<in> set (t_step_commands (db_tables s'))" for c
  proof -
    from that have c: "c \<in> set (t_step_commands ?t)" "\<not> step_of_id (due_release E at) (sc_step_id c) ?t"
      by (auto simp: s'(2) after_release_def Let_def)
    then obtain r where "r \<in> set (t_steps ?t)" "row_id r = sc_step_id c"
      using assms(2) by (fastforce simp: intact_def foreign_keys_def)
    with c(2) show ?thesis by (auto simp: step_of_id_iff)
  qed
  ultimately show ?thesis using s'(1) by (auto simp: release_of_def [abs_def])
qed

definition delayed_tables :: tables where
  "delayed_tables =
     plain_tables [plain_row 1 (Some 1000000000) (Some 2000000000)]
       [plain_command ''AAA'' ''U1'' 1 False, plain_command ''AAA'' ''U2'' 1 False]
       [\<lparr>sc_command_uuid = ''U1'', sc_step_id = 1, sc_command = ''c1'', sc_request_type = ''RT''\<rparr>,
        \<lparr>sc_command_uuid = ''U2'', sc_step_id = 1, sc_command = ''c2'', sc_request_type = ''RT''\<rparr>]"

lemma delayed_facts [simp]:
  "intact plain_server 2 delayed_tables"
  "t_steps delayed_tables = [plain_row 1 (Some 1000000000) (Some 2000000000)]"
  "t_id_commands delayed_tables = [plain_command ''AAA'' ''U1'' 1 False, plain_command ''AAA'' ''U2'' 1 False]"
  "t_step_commands delayed_tables =
     [\<lparr>sc_command_uuid = ''U1'', sc_step_id = 1, sc_command = ''c1'', sc_request_type = ''RT''\<rparr>,
      \<lparr>sc_command_uuid = ''U2'', sc_step_id = 1, sc_command = ''c2'', sc_request_type = ''RT''\<rparr>]"
  by (simp_all add: delayed_tables_def integrity_defs ic_key_def sc_key_def)

theorem mysql_release_witness:
  "\<exists>s e. my_retrieve_steps_to_enqueue plain_server 5000000000 (database delayed_tables 2 7) = (Inr [e], s) \<and>
     enq_ids e = [''AAA'', ''AAA''] \<and> map raw_command (enq_commands e) = [''c1'', ''c2'']"
proof -
  let ?s = "database delayed_tables 2 7"
  have "works plain_server" "intact plain_server (db_next_id ?s) (db_tables ?s)" "(5000000000 :: time) \<noteq> 0"
    "\<forall>r\<in>set (t_steps (db_tables ?s)). \<not> is_process (process_id plain_server ''notu'' (rand_reads ?s)) r"
    by (simp_all add: is_process_def)
  from mysql_release [OF this] show ?thesis
    by (auto simp: due_release_def raw_of_row_def)
qed

lemma process_ids_differ: "process_id E ''tout'' k \<noteq> process_id E ''notu'' j"
  by (simp add: process_id_def)

text \<open>
  C40: A delayed step that the release has returned never times out: whenever the worker looks for time-outs
  after it, the step and its commands stay in the database, whatever the step's time-out.
\<close>

theorem mysql_released_never_times_out:
  assumes "works E" "intact E (db_next_id s) (db_tables s)" "at \<noteq> 0"
    and "\<forall>q\<in>set (t_steps (db_tables s)). \<not> is_process (process_id E ''notu'' (rand_reads s)) q"
    and "\<forall>k. \<forall>q\<in>set (t_steps (db_tables s)). \<not> is_process (process_id E ''tout'' k) q"
    and "r \<in> set (t_steps (db_tables s))" "due_release E at r"
    and "my_retrieve_steps_to_enqueue E at s = (Inr es, s1)"
    and "my_retrieve_timed_out_steps E (s1\<lparr>go_clock := later\<rparr>) = (x, s2)"
  shows "(\<exists>q\<in>set (t_steps (db_tables s2)). row_id q = row_id r \<and> row_timeout q = row_timeout r) \<and>
     (\<forall>c\<in>set (t_id_commands (db_tables s)). ic_step_id c = row_id r \<longrightarrow>
        (\<exists>d\<in>set (t_id_commands (db_tables s2)). ic_key E d = ic_key E c \<and> ic_step_id d = row_id r))"
proof -
  let ?t = "db_tables s" and ?p = "process_id E ''notu'' (rand_reads s)"
  have "wp (my_retrieve_steps_to_enqueue E at) (\<lambda>_ s'. db_tables s' = after_release E ?p at (server_clock s) ?t \<and>
      db_next_id s' = db_next_id s) s"
    by (rule wp_enqueue [OF assms(1-4)]) simp
  with assms(8) have s1: "db_tables s1 = after_release E ?p at (server_clock s) ?t" "db_next_id s1 = db_next_id s"
    by (simp_all add: wp_def)
  have "wp (my_retrieve_steps_to_enqueue E at) (\<lambda>_. sound E) s" by (rule sound_enqueue [OF assms(1,2)])
  with assms(8) have sound1: "sound E s1" by (simp add: wp_def)
  let ?s = "s1\<lparr>go_clock := later\<rparr>"
  have fresh: "\<forall>q\<in>set (t_steps (db_tables ?s)). \<not> is_process (process_id E ''tout'' (rand_reads ?s)) q"
    using assms(5) by (auto simp: s1 after_release_def Let_def set_sql_update mark_def is_process_def process_ids_differ
        process_ids_differ [symmetric])
  have "wp (my_retrieve_timed_out_steps E) (\<lambda>_ s'. db_tables s' = after_time_out E later (db_tables s1)) ?s"
    by (rule wp_time_out [OF assms(1) _ fresh]) (use sound1 in simp_all)
  with assms(9) have s2: "db_tables s2 = after_time_out E later (db_tables s1)" by (simp add: wp_def)
  have kept: "mark ?p r \<in> set (t_steps (db_tables s1))"
    using assms(6,7) by (auto simp: s1 after_release_def Let_def set_sql_update)
  have not_due: "\<not> due_timeout E later (mark ?p r)" by (simp add: due_timeout_def)
  have no: "\<not> step_of_id (due_timeout E later) (row_id r) (db_tables s1)"
    using intact_unique_step [OF sound1 kept, of "due_timeout E later"] not_due by simp
  have "mark ?p r \<in> set (t_steps (db_tables s2))" using kept not_due by (simp add: s2 after_time_out_def Let_def)
  moreover have "\<exists>d\<in>set (t_id_commands (db_tables s2)). ic_key E d = ic_key E c \<and> ic_step_id d = row_id r"
    if c: "c \<in> set (t_id_commands ?t)" "ic_step_id c = row_id r" for c
  proof -
    let ?d = "ic_touch (server_clock s) (\<lambda>c. c\<lparr>ic_last_push := Some (server_clock s)\<rparr>) c"
    have "step_of_id (due_release E at) (ic_step_id c) ?t" using assms(6,7) c(2) by (auto simp: step_of_id_iff)
    then have "?d \<in> set (t_id_commands (db_tables s1))"
      using c(1) by (auto simp: s1 after_release_def Let_def set_sql_update)
    then have "?d \<in> set (t_id_commands (db_tables s2))" using no c(2) by (simp add: s2 after_time_out_def Let_def)
    then show ?thesis using c(2) by (intro bexI [of _ ?d]) (simp_all add: ic_key_def)
  qed
  ultimately show ?thesis by (auto intro!: bexI [of _ "mark ?p r"])
qed

theorem mysql_released_never_times_out_witness:
  "\<exists>es s1 x s2. my_retrieve_steps_to_enqueue plain_server 5000000000 (database delayed_tables 2 7) = (Inr es, s1) \<and>
     my_retrieve_timed_out_steps plain_server (s1\<lparr>go_clock := 9000000000\<rparr>) = (x, s2) \<and>
     (\<exists>q\<in>set (t_steps (db_tables s2)). row_id q = 1 \<and> row_timeout q = Some 2000000000)"
proof -
  let ?s = "database delayed_tables 2 7" and ?r = "plain_row 1 (Some 1000000000) (Some 2000000000)"
  have h: "works plain_server" "intact plain_server (db_next_id ?s) (db_tables ?s)" "(5000000000 :: time) \<noteq> 0"
    "\<forall>q\<in>set (t_steps (db_tables ?s)). \<not> is_process (process_id plain_server ''notu'' (rand_reads ?s)) q"
    "\<forall>k. \<forall>q\<in>set (t_steps (db_tables ?s)). \<not> is_process (process_id plain_server ''tout'' k) q"
    "?r \<in> set (t_steps (db_tables ?s))" "due_release plain_server 5000000000 ?r"
    by (simp_all add: is_process_def due_release_def)
  obtain es s1 where 1: "my_retrieve_steps_to_enqueue plain_server 5000000000 ?s = (Inr es, s1)"
    using wp_enqueue [OF h(1-4), of "\<lambda>x _. \<exists>es. x = Inr es"] by (auto simp: wp_ex)
  obtain x s2 where 2: "my_retrieve_timed_out_steps plain_server (s1\<lparr>go_clock := 9000000000\<rparr>) = (x, s2)" by fastforce
  from mysql_released_never_times_out [OF h 1 2] 1 2 show ?thesis by auto
qed

text \<open>
  The time-outs come as one result for each enrollment, whatever the number of its timed-out steps: the
  result holds the enrollment's commands of all of them and the context of the step of the first. The
  timed-out steps and their commands are deleted and nothing else is.
\<close>

theorem mysql_time_outs:
  assumes "works E" "intact E (db_next_id s) (db_tables s)"
    and "\<forall>r\<in>set (t_steps (db_tables s)). \<not> is_process (process_id E ''tout'' (rand_reads s)) r"
  defines "rows \<equiv> timed_out_rows E (go_clock s) (db_tables s)"
  shows "\<exists>rs s'. my_retrieve_timed_out_steps E s = (Inr rs, s') \<and>
     distinct (map res_ids rs) \<and> res_ids ` set rs = (\<lambda>c. [ic_enrollment_id c]) ` set rows \<and>
     (\<forall>x\<in>set rs. \<exists>c cs r. [d \<leftarrow> rows. [ic_enrollment_id d] = res_ids x] = c # cs \<and>
        res_commands x = map result_of_row (c # cs) \<and>
        r \<in> set (t_steps (db_tables s)) \<and> row_id r = ic_step_id c \<and> step_context.truncate x = context_of_row r) \<and>
     set (t_steps (db_tables s')) = {r \<in> set (t_steps (db_tables s)). \<not> due_timeout E (go_clock s) r} \<and>
     set (t_id_commands (db_tables s')) = set (t_id_commands (db_tables s)) - set rows"
proof -
  let ?t = "db_tables s" and ?ctx = "step_context_of (db_tables s)"
  obtain m s' where m: "my_retrieve_timed_out_steps E s = (Inr (map snd m), s')" "distinct (map fst m)"
    "map_of m = merged ?ctx rows" "db_tables s' = after_time_out E (go_clock s) ?t"
    using wp_time_out [OF assms(1-3), of "\<lambda>x s'. \<exists>m. x = Inr (map snd m) \<and> distinct (map fst m) \<and>
        map_of m = merged ?ctx rows \<and> db_tables s' = after_time_out E (go_clock s) ?t"]
    unfolding rows_def by (auto simp: wp_ex)
  have entry: "merged ?ctx rows eid = Some x" if "(eid, x) \<in> set m" for eid x
    using map_of_is_SomeI [OF m(2) that] m(3) by simp
  have ids: "res_ids x = [eid]" if "merged ?ctx rows eid = Some x" for eid x
    using that by (auto simp: merged_def step_context.defs step_result.defs split: list.splits)
  have "map res_ids (map snd m) = map (\<lambda>e. [e]) (map fst m)" using entry ids by auto
  then have d: "distinct (map res_ids (map snd m))" using m(2) by (simp add: distinct_map inj_on_def)
  have "fst ` set m = {eid. merged ?ctx rows eid \<noteq> None}" using m(3) by (metis dom_def dom_map_of_conv_image_fst)
  also have "\<dots> = ic_enrollment_id ` set rows"
    by (auto simp: merged_def filter_empty_conv split: list.split)
  finally have keys: "fst ` set m = ic_enrollment_id ` set rows" .
  have "res_ids ` set (map snd m) = (\<lambda>e. [e]) ` fst ` set m" using entry ids by (force simp: image_iff)
  then have all: "res_ids ` set (map snd m) = (\<lambda>c. [ic_enrollment_id c]) ` set rows" by (simp add: keys image_image)
  have each: "\<exists>c cs r. [d \<leftarrow> rows. [ic_enrollment_id d] = res_ids x] = c # cs \<and>
        res_commands x = map result_of_row (c # cs) \<and>
        r \<in> set (t_steps ?t) \<and> row_id r = ic_step_id c \<and> step_context.truncate x = context_of_row r"
    if x: "x \<in> set (map snd m)" for x
  proof -
    from x obtain eid where "(eid, x) \<in> set m" by auto
    from entry [OF this] obtain c cs where c: "[d \<leftarrow> rows. ic_enrollment_id d = eid] = c # cs"
      "x = step_context.extend (the (?ctx (ic_step_id c))) (step_result.fields [eid] (map result_of_row (c # cs)))"
      by (auto simp: merged_def split: list.splits)
    have "c \<in> set [d \<leftarrow> rows. ic_enrollment_id d = eid]" by (simp add: c(1))
    then have "c \<in> set rows" by simp
    then obtain r where r: "r \<in> set (t_steps ?t)" "row_id r = ic_step_id c"
      by (auto simp: rows_def timed_out_rows_def step_of_id_iff)
    have "?ctx (ic_step_id c) = Some (context_of_row r)"
      using step_context_of_row [OF _ r(1)] r(2) assms(2) by (simp add: intact_def primary_keys_def)
    with c r show ?thesis by (auto simp: step_context.defs step_result.defs)
  qed
  have "set (t_id_commands (db_tables s')) = set (t_id_commands ?t) - set rows"
    by (auto simp: m(4) after_time_out_def Let_def rows_def timed_out_rows_def)
  moreover have "set (t_steps (db_tables s')) = {r \<in> set (t_steps ?t). \<not> due_timeout E (go_clock s) r}"
    by (simp add: m(4) after_time_out_def Let_def)
  ultimately show ?thesis using m(1) d all each by (intro exI [of _ "map snd m"] exI [of _ s']) blast
qed

definition late_tables :: tables where
  "late_tables =
     plain_tables [plain_row 1 None (Some 1000000000), plain_row 2 None (Some 2000000000)]
       [plain_command ''AAA'' ''U1'' 1 False, plain_command ''AAA'' ''U2'' 2 False] []"

lemma late_facts [simp]:
  "intact plain_server 3 late_tables"
  "t_steps late_tables = [plain_row 1 None (Some 1000000000), plain_row 2 None (Some 2000000000)]"
  "t_id_commands late_tables = [plain_command ''AAA'' ''U1'' 1 False, plain_command ''AAA'' ''U2'' 2 False]"
  by (simp_all add: late_tables_def integrity_defs ic_key_def)

theorem mysql_time_outs_witness:
  "\<exists>rs x s. my_retrieve_timed_out_steps plain_server (database late_tables 3 5000000000) = (Inr rs, s) \<and>
     length rs = 1 \<and> x \<in> set rs \<and> map cr_uuid (res_commands x) = [''U1'', ''U2''] \<and> ctx_context x = itoa 1"
proof -
  let ?s = "database late_tables 3 5000000000"
  have h: "works plain_server" "intact plain_server (db_next_id ?s) (db_tables ?s)"
    "\<forall>r\<in>set (t_steps (db_tables ?s)). \<not> is_process (process_id plain_server ''tout'' (rand_reads ?s)) r"
    by (simp_all add: is_process_def)
  have rows: "timed_out_rows plain_server (go_clock ?s) (db_tables ?s) =
      [plain_command ''AAA'' ''U1'' 1 False, plain_command ''AAA'' ''U2'' 2 False]"
    by (simp add: timed_out_rows_def step_of_id_iff due_timeout_def less_eq_prod_def)
  obtain rs s where rs: "my_retrieve_timed_out_steps plain_server ?s = (Inr rs, s)" "distinct (map res_ids rs)"
    "res_ids ` set rs = {[''AAA'']}"
    "\<forall>x\<in>set rs. \<exists>c cs r. [d \<leftarrow> [plain_command ''AAA'' ''U1'' 1 False, plain_command ''AAA'' ''U2'' 2 False]. [ic_enrollment_id d] = res_ids x] = c # cs \<and>
        res_commands x = map result_of_row (c # cs) \<and>
        r \<in> set (t_steps (db_tables ?s)) \<and> row_id r = ic_step_id c \<and> step_context.truncate x = context_of_row r"
    using mysql_time_outs [OF h] unfolding rows by auto
  have "card (set (map res_ids rs)) = 1" using rs(3) by simp
  with rs(2) have len: "length rs = 1" using distinct_card by fastforce
  then obtain x where x: "rs = [x]" by (cases rs) auto
  with rs(3) have "res_ids x = [''AAA'']" by simp
  with rs(4) x have "map cr_uuid (res_commands x) = [''U1'', ''U2''] \<and> ctx_context (step_context.truncate x) = itoa 1"
    by (auto simp: result_of_row_def context_of_row_def)
  then have "map cr_uuid (res_commands x) = [''U1'', ''U2''] \<and> ctx_context x = itoa 1"
    by (simp add: step_context.defs)
  with rs(1) len x show ?thesis by (intro exI [of _ rs] exI [of _ x] exI [of _ s]) simp
qed

end
