(* ===== verification/MySQLTypes.thy ===== *)
theory MySQLTypes
  imports MySQLProps
begin

text \<open>
  The column types: every text in the tables is one its column takes, every process ID has the length of its
  column, and every instant is one that a \<open>TIMESTAMP\<close> column keeps, in every database that operations reach,
  whatever calls fail. The operations keep the predicate call by call, inside transactions too, so the proof
  composes along their bodies. An instant that comes from the program is converted by the statement that
  stores it; \<open>CURRENT_TIMESTAMP\<close> is stored as it is, so the predicate speaks of the server's clock too.
\<close>

definition stamped :: "mysql_env \<Rightarrow> time option \<Rightarrow> bool" where
  "stamped E v \<longleftrightarrow> v \<in> insert None (range (timestamp E))"

definition step_typed :: "mysql_env \<Rightarrow> step_row \<Rightarrow> bool" where
  "step_typed E r \<longleftrightarrow>
     accepts E 255 (row_workflow_name r) \<and> accepts E 255 (row_instance_id r) \<and>
     accepts_null E 255 (row_step_name r) \<and> accepts E mediumtext (row_context r) \<and>
     stamped E (row_not_until r) \<and> stamped E (row_timeout r) \<and>
     (\<forall>p. row_process_id r = Some p \<longrightarrow> length p = 45)"

definition id_command_typed :: "mysql_env \<Rightarrow> id_command_row \<Rightarrow> bool" where
  "id_command_typed E c \<longleftrightarrow>
     accepts E 255 (ic_enrollment_id c) \<and> accepts E 127 (ic_command_uuid c) \<and> accepts E 63 (ic_request_type c) \<and>
     (ic_result c = [] \<or> accepts E mediumtext (ic_result c)) \<and>
     stamped E (ic_last_push c) \<and> stamped E (Some (ic_updated_at c))"

definition step_command_typed :: "mysql_env \<Rightarrow> step_command_row \<Rightarrow> bool" where
  "step_command_typed E c \<longleftrightarrow>
     accepts E 127 (sc_command_uuid c) \<and> accepts E 63 (sc_request_type c) \<and> accepts E mediumtext (sc_command c)"

definition event_typed :: "mysql_env \<Rightarrow> event_row \<Rightarrow> bool" where
  "event_typed E r \<longleftrightarrow>
     accepts E 255 (er_event_name r) \<and> accepts E 63 (er_event_type r) \<and> accepts E 255 (er_workflow_name r) \<and>
     accepts_null E mediumtext (er_event_context r) \<and> accepts_null E mediumtext (er_context r)"

definition status_typed :: "mysql_env \<Rightarrow> status_row \<Rightarrow> bool" where
  "status_typed E r \<longleftrightarrow> accepts E 255 (ws_enrollment_id r) \<and> accepts E 255 (ws_workflow_name r)"

definition well_typed :: "mysql_env \<Rightarrow> tables \<Rightarrow> bool" where
  "well_typed E t \<longleftrightarrow>
     list_all (step_typed E) (t_steps t) \<and> list_all (id_command_typed E) (t_id_commands t) \<and>
     list_all (step_command_typed E) (t_step_commands t) \<and> list_all (event_typed E) (t_events t) \<and>
     list_all (status_typed E) (t_status t)"

section \<open>Actions that keep the types\<close>

definition typed_db :: "mysql_env \<Rightarrow> mysql \<Rightarrow> bool" where
  "typed_db E s \<longleftrightarrow> well_typed E (db_tables s) \<and> stamped E (Some (server_clock s))"

definition keeps :: "mysql_env \<Rightarrow> (mysql, 'a) action \<Rightarrow> bool" where
  "keeps E m \<longleftrightarrow> (\<forall>s. typed_db E s \<longrightarrow> typed_db E (snd (m s)))"

lemma typed_db_upd [simp]:
  "typed_db E (s\<lparr>db_calls := k\<rparr>) = typed_db E s" "typed_db E (s\<lparr>rand_reads := k\<rparr>) = typed_db E s"
  "typed_db E (s\<lparr>db_next_id := i\<rparr>) = typed_db E s"
  "typed_db E (s\<lparr>db_tables := t\<rparr>) \<longleftrightarrow> well_typed E t \<and> stamped E (Some (server_clock s))"
  by (simp_all add: typed_db_def)

named_theorems keeps_intros \<open>calls that keep the types\<close>

lemma keepsD: "keeps E m \<Longrightarrow> typed_db E s \<Longrightarrow> m s = (r, s') \<Longrightarrow> typed_db E s'"
  by (auto simp: keeps_def dest: spec [of _ s])

lemma keeps_basic [keeps_intros]:
  "keeps E (go_ret x)" "keeps E (go_fail e)" "keeps E (go_lift r)" "keeps E (go_read g)"
  by (simp_all add: keeps_def go_defs)

lemma keeps_bind [keeps_intros]:
  assumes "keeps E m" "\<And>x. keeps E (f x)"
  shows "keeps E (go_bind m f)"
proof -
  have "typed_db E (snd (go_bind m f s))" if s: "typed_db E s" for s
  proof -
    obtain q u where q: "m s = (q, u)" by fastforce
    with keepsD [OF assms(1) s] have u: "typed_db E u" .
    then have "typed_db E (snd (f x u))" for x using assms(2) by (simp add: keeps_def)
    with q u show ?thesis by (cases q) (auto simp: go_bind_def)
  qed
  then show ?thesis by (simp add: keeps_def)
qed

lemma keeps_wrap [keeps_intros]: "keeps E m \<Longrightarrow> keeps E (go_wrap f as m)"
  by (simp add: keeps_def)

lemma keeps_for [keeps_intros]: "(\<And>x. keeps E (f x)) \<Longrightarrow> keeps E (go_for xs f)"
  by (induction xs) (auto intro!: keeps_intros)

lemma keeps_if [keeps_intros]: "(b \<Longrightarrow> keeps E m) \<Longrightarrow> (\<not> b \<Longrightarrow> keeps E n) \<Longrightarrow> keeps E (if b then m else n)"
  by simp

lemma keeps_prod [keeps_intros]: "(\<And>x y. keeps E (f x y)) \<Longrightarrow> keeps E (case p of (x, y) \<Rightarrow> f x y)"
  by (cases p) simp

lemma keeps_option [keeps_intros]:
  "keeps E m \<Longrightarrow> (\<And>x. keeps E (f x)) \<Longrightarrow> keeps E (case v of None \<Rightarrow> m | Some x \<Rightarrow> f x)"
  by (cases v) simp_all

lemma keeps_list [keeps_intros]:
  "keeps E m \<Longrightarrow> (\<And>x xs. keeps E (f x xs)) \<Longrightarrow> keeps E (case l of [] \<Rightarrow> m | x # xs \<Rightarrow> f x xs)"
  by (cases l) simp_all

lemma keeps_call:
  assumes "\<And>s. typed_db E s \<Longrightarrow> typed_db E (snd (m s))"
  shows "keeps E (db_call E' m)"
proof -
  have "typed_db E (snd (db_call E' m s))" if "typed_db E s" for s
    using assms [of "s\<lparr>db_calls := Suc (db_calls s)\<rparr>"] that
    by (cases "db_fault E' (db_calls s)") (simp_all add: db_call_def Let_def)
  then show ?thesis by (simp add: keeps_def)
qed

lemma keeps_query [keeps_intros]: "keeps E (my_query E' q)"
  unfolding my_query_def by (rule keeps_call) (simp add: go_defs)

lemma keeps_one [keeps_intros]: "keeps E (my_one E' q)"
  unfolding my_one_def by (intro keeps_intros)

lemma keeps_exec:
  assumes "\<And>now t t'. stamped E (Some now) \<Longrightarrow> well_typed E t \<Longrightarrow> f now t = Inr t' \<Longrightarrow> well_typed E t'"
  shows "keeps E (my_exec E' f)"
  unfolding my_exec_def by (rule keeps_call) (use assms in \<open>auto simp: typed_db_def split: sum.split\<close>)

lemma keeps_tx [keeps_intros]:
  assumes "keeps E g"
  shows "keeps E (tx E' g)"
proof -
  have call: "typed_db E u" if "db_call E' (go_ret ()) s = (r, u)" "typed_db E s" for s u and r :: "unit result"
    by (rule keepsD [OF keeps_call that(2,1)]) (simp add: go_ret_def)
  have commit: "typed_db E u"
    if "db_call E' (\<lambda>v. (Inr (), v\<lparr>db_tables := t\<rparr>)) s = (r, u)" "typed_db E s" "well_typed E t"
    for s u t and r :: "unit result"
    by (rule keepsD [OF keeps_call that(2,1)]) (use that(3) in \<open>simp add: typed_db_def\<close>)
  have "typed_db E s'" if s: "typed_db E s" and run: "tx E' g s = (r, s')" for s r s'
  proof -
    obtain q1 u1 where 1: "db_call E' (go_ret ()) s = (q1, u1)" by fastforce
    then have u1: "typed_db E u1" using call s by blast
    obtain q2 u2 where 2: "g u1 = (q2, u2)" by fastforce
    then have u2: "typed_db E u2" using keepsD [OF assms u1] by blast
    then have rolled: "typed_db E (u2\<lparr>db_tables := db_tables u1\<rparr>)" using u1 by (simp add: typed_db_def)
    let ?u = "u2\<lparr>db_tables := db_tables u1\<rparr>"
    show ?thesis
    proof (cases q1)
      case (Inl e)
      then show ?thesis using run u1 by (simp add: tx_def go_wrap_def 1)
    next
      case ok: (Inr x)
      show ?thesis
      proof (cases q2)
        case (Inl e)
        obtain q3 u3 where 3: "db_call E' (go_ret ()) ?u = (q3, u3)" by fastforce
        then have "s' = u3" using run ok Inl by (simp add: tx_def go_wrap_def 1 2 split: sum.splits)
        then show ?thesis using call [OF 3 rolled] by simp
      next
        case (Inr y)
        obtain q3 u3 where 3: "db_call E' (\<lambda>v. (Inr (), v\<lparr>db_tables := db_tables u2\<rparr>)) ?u = (q3, u3)" by fastforce
        then have "s' = u3" using run ok Inr by (simp add: tx_def go_wrap_def 1 2 split: sum.splits)
        then show ?thesis using commit [OF 3 rolled] u2 by (simp add: typed_db_def)
      qed
    qed
  qed
  then show ?thesis unfolding keeps_def by (metis prod.collapse)
qed

section \<open>The statements\<close>

text \<open>A process ID takes the 45 characters of its column when the random source fills its 20 bytes.\<close>

lemma length_hex_encode: "length (hex_encode p) = 2 * length p"
  by (induction p) (simp_all add: hex_encode_def)

lemma length_process_id:
  "length (rand_read E k) = 20 \<Longrightarrow> length prefix = 4 \<Longrightarrow> length (process_id E prefix k) = 45"
  by (simp add: process_id_def length_hex_encode)

lemma list_all_delete: "list_all P xs \<Longrightarrow> list_all P (sql_delete Q xs)"
  by (auto simp: list_all_iff sql_delete_def)

lemma list_all_update:
  "list_all P xs \<Longrightarrow> (\<And>x. P x \<Longrightarrow> P (f x)) \<Longrightarrow> list_all P (sql_update Q f xs)"
  by (auto simp: list_all_iff sql_update_def)

lemma list_all_update_one:
  "list_all P xs \<Longrightarrow> (\<And>x. P x \<Longrightarrow> P (f x)) \<Longrightarrow> list_all P (sql_update_one Q f xs)"
  by (induction xs) auto

lemma id_command_touch:
  assumes "stamped E (Some now)" "id_command_typed E c" "id_command_typed E (f c)"
  shows "id_command_typed E (ic_touch now f c)"
  using assms by (simp add: ic_touch_def Let_def id_command_typed_def)

lemmas list_all_sql = list_all_delete list_all_update list_all_update_one

lemma timestamp_stamped: "timestamp_null E v = Inr w \<Longrightarrow> stamped E w"
  by (auto simp: timestamp_null_def stamped_def split: option.splits)

lemma keeps_delete_steps:
  "well_typed E t \<Longrightarrow> delete_steps P t = Inr t' \<Longrightarrow> well_typed E t'"
  by (auto simp: delete_steps_def well_typed_def list_all_sql split: if_splits)

lemma keeps_rand:
  assumes "\<forall>k. length (rand_read E k) = 20" "length prefix = 4" "\<And>p. length p = 45 \<Longrightarrow> keeps E (f p)"
  shows "keeps E (go_bind (rand_hex_string E prefix) f)"
proof -
  have "keeps E (f (process_id E prefix k))" for k
    using assms by (simp add: length_process_id)
  then show ?thesis by (simp add: keeps_def go_bind_def rand_hex_string_def)
qed

lemma keeps_create_step [keeps_intros]:
  "keeps E (q_create_step E w i n c nu to)"
  unfolding q_create_step_def
  by (rule keeps_call)
    (auto simp: typed_db_def Let_def well_typed_def step_typed_def dest: timestamp_stamped split: sum.split)

lemma typed_create_id_command:
  "stamped E (Some now) \<Longrightarrow> well_typed E t \<Longrightarrow> q_create_id_command E eid uuid i rt lp now t = Inr t' \<Longrightarrow>
   well_typed E t'"
  by (auto simp: q_create_id_command_def well_typed_def id_command_typed_def dest: timestamp_stamped
      split: if_splits sum.splits)

lemma typed_create_step_command:
  "well_typed E t \<Longrightarrow> q_create_step_command E i uuid rt raw now t = Inr t' \<Longrightarrow> well_typed E t'"
  by (auto simp: q_create_step_command_def well_typed_def step_command_typed_def split: if_splits)

lemma typed_update_id_command:
  assumes now: "stamped E (Some now)" and t: "well_typed E t" and run: "q_update_id_command E b report eid uuid now t = Inr t'"
  shows "well_typed E t'"
proof (cases "accepts E mediumtext report")
  case True
  then have "id_command_typed E c \<Longrightarrow> id_command_typed E (c\<lparr>ic_completed := b, ic_result := report\<rparr>)" for c
    by (simp add: id_command_typed_def)
  then show ?thesis
    using now t run
    by (auto simp: q_update_id_command_def well_typed_def list_all_update_one id_command_touch split: if_splits)
next
  case False
  then have none: "\<not> list_ex (is_id_command E eid uuid) (t_id_commands t)"
    using run by (auto simp: q_update_id_command_def)
  have "sql_update_one P f cs = cs" if "\<not> list_ex P cs" for P f and cs :: "id_command_row list"
    using that by (induction cs) auto
  with none t run show ?thesis by (auto simp: q_update_id_command_def split: if_splits)
qed

lemma typed_deletes:
  assumes "well_typed E t"
  shows
    "q_delete_id_command_by_workflow E eid w now t = Inr t' \<Longrightarrow> well_typed E t'"
    "q_delete_id_commands E eid now t = Inr t' \<Longrightarrow> well_typed E t'"
    "q_delete_unused_step_commands E now t = Inr t' \<Longrightarrow> well_typed E t'"
    "q_delete_workflow_step_having_no_commands now t = Inr t' \<Longrightarrow> well_typed E t'"
    "q_delete_workflow_step_having_no_commands_by_workflow_name E w now t = Inr t' \<Longrightarrow> well_typed E t'"
    "q_delete_workflow_step_having_no_commands_by_step_id i now t = Inr t' \<Longrightarrow> well_typed E t'"
    "q_remove_id_commands_by_step_id E eid i now t = Inr t' \<Longrightarrow> well_typed E t'"
    "q_remove_step_commands_by_process_id p now t = Inr t' \<Longrightarrow> well_typed E t'"
    "q_remove_id_commands_by_process_id p now t = Inr t' \<Longrightarrow> well_typed E t'"
    "q_remove_steps_by_process_id p now t = Inr t' \<Longrightarrow> well_typed E t'"
    "q_clear_workflow_status E eid now t = Inr t' \<Longrightarrow> well_typed E t'"
    "q_remove_event E name now t = Inr t' \<Longrightarrow> well_typed E t'"
  using assms keeps_delete_steps [OF assms]
  unfolding q_delete_workflow_step_having_no_commands_def q_delete_workflow_step_having_no_commands_by_workflow_name_def
    q_delete_workflow_step_having_no_commands_by_step_id_def q_remove_steps_by_process_id_def
  by (auto simp: q_delete_id_command_by_workflow_def q_delete_id_commands_def q_delete_unused_step_commands_def
      q_remove_id_commands_by_step_id_def q_remove_step_commands_by_process_id_def
      q_remove_id_commands_by_process_id_def q_clear_workflow_status_def q_remove_event_def
      well_typed_def list_all_sql)

lemma typed_repush:
  assumes "stamped E (Some now)" "well_typed E t" "q_update_repush_ids E lp before now t = Inr t'"
  shows "well_typed E t'"
proof (cases "timestamp_null E lp")
  case (Inr w)
  then have "stamped E w" by (rule timestamp_stamped)
  then have "id_command_typed E c \<Longrightarrow> id_command_typed E (c\<lparr>ic_last_push := w\<rparr>)" for c
    by (simp add: id_command_typed_def)
  then show ?thesis using assms Inr
    by (auto simp: q_update_repush_ids_def well_typed_def list_all_update id_command_touch split: if_splits)
qed (use assms in \<open>auto simp: q_update_repush_ids_def split: if_splits\<close>)

lemma typed_updates:
  assumes "stamped E (Some now)" "well_typed E t"
  shows
    "q_update_id_command_timestamp E eid uuid now t = Inr t' \<Longrightarrow> well_typed E t'"
    "length p = 45 \<Longrightarrow> q_update_step_after_not_until E p at now t = Inr t' \<Longrightarrow> well_typed E t'"
    "length p = 45 \<Longrightarrow> q_update_step_after_timeout E p at now t = Inr t' \<Longrightarrow> well_typed E t'"
    "q_update_last_push_by_process_id p now t = Inr t' \<Longrightarrow> well_typed E t'"
  using assms
  by (auto simp: q_update_id_command_timestamp_def q_update_step_after_not_until_def q_update_step_after_timeout_def
      q_update_last_push_by_process_id_def well_typed_def step_typed_def
      id_command_typed_def intro!: list_all_sql id_command_touch split: if_splits)

lemma typed_statuses:
  assumes t: "well_typed E t" and run: "insert_statuses E ids name secs now t = Inr t'"
  shows "well_typed E t'"
proof -
  have "list_all (status_typed E) (fold (upsert_status E name secs) ids rows)"
    if "list_all (\<lambda>eid. accepts E 255 eid \<and> accepts E 255 name) ids" "list_all (status_typed E) rows" for rows
    using that
  proof (induction ids arbitrary: rows)
    case (Cons i ids)
    from Cons.prems have "list_all (status_typed E) (upsert_status E name secs i rows)"
      by (auto simp: upsert_status_def Let_def status_typed_def list_all_iff set_sql_update)
    with Cons.prems show ?case using Cons.IH by (simp add: list_all_iff)
  qed simp
  then show ?thesis using t run by (auto simp: insert_statuses_def well_typed_def split: if_splits)
qed

lemma typed_event:
  "well_typed E t \<Longrightarrow> upsert_event E new now t = Inr t' \<Longrightarrow> well_typed E t'"
  by (auto simp: upsert_event_def Let_def well_typed_def event_typed_def list_all_iff set_sql_update split: if_splits)

lemmas typed_statements =
  typed_create_id_command typed_create_step_command typed_update_id_command typed_deletes typed_updates typed_repush
  typed_statuses typed_event

lemma typed_calls [keeps_intros]:
  "keeps E (my_exec E (q_create_id_command E eid uuid i rt lp))"
  "keeps E (my_exec E (q_create_step_command E i uuid rt raw))"
  "keeps E (my_exec E (q_update_id_command E b report eid uuid))"
  "keeps E (my_exec E (insert_statuses E ids name secs))"
  "keeps E (my_exec E (upsert_event E new))"
  "keeps E (my_exec E (q_delete_id_command_by_workflow E eid w))"
  "keeps E (my_exec E (q_delete_id_commands E eid))"
  "keeps E (my_exec E (q_delete_unused_step_commands E))"
  "keeps E (my_exec E q_delete_workflow_step_having_no_commands)"
  "keeps E (my_exec E (q_delete_workflow_step_having_no_commands_by_workflow_name E w))"
  "keeps E (my_exec E (q_delete_workflow_step_having_no_commands_by_step_id i))"
  "keeps E (my_exec E (q_remove_id_commands_by_step_id E eid i))"
  "keeps E (my_exec E (q_remove_step_commands_by_process_id p))"
  "keeps E (my_exec E (q_remove_id_commands_by_process_id p))"
  "keeps E (my_exec E (q_remove_steps_by_process_id p))"
  "keeps E (my_exec E (q_clear_workflow_status E eid))"
  "keeps E (my_exec E (q_remove_event E name))"
  "keeps E (my_exec E (q_update_id_command_timestamp E eid uuid))"
  "keeps E (my_exec E (q_update_last_push_by_process_id p))"
  "keeps E (my_exec E (q_update_repush_ids E lp before))"
  by (rule keeps_exec, (erule (2) typed_statements | erule (1) typed_statements))+

lemma typed_marks:
  assumes "length p = 45"
  shows "keeps E (my_exec E (q_update_step_after_not_until E p at))"
    "keeps E (my_exec E (q_update_step_after_timeout E p at))"
  using assms by (auto intro!: keeps_exec intro: typed_updates(2,3))

section \<open>The operations\<close>

lemma typed_release:
  assumes r: "\<forall>k. length (rand_read E k) = 20"
  shows "keeps E (my_retrieve_steps_to_enqueue E at)"
    "keeps E (my_retrieve_timed_out_steps E)"
  unfolding my_retrieve_steps_to_enqueue_def my_retrieve_timed_out_steps_def
  by (intro keeps_rand [OF r] typed_marks keeps_intros | simp)+

lemma typed_run:
  assumes r: "\<forall>k. length (rand_read E k) = 20"
  shows "keeps E (my_run E opn)"
  by (cases opn)
    (auto simp: silently_def my_store_command_response_def my_count_outstanding_def my_act_on_count_def
      my_complete_step_def my_store_step_def my_store_step_command_def my_store_id_command_def
      my_cancel_steps_def my_record_workflow_started_def my_clear_workflow_status_def
      my_retrieve_and_mark_re_pushed_def my_store_event_subscription_def my_delete_event_subscription_def
      intro!: keeps_intros typed_release [OF r])

text \<open>
  Databases that operations reach, whatever calls fail, while the clocks move and the server's clock shows
  instants that a \<open>TIMESTAMP\<close> column keeps (\<open>CURRENT_TIMESTAMP\<close> is a value of that type).
\<close>

inductive clocked_db :: "mysql_env \<Rightarrow> mysql \<Rightarrow> bool" for E where
  created: "stamped E (Some now) \<Longrightarrow> clocked_db E (database empty_tables 1 now)"
| operation: "clocked_db E s \<Longrightarrow> clocked_db E (snd (my_run E opn s))"
| clocks: "clocked_db E s \<Longrightarrow> stamped E (Some a) \<Longrightarrow> clocked_db E (s\<lparr>server_clock := a, go_clock := b\<rparr>)"

lemma clocked_typed:
  assumes "clocked_db E s" "\<forall>k. length (rand_read E k) = 20"
  shows "typed_db E s"
  using assms(1)
proof (induction rule: clocked_db.induct)
  case (created now)
  then show ?case by (simp add: typed_db_def empty_tables_def well_typed_def)
next
  case (operation s opn)
  then show ?case using typed_run [OF assms(2), of opn] by (simp add: keeps_def)
qed (simp add: typed_db_def)

text \<open>
  C9: In every database that operations reach from the empty one, whatever calls fail, every text is one
  that its column takes, the process IDs of released and timed-out steps have the 45 characters of their
  column, and every stored instant (the delay and the time-out of a step, the last push and the last change
  of a command) is one that a \<open>TIMESTAMP\<close> column keeps, whatever instants the program passes. The random
  source is taken to fill its 20 bytes, and the server's clock to show instants that such a column keeps.
\<close>

theorem mysql_well_typed:
  assumes "clocked_db E s" "\<forall>k. length (rand_read E k) = 20"
  shows "well_typed E (db_tables s)"
  using clocked_typed [OF assms] by (simp add: typed_db_def)

text \<open>A program clock that shows a fraction of a second: the push is kept as the next whole second.\<close>

theorem mysql_well_typed_witness:
  "\<exists>s :: mysql. list_all (\<lambda>c. length (ic_enrollment_id c) \<le> 255 \<and>
       (\<exists>n. ic_last_push c = Some (n * 1000000000))) (t_id_commands (db_tables s)) \<and>
     map ic_enrollment_id (t_id_commands (db_tables s)) = [''AAA'', ''BBB'']"
proof -
  let ?b = "database empty_tables 1 7000000000" and ?now = "7600000000"
  let ?s = "snd (my_run plain_server (MyStoreStep (Some one_step) ?now) ?b)"
  have second: "stamped plain_server (Some 7000000000)"
    unfolding stamped_def by (simp add: image_iff) (rule exI [of _ 7000000000], simp)
  have storable: "my_storable plain_server one_step ?now empty_tables"
    using one_step_valid
    by (simp add: my_storable_def one_step_def accepts_null_def mediumtext_def timestamp_null_def sql_null_string_def
        sql_null_time_def commands_ok_def command_ok_def id_row_ok_def push_arg_def new_keys_def empty_tables_def)
  have "clocked_db plain_server ?s" by (intro clocked_db.operation clocked_db.created second)
  from mysql_well_typed [OF this] have "list_all (id_command_typed plain_server) (t_id_commands (db_tables ?s))"
    by (simp add: well_typed_def)
  moreover have "wp (my_store_step plain_server (Some one_step) ?now)
      (\<lambda>_ s. map ic_enrollment_id (t_id_commands (db_tables s)) = [''AAA'', ''BBB''] \<and>
         list_all (\<lambda>c. ic_last_push c \<noteq> None) (t_id_commands (db_tables s))) ?b"
    by (rule wp_my_store_step)
      (simp_all add: empty_intact storable with_step_def add_commands_def new_id_rows_def new_id_row_def,
        simp_all add: empty_tables_def push_arg_def timestamp_null_def)
  then have "map ic_enrollment_id (t_id_commands (db_tables ?s)) = [''AAA'', ''BBB''] \<and>
      list_all (\<lambda>c. ic_last_push c \<noteq> None) (t_id_commands (db_tables ?s))"
    by (auto simp: wp_def split: prod.splits)
  ultimately show ?thesis
    by (intro exI [of _ ?s]) (auto simp: list_all_iff id_command_typed_def stamped_def dest: bspec)
qed

end
