(* ===== verification/ProfileStores.thy ===== *)
theory ProfileStores
  imports SubStores MySQLEngine
begin

text \<open>
  The profile store as the HTTP API uses it, with storing and deleting beside the queries; its MySQL backend
  (\<open>subsystem/profile/storage/mysql\<close>) on a table of its own; and the contract that the key-value and the
  MySQL backend both keep.
\<close>

section \<open>The interface\<close>

record 'w full_profile_storage = "'w profile_storage" +
  ps_store :: "string \<Rightarrow> profile_info \<Rightarrow> bytes \<Rightarrow> ('w, unit) action"
  ps_delete :: "string \<Rightarrow> ('w, unit) action"

definition kv_full_profile_storage ::
  "'b kv_env \<Rightarrow> ('w \<Rightarrow> 'b) \<Rightarrow> ('b \<Rightarrow> 'w \<Rightarrow> 'w) \<Rightarrow> 'w full_profile_storage" where
  "kv_full_profile_storage E get put =
     \<lparr>ps_retrieve_infos = (\<lambda>ns. go_zoom get put (retrieve_profile_infos E ns)),
      ps_retrieve_raw = (\<lambda>ns. go_zoom get put (retrieve_raw_profiles E ns)),
      ps_store = (\<lambda>n info raw. go_zoom get put (store_profile E n info raw)),
      ps_delete = (\<lambda>n. go_zoom get put (delete_profile E n))\<rparr>"

section \<open>The MySQL backend\<close>

text \<open>
  A row of \<open>subsystem_profiles\<close>, whose primary key is the name, and the database with the count of calls that
  \<open>db_fault\<close> is asked about, as in \<open>mysql\<close>.
\<close>

record profile_row =
  pr_name :: string
  pr_identifier :: string
  pr_uuid :: string
  pr_raw :: bytes

record profile_db =
  pdb_rows :: "profile_row list"
  pdb_calls :: nat

definition pdb_call :: "mysql_env \<Rightarrow> (profile_db, 'a) action \<Rightarrow> (profile_db, 'a) action" where
  "pdb_call E m =
     (\<lambda>d. let d' = d\<lparr>pdb_calls := Suc (pdb_calls d)\<rparr> in
        case db_fault E (pdb_calls d) of
          Works \<Rightarrow> m d'
        | Fails \<Rightarrow> (Inl err_db, d')
        | ReplyLost \<Rightarrow> (Inl err_db, snd (m d')))"

definition pdb_query :: "mysql_env \<Rightarrow> (profile_row list \<Rightarrow> 'a) \<Rightarrow> (profile_db, 'a) action" where
  "pdb_query E q = pdb_call E (go_read (\<lambda>d. q (pdb_rows d)))"

definition pdb_exec ::
  "mysql_env \<Rightarrow> (profile_row list \<Rightarrow> profile_row list result) \<Rightarrow> (profile_db, unit) action" where
  "pdb_exec E f =
     pdb_call E (\<lambda>d. case f (pdb_rows d) of
                       Inl e \<Rightarrow> (Inl e, d)
                     | Inr rows \<Rightarrow> (Inr (), d\<lparr>pdb_rows := rows\<rparr>))"

definition q_get_all_profile_infos :: "profile_row list \<Rightarrow> (string \<times> string \<times> string) list" where
  "q_get_all_profile_infos rows = [(pr_name r, pr_identifier r, pr_uuid r). r \<leftarrow> rows]"

definition q_get_profile_infos ::
  "mysql_env \<Rightarrow> string list \<Rightarrow> profile_row list \<Rightarrow> (string \<times> string \<times> string) list" where
  "q_get_profile_infos E names rows =
     [(pr_name r, pr_identifier r, pr_uuid r). r \<leftarrow> rows, sql_in E (pr_name r) names]"

definition q_get_raw_profiles :: "mysql_env \<Rightarrow> string list \<Rightarrow> profile_row list \<Rightarrow> (string \<times> bytes) list" where
  "q_get_raw_profiles E names rows = [(pr_name r, pr_raw r). r \<leftarrow> rows, sql_in E (pr_name r) names]"

definition q_delete_profile :: "mysql_env \<Rightarrow> string \<Rightarrow> profile_row list \<Rightarrow> profile_row list result" where
  "q_delete_profile E name rows = Inr (sql_delete (\<lambda>r. sql_eq E (pr_name r) name) rows)"

definition upsert_profile :: "mysql_env \<Rightarrow> profile_row \<Rightarrow> profile_row list \<Rightarrow> profile_row list result" where
  "upsert_profile E new rows =
     (if \<not> (accepts E 255 (pr_name new) \<and> accepts E 255 (pr_identifier new) \<and> accepts E 255 (pr_uuid new) \<and>
            accepts E mediumtext (pr_raw new))
      then Inl err_too_long
      else
        let same = (\<lambda>r. sql_eq E (pr_name r) (pr_name new)) in
        Inr (if list_ex same rows then sql_update same (\<lambda>r. new\<lparr>pr_name := pr_name r\<rparr>) rows
             else rows @ [new]))"

text \<open>The loop that looks for a name without a row.\<close>

definition check_names :: "string list \<Rightarrow> (string \<rightharpoonup> 'a) \<Rightarrow> (string \<rightharpoonup> 'a) result" where
  "check_names names m =
     (case find (\<lambda>n. m n = None) names of
        Some n \<Rightarrow> Inl (Wrapf ''%w: %s: missing from result set'' [n] ErrProfileNotFound)
      | None \<Rightarrow> Inr m)"

definition infos_of_rows :: "(string \<times> string \<times> string) list \<Rightarrow> (string \<rightharpoonup> profile_info)" where
  "infos_of_rows rows =
     fold (\<lambda>(n, i, u) m. m(n \<mapsto> \<lparr>pi_identifier = i, pi_uuid = u\<rparr>)) rows Map.empty"

definition my_retrieve_raw_profiles ::
  "mysql_env \<Rightarrow> string list \<Rightarrow> (profile_db, string \<rightharpoonup> bytes) action" where
  "my_retrieve_raw_profiles E names =
     (if length names < 1 then go_fail ErrNoNames
      else
        go_bind (pdb_query E (q_get_raw_profiles E names)) (\<lambda>rows.
        go_lift (check_names names (fold (\<lambda>(n, raw) m. m(n \<mapsto> raw)) rows Map.empty))))"

definition my_retrieve_profile_infos ::
  "mysql_env \<Rightarrow> string list \<Rightarrow> (profile_db, string \<rightharpoonup> profile_info) action" where
  "my_retrieve_profile_infos E names =
     (if length names > 0 then
        go_bind (pdb_query E (q_get_profile_infos E names)) (\<lambda>rows.
        go_lift (check_names names (infos_of_rows rows)))
      else
        go_bind (pdb_query E q_get_all_profile_infos) (\<lambda>rows.
        go_ret (infos_of_rows rows)))"

definition my_store_profile ::
  "mysql_env \<Rightarrow> string \<Rightarrow> profile_info \<Rightarrow> bytes \<Rightarrow> (profile_db, unit) action" where
  "my_store_profile E name info raw =
     pdb_exec E (upsert_profile E
       \<lparr>pr_name = name, pr_identifier = pi_identifier info, pr_uuid = pi_uuid info, pr_raw = raw\<rparr>)"

definition my_delete_profile :: "mysql_env \<Rightarrow> string \<Rightarrow> (profile_db, unit) action" where
  "my_delete_profile E name = pdb_exec E (q_delete_profile E name)"

definition mysql_profile_storage ::
  "mysql_env \<Rightarrow> ('w \<Rightarrow> profile_db) \<Rightarrow> (profile_db \<Rightarrow> 'w \<Rightarrow> 'w) \<Rightarrow> 'w full_profile_storage" where
  "mysql_profile_storage E get put =
     \<lparr>ps_retrieve_infos = (\<lambda>ns. go_zoom get put (my_retrieve_profile_infos E ns)),
      ps_retrieve_raw = (\<lambda>ns. go_zoom get put (my_retrieve_raw_profiles E ns)),
      ps_store = (\<lambda>n info raw. go_zoom get put (my_store_profile E n info raw)),
      ps_delete = (\<lambda>n. go_zoom get put (my_delete_profile E n))\<rparr>"

section \<open>The contract\<close>

text \<open>
  What the interface promises of the profiles by name: \<open>profs\<close> reads them off the world, \<open>fits\<close> says which
  profiles the backend takes, and a query leaves a world that is the same as before.
\<close>

definition found_all :: "(string \<rightharpoonup> 'a) \<Rightarrow> string list \<Rightarrow> (string \<rightharpoonup> 'a) result \<Rightarrow> bool" where
  "found_all M names r \<longleftrightarrow>
     (if \<forall>n\<in>set names. M n \<noteq> None then r = Inr (M |` set names)
      else \<exists>e. r = Inl e \<and> errors_is e ErrProfileNotFound)"

locale profile_contract =
  fixes PS :: "'w full_profile_storage" and profs :: "'w \<Rightarrow> string \<rightharpoonup> profile_info \<times> bytes"
    and pok :: "'w \<Rightarrow> bool" and fits :: "string \<Rightarrow> profile_info \<Rightarrow> bytes \<Rightarrow> bool" and psame :: "'w \<Rightarrow> 'w \<Rightarrow> bool"
  assumes psame_law: "psame w w' \<Longrightarrow> pok w \<Longrightarrow> pok w' \<and> profs w' = profs w"
    and no_names_law: "pok w \<Longrightarrow> \<exists>w'. ps_retrieve_raw PS [] w = (Inl ErrNoNames, w') \<and> psame w w'"
    and raw_law:
      "pok w \<Longrightarrow> names \<noteq> [] \<Longrightarrow>
         \<exists>r w'. ps_retrieve_raw PS names w = (r, w') \<and> psame w w' \<and> found_all (map_option snd \<circ> profs w) names r"
    and infos_law:
      "pok w \<Longrightarrow> names \<noteq> [] \<Longrightarrow>
         \<exists>r w'. ps_retrieve_infos PS names w = (r, w') \<and> psame w w' \<and> found_all (map_option fst \<circ> profs w) names r"
    and all_infos_law:
      "pok w \<Longrightarrow> \<exists>w'. ps_retrieve_infos PS [] w = (Inr (map_option fst \<circ> profs w), w') \<and> psame w w'"
    and store_law:
      "pok w \<Longrightarrow> fits name info raw \<Longrightarrow>
         \<exists>w'. ps_store PS name info raw w = (Inr (), w') \<and> pok w' \<and> profs w' = (profs w)(name \<mapsto> (info, raw))"
    and delete_law:
      "pok w \<Longrightarrow> profs w name \<noteq> None \<Longrightarrow>
         \<exists>w'. ps_delete PS name w = (Inr (), w') \<and> pok w' \<and> profs w' = (profs w)(name := None)"
begin

lemma raw_of_name:
  assumes "pok w"
  shows "\<exists>w'. psame w w' \<and>
     (case profs w name of
        None \<Rightarrow> \<exists>e. ps_retrieve_raw PS [name] w = (Inl e, w') \<and> errors_is e ErrProfileNotFound
      | Some (info, raw) \<Rightarrow> ps_retrieve_raw PS [name] w = (Inr [name \<mapsto> raw], w'))"
proof -
  obtain r w' where r: "ps_retrieve_raw PS [name] w = (r, w')" "psame w w'"
    "found_all (map_option snd \<circ> profs w) [name] r" using raw_law [OF assms, of "[name]"] by blast
  have one: "f |` {name} = [name \<mapsto> v]" if "f name = Some v" for f :: "string \<rightharpoonup> 'x" and v
    using that by (auto simp: restrict_map_def)
  show ?thesis
    using r by (intro exI [of _ w']) (auto simp: found_all_def one split: option.split)
qed

end

section \<open>The key-value backend keeps it\<close>

locale kv_profiles = kv_laws E view for E :: "'b kv_env" and view :: "'b \<Rightarrow> string \<rightharpoonup> bytes" +
  fixes get :: "'w \<Rightarrow> 'b" and put :: "'b \<Rightarrow> 'w \<Rightarrow> 'w"
  assumes get_put [simp]: "get (put s w) = s"
    and put_get [simp]: "put (get w) w = w"
begin

definition kv_profs :: "'w \<Rightarrow> string \<rightharpoonup> profile_info \<times> bytes" where
  "kv_profs w name =
     (case view (get w) (key_pfx_raw @ name) of
        None \<Rightarrow> None
      | Some raw \<Rightarrow> Some (\<lparr>pi_identifier = the (view (get w) (key_pfx_id @ name)),
                            pi_uuid = the (view (get w) (key_pfx_uuid @ name))\<rparr>, raw))"

lemma kv_profs_rep: "prof_rep (get w) P \<Longrightarrow> kv_profs w = P"
  by (auto simp: kv_profs_def fun_eq_iff prof_repD split: option.split)

lemma found_lookup: "names \<noteq> [] \<Longrightarrow> found_all M names (lookup_all M names)"
  by (auto simp: found_all_def lookup_all_def find_None_iff find_Some_iff split: option.split)

end

sublocale kv_profiles < kvps: profile_contract "kv_full_profile_storage E get put" kv_profs
  "\<lambda>w. prof_rep (get w) (kv_profs w)" "\<lambda>_ _ _. True" "(=)"
proof (unfold_locales, goal_cases)
  case (1 w w')
  then show ?case by simp
next
  case (2 w)
  then show ?case by (simp add: kv_full_profile_storage_def go_zoom_def retrieve_raw_profiles_def go_fail_def)
next
  case (3 w names)
  then show ?case
    using retrieve_raw_refines [OF 3(1), of names] found_lookup [OF 3(2)]
    by (auto simp: kv_full_profile_storage_def go_zoom_def wp_def split: prod.splits)
next
  case (4 w names)
  then show ?case
    using retrieve_infos_refines [OF 4(1,2)] found_lookup [OF 4(2)]
    by (auto simp: kv_full_profile_storage_def go_zoom_def wp_def split: prod.splits)
next
  case (5 w)
  show ?case
    using retrieve_all_infos_refines [OF 5]
    by (auto simp: kv_full_profile_storage_def go_zoom_def wp_def split: prod.splits)
next
  case (6 w name info raw)
  obtain b' where b': "store_profile E name info raw (get w) = (Inr (), b')" "prof_rep b' ((kv_profs w)(name \<mapsto> (info, raw)))"
    using store_profile_refines [OF 6(1), of name info raw] by (auto simp: wp_ex)
  with kv_profs_rep [of "put b' w"] show ?case by (auto simp: kv_full_profile_storage_def go_zoom_def)
next
  case (7 w name)
  obtain b' where b': "delete_profile E name (get w) = (Inr (), b')" "prof_rep b' ((kv_profs w)(name := None))"
    using delete_profile_refines [OF 7] by (auto simp: wp_ex)
  with kv_profs_rep [of "put b' w"] show ?case by (auto simp: kv_full_profile_storage_def go_zoom_def)
qed

interpretation mem_profiles: kv_profiles inmem_env map_of "\<lambda>b. b" "\<lambda>b _. b"
  by unfold_locales simp_all

section \<open>The MySQL backend keeps it\<close>

definition row_profile :: "profile_row \<Rightarrow> profile_info \<times> bytes" where
  "row_profile r = (\<lparr>pi_identifier = pr_identifier r, pi_uuid = pr_uuid r\<rparr>, pr_raw r)"

definition rows_profs :: "profile_row list \<Rightarrow> string \<rightharpoonup> profile_info \<times> bytes" where
  "rows_profs rows = map_of (map (\<lambda>r. (pr_name r, row_profile r)) rows)"

lemma rows_profs_iff:
  assumes "distinct (map pr_name rows)"
  shows "rows_profs rows n = Some p \<longleftrightarrow> (\<exists>r\<in>set rows. pr_name r = n \<and> row_profile r = p)"
proof -
  have "distinct (map fst (map (\<lambda>r. (pr_name r, row_profile r)) rows))" using assms by (simp add: comp_def)
  from map_of_eq_Some_iff [OF this] show ?thesis by (auto simp: rows_profs_def)
qed

text \<open>Folding the rows of a query into a Go map, when names are unique, is the restriction to the names asked for.\<close>

lemma fold_rows:
  assumes "distinct (map pr_name rows)"
  shows "fold (\<lambda>(n, x) m. m(n \<mapsto> f x)) (map (\<lambda>r. (pr_name r, g r)) (filter Q rows)) M0 =
     M0 ++ map_of (map (\<lambda>r. (pr_name r, f (g r))) (filter Q rows))"
  using assms
proof (induction rows arbitrary: M0)
  case (Cons r rows)
  have "map_of (map (\<lambda>r. (pr_name r, f (g r))) (filter Q rows)) (pr_name r) = None"
    using Cons.prems by (force simp: map_of_eq_None_iff)
  with Cons show ?case by (auto simp: map_add_def fun_eq_iff split: option.split)
qed simp

lemma map_of_rows:
  assumes "distinct (map pr_name rows)"
  shows "map_of (map (\<lambda>r. (pr_name r, h (row_profile r))) (filter (\<lambda>r. pr_name r \<in> N) rows)) =
     (map_option h \<circ> rows_profs rows) |` N"
  using assms
  by (induction rows) (auto simp: fun_eq_iff restrict_map_def rows_profs_def)

lemma sql_in_set: "inj (collation E) \<Longrightarrow> sql_in E x names \<longleftrightarrow> x \<in> set names"
  by (auto simp: sql_in_iff sql_eq_def inj_eq)

lemma concat_if: "concat (map (\<lambda>r. if P r then [f r] else []) rows) = map f (filter P rows)"
  by (induction rows) auto

lemma raw_rows:
  assumes "inj (collation E)" "distinct (map pr_name rows)"
  shows "fold (\<lambda>(n, raw) m. m(n \<mapsto> raw)) (q_get_raw_profiles E names rows) Map.empty =
     (map_option snd \<circ> rows_profs rows) |` set names"
  using fold_rows [OF assms(2), of "\<lambda>x. x" pr_raw] map_of_rows [OF assms(2), of snd]
  by (simp add: q_get_raw_profiles_def sql_in_set [OF assms(1)] concat_if row_profile_def)

lemma infos_fold:
  "infos_of_rows rows = fold (\<lambda>(n, x) m. m(n \<mapsto> (\<lambda>(i, u). \<lparr>pi_identifier = i, pi_uuid = u\<rparr>) x)) rows Map.empty"
proof -
  have loop: "(\<lambda>(n, i, u) m. m(n \<mapsto> \<lparr>pi_identifier = i, pi_uuid = u\<rparr>)) =
      (\<lambda>(n, x) m. m(n \<mapsto> (\<lambda>(i, u). \<lparr>pi_identifier = i, pi_uuid = u\<rparr>) x))" by (auto simp: fun_eq_iff)
  show ?thesis unfolding infos_of_rows_def loop ..
qed

lemma infos_rows:
  assumes "inj (collation E)" "distinct (map pr_name rows)"
  shows "infos_of_rows (q_get_profile_infos E names rows) = (map_option fst \<circ> rows_profs rows) |` set names"
  using fold_rows [OF assms(2), of "\<lambda>(i, u). \<lparr>pi_identifier = i, pi_uuid = u\<rparr>" "\<lambda>r. (pr_identifier r, pr_uuid r)"]
    map_of_rows [OF assms(2), of fst]
  by (simp add: infos_fold q_get_profile_infos_def sql_in_set [OF assms(1)] concat_if row_profile_def)

lemma all_infos_rows:
  assumes "distinct (map pr_name rows)"
  shows "infos_of_rows (q_get_all_profile_infos rows) = map_option fst \<circ> rows_profs rows"
  using fold_rows [OF assms, of "\<lambda>(i, u). \<lparr>pi_identifier = i, pi_uuid = u\<rparr>" "\<lambda>r. (pr_identifier r, pr_uuid r)" "\<lambda>_. True"]
    map_of_rows [OF assms, of fst UNIV]
  by (simp add: infos_fold q_get_all_profile_infos_def row_profile_def comp_def restrict_map_def)

lemma found_check: "found_all M names (check_names names (M |` set names))"
proof (cases "find (\<lambda>n. (M |` set names) n = None) names")
  case None
  then have "\<forall>n\<in>set names. M n \<noteq> None" by (auto simp: find_None_iff)
  with None show ?thesis by (simp add: found_all_def check_names_def)
next
  case (Some n)
  then have "n \<in> set names" "M n = None" by (auto simp: find_Some_iff)
  with Some show ?thesis by (auto simp: found_all_def check_names_def)
qed

definition profile_fits :: "mysql_env \<Rightarrow> string \<Rightarrow> profile_info \<Rightarrow> bytes \<Rightarrow> bool" where
  "profile_fits E name info raw \<longleftrightarrow>
     accepts E 255 name \<and> accepts E 255 (pi_identifier info) \<and> accepts E 255 (pi_uuid info) \<and> accepts E mediumtext raw"

lemma upsert_profile_rows:
  assumes one: "inj (collation E)" and rows: "distinct (map pr_name rows)" and fits: "profile_fits E name info raw"
  defines "new \<equiv> \<lparr>pr_name = name, pr_identifier = pi_identifier info, pr_uuid = pi_uuid info, pr_raw = raw\<rparr>"
  shows "\<exists>rows'. upsert_profile E new rows = Inr rows' \<and> distinct (map pr_name rows') \<and>
     rows_profs rows' = (rows_profs rows)(name \<mapsto> (info, raw))"
proof -
  have new: "row_profile new = (info, raw)" "pr_name new = name" by (simp_all add: new_def row_profile_def)
  have keep: "map pr_name (sql_update P (\<lambda>r. new\<lparr>pr_name := pr_name r\<rparr>) rs) = map pr_name rs" for P rs
    by (simp add: sql_update_def comp_def)
  have upd: "rows_profs (sql_update (\<lambda>r. pr_name r = name) (\<lambda>r. new\<lparr>pr_name := pr_name r\<rparr>) rs) =
      (if name \<in> pr_name ` set rs then (rows_profs rs)(name \<mapsto> (info, raw)) else rows_profs rs)" for rs
  proof (induction rs)
    case (Cons r rs)
    have "row_profile (new\<lparr>pr_name := pr_name r\<rparr>) = (info, raw)" by (simp add: new_def row_profile_def)
    with Cons show ?case by (auto simp: sql_update_def rows_profs_def fun_eq_iff)
  qed (simp add: sql_update_def)
  have app: "rows_profs (rows @ [new]) = (rows_profs rows)(name \<mapsto> (info, raw))" if "name \<notin> pr_name ` set rows"
  proof -
    have "rows_profs rows name = None" using that by (force simp: rows_profs_def map_of_eq_None_iff)
    then show ?thesis by (auto simp: rows_profs_def new fun_eq_iff map_add_def split: option.split)
  qed
  show ?thesis
    using fits rows keep upd [of rows] app
    by (auto simp: upsert_profile_def profile_fits_def Let_def list_ex_iff sql_eq_def inj_eq [OF one] new(2))
      (auto simp: new_def)
qed

locale mysql_profiles =
  fixes E :: mysql_env and get :: "'w \<Rightarrow> profile_db" and put :: "profile_db \<Rightarrow> 'w \<Rightarrow> 'w"
  assumes answers: "works E" and tells_names_apart: "inj (collation E)"
    and get_put [simp]: "get (put s w) = s"
begin

definition my_profs :: "'w \<Rightarrow> string \<rightharpoonup> profile_info \<times> bytes" where
  "my_profs w = rows_profs (pdb_rows (get w))"

definition my_psame :: "'w \<Rightarrow> 'w \<Rightarrow> bool" where
  "my_psame w w' \<longleftrightarrow> pdb_rows (get w') = pdb_rows (get w)"

lemma pdb_call_works: "pdb_call E m d = m (d\<lparr>pdb_calls := Suc (pdb_calls d)\<rparr>)"
  using answers by (simp add: pdb_call_def works_def Let_def)

lemma wp_pdb_query: "wp (pdb_query E q) Q d = Q (Inr (q (pdb_rows d))) (d\<lparr>pdb_calls := Suc (pdb_calls d)\<rparr>)"
  by (simp add: wp_def pdb_query_def pdb_call_works go_read_def)

lemma wp_pdb_exec:
  "wp (pdb_exec E f) Q d =
     (case f (pdb_rows d) of
        Inl e \<Rightarrow> Q (Inl e) (d\<lparr>pdb_calls := Suc (pdb_calls d)\<rparr>)
      | Inr rows \<Rightarrow> Q (Inr ()) (d\<lparr>pdb_calls := Suc (pdb_calls d), pdb_rows := rows\<rparr>))"
  by (simp add: wp_def pdb_exec_def pdb_call_works split: sum.split)

end

sublocale mysql_profiles < myps: profile_contract "mysql_profile_storage E get put" my_profs
  "\<lambda>w. distinct (map pr_name (pdb_rows (get w)))" "profile_fits E" my_psame
proof (unfold_locales, goal_cases)
  case (1 w w')
  then show ?case by (simp add: my_psame_def my_profs_def)
next
  case (2 w)
  then show ?case by (simp add: mysql_profile_storage_def go_zoom_def my_retrieve_raw_profiles_def go_fail_def my_psame_def)
next
  case (3 w names)
  have "wp (my_retrieve_raw_profiles E names)
      (\<lambda>r d. found_all (map_option snd \<circ> my_profs w) names r \<and> pdb_rows d = pdb_rows (get w)) (get w)"
    using found_check [of "map_option snd \<circ> my_profs w" names] 3(2)
    by (simp add: my_retrieve_raw_profiles_def wp_pdb_query raw_rows [OF tells_names_apart 3(1)] my_profs_def Suc_le_eq)
  then show ?case by (auto simp: mysql_profile_storage_def go_zoom_def my_psame_def wp_def split: prod.splits)
next
  case (4 w names)
  have "wp (my_retrieve_profile_infos E names)
      (\<lambda>r d. found_all (map_option fst \<circ> my_profs w) names r \<and> pdb_rows d = pdb_rows (get w)) (get w)"
    using found_check [of "map_option fst \<circ> my_profs w" names] 4(2)
    by (simp add: my_retrieve_profile_infos_def wp_pdb_query infos_rows [OF tells_names_apart 4(1)] my_profs_def)
  then show ?case by (auto simp: mysql_profile_storage_def go_zoom_def my_psame_def wp_def split: prod.splits)
next
  case (5 w)
  have "wp (my_retrieve_profile_infos E [])
      (\<lambda>r d. r = Inr (map_option fst \<circ> my_profs w) \<and> pdb_rows d = pdb_rows (get w)) (get w)"
    by (simp add: my_retrieve_profile_infos_def wp_pdb_query all_infos_rows [OF 5] my_profs_def)
  then show ?case by (auto simp: mysql_profile_storage_def go_zoom_def my_psame_def wp_def split: prod.splits)
next
  case (6 w name info raw)
  let ?new = "\<lparr>pr_name = name, pr_identifier = pi_identifier info, pr_uuid = pi_uuid info, pr_raw = raw\<rparr>"
  obtain rows' where rows': "upsert_profile E ?new (pdb_rows (get w)) = Inr rows'" "distinct (map pr_name rows')"
    "rows_profs rows' = (rows_profs (pdb_rows (get w)))(name \<mapsto> (info, raw))"
    using upsert_profile_rows [OF tells_names_apart 6] by blast
  have "wp (my_store_profile E name info raw) (\<lambda>r d. r = Inr () \<and> pdb_rows d = rows') (get w)"
    by (simp add: my_store_profile_def wp_pdb_exec rows'(1))
  with rows'(2,3) show ?case
    by (auto simp: mysql_profile_storage_def go_zoom_def my_profs_def wp_def split: prod.splits)
next
  case (7 w name)
  let ?rows = "sql_delete (\<lambda>r. pr_name r = name) (pdb_rows (get w))"
  have "wp (my_delete_profile E name) (\<lambda>r d. r = Inr () \<and> pdb_rows d = ?rows) (get w)"
    by (simp add: my_delete_profile_def wp_pdb_exec q_delete_profile_def sql_eq_def inj_eq [OF tells_names_apart])
  moreover have "distinct (map pr_name ?rows)" using 7(1) by (simp add: distinct_sql_delete)
  moreover have "rows_profs (sql_delete (\<lambda>r. pr_name r = name) rs) = (rows_profs rs)(name := None)" for rs
    by (induction rs) (auto simp: sql_delete_def rows_profs_def fun_eq_iff)
  ultimately show ?case
    by (auto simp: mysql_profile_storage_def go_zoom_def my_profs_def wp_def split: prod.splits)
qed

interpretation plain_profiles: mysql_profiles plain_server "\<lambda>d. d" "\<lambda>d _. d"
  by unfold_locales simp_all

end
