(* ===== verification/Http.thy ===== *)
theory Http
  imports ProfileStores KVEvent WfFileVault
begin

text \<open>
  The HTTP handlers of the API (\<open>engine/http\<close>, \<open>subsystem/*/http\<close>, \<open>http\<close>) and the parser of uploaded
  profiles (\<open>utils/mobileconfig\<close>). A handler maps a request to a response and acts on the world that holds
  the stores. \<open>encoding/json\<close>, the plist decoder and PKCS 7 are parameters.
\<close>

section \<open>Requests and responses\<close>

text \<open>A body is the bytes that arrive and the error, if any, that ends them early (\<open>io.ReadAll\<close>).\<close>

type_synonym body = "bytes \<times> error option"

text \<open>The part of a request that the handlers read: the path parameter \<open>name\<close>, the query and the body.\<close>

record request =
  hr_name :: string
  hr_query :: "string \<Rightarrow> string list"
  hr_body :: body

record response =
  rs_status :: int
  rs_type :: "string option"
  rs_body :: bytes

type_synonym 'w handler = "request \<Rightarrow> ('w, response) action"

text \<open>\<open>url.Values.Get\<close>.\<close>

definition query_get :: "request \<Rightarrow> string \<Rightarrow> string" where
  "query_get rq k = (case hr_query rq k of [] \<Rightarrow> [] | v # _ \<Rightarrow> v)"

record http_codec =
  hc_error :: "error \<Rightarrow> bytes"
  hc_instance :: "string \<Rightarrow> bytes result"
  hc_infos :: "(string \<rightharpoonup> profile_info) \<Rightarrow> bytes result"
  hc_event :: "event_subscription option \<Rightarrow> bytes result"
  hc_event_decode :: "body \<Rightarrow> event_subscription result"
  hc_values :: "(string \<rightharpoonup> inv_values) \<Rightarrow> bytes result"
  hc_plan :: "cmd_plan \<Rightarrow> bytes result"
  hc_plan_decode :: "body \<Rightarrow> cmd_plan result"

definition application_json :: string where "application_json = ''application/json''"
definition aspen_config :: string where "aspen_config = ''application/x-apple-aspen-config''"

definition json_error :: "http_codec \<Rightarrow> error \<Rightarrow> int \<Rightarrow> response" where
  "json_error C err code =
     \<lparr>rs_status = (if code < 1 then 500 else code), rs_type = Some application_json, rs_body = hc_error C err\<rparr>"

text \<open>Encoding into the response: when it fails nothing is written and the status stays 200.\<close>

definition encoded :: "string option \<Rightarrow> bytes result \<Rightarrow> response" where
  "encoded ty r = \<lparr>rs_status = 200, rs_type = ty, rs_body = (case r of Inl _ \<Rightarrow> [] | Inr b \<Rightarrow> b)\<rparr>"

definition no_content :: response where
  "no_content = \<lparr>rs_status = 204, rs_type = None, rs_body = []\<rparr>"

text \<open>A call whose error is answered with a status.\<close>

definition or_error ::
  "http_codec \<Rightarrow> int \<Rightarrow> ('w, 'a) action \<Rightarrow> ('a \<Rightarrow> ('w, response) action) \<Rightarrow> ('w, response) action" where
  "or_error C code m k =
     go_bind (go_try m) (\<lambda>r. case r of Inl e \<Rightarrow> go_ret (json_error C e code) | Inr x \<Rightarrow> k x)"

section \<open>Reading bodies\<close>

definition read_all :: "body \<Rightarrow> bytes \<times> error option" where
  "read_all b = b"

text \<open>\<open>ReadAllAndReplaceBody\<close>: after an error the body is left drained.\<close>

definition read_all_and_replace_body :: "request \<Rightarrow> (bytes \<times> error option) \<times> request" where
  "read_all_and_replace_body rq =
     (case read_all (hr_body rq) of
        (b, Some e) \<Rightarrow> ((b, Some e), rq\<lparr>hr_body := ([], Some e)\<rparr>)
      | (b, None) \<Rightarrow> ((b, None), rq\<lparr>hr_body := (b, None)\<rparr>))"

definition dump_handler :: "'w handler \<Rightarrow> (bytes \<Rightarrow> ('w, unit) action) \<Rightarrow> 'w handler" where
  "dump_handler next_handler output rq =
     (case read_all_and_replace_body rq of
        ((b, _), rq) \<Rightarrow> go_bind (go_try (output (b @ [CHR 0x0A]))) (\<lambda>_. next_handler rq))"

section \<open>The engine's handlers\<close>

definition err_no_ids :: error where "err_no_ids = Errorf ''no IDs provided'' []"
definition err_no_starter :: error where "err_no_starter = Errorf ''missing workflow starter'' []"
definition err_missing_store :: error where "err_missing_store = Errorf ''missing store'' []"
definition err_no_name :: error where "err_no_name = Errorf ''missing name parameter'' []"
definition err_workflow_not_registered :: error where
  "err_workflow_not_registered = Errorf ''workflow not registered'' []"

definition start_workflow_handler ::
  "http_codec \<Rightarrow> (string \<Rightarrow> bytes \<Rightarrow> string list \<Rightarrow> ('w, string) action) option \<Rightarrow> 'w handler" where
  "start_workflow_handler C starter rq =
     (let ids = hr_query rq ''id'' in
      if length ids < 1 then go_ret (json_error C err_no_ids 400)
      else case starter of None \<Rightarrow> go_ret (json_error C err_no_starter 0)
      | Some start \<Rightarrow>
          or_error C 0 (start (hr_name rq) (query_get rq ''context'') ids) (\<lambda>instanceID.
          go_ret (encoded None (hc_instance C instanceID))))"

text \<open>The engine as the starter: no event and no MDM context.\<close>

definition engine_starter ::
  "('w, 'c, 'r) engine \<Rightarrow> string \<Rightarrow> bytes \<Rightarrow> string list \<Rightarrow> ('w, string) action" where
  "engine_starter e name ctx ids = start_workflow e name ctx ids None None"

record 'w full_event_storage = "'w event_storage" +
  es_retrieve :: "string list \<Rightarrow> ('w, string \<rightharpoonup> event_subscription) action"
  es_store :: "string \<Rightarrow> event_subscription \<Rightarrow> ('w, unit) action"
  es_delete :: "string \<Rightarrow> ('w, unit) action"

definition kv_full_event_storage ::
  "'b kv_env \<Rightarrow> ('w \<Rightarrow> 'b kv_store) \<Rightarrow> ('b kv_store \<Rightarrow> 'w \<Rightarrow> 'w) \<Rightarrow> 'w full_event_storage" where
  "kv_full_event_storage E get put =
     \<lparr>st_retrieve_event_subscriptions_by_event =
        (\<lambda>f. go_zoom get put (retrieve_event_subscriptions_by_event E f)),
      st_subscriptions_before_error = (\<lambda>f w. subscriptions_before_error E f (get w)),
      es_retrieve = (\<lambda>names. go_zoom get put (retrieve_event_subscriptions E names)),
      es_store = (\<lambda>name es. go_zoom get put (store_event_subscription E name (Some es))),
      es_delete = (\<lambda>name. go_zoom get put (delete_event_subscription E name))\<rparr>"

definition mysql_full_event_storage ::
  "mysql_env \<Rightarrow> ('w \<Rightarrow> mysql) \<Rightarrow> (mysql \<Rightarrow> 'w \<Rightarrow> 'w) \<Rightarrow> 'w full_event_storage" where
  "mysql_full_event_storage E get put =
     \<lparr>st_retrieve_event_subscriptions_by_event =
        (\<lambda>f. go_zoom get put (my_retrieve_event_subscriptions_by_event E f)),
      st_subscriptions_before_error = (\<lambda>_ _. []),
      es_retrieve = (\<lambda>names. go_zoom get put (my_retrieve_event_subscriptions E names)),
      es_store = (\<lambda>name es. go_zoom get put (my_store_event_subscription E name es)),
      es_delete = (\<lambda>name. go_zoom get put (my_delete_event_subscription E name))\<rparr>"

definition get_event_handler :: "http_codec \<Rightarrow> 'w full_event_storage option \<Rightarrow> 'w handler" where
  "get_event_handler C store rq =
     (case store of None \<Rightarrow> go_ret (json_error C err_missing_store 0)
      | Some store \<Rightarrow>
          if hr_name rq = [] then go_ret (json_error C err_no_name 400)
          else
            or_error C 0 (es_retrieve store [hr_name rq]) (\<lambda>es.
            go_ret (encoded (Some application_json) (hc_event C (es (hr_name rq))))))"

definition put_event_handler ::
  "http_codec \<Rightarrow> 'w full_event_storage option \<Rightarrow> (string \<Rightarrow> bool) \<Rightarrow> 'w handler" where
  "put_event_handler C store registered rq =
     (case store of None \<Rightarrow> go_ret (json_error C err_missing_store 0)
      | Some store \<Rightarrow>
          if hr_name rq = [] then go_ret (json_error C err_no_name 400)
          else case hc_event_decode C (hr_body rq) of
            Inl e \<Rightarrow> go_ret (json_error C e 0)
          | Inr es \<Rightarrow>
              (case validate_event_subscription (Some es) of
                 Inl e \<Rightarrow> go_ret (json_error C e 400)
               | Inr _ \<Rightarrow>
                   if \<not> registered (es_workflow es) then go_ret (json_error C err_workflow_not_registered 400)
                   else or_error C 0 (es_store store (hr_name rq) es) (\<lambda>_. go_ret no_content)))"

section \<open>Uploaded profiles\<close>

record payload =
  pl_description :: string
  pl_display_name :: string
  pl_identifier :: string
  pl_organization :: string
  pl_uuid :: string
  pl_type :: string
  pl_version :: int

definition err_invalid_payload :: error where "err_invalid_payload = Errorf ''invalid payload'' []"

definition validate_payload :: "payload option \<Rightarrow> unit result" where
  "validate_payload p =
     (case p of None \<Rightarrow> Inl (Wrapf ''%w: empty payload'' [] err_invalid_payload)
      | Some p \<Rightarrow>
          if pl_identifier p = [] then Inl (Wrapf ''%w: PayloadIdentifier is empty'' [] err_invalid_payload)
          else if pl_uuid p = [] then Inl (Wrapf ''%w: PayloadUUID is empty'' [] err_invalid_payload)
          else if pl_type p = [] then Inl (Wrapf ''%w: PayloadType is empty'' [] err_invalid_payload)
          else if pl_version p \<noteq> 1 then Inl (Wrapf ''%w: PayloadVersion is not 1'' [] err_invalid_payload)
          else Inr ())"

record 'p mobileconfig_lib =
  ml_pkcs7 :: "bytes \<Rightarrow> 'p result"
  ml_verify :: "'p \<Rightarrow> unit result"
  ml_content :: "'p \<Rightarrow> bytes"
  ml_plist :: "bytes \<Rightarrow> payload result"

definition parse_plist_payload :: "'p mobileconfig_lib \<Rightarrow> bool \<Rightarrow> bytes \<Rightarrow> (payload \<times> bool) result" where
  "parse_plist_payload L is_signed mc =
     (case ml_plist L mc of
        Inl e \<Rightarrow> Inl (Wrapf ''unmarshal plist: %w'' [] e)
      | Inr profile \<Rightarrow>
          (case validate_payload (Some profile) of Inl e \<Rightarrow> Inl e | Inr _ \<Rightarrow> Inr (profile, is_signed)))"

definition parse_mobileconfig :: "'p mobileconfig_lib \<Rightarrow> bytes \<Rightarrow> (payload \<times> bool) result" where
  "parse_mobileconfig L mc =
     (if \<not> has_prefix mc ''<?xml'' \<and> \<not> has_prefix mc ''bplist0'' then
        case ml_pkcs7 L mc of
          Inl e \<Rightarrow> Inl (Wrapf ''parsing pkcs7: %w'' [] e)
        | Inr p7 \<Rightarrow>
            (case ml_verify L p7 of
               Inl e \<Rightarrow> Inl (Wrapf ''verifying pkcs7: %w'' [] e)
             | Inr _ \<Rightarrow> parse_plist_payload L True (ml_content L p7))
      else parse_plist_payload L False mc)"

section \<open>The profile handlers\<close>

definition err_empty_name :: error where "err_empty_name = Errorf ''empty name'' []"
definition err_no_such_name :: error where "err_no_such_name = Errorf ''no such name'' []"
definition err_empty_body :: error where "err_empty_body = Errorf ''empty body'' []"

definition get_profiles_handler :: "http_codec \<Rightarrow> 'w full_profile_storage \<Rightarrow> 'w handler" where
  "get_profiles_handler C store rq =
     or_error C 0 (ps_retrieve_infos store (hr_query rq ''name'')) (\<lambda>profiles.
     go_ret (encoded (Some application_json) (hc_infos C profiles)))"

definition delete_profile_handler :: "http_codec \<Rightarrow> 'w full_profile_storage \<Rightarrow> 'w handler" where
  "delete_profile_handler C store rq =
     (if hr_name rq = [] then go_ret (json_error C err_empty_name 400)
      else or_error C 0 (ps_delete store (hr_name rq)) (\<lambda>_. go_ret no_content))"

definition get_profile_handler :: "http_codec \<Rightarrow> 'w full_profile_storage \<Rightarrow> 'w handler" where
  "get_profile_handler C store rq =
     (if hr_name rq = [] then go_ret (json_error C err_empty_name 400)
      else or_error C 0 (ps_retrieve_raw store [hr_name rq]) (\<lambda>profiles.
        case profiles (hr_name rq) of
          None \<Rightarrow> go_ret (json_error C err_no_such_name 0)
        | Some raw \<Rightarrow> go_ret \<lparr>rs_status = 200, rs_type = Some aspen_config, rs_body = raw\<rparr>))"

definition store_profile_handler ::
  "http_codec \<Rightarrow> 'p mobileconfig_lib \<Rightarrow> 'w full_profile_storage \<Rightarrow> 'w handler" where
  "store_profile_handler C L store rq =
     (if hr_name rq = [] then go_ret (json_error C err_empty_name 400)
      else case read_all (hr_body rq) of
        (_, Some e) \<Rightarrow> go_ret (json_error C e 0)
      | (raw, None) \<Rightarrow>
          if length raw < 1 then go_ret (json_error C err_empty_body 400)
          else case parse_mobileconfig L raw of
            Inl e \<Rightarrow> go_ret (json_error C e 400)
          | Inr (payload, _) \<Rightarrow>
              or_error C 0
                (ps_store store (hr_name rq)
                   \<lparr>pi_identifier = pl_identifier payload, pi_uuid = pl_uuid payload\<rparr> raw)
                (\<lambda>_. go_ret no_content))"

section \<open>The inventory, command plan and FileVault handlers\<close>

definition err_no_storage :: error where "err_no_storage = Errorf ''no storage backend'' []"

definition retrieve_inventory_handler :: "http_codec \<Rightarrow> 'w inventory_storage option \<Rightarrow> 'w handler" where
  "retrieve_inventory_handler C store rq =
     (case store of None \<Rightarrow> go_ret (json_error C err_no_storage 0)
      | Some store \<Rightarrow>
          let ids = hr_query rq ''id'' in
          if length ids < 1 then go_ret (json_error C err_no_ids 400)
          else or_error C 0 (is_retrieve store (Some ids)) (\<lambda>values.
            go_ret (encoded (Some application_json) (hc_values C values))))"

record 'w cmd_plan_storage =
  cs_retrieve :: "string \<Rightarrow> ('w, cmd_plan) action"
  cs_store :: "string \<Rightarrow> cmd_plan \<Rightarrow> ('w, unit) action"
  cs_delete :: "string \<Rightarrow> ('w, unit) action"

definition kv_cmd_plan_storage ::
  "'b kv_env \<Rightarrow> plan_json \<Rightarrow> ('w \<Rightarrow> 'b) \<Rightarrow> ('b \<Rightarrow> 'w \<Rightarrow> 'w) \<Rightarrow> 'w cmd_plan_storage" where
  "kv_cmd_plan_storage E J get put =
     \<lparr>cs_retrieve = (\<lambda>name. go_zoom get put (retrieve_cmd_plan E J name)),
      cs_store = (\<lambda>name p. go_zoom get put (store_cmd_plan E J name (Some p))),
      cs_delete = (\<lambda>name. go_zoom get put (delete_cmd_plan E name))\<rparr>"

definition err_no_name_provided :: error where "err_no_name_provided = Errorf ''no name provided'' []"

definition get_cmd_plan_handler :: "http_codec \<Rightarrow> 'w cmd_plan_storage \<Rightarrow> 'w handler" where
  "get_cmd_plan_handler C store rq =
     (if hr_name rq = [] then go_ret (json_error C err_no_name_provided 400)
      else or_error C 0 (cs_retrieve store (hr_name rq)) (\<lambda>cmd_plan.
        go_ret (encoded (Some application_json) (hc_plan C cmd_plan))))"

definition put_cmd_plan_handler :: "http_codec \<Rightarrow> 'w cmd_plan_storage \<Rightarrow> 'w handler" where
  "put_cmd_plan_handler C store rq =
     (if hr_name rq = [] then go_ret (json_error C err_no_name_provided 400)
      else case hc_plan_decode C (hr_body rq) of
        Inl e \<Rightarrow> go_ret (json_error C e 0)
      | Inr p \<Rightarrow> or_error C 0 (cs_store store (hr_name rq) p) (\<lambda>_. go_ret no_content))"

definition get_profile_template :: "'w handler" where
  "get_profile_template rq =
     go_ret \<lparr>rs_status = 200, rs_type = Some aspen_config, rs_body = profile_template_text\<rparr>"

section \<open>The routes\<close>

text \<open>
  A mux is the list of the routes that were registered: pattern, methods (none means every method) and handler.
  How the router matches a path is the router's.
\<close>

type_synonym 'w route = "string \<times> string list \<times> 'w handler"

definition mux_handle :: "string \<Rightarrow> 'w handler \<Rightarrow> string list \<Rightarrow> 'w route list \<Rightarrow> 'w route list" where
  "mux_handle pattern h methods mux = mux @ [(pattern, methods, h)]"

definition engine_api_v1 ::
  "http_codec \<Rightarrow> string \<Rightarrow> ('w, 'c, 'r) engine \<Rightarrow> 'w full_event_storage option \<Rightarrow> 'w route list \<Rightarrow> 'w route list" where
  "engine_api_v1 C pfx e s mux =
     mux_handle (pfx @ ''/event/:name'') (put_event_handler C s (workflow_registered e)) [''PUT'']
       (mux_handle (pfx @ ''/event/:name'') (get_event_handler C s) [''GET'']
         (mux_handle (pfx @ ''/workflow/:name/start'') (start_workflow_handler C (Some (engine_starter e))) [''POST'']
           mux))"

definition profile_api_v1 ::
  "http_codec \<Rightarrow> 'p mobileconfig_lib \<Rightarrow> string \<Rightarrow> 'w full_profile_storage \<Rightarrow> 'w route list \<Rightarrow> 'w route list" where
  "profile_api_v1 C L pfx s mux =
     mux_handle (pfx @ ''/profiles'') (get_profiles_handler C s) [''GET'']
       (mux_handle (pfx @ ''/profile/:name'') (delete_profile_handler C s) [''DELETE'']
         (mux_handle (pfx @ ''/profile/:name'') (get_profile_handler C s) [''GET'']
           (mux_handle (pfx @ ''/profile/:name'') (store_profile_handler C L s) [''PUT''] mux)))"

text \<open>The inventory's route does not use the prefix.\<close>

definition inventory_api_v1 ::
  "http_codec \<Rightarrow> string \<Rightarrow> 'w inventory_storage option \<Rightarrow> 'w route list \<Rightarrow> 'w route list" where
  "inventory_api_v1 C pfx s mux = mux_handle ''/inventory'' (retrieve_inventory_handler C s) [''GET''] mux"

definition filevault_api_v1 :: "string \<Rightarrow> 'w route list \<Rightarrow> 'w route list" where
  "filevault_api_v1 pfx mux = mux_handle (pfx @ ''/fvenable/profiletemplate'') get_profile_template [''GET''] mux"

definition cmd_plan_api_v1 ::
  "http_codec \<Rightarrow> string \<Rightarrow> 'w cmd_plan_storage \<Rightarrow> 'w route list \<Rightarrow> 'w route list" where
  "cmd_plan_api_v1 C pfx s mux =
     mux_handle (pfx @ ''/cmdplan/:name'') (put_cmd_plan_handler C s) [''PUT'']
       (mux_handle (pfx @ ''/cmdplan/:name'') (get_cmd_plan_handler C s) [''GET''] mux)"

end
