(* ===== verification/GoPath.thy ===== *)
theory GoPath
  imports Prelude
begin

text \<open>
  \<open>filepath.Join\<close> and \<open>filepath.Clean\<close> for paths with slashes, as the server command and the on-disk backends
  use them, and that joining different names to one directory gives different paths.
\<close>

definition slash :: char where "slash = CHR 0x2F"

text \<open>
  The elements of a path are read from left to right; the elements kept are on a stack, the last on top. An
  element \<open>..\<close> takes one off, unless there is none to take.
\<close>

fun clean_elements :: "bool \<Rightarrow> string list \<Rightarrow> string list \<Rightarrow> string list" where
  "clean_elements rooted kept [] = rev kept"
| "clean_elements rooted kept (p # ps) =
     (if p = [] \<or> p = ''.'' then clean_elements rooted kept ps
      else if p = ''..'' then
        (case kept of
           [] \<Rightarrow> clean_elements rooted (if rooted then [] else [p]) ps
         | k # ks \<Rightarrow> if k = ''..'' then clean_elements rooted (p # kept) ps else clean_elements rooted ks ps)
      else clean_elements rooted (p # kept) ps)"

definition is_rooted :: "string \<Rightarrow> bool" where
  "is_rooted path \<longleftrightarrow> path \<noteq> [] \<and> hd path = slash"

definition path_clean :: "string \<Rightarrow> string" where
  "path_clean path =
     (let out = join slash (clean_elements (is_rooted path) [] (split slash path)) in
      if is_rooted path then slash # out else if out = [] then ''.'' else out)"

definition path_join :: "string list \<Rightarrow> string" where
  "path_join elems = (case filter (\<lambda>e. e \<noteq> []) elems of [] \<Rightarrow> [] | es \<Rightarrow> path_clean (join slash es))"

section \<open>Names below a directory\<close>

text \<open>A name is an element that cleaning keeps.\<close>

definition is_name :: "string \<Rightarrow> bool" where
  "is_name p \<longleftrightarrow> p \<noteq> [] \<and> p \<noteq> ''.'' \<and> p \<noteq> ''..'' \<and> slash \<notin> set p"

lemma clean_names:
  "\<forall>p\<in>set ps. is_name p \<Longrightarrow> clean_elements r kept ps = rev kept @ ps"
  by (induction ps arbitrary: kept) (auto simp: is_name_def)

lemma clean_append:
  "\<forall>p\<in>set qs. is_name p \<Longrightarrow> clean_elements r kept (ps @ qs) = clean_elements r kept ps @ qs"
proof (induction r kept ps rule: clean_elements.induct)
  case (1 r kept)
  then show ?case by (simp add: clean_names)
qed (auto split: list.splits)

lemma clean_elements_plain:
  assumes "\<forall>p\<in>set ps. slash \<notin> set p" "\<forall>p\<in>set kept. slash \<notin> set p"
  shows "\<forall>p\<in>set (clean_elements r kept ps). slash \<notin> set p"
  using assms
  by (induction r kept ps rule: clean_elements.induct) (auto split: list.splits)

lemma split_append: "split c (s @ c # t) = split c s @ split c t"
  by (induction s) (auto split: list.splits)

lemma join_Cons: "ss \<noteq> [] \<Longrightarrow> join c (s # ss) = s @ c # join c ss"
  by (cases ss) auto

lemma split_join_below:
  assumes "ps \<noteq> []" "\<forall>p\<in>set ps. slash \<notin> set p"
  shows "split slash (join slash (dir # ps)) = split slash dir @ ps"
  using assms by (simp add: join_Cons split_append split_join)

text \<open>The elements of a directory and of what lies below it.\<close>

definition path_elements :: "string \<Rightarrow> string list" where
  "path_elements dir = clean_elements (is_rooted dir) [] (split slash dir)"

lemma split_elements:
  assumes "ps \<noteq> []" "\<forall>p\<in>set ps. is_name p"
  shows "split slash (join slash (path_elements dir @ ps)) = path_elements dir @ ps"
proof (rule split_join)
  show "\<forall>s\<in>set (path_elements dir @ ps). slash \<notin> set s"
    using assms(2) clean_elements_plain [of "split slash dir" "[]"] split_parts [of _ slash dir]
    by (auto simp: path_elements_def is_name_def)
qed (use assms(1) in simp)

lemma path_join_below:
  assumes dir: "dir \<noteq> []" and ps: "ps \<noteq> []" "\<forall>p\<in>set ps. is_name p"
  shows "path_join (dir # ps) =
     (if is_rooted dir then slash # join slash (path_elements dir @ ps) else join slash (path_elements dir @ ps))"
proof -
  have names: "\<forall>p\<in>set ps. slash \<notin> set p" "filter (\<lambda>e. e \<noteq> []) (dir # ps) = dir # ps"
    using dir ps(2) by (auto simp: is_name_def intro!: filter_True)
  have rooted: "is_rooted (join slash (dir # ps)) = is_rooted dir"
    using dir ps(1) by (simp add: is_rooted_def join_Cons)
  have "join slash (path_elements dir @ ps) \<noteq> []"
  proof
    assume "join slash (path_elements dir @ ps) = []"
    then have "path_elements dir @ ps = [[]]" using split_elements [OF ps, of dir] by simp
    with ps show False by (auto simp: is_name_def append_eq_Cons_conv)
  qed
  then show ?thesis
    by (cases "is_rooted dir") (simp_all add: path_join_def names(2) path_clean_def rooted path_elements_def Let_def
        split_join_below [OF ps(1) names(1)] clean_append [OF ps(2)] del: filter.simps)
qed

lemma path_join_inject:
  assumes dir: "dir \<noteq> []" and ps: "ps \<noteq> []" "\<forall>p\<in>set ps. is_name p" and qs: "qs \<noteq> []" "\<forall>p\<in>set qs. is_name p"
  shows "path_join (dir # ps) = path_join (dir # qs) \<longleftrightarrow> ps = qs"
proof
  assume "path_join (dir # ps) = path_join (dir # qs)"
  then have "join slash (path_elements dir @ ps) = join slash (path_elements dir @ qs)"
    unfolding path_join_below [OF dir ps] path_join_below [OF dir qs] by (simp split: if_splits)
  then have "split slash (join slash (path_elements dir @ ps)) = split slash (join slash (path_elements dir @ qs))" by (rule arg_cong)
  then show "ps = qs" unfolding split_elements [OF ps] split_elements [OF qs] by simp
qed simp

end
