(* ===== verification/Server.thy ===== *)
theory Server
  imports Http GoPath Foss EngineWorker EngineFacts WfLock WfProfile WfCmdPlan WfCertProf WfInventory
begin

text \<open>
  The server command (\<open>cmd/nanocmd\<close>): the choice of the storage backends, the registration of the workflows,
  and the wiring of the MDM client, the engine, its worker and the HTTP routes. The constructors of the
  backends, the clocks, the ID generator and the libraries are parameters; flags are given parsed.
\<close>

section \<open>Storage backends\<close>

text \<open>\<open>storage.AllStorage\<close> of the engine: operations, worker operations and event subscriptions.\<close>

record 'w engine_storage =
  eg_storage :: "'w storage"
  eg_worker :: "'w worker_storage"
  eg_event :: "'w full_event_storage"

record 'w storage_config =
  sc_inventory :: "'w inventory_storage"
  sc_engine :: "'w engine_storage"
  sc_profile :: "'w full_profile_storage"
  sc_cmd_plan :: "'w cmd_plan_storage"
  sc_event :: "'w full_event_storage option"
  sc_filevault :: "'w fv_storage"

text \<open>The constructors of the backends' packages; those that return an error act on the world.\<close>

record 'w backends =
  be_inmem_inventory :: "'w inventory_storage"
  be_inmem_filevault :: "'w prk_storage \<Rightarrow> ('w, 'w fv_storage) action"
  be_inmem_engine :: "'w engine_storage"
  be_inmem_profile :: "'w full_profile_storage"
  be_inmem_cmd_plan :: "'w cmd_plan_storage"
  be_diskv_inventory :: "string \<Rightarrow> 'w inventory_storage"
  be_diskv_filevault :: "string \<Rightarrow> 'w prk_storage \<Rightarrow> ('w, 'w fv_storage) action"
  be_diskv_engine :: "string \<Rightarrow> 'w engine_storage"
  be_diskv_profile :: "string \<Rightarrow> 'w full_profile_storage"
  be_diskv_cmd_plan :: "string \<Rightarrow> 'w cmd_plan_storage"
  be_mysql_engine :: "string \<Rightarrow> ('w, 'w engine_storage) action"
  be_mysql_profile :: "string \<Rightarrow> ('w, 'w full_profile_storage) action"
  be_clock :: "('w, time) action"

definition parse_storage :: "'w backends \<Rightarrow> string \<Rightarrow> string \<Rightarrow> ('w, 'w storage_config) action" where
  "parse_storage B name dsn =
     (if name = ''inmem'' then
        let inv = be_inmem_inventory B; eng = be_inmem_engine B in
        go_bind (go_wrap ''creating filevault inmem storage: %w'' []
                   (be_inmem_filevault B (inv_prk inv (be_clock B)))) (\<lambda>fv.
        go_ret \<lparr>sc_inventory = inv, sc_engine = eng, sc_profile = be_inmem_profile B,
                sc_cmd_plan = be_inmem_cmd_plan B, sc_event = Some (eg_event eng), sc_filevault = fv\<rparr>)
      else if name = ''file'' \<or> name = ''diskv'' then
        let dsn = (if dsn = [] then ''db'' else dsn);
            inv = be_diskv_inventory B (path_join [dsn, ''inventory'']) in
        go_bind (go_wrap ''creating filevault diskv storage: %w'' []
                   (be_diskv_filevault B (path_join [dsn, ''fvkey'']) (inv_prk inv (be_clock B)))) (\<lambda>fv.
        let eng = be_diskv_engine B dsn in
        go_ret \<lparr>sc_inventory = inv, sc_engine = eng, sc_profile = be_diskv_profile B (path_join [dsn, ''profile'']),
                sc_cmd_plan = be_diskv_cmd_plan B (path_join [dsn, ''cmdplan'']), sc_event = Some (eg_event eng),
                sc_filevault = fv\<rparr>)
      else if name = ''mysql'' then
        let inv = be_inmem_inventory B in
        go_bind (go_wrap ''creating filevault inmem storage: %w'' []
                   (be_inmem_filevault B (inv_prk inv (be_clock B)))) (\<lambda>fv.
        go_bind (be_mysql_engine B dsn) (\<lambda>eng.
        go_bind (be_mysql_profile B dsn) (\<lambda>prof.
        go_ret \<lparr>sc_inventory = inv, sc_engine = eng, sc_profile = prof, sc_cmd_plan = be_inmem_cmd_plan B,
                sc_event = Some (eg_event eng), sc_filevault = fv\<rparr>)))
      else go_fail (Errorf ''unknown storage: %s'' [name]))"

section \<open>The workflows\<close>

text \<open>
  \<open>registerWorkflows\<close>; \<open>E\<close> is the environment that the constructors give each workflow, with the engine as
  the enqueuer in it, and \<open>not_after\<close> the parser of certificates.
\<close>

definition builtin_workflows ::
  "'w wf_env \<Rightarrow> (bytes \<Rightarrow> time result) \<Rightarrow> 'w storage_config \<Rightarrow> ('w, mdm_response) workflow list" where
  "builtin_workflows E not_after s =
     (let ps = profile_storage.truncate (sc_profile s) in
      [inventory_workflow E (sc_inventory s), profile_workflow E ps, fvenable_workflow E (sc_filevault s) ps,
       fvrotate_workflow E (sc_filevault s),
       cmdplan_workflow E ps (\<lambda>name. go_bind (cs_retrieve (sc_cmd_plan s) name) (\<lambda>p. go_ret (Some p))),
       lock_workflow E (sc_inventory s), certprof_workflow certprof_default_name E ps not_after,
       devinfolog_workflow devinfolog_default_name E])"

definition register_workflows ::
  "'w wf_env \<Rightarrow> (bytes \<Rightarrow> time result) \<Rightarrow> 'w storage_config
    \<Rightarrow> ('w, mdm_command, mdm_response) engine \<Rightarrow> ('w, mdm_command, mdm_response) engine" where
  "register_workflows E not_after s e = fold register_workflow (builtin_workflows E not_after s) e"

section \<open>The command\<close>

record flags =
  fl_api_key :: string
  fl_enqueue_url :: string
  fl_push_url :: string
  fl_enqueue_api :: string
  fl_storage :: string
  fl_dsn :: string
  fl_micro :: bool
  fl_dump :: bool
  fl_worker_sec :: nat
  fl_re_push_sec :: nat
  fl_step_timeout_sec :: nat

text \<open>\<open>time.Second * time.Duration(n)\<close> for an unsigned \<open>n\<close>: both the conversion and the product wrap.\<close>

definition seconds :: "nat \<Rightarrow> int" where
  "seconds n = int64 (1000000000 * int64 (int n))"

text \<open>The libraries and functions of the standard library that the wiring uses.\<close>

record ('w, 'u, 'p) server_lib =
  sl_http :: "('w, 'u) http_lib"
  sl_mdm :: "(mdm_command, mdm_response) mdm_lib"
  sl_codec :: http_codec
  sl_mobileconfig :: "'p mobileconfig_lib"
  sl_decode :: decode_lib
  sl_now :: "('w, time) action"
  sl_new_id :: "('w, string) action"
  sl_wait_all :: "('w, unit) action list \<Rightarrow> ('w, unit) action"
  sl_when :: dispatch_point
  sl_wf_env :: "'w wf_env"
  sl_not_after :: "bytes \<Rightarrow> time result"
  sl_version_handler :: "'w handler"
  sl_basic_auth :: "string \<Rightarrow> string \<Rightarrow> string \<Rightarrow> 'w handler \<Rightarrow> 'w handler"
  sl_stdout :: "bytes \<Rightarrow> ('w, unit) action"

definition api_username :: string where "api_username = ''nanocmd''"
definition api_realm :: string where "api_realm = ''nanocmd''"

definition server_mdm :: "('w, 'u, 'p) server_lib \<Rightarrow> flags \<Rightarrow> 'u foss_mdm result" where
  "server_mdm L fl =
     new_foss_mdm (sl_http L) (fl_enqueue_url fl) (fl_enqueue_api fl)
       (with_push (sl_http L) (fl_push_url fl) # (if fl_micro fl then [with_micro_mdm] else []))"

text \<open>The client's calls return: its chunk size is not 0 (see \<open>Foss\<close>).\<close>

definition mdm_enqueue :: "('w, 'u, 'p) server_lib \<Rightarrow> 'u foss_mdm \<Rightarrow> string list \<Rightarrow> bytes \<Rightarrow> ('w, unit) action" where
  "mdm_enqueue L m ids raw = the (foss_enqueue (sl_http L) m ids raw)"

definition mdm_push :: "('w, 'u, 'p) server_lib \<Rightarrow> 'u foss_mdm \<Rightarrow> string list \<Rightarrow> ('w, unit) action" where
  "mdm_push L m ids = the (foss_push (sl_http L) m ids)"

definition server_engine ::
  "('w, 'u, 'p) server_lib \<Rightarrow> flags \<Rightarrow> 'u foss_mdm \<Rightarrow> 'w storage_config \<Rightarrow> ('w, mdm_command, mdm_response) engine" where
  "server_engine L fl m s =
     new_engine (eg_storage (sc_engine s)) (mdm_enqueue L m) (supports_multi_commands m) (sl_new_id L) (sl_now L)
       (sl_mdm L) (sl_wait_all L) (sl_when L)
       ((if fl_step_timeout_sec fl > 0 then [with_default_timeout (seconds (fl_step_timeout_sec fl))] else []) @
        (case sc_event s of None \<Rightarrow> [] | Some ev \<Rightarrow> [with_event_storage (event_storage.truncate ev)]))"

text \<open>
  The workflows enqueue through the engine they are registered with. Enqueuing depends on the registry by the
  configurations only, so the knot is tied by registering twice: first with the empty engine as the enqueuer,
  then with the engine that came out.
\<close>

definition env_of :: "('w, 'u, 'p) server_lib \<Rightarrow> ('w, mdm_command, mdm_response) engine \<Rightarrow> 'w wf_env" where
  "env_of L e = (sl_wf_env L)\<lparr>we_enqueue := enqueue_step e\<rparr>"

definition full_engine ::
  "('w, 'u, 'p) server_lib \<Rightarrow> flags \<Rightarrow> 'u foss_mdm \<Rightarrow> 'w storage_config \<Rightarrow> ('w, mdm_command, mdm_response) engine" where
  "full_engine L fl m s =
     (let e = server_engine L fl m s;
          e' = register_workflows (env_of L e) (sl_not_after L) s e in
      register_workflows (env_of L e') (sl_not_after L) s e)"

definition server_worker ::
  "('w, 'u, 'p) server_lib \<Rightarrow> flags \<Rightarrow> 'u foss_mdm \<Rightarrow> 'w storage_config \<Rightarrow> ('w, mdm_command, mdm_response) engine
    \<Rightarrow> ('w, mdm_command, mdm_response) worker option" where
  "server_worker L fl m s e =
     (if fl_worker_sec fl > 0 then
        Some (new_worker (engine_workflow e) (eg_worker (sc_engine s)) (mdm_enqueue L m) (mdm_push L m) (sl_now L)
          (sl_mdm L)
          (with_worker_duration (seconds (fl_worker_sec fl)) #
           (if fl_re_push_sec fl > 0 then [with_worker_re_push_duration (seconds (fl_re_push_sec fl))] else [])))
      else None)"

text \<open>\<open>http.Error\<close> with the text of the status.\<close>

definition status_text :: "nat \<Rightarrow> string" where
  "status_text st = (if st = 400 then ''Bad Request'' else ''Internal Server Error'')"

definition status_response :: "nat \<Rightarrow> response" where
  "status_response st =
     (if st = 200 then \<lparr>rs_status = 200, rs_type = None, rs_body = []\<rparr>
      else \<lparr>rs_status = int st, rs_type = Some ''text/plain; charset=utf-8'', rs_body = status_text st @ [CHR 0x0A]\<rparr>)"

definition webhook_route_handler ::
  "('w, 'u, 'p) server_lib \<Rightarrow> flags \<Rightarrow> ('w, mdm_command, mdm_response) engine \<Rightarrow> 'w handler" where
  "webhook_route_handler L fl e =
     (let recv = engine_receiver e;
          recv = (if fl_dump fl then event_dumper (sl_stdout L) recv else recv);
          h = (\<lambda>rq. go_bind (webhook_handler (sl_decode L) (sl_now L) recv (fst (hr_body rq))) (\<lambda>st.
                go_ret (status_response st))) in
      if fl_dump fl then dump_handler h (sl_stdout L) else h)"

definition api_routes ::
  "('w, 'u, 'p) server_lib \<Rightarrow> 'w storage_config \<Rightarrow> ('w, mdm_command, mdm_response) engine \<Rightarrow> 'w route list" where
  "api_routes L s e =
     cmd_plan_api_v1 (sl_codec L) ''/v1'' (sc_cmd_plan s)
       (filevault_api_v1 ''/v1''
         (profile_api_v1 (sl_codec L) (sl_mobileconfig L) ''/v1'' (sc_profile s)
           (inventory_api_v1 (sl_codec L) ''/v1'' (Some (sc_inventory s))
             (engine_api_v1 (sl_codec L) ''/v1'' e (sc_event s) []))))"

definition server_routes ::
  "('w, 'u, 'p) server_lib \<Rightarrow> flags \<Rightarrow> 'w storage_config \<Rightarrow> ('w, mdm_command, mdm_response) engine \<Rightarrow> 'w route list" where
  "server_routes L fl s e =
     [(''/version'', [], sl_version_handler L), (''/webhook'', [], webhook_route_handler L fl e)] @
     (if fl_api_key fl \<noteq> []
      then map (\<lambda>(pattern, methods, h).
              (pattern, methods, sl_basic_auth L api_username (fl_api_key fl) api_realm h)) (api_routes L s e)
      else [])"

record 'w server =
  sv_engine :: "('w, mdm_command, mdm_response) engine"
  sv_worker :: "('w, mdm_command, mdm_response) worker option"
  sv_routes :: "'w route list"

text \<open>\<open>main\<close> up to the goroutine of the worker and the listener; an error is an exit with status 1.\<close>

definition err_required :: error where
  "err_required = Errorf ''enqueue URL, push URL, and API required'' []"

definition make_server :: "('w, 'u, 'p) server_lib \<Rightarrow> 'w backends \<Rightarrow> flags \<Rightarrow> ('w, 'w server) action" where
  "make_server L B fl =
     (if fl_enqueue_url fl = [] \<or> fl_enqueue_api fl = [] \<or> fl_push_url fl = [] then go_fail err_required
      else
        go_bind (go_wrap ''parse storage'' [] (parse_storage B (fl_storage fl) (fl_dsn fl))) (\<lambda>s.
        go_bind (go_wrap ''creating enqueuer'' [] (go_lift (server_mdm L fl))) (\<lambda>m.
        let e = full_engine L fl m s in
        go_ret \<lparr>sv_engine = e, sv_worker = server_worker L fl m s e, sv_routes = server_routes L fl s e\<rparr>)))"

section \<open>The registry of the server's engine\<close>

definition builtin_names :: "string list" where
  "builtin_names =
     [inventory_name, profile_workflow_name, fvenable_name, fvrotate_name, cmdplan_name, lock_workflow_name,
      certprof_default_name, devinfolog_default_name]"

lemmas builtin_name_defs =
  inventory_name_def profile_workflow_name_def fvenable_name_def fvrotate_name_def cmdplan_name_def
  lock_workflow_name_def certprof_default_name_def devinfolog_default_name_def

lemmas builtin_workflow_defs =
  inventory_workflow_def profile_workflow_def fvenable_workflow_def fvrotate_workflow_def cmdplan_workflow_def
  lock_workflow_def certprof_workflow_def devinfolog_workflow_def

lemma builtin_workflow_names: "map wf_name (builtin_workflows E na s) = builtin_names"
  by (simp add: builtin_workflows_def Let_def builtin_names_def builtin_workflow_defs)

lemma builtin_names_distinct: "distinct builtin_names"
  by (simp add: builtin_names_def builtin_name_defs)

lemma builtin_configs:
  "map wf_config (builtin_workflows E na s) = Some inventory_config # replicate 7 None"
  by (simp add: builtin_workflows_def Let_def builtin_workflow_defs eval_nat_numeral)

lemma fold_register:
  "engine_workflow (fold register_workflow ws e) name =
     (case find (\<lambda>w. wf_name w = name) (rev ws) of None \<Rightarrow> engine_workflow e name | Some w \<Rightarrow> Some w)"
proof (induction ws rule: rev_induct)
  case (snoc w ws)
  then show ?case by (auto simp: workflow_register)
qed simp

lemma find_rev_unique:
  "distinct (map k xs) \<Longrightarrow> find (\<lambda>x. k x = n) (rev xs) = find (\<lambda>x. k x = n) xs"
proof (induction xs)
  case (Cons x xs)
  have "find P (ys @ [x]) = (case find P ys of None \<Rightarrow> if P x then Some x else None | Some y \<Rightarrow> Some y)" for P ys
    by (induction ys) auto
  moreover have "find (\<lambda>x. k x = n) xs = None" if "k x = n"
  proof -
    have "k x \<notin> k ` set xs" using Cons.prems by simp
    then have "k y \<noteq> n" if "y \<in> set xs" for y using imageI [OF that, of k] \<open>k x = n\<close> by metis
    then show ?thesis by (auto simp: find_None_iff)
  qed
  ultimately show ?case using Cons by (auto split: option.split)
qed simp

text \<open>What registering leaves as it is.\<close>

lemma register_keeps [simp]:
  "en_storage (register_workflow w e) = en_storage e" "en_enqueue (register_workflow w e) = en_enqueue e"
  "en_now (register_workflow w e) = en_now e" "en_lib (register_workflow w e) = en_lib e"
  "en_default_timeout (register_workflow w e) = en_default_timeout e"
  by (simp_all add: register_workflow_def Let_def split: option.split)

lemma fold_register_keeps [simp]:
  "en_storage (fold register_workflow ws e) = en_storage e" "en_enqueue (fold register_workflow ws e) = en_enqueue e"
  "en_now (fold register_workflow ws e) = en_now e" "en_lib (fold register_workflow ws e) = en_lib e"
  "en_default_timeout (fold register_workflow ws e) = en_default_timeout e"
  by (induction ws arbitrary: e) simp_all

text \<open>Enqueuing looks at the registry for the workflow's configuration only.\<close>

lemma enqueue_step_cong:
  assumes "en_storage e = en_storage e'" "en_enqueue e = en_enqueue e'" "en_now e = en_now e'" "en_lib e = en_lib e'"
    "en_default_timeout e = en_default_timeout e'"
    and cfg: "\<And>n. map_option wf_config (engine_workflow e n) = map_option wf_config (engine_workflow e' n)"
  shows "enqueue_step e = enqueue_step e'"
proof -
  have "step_default_timeout e n = step_default_timeout e' n" for n
    unfolding step_default_timeout_def assms(3) assms(5) using cfg [of n]
    by (cases "engine_workflow e n"; cases "engine_workflow e' n")
      simp_all
  then have "step_default_timeout e = step_default_timeout e'" ..
  then have "enqueue_step e n se = enqueue_step e' n se" for n se by (simp only: enqueue_step_def assms(1-4))
  then show ?thesis by (intro ext) simp
qed

lemma no_workflows [simp]:
  "engine_workflow (server_engine L fl m s) = Map.empty" "en_all_resps (server_engine L fl m s) = []"
  by (simp_all add: server_engine_def new_engine_def engine_workflow_def with_default_timeout_def
      with_event_storage_def fun_eq_iff split: option.split)

lemma find_map_option:
  "map_option g (find (\<lambda>x. k x = n) xs) = map_of (map (\<lambda>x. (k x, g x)) xs) n"
  by (induction xs) auto

lemma zip_maps: "map (\<lambda>x. (k x, g x)) xs = zip (map k xs) (map g xs)"
  by (induction xs) auto

lemma registered_configs:
  "map_option wf_config (engine_workflow (register_workflows E na s (server_engine L fl m s)) n) =
     map_of (zip builtin_names (Some inventory_config # replicate 7 None)) n"
proof -
  have "distinct (map wf_name (builtin_workflows E na s))"
    by (simp add: builtin_workflow_names builtin_names_distinct)
  from find_rev_unique [OF this, of n]
  have "engine_workflow (register_workflows E na s (server_engine L fl m s)) n =
      find (\<lambda>w. wf_name w = n) (builtin_workflows E na s)"
    by (simp add: register_workflows_def fold_register split: option.split)
  then show ?thesis by (simp add: find_map_option zip_maps builtin_workflow_names builtin_configs)
qed

lemma enqueue_knot:
  "enqueue_step (register_workflows E na s (server_engine L fl m s)) =
     enqueue_step (register_workflows E' na' s (server_engine L fl m s))"
  by (rule enqueue_step_cong) (simp_all only: registered_configs, simp_all add: register_workflows_def)

lemma env_knot: "env_of L (register_workflows E na s (server_engine L fl m s)) = env_of L (full_engine L fl m s)"
  using enqueue_knot [of E na s L fl m] by (simp add: env_of_def full_engine_def Let_def)

lemma full_engine_fold:
  "full_engine L fl m s =
     fold register_workflow (builtin_workflows (env_of L (full_engine L fl m s)) (sl_not_after L) s) (server_engine L fl m s)"
proof -
  have "full_engine L fl m s = register_workflows
      (env_of L (register_workflows (env_of L (server_engine L fl m s)) (sl_not_after L) s (server_engine L fl m s)))
      (sl_not_after L) s (server_engine L fl m s)"
    by (simp add: full_engine_def Let_def)
  then show ?thesis by (simp only: env_knot) (simp only: register_workflows_def)
qed

lemma full_engine_workflow:
  "engine_workflow (full_engine L fl m s) n =
     find (\<lambda>w. wf_name w = n) (builtin_workflows (env_of L (full_engine L fl m s)) (sl_not_after L) s)"
proof -
  let ?ws = "builtin_workflows (env_of L (full_engine L fl m s)) (sl_not_after L) s"
  have "engine_workflow (full_engine L fl m s) n = find (\<lambda>w. wf_name w = n) (rev ?ws)"
    by (subst full_engine_fold) (simp add: fold_register split: option.split)
  also have "\<dots> = find (\<lambda>w. wf_name w = n) ?ws"
    by (rule find_rev_unique) (simp add: builtin_workflow_names builtin_names_distinct)
  finally show ?thesis .
qed

lemma names_fold:
  assumes "\<forall>w\<in>set ws. resp_types w = []"
  shows "names_for (en_all_resps (fold register_workflow ws e)) t = names_for (en_all_resps e) t"
  using assms by (induction ws arbitrary: e) (simp_all add: names_register)

lemma full_engine_names:
  "names_for (en_all_resps (full_engine L fl m s)) t = (if t = ''SecurityInfo'' then [inventory_name] else [])"
proof -
  let ?ws = "builtin_workflows (env_of L (full_engine L fl m s)) (sl_not_after L) s"
  have ws: "?ws = inventory_workflow (env_of L (full_engine L fl m s)) (sc_inventory s) # tl ?ws"
    by (simp add: builtin_workflows_def Let_def)
  have "\<forall>w\<in>set (tl ?ws). resp_types w = []"
    by (simp add: builtin_workflows_def Let_def resp_types_def builtin_workflow_defs)
  note rest = names_fold [OF this]
  have "resp_types (inventory_workflow E sto) = [''SecurityInfo'']" "wf_name (inventory_workflow E sto) = inventory_name"
    for E :: "'a wf_env" and sto by (simp_all add: resp_types_def inventory_workflow_def inventory_config_def)
  then show ?thesis
    by (subst full_engine_fold, subst ws, simp only: fold_simps rest)
      (simp add: names_register, simp add: names_for_def)
qed

end
