(* ===== verification/Backends.thy ===== *)
theory Backends
  imports Server KVEngine
begin

text \<open>
  The constructors of the storage backends: in memory (\<open>*/storage/inmem\<close>), on disk (\<open>*/storage/diskv\<close>)
  and MySQL (\<open>New\<close> of \<open>engine/storage/mysql\<close> and \<open>subsystem/profile/storage/mysql\<close>), on a world that holds
  what they keep, and the generator of the FileVault keypair (\<open>utils/cryptoutil\<close>). The buckets are the
  library's: \<open>kvmap.New\<close> makes one of its own, \<open>kvdiskv.New\<close> one for each base path.
\<close>

section \<open>The world of the backends\<close>

text \<open>
  The buckets in memory, those on disk by base path with the generator of IDs and the clock of the store on
  disk, the two databases, and the clock of the rest.
\<close>

record 'b backend_world =
  bw_engine :: "'b kv_store"
  bw_inventory :: 'b
  bw_filevault :: 'b
  bw_profile :: 'b
  bw_cmd_plan :: 'b
  bw_disk :: "string \<Rightarrow> 'b"
  bw_disk_ids :: nat
  bw_disk_clock :: time
  bw_mysql :: mysql
  bw_profile_db :: profile_db
  bw_clock :: time

section \<open>Constructors over buckets\<close>

text \<open>\<open>New\<close> of the packages \<open>kv\<close>: the storages over the part of the world that holds their buckets.\<close>

definition kv_engine_new ::
  "'b kv_env \<Rightarrow> ('w \<Rightarrow> 'b kv_store) \<Rightarrow> ('b kv_store \<Rightarrow> 'w \<Rightarrow> 'w) \<Rightarrow> 'w engine_storage" where
  "kv_engine_new E get put =
     \<lparr>eg_storage = kv_storage E get put, eg_worker = kv_worker_storage E get put,
      eg_event = kv_full_event_storage E get put\<rparr>"

definition kv_filevault_new ::
  "'b kv_env \<Rightarrow> ('k, 'c, 'm) fv_crypto \<Rightarrow> nat \<Rightarrow> ('w \<Rightarrow> 'b) \<Rightarrow> ('b \<Rightarrow> 'w \<Rightarrow> 'w) \<Rightarrow> 'w prk_storage
    \<Rightarrow> ('w, 'w fv_storage) action" where
  "kv_filevault_new E C seed get put p =
     go_bind (go_zoom get put (assure_keypair_exists E C seed)) (\<lambda>_. go_ret (kv_fv_storage E C get put p))"

section \<open>In memory\<close>

definition inmem_engine :: "'b kv_env \<Rightarrow> 'b backend_world engine_storage" where
  "inmem_engine E = kv_engine_new E bw_engine (\<lambda>b w. w\<lparr>bw_engine := b\<rparr>)"

definition inmem_inventory :: "'b kv_env \<Rightarrow> inv_json \<Rightarrow> 'b backend_world inventory_storage" where
  "inmem_inventory E J = kv_inventory_storage E J bw_inventory (\<lambda>b w. w\<lparr>bw_inventory := b\<rparr>)"

definition inmem_filevault ::
  "'b kv_env \<Rightarrow> ('k, 'c, 'm) fv_crypto \<Rightarrow> nat \<Rightarrow> 'b backend_world prk_storage
    \<Rightarrow> ('b backend_world, 'b backend_world fv_storage) action" where
  "inmem_filevault E C seed p = kv_filevault_new E C seed bw_filevault (\<lambda>b w. w\<lparr>bw_filevault := b\<rparr>) p"

definition inmem_profile :: "'b kv_env \<Rightarrow> 'b backend_world full_profile_storage" where
  "inmem_profile E = kv_full_profile_storage E bw_profile (\<lambda>b w. w\<lparr>bw_profile := b\<rparr>)"

definition inmem_cmd_plan :: "'b kv_env \<Rightarrow> plan_json \<Rightarrow> 'b backend_world cmd_plan_storage" where
  "inmem_cmd_plan E P = kv_cmd_plan_storage E P bw_cmd_plan (\<lambda>b w. w\<lparr>bw_cmd_plan := b\<rparr>)"

section \<open>On disk\<close>

definition dir_put :: "string \<Rightarrow> 'b \<Rightarrow> 'b backend_world \<Rightarrow> 'b backend_world" where
  "dir_put path b w = w\<lparr>bw_disk := (bw_disk w)(path := b)\<rparr>"

definition engine_dir :: "string \<Rightarrow> string \<Rightarrow> string" where
  "engine_dir path name = path_join [path, ''engine'', name]"

definition disk_store_get :: "string \<Rightarrow> 'b backend_world \<Rightarrow> 'b kv_store" where
  "disk_store_get path w =
     \<lparr>step_store = bw_disk w (engine_dir path ''step''), id_cmd_store = bw_disk w (engine_dir path ''idcmd''),
      event_store = bw_disk w (engine_dir path ''eventsubs''), status_store = bw_disk w (engine_dir path ''wfstatus''),
      ids_issued = bw_disk_ids w, wall_clock = bw_disk_clock w\<rparr>"

definition disk_store_put :: "string \<Rightarrow> 'b kv_store \<Rightarrow> 'b backend_world \<Rightarrow> 'b backend_world" where
  "disk_store_put path s w =
     w\<lparr>bw_disk := (bw_disk w)(engine_dir path ''step'' := step_store s, engine_dir path ''idcmd'' := id_cmd_store s,
                     engine_dir path ''eventsubs'' := event_store s, engine_dir path ''wfstatus'' := status_store s),
       bw_disk_ids := ids_issued s, bw_disk_clock := wall_clock s\<rparr>"

definition diskv_engine :: "'b kv_env \<Rightarrow> string \<Rightarrow> 'b backend_world engine_storage" where
  "diskv_engine E path = kv_engine_new E (disk_store_get path) (disk_store_put path)"

definition diskv_inventory :: "'b kv_env \<Rightarrow> inv_json \<Rightarrow> string \<Rightarrow> 'b backend_world inventory_storage" where
  "diskv_inventory E J path = kv_inventory_storage E J (\<lambda>w. bw_disk w path) (dir_put path)"

definition diskv_filevault ::
  "'b kv_env \<Rightarrow> ('k, 'c, 'm) fv_crypto \<Rightarrow> nat \<Rightarrow> string \<Rightarrow> 'b backend_world prk_storage
    \<Rightarrow> ('b backend_world, 'b backend_world fv_storage) action" where
  "diskv_filevault E C seed path p = kv_filevault_new E C seed (\<lambda>w. bw_disk w path) (dir_put path) p"

definition diskv_profile :: "'b kv_env \<Rightarrow> string \<Rightarrow> 'b backend_world full_profile_storage" where
  "diskv_profile E path = kv_full_profile_storage E (\<lambda>w. bw_disk w path) (dir_put path)"

definition diskv_cmd_plan :: "'b kv_env \<Rightarrow> plan_json \<Rightarrow> string \<Rightarrow> 'b backend_world cmd_plan_storage" where
  "diskv_cmd_plan E P path = kv_cmd_plan_storage E P (\<lambda>w. bw_disk w path) (dir_put path)"

section \<open>MySQL\<close>

text \<open>What the constructors use of \<open>database/sql\<close>; a handle is opaque, the database is the world's.\<close>

record ('w, 'd) sql_lib =
  sq_open :: "string \<Rightarrow> string \<Rightarrow> 'd result"
  sq_ping :: "'d \<Rightarrow> ('w, unit) action"

record 'd mysql_config =
  mc_driver :: string
  mc_dsn :: string
  mc_db :: "'d option"

type_synonym 'd mysql_option = "'d mysql_config \<Rightarrow> 'd mysql_config"

definition with_dsn :: "string \<Rightarrow> 'd mysql_option" where "with_dsn dsn c = c\<lparr>mc_dsn := dsn\<rparr>"
definition with_driver :: "string \<Rightarrow> 'd mysql_option" where "with_driver driver c = c\<lparr>mc_driver := driver\<rparr>"
definition with_db :: "'d \<Rightarrow> 'd mysql_option" where "with_db db c = c\<lparr>mc_db := Some db\<rparr>"

definition new_mysql :: "('w, 'd) sql_lib \<Rightarrow> 'd mysql_option list \<Rightarrow> ('w, 'd) action" where
  "new_mysql Q opts =
     (let cfg = fold (\<lambda>opt c. opt c) opts \<lparr>mc_driver = ''mysql'', mc_dsn = [], mc_db = None\<rparr> in
      go_bind (case mc_db cfg of
                 None \<Rightarrow> go_lift (sq_open Q (mc_driver cfg) (mc_dsn cfg))
               | Some db \<Rightarrow> go_ret db) (\<lambda>db.
      go_bind (sq_ping Q db) (\<lambda>_. go_ret db)))"

text \<open>The constructor of the profile store has the same text.\<close>

definition new_profile_mysql :: "('w, 'd) sql_lib \<Rightarrow> 'd mysql_option list \<Rightarrow> ('w, 'd) action" where
  "new_profile_mysql Q opts =
     (let cfg = fold (\<lambda>opt c. opt c) opts \<lparr>mc_driver = ''mysql'', mc_dsn = [], mc_db = None\<rparr> in
      go_bind (case mc_db cfg of
                 None \<Rightarrow> go_lift (sq_open Q (mc_driver cfg) (mc_dsn cfg))
               | Some db \<Rightarrow> go_ret db) (\<lambda>db.
      go_bind (sq_ping Q db) (\<lambda>_. go_ret db)))"

definition mysql_engine_storage :: "mysql_env \<Rightarrow> 'b backend_world engine_storage" where
  "mysql_engine_storage M =
     \<lparr>eg_storage = mysql_storage M bw_mysql (\<lambda>s w. w\<lparr>bw_mysql := s\<rparr>),
      eg_worker = mysql_worker_storage M bw_mysql (\<lambda>s w. w\<lparr>bw_mysql := s\<rparr>),
      eg_event = mysql_full_event_storage M bw_mysql (\<lambda>s w. w\<lparr>bw_mysql := s\<rparr>)\<rparr>"

definition mysql_profile :: "mysql_env \<Rightarrow> 'b backend_world full_profile_storage" where
  "mysql_profile M = mysql_profile_storage M bw_profile_db (\<lambda>d w. w\<lparr>bw_profile_db := d\<rparr>)"

section \<open>All backends\<close>

definition all_backends ::
  "'b kv_env \<Rightarrow> inv_json \<Rightarrow> plan_json \<Rightarrow> ('k, 'c, 'm) fv_crypto \<Rightarrow> nat \<Rightarrow> mysql_env
    \<Rightarrow> ('b backend_world, 'd) sql_lib \<Rightarrow> 'b backend_world backends" where
  "all_backends E J P C seed M Q =
     \<lparr>be_inmem_inventory = inmem_inventory E J, be_inmem_filevault = inmem_filevault E C seed,
      be_inmem_engine = inmem_engine E, be_inmem_profile = inmem_profile E, be_inmem_cmd_plan = inmem_cmd_plan E P,
      be_diskv_inventory = diskv_inventory E J, be_diskv_filevault = diskv_filevault E C seed,
      be_diskv_engine = diskv_engine E, be_diskv_profile = diskv_profile E, be_diskv_cmd_plan = diskv_cmd_plan E P,
      be_mysql_engine = (\<lambda>dsn. go_bind (new_mysql Q [with_dsn dsn]) (\<lambda>_. go_ret (mysql_engine_storage M))),
      be_mysql_profile = (\<lambda>dsn. go_bind (new_profile_mysql Q [with_dsn dsn]) (\<lambda>_. go_ret (mysql_profile M))),
      be_clock = go_read bw_clock\<rparr>"

section \<open>The FileVault keypair\<close>

text \<open>What the generator uses of \<open>crypto/rsa\<close> and \<open>crypto/x509\<close>; \<open>seed\<close> stands for the random reader.\<close>

record cert_template =
  ct_serial :: int
  ct_not_before :: time
  ct_not_after :: time
  ct_key_usage :: int
  ct_subject :: "string option"

record ('k, 'c) x509_lib =
  xl_generate_key :: "nat \<Rightarrow> int \<Rightarrow> 'k result"
  xl_create_certificate :: "nat \<Rightarrow> cert_template \<Rightarrow> 'k \<Rightarrow> bytes result"
  xl_parse_certificate :: "bytes \<Rightarrow> 'c result"

unbundle bit_operations_syntax

definition key_usage_digital_signature :: int where "key_usage_digital_signature = 1"
definition key_usage_key_encipherment :: int where "key_usage_key_encipherment = 4"

definition minute :: int where "minute = 60000000000"
definition day :: int where "day = 24 * 60 * minute"

text \<open>\<open>time.Duration(days) * 24 * time.Hour\<close> wraps.\<close>

definition cert_validity :: "int \<Rightarrow> int" where
  "cert_validity days = int64 (int64 (days * 24) * (60 * minute))"

definition self_signed_rsa_keypair ::
  "('k, 'c) x509_lib \<Rightarrow> nat \<Rightarrow> time \<Rightarrow> string \<Rightarrow> int \<Rightarrow> ('k \<times> 'c) result" where
  "self_signed_rsa_keypair X seed now cn days =
     (case xl_generate_key X seed 2048 of
        Inl e \<Rightarrow> Inl e
      | Inr key \<Rightarrow>
          let template = \<lparr>ct_serial = 1, ct_not_before = now + minute * -10, ct_not_after = now + cert_validity days,
                          ct_key_usage = key_usage_key_encipherment OR key_usage_digital_signature,
                          ct_subject = (if cn \<noteq> [] then Some cn else None)\<rparr> in
          case xl_create_certificate X seed template key of
            Inl e \<Rightarrow> Inl e
          | Inr cert_bytes \<Rightarrow>
              (case xl_parse_certificate X cert_bytes of Inl e \<Rightarrow> Inl e | Inr cert \<Rightarrow> Inr (key, cert)))"

definition cert_cn :: string where "cert_cn = ''filevault''"
definition cert_validity_days :: int where "cert_validity_days = 10 * 365"

definition filevault_keypair :: "('k, 'c) x509_lib \<Rightarrow> time \<Rightarrow> nat \<Rightarrow> ('k \<times> 'c) result" where
  "filevault_keypair X now seed = self_signed_rsa_keypair X seed now cert_cn cert_validity_days"

lemma filevault_validity: "cert_validity cert_validity_days = 3650 * day"
  by (simp add: cert_validity_def cert_validity_days_def day_def minute_def int64_def)

end
