(* ===== verification/Runs.thy ===== *)
theory Runs
  imports Prelude
begin

text \<open>
  Running actions on a given state: rules that evaluate an action from left to right, as the program runs it. The
  congruence rules \<open>run_congs\<close> keep the simplifier out of the continuations until their turn has come.
\<close>

section \<open>Running actions\<close>

named_theorems run_rules \<open>runs of the combinators\<close>
named_theorems run_unfold \<open>the values that a run computes\<close>

text \<open>\<open>run m w\<close> is \<open>m w\<close>; the other constants are the combinators on a run that has got somewhere.\<close>

definition run :: "('w, 'a) action \<Rightarrow> 'w \<Rightarrow> 'a result \<times> 'w" where "run m w = m w"
definition run_then :: "('a \<Rightarrow> ('w, 'b) action) \<Rightarrow> 'a result \<times> 'w \<Rightarrow> 'b result \<times> 'w" where
  "run_then f p = (case p of (Inl e, w) \<Rightarrow> (Inl e, w) | (Inr x, w) \<Rightarrow> f x w)"
definition run_wrap :: "string \<Rightarrow> string list \<Rightarrow> 'a result \<times> 'w \<Rightarrow> 'a result \<times> 'w" where
  "run_wrap fmt as p = (case p of (Inl e, w) \<Rightarrow> (Inl (Wrapf fmt as e), w) | (Inr x, w) \<Rightarrow> (Inr x, w))"
definition run_zoom :: "('v \<Rightarrow> 'w \<Rightarrow> 'w) \<Rightarrow> 'w \<Rightarrow> 'a result \<times> 'v \<Rightarrow> 'a result \<times> 'w" where
  "run_zoom u w p = (case p of (r, v) \<Rightarrow> (r, u v w))"
definition run_try :: "'a result \<times> 'w \<Rightarrow> 'a result result \<times> 'w" where
  "run_try p = (case p of (r, v) \<Rightarrow> (Inr r, v))"
definition run_with :: "('x \<Rightarrow> ('w, 'a) action) \<Rightarrow> 'w \<Rightarrow> 'x \<Rightarrow> 'a result \<times> 'w" where
  "run_with f w x = f x w"

definition run_let :: "('x \<Rightarrow> ('w, 'a) action) \<Rightarrow> 'w \<Rightarrow> 'x \<Rightarrow> 'a result \<times> 'w" where
  "run_let f w x = f x w"

lemma run_cong: "w = w' \<Longrightarrow> run m w = run m w'" by simp
lemma run_then_cong: "p = p' \<Longrightarrow> run_then f p = run_then f p'" by simp
lemma run_wrap_cong: "p = p' \<Longrightarrow> run_wrap f a p = run_wrap f a p'" by simp
lemma run_zoom_cong: "p = p' \<Longrightarrow> run_zoom u w p = run_zoom u w p'" by simp
lemma run_with_cong: "x = x' \<Longrightarrow> run_with f w x = run_with f w x'" by simp

lemma run_eq: "m = m' \<Longrightarrow> run m w = run m' w" by simp

lemma run_let_cong: "x = x' \<Longrightarrow> run_let f w x = run_let f w x'" by simp

lemmas run_congs = run_cong run_then_cong run_wrap_cong run_zoom_cong run_with_cong run_let_cong

lemma run_ret [run_rules]: "run (go_ret x) w = (Inr x, w)" by (simp add: run_def go_defs)
lemma run_fail [run_rules]: "run (go_fail e) w = (Inl e, w)" by (simp add: run_def go_defs)
lemma run_lift [run_rules]: "run (go_lift r) w = (r, w)" by (simp add: run_def go_defs)
lemma run_read [run_rules]: "run (go_read g) w = (Inr (g w), w)" by (simp add: run_def go_defs)
lemma run_bind [run_rules]: "run (go_bind m f) w = run_then f (run m w)" by (simp add: run_def go_defs run_then_def)
lemma run_wrapped [run_rules]: "run (go_wrap fmt as m) w = run_wrap fmt as (run m w)"
  by (simp add: run_def go_defs run_wrap_def)
lemma run_tried [run_rules]: "run (go_try m) w = run_try (run m w)" by (simp add: run_def go_defs run_try_def)
lemma run_zoomed [run_rules]: "run (go_zoom g u m) w = run_zoom u w (run m (g w))"
  by (simp add: run_def go_defs run_zoom_def)

lemma run_then_result [run_rules]: "run_then f (Inl e, w) = (Inl e, w)" "run_then f (Inr x, w) = run (f x) w"
  by (simp_all add: run_def run_then_def)
lemma run_wrap_result [run_rules]:
  "run_wrap fmt as (Inl e, w) = (Inl (Wrapf fmt as e), w)" "run_wrap fmt as (Inr x, w) = (Inr x, w)"
  by (simp_all add: run_wrap_def)
lemma run_zoom_result [run_rules]: "run_zoom u w (r, v) = (r, u v w)" by (simp add: run_zoom_def)
lemma run_try_result [run_rules]: "run_try (r, w) = (Inr r, w)" by (simp add: run_try_def)

text \<open>Control: what decides or is looped over is evaluated before the run goes on.\<close>

lemma run_control [run_rules]:
  "run (if b then m else m') w = (if b then run m w else run m' w)"
  "run (case x of None \<Rightarrow> m | Some y \<Rightarrow> f y) w = run_with (case_option m f) w x"
  "run (case r of Inl e \<Rightarrow> g e | Inr y \<Rightarrow> h y) w = run_with (case_sum g h) w r"
  "run (case p of (a, b) \<Rightarrow> k a b) w = run_with (case_prod k) w p"
  "run (case xs of [] \<Rightarrow> m | z # zs \<Rightarrow> l z zs) w = run_with (case_list m l) w xs"
  "run (Let v c) w = run_let c w v" "run_let c w v = run (c v) w"
  "run (go_for ys d) w = run_with (\<lambda>ys. go_for ys d) w ys"
  "run (go_fold t ys acc) w = run_with (\<lambda>ys. go_fold t ys acc) w ys"
  by (simp_all add: run_def run_with_def run_let_def)

lemma run_with_values [run_rules]:
  "run_with (case_option m f) w None = run m w" "run_with (case_option m f) w (Some y) = run (f y) w"
  "run_with (case_sum g h) w (Inl e) = run (g e) w" "run_with (case_sum g h) w (Inr z) = run (h z) w"
  "run_with (case_prod k) w (a, b) = run (k a b) w"
  "run_with (case_list m l) w [] = run m w" "run_with (case_list m l) w (x # xs) = run (l x xs) w"
  "run_with (\<lambda>ys. go_for ys d) w [] = (Inr (), w)"
  "run_with (\<lambda>ys. go_for ys d) w (x # xs) = run_then (\<lambda>_. go_for xs d) (run (d x) w)"
  "run_with (\<lambda>ys. go_fold t ys acc) w [] = (Inr acc, w)"
  "run_with (\<lambda>ys. go_fold t ys acc) w (x # xs) = run_then (go_fold t xs) (run (t x acc) w)"
  by (simp_all add: run_def run_with_def run_then_def go_defs)

lemma run_fun: "(\<And>w. m w = m' w w) \<Longrightarrow> run m w = run (m' w) w"
  by (simp add: run_def)

text \<open>A part of a world: reading what was written, and writing over it.\<close>

definition lens :: "('w \<Rightarrow> 's) \<Rightarrow> ('s \<Rightarrow> 'w \<Rightarrow> 'w) \<Rightarrow> bool" where
  "lens get put \<longleftrightarrow> (\<forall>s w. get (put s w) = s) \<and> (\<forall>s t w. put s (put t w) = put s w) \<and> (\<forall>w. put (get w) w = w)"

lemma lensD:
  assumes "lens get put"
  shows "get (put s w) = s" "put s (put t w) = put s w" "put (get w) w = w"
  using assms by (simp_all add: lens_def)

end
