(* ===== verification/StorageTests.thy ===== *)
theory StorageTests
  imports Backends Runs "HOL-Library.Char_ord" "HOL-Library.List_Lexorder"
begin

text \<open>
  The conformance tests that the repository runs on every storage of the engine (\<open>engine/storage/test\<close>), over the
  storage's record of operations, with what they use of \<open>testing.T\<close>.
\<close>

section \<open>Test runs\<close>

text \<open>
  A test runs on the world of the storage and collects the failures that it reports. \<open>t.Fatal\<close> ends the test or subtest
  it is called in, which is an error of the run; \<open>t.Run\<close> goes on after a subtest that has ended.
\<close>

type_synonym ('w, 'a) test = "('w \<times> string list, 'a) action"

definition t_errorf :: "string \<Rightarrow> ('w, unit) test" where
  "t_errorf msg = (\<lambda>(w, fails). (Inr (), w, fails @ [msg]))"

definition t_fatalf :: "string \<Rightarrow> ('w, 'a) test" where
  "t_fatalf msg = (\<lambda>(w, fails). (Inl (Errorf msg []), w, fails @ [msg]))"

definition t_run :: "string \<Rightarrow> ('w, unit) test \<Rightarrow> ('w, unit) test" where
  "t_run name m = (\<lambda>s. (Inr (), snd (m s)))"

text \<open>A call of the storage; the call whose error is fatal; the check that is an error and the one that is fatal.\<close>

definition t_call :: "('w, 'a) action \<Rightarrow> ('w, 'a result) test" where
  "t_call m = go_try (go_zoom fst (\<lambda>w s. (w, snd s)) m)"

definition t_must :: "string \<Rightarrow> ('w, 'a) action \<Rightarrow> ('w, 'a) test" where
  "t_must msg m = go_bind (t_call m) (\<lambda>r. case r of Inl e \<Rightarrow> t_fatalf msg | Inr x \<Rightarrow> go_ret x)"

definition t_expect :: "bool \<Rightarrow> string \<Rightarrow> ('w, unit) test" where
  "t_expect b msg = (if b then go_ret () else t_errorf msg)"

definition t_require :: "bool \<Rightarrow> string \<Rightarrow> ('w, unit) test" where
  "t_require b msg = (if b then go_ret () else t_fatalf msg)"

definition passes :: "('w, unit) test \<Rightarrow> 'w \<Rightarrow> bool" where
  "passes m w \<longleftrightarrow> (\<exists>w'. m (w, []) = (Inr (), w', []))"

lemma run_error [run_rules]: "run (t_errorf msg) (w, fs) = (Inr (), w, fs @ [msg])"
  by (simp add: run_def t_errorf_def)
lemma run_fatal [run_rules]: "run (t_fatalf msg) (w, fs) = (Inl (Errorf msg []), w, fs @ [msg])"
  by (simp add: run_def t_fatalf_def)
lemma run_sub [run_rules]: "run (t_run name m) p = (Inr (), snd (run m p))"
  by (simp add: run_def t_run_def)

lemmas t_runs [run_rules] =
  t_call_def [THEN run_eq] t_must_def [THEN run_eq] t_expect_def [THEN run_eq] t_require_def [THEN run_eq]

section \<open>Steps and responses\<close>

text \<open>\<open>Time.Truncate(time.Second)\<close> rounds down since Go's zero time.\<close>

definition truncate_second :: "time \<Rightarrow> time" where
  "truncate_second t = t - t mod 1000000000"

definition test_step :: "string list \<Rightarrow> string \<Rightarrow> string \<Rightarrow> bytes \<Rightarrow> command_raw list \<Rightarrow> step_config" where
  "test_step ids wname inst ctx cmds =
     \<lparr>ctx_workflow_name = wname, ctx_instance_id = inst, ctx_name = [], ctx_context = ctx, enq_ids = ids,
      enq_commands = cmds, cfg_not_until = 0, cfg_step_timeout = 0\<rparr>"

definition test_command :: "string \<Rightarrow> string \<Rightarrow> bytes \<Rightarrow> command_raw" where
  "test_command uuid req_type raw = \<lparr>raw_uuid = uuid, raw_request_type = req_type, raw_command = raw\<rparr>"

definition test_result :: "string \<Rightarrow> string \<Rightarrow> bytes \<Rightarrow> command_result" where
  "test_result uuid req_type report =
     \<lparr>cr_uuid = uuid, cr_request_type = req_type, cr_report = report, cr_completed = True\<rparr>"

definition step_cmd_with_uuid :: "step_result \<Rightarrow> string \<Rightarrow> command_result option" where
  "step_cmd_with_uuid step uuid = find (\<lambda>cmd. cr_uuid cmd = uuid) (res_commands step)"

record response_test =
  rt_name :: string
  rt_resp :: command_result
  rt_completed :: bool
  rt_error :: bool
  rt_req_type :: string
  rt_skip_req_type :: bool
  rt_id :: string
  rt_skip_cmd_len :: bool
  rt_skip_byte_compare :: bool
  rt_wf_ctx :: string

record step_test =
  tt_name :: string
  tt_step :: "step_config option"
  tt_error :: bool
  tt_resps :: "response_test list"

definition wf_test1 :: string where "wf_test1 = ''workflow.name.test1''"
definition device_information :: string where "device_information = ''DeviceInformation''"
definition security_info :: string where "security_info = ''SecurityInfo''"

text \<open>The tests' table; the fields that a response leaves out have their zero values.\<close>

definition response_of :: "string \<Rightarrow> command_result \<Rightarrow> bool \<Rightarrow> bool \<Rightarrow> string \<Rightarrow> string \<Rightarrow> response_test" where
  "response_of name resp completed err req_type i =
     \<lparr>rt_name = name, rt_resp = resp, rt_completed = completed, rt_error = err, rt_req_type = req_type,
      rt_skip_req_type = False, rt_id = i, rt_skip_cmd_len = False, rt_skip_byte_compare = False, rt_wf_ctx = []\<rparr>"

definition main_tests :: "step_test list" where
  "main_tests =
     [\<lparr>tt_name = ''nil_step'', tt_step = None, tt_error = True, tt_resps = []\<rparr>,
      \<lparr>tt_name = ''nil_id'', tt_step = Some (test_step [] [] [] [] []), tt_error = True, tt_resps = []\<rparr>,
      \<lparr>tt_name = ''normal_test1_command_multi_id'',
       tt_step = Some (test_step [''AAA111'', ''BBB222''] wf_test1 ''B'' ''WFCTX-I''
                         [test_command ''UUID-2'' device_information []]),
       tt_error = False,
       tt_resps =
         [(response_of ''UUID-2-testResp1'' (test_result ''UUID-2'' [] ''Resp1-UUID-1'') True False
             device_information ''AAA111'')\<lparr>rt_wf_ctx := ''WFCTX-I''\<rparr>,
          (response_of ''UUID-2-testResp1-2nd'' (test_result ''UUID-2'' [] ''Resp2-UUID-1'') True False
             device_information ''BBB222'')\<lparr>rt_wf_ctx := ''WFCTX-I''\<rparr>,
          response_of ''UUID-2-testResp1-3rd-dup'' (test_result ''UUID-2'' [] ''Resp2-UUID-1'') False True
             [] ''BBB222'']\<rparr>,
      \<lparr>tt_name = ''normal_test1_command_fail_resp'',
       tt_step = Some (test_step [''456DFB''] wf_test1 ''C'' [] [test_command ''UUID-3'' device_information []]),
       tt_error = False,
       tt_resps =
         [response_of ''UUID-1-testResp1'' (test_result ''UUID-NotFound'' [] ''UUID-NotFound'') False True [] ''456DFB'']\<rparr>,
      \<lparr>tt_name = ''multi-command-single-id'',
       tt_step = Some (test_step [''AAA111''] wf_test1 ''D'' []
                         [test_command ''X-UUID-1'' device_information [], test_command ''X-UUID-2'' security_info []]),
       tt_error = False,
       tt_resps =
         [response_of ''resp1'' (test_result ''X-UUID-1'' [] ''Resp1-UUID-1'') False False device_information ''AAA111'',
          response_of ''resp2'' (test_result ''X-UUID-2'' [] ''Resp2-UUID-2'') True False security_info ''AAA111'']\<rparr>,
      \<lparr>tt_name = ''multi-command-same-uuid'',
       tt_step = Some (test_step [''CCC222''] wf_test1 ''E'' []
                         [test_command ''W-UUID-1'' device_information [], test_command ''W-UUID-1'' security_info []]),
       tt_error = True,
       tt_resps =
         [(response_of ''resp1'' (test_result ''W-UUID-1'' device_information ''W-UUID-1'') False True
             device_information ''CCC222'')\<lparr>rt_skip_req_type := True, rt_skip_cmd_len := True\<rparr>]\<rparr>]"

text \<open>One response. An error of the storage comes without a completed step.\<close>

definition check_completed :: "step_test \<Rightarrow> response_test \<Rightarrow> step_result \<Rightarrow> ('w, unit) test" where
  "check_completed tstep tresp completed =
     go_bind (t_expect (rt_wf_ctx tresp = [] \<or> rt_wf_ctx tresp = ctx_context completed)
                ''mismatch of step context'') (\<lambda>_.
     go_bind (t_expect (rt_skip_cmd_len tresp \<or>
                  length (res_commands completed) = (case tt_step tstep of None \<Rightarrow> 0 | Some step \<Rightarrow> length (enq_commands step)))
                ''mismatch of returned commands'') (\<lambda>_.
     go_for (tt_resps tstep) (\<lambda>ecmd.
       case step_cmd_with_uuid completed (cr_uuid (rt_resp ecmd)) of
         None \<Rightarrow> t_errorf ''command uuid not found''
       | Some sc \<Rightarrow>
           t_expect (\<not> (rt_skip_byte_compare ecmd \<and> cr_report sc \<noteq> cr_report (rt_resp ecmd)))
             ''command result raw does not match'')))"

definition response_body :: "'w storage \<Rightarrow> step_test \<Rightarrow> response_test \<Rightarrow> ('w, unit) test" where
  "response_body s tstep tresp =
     go_bind (t_must ''err looking up request type''
                (st_retrieve_command_request_type s (rt_id tresp) (cr_uuid (rt_resp tresp)))) (\<lambda>(req_type, _).
     go_bind (t_expect (rt_skip_req_type tresp \<or> req_type = rt_req_type tresp) ''request type does not match'') (\<lambda>_.
     go_bind (t_require (validate_command_result (Some (rt_resp tresp)) = Inr ())
                ''invalid test data: step command result'') (\<lambda>_.
     go_bind (t_call (st_store_command_response s (rt_id tresp) (rt_resp tresp))) (\<lambda>r.
     go_bind (case r of
                Inl e \<Rightarrow> t_require (rt_error tresp) ''expected no error for resp''
              | Inr _ \<Rightarrow> t_expect (\<not> rt_error tresp) ''expected error for resp'') (\<lambda>_.
     let completed = (case r of Inl e \<Rightarrow> None | Inr c \<Rightarrow> c) in
     go_bind (if rt_completed tresp \<and> completed = None then t_errorf ''found incomplete, expected complete''
              else if \<not> rt_completed tresp \<and> completed \<noteq> None then t_errorf ''found complete, expected incomplete''
              else go_ret ()) (\<lambda>_.
     case completed of None \<Rightarrow> go_ret () | Some c \<Rightarrow> check_completed tstep tresp c))))))"

text \<open>The start times are recorded and read back when the step was refused.\<close>

definition check_started :: "'w storage \<Rightarrow> step_config \<Rightarrow> time \<Rightarrow> ('w, unit) test" where
  "check_started s step stored_at =
     go_bind (if length (enq_ids step) > 0
              then go_bind (t_call (st_record_workflow_started s (enq_ids step) (ctx_workflow_name step) stored_at)) (\<lambda>r.
                     case r of Inl e \<Rightarrow> t_errorf ''RecordWorkflowStarted'' | Inr _ \<Rightarrow> go_ret ())
              else go_ret ()) (\<lambda>_.
     go_for (enq_ids step) (\<lambda>i.
       go_bind (t_must ''RetrieveWorkflowStarted'' (st_retrieve_workflow_started s i (ctx_workflow_name step))) (\<lambda>ts.
       if is_zero_time ts then t_errorf ''RetrieveWorkflowStarted: nil timestamp''
       else t_expect (truncate_second ts = truncate_second stored_at) ''RetrieveWorkflowStarted: timestamp mismatch'')))"

definition step_body :: "('w, time) action \<Rightarrow> 'w storage \<Rightarrow> step_test \<Rightarrow> ('w, unit) test" where
  "step_body now s tstep =
     go_bind (t_must [] now) (\<lambda>stored_at.
     go_bind (t_call (st_store_step s (tt_step tstep) stored_at)) (\<lambda>r.
     go_bind (if tt_error tstep \<and> r = Inr () then t_fatalf ''StoreStep: expected error''
              else if \<not> tt_error tstep \<and> r \<noteq> Inr () then t_fatalf ''StoreStep: expected no error''
              else go_ret ()) (\<lambda>_.
     go_bind (case (r, tt_step tstep) of
                (Inl e, Some step) \<Rightarrow> check_started s step stored_at
              | _ \<Rightarrow> go_ret ()) (\<lambda>_.
     go_bind (go_for (tt_resps tstep) (\<lambda>tresp. t_run (''cmd-resp-'' @ rt_name tresp) (response_body s tstep tresp))) (\<lambda>_.
     case tt_step tstep of
       None \<Rightarrow> go_ret ()
     | Some step \<Rightarrow>
         (case enq_ids step of
            [] \<Rightarrow> go_ret ()
          | i # _ \<Rightarrow> t_must ''CancelSteps'' (st_cancel_steps s i (ctx_workflow_name step))))))))"

definition main_test :: "('w, time) action \<Rightarrow> 'w storage \<Rightarrow> ('w, unit) test" where
  "main_test now s = go_for main_tests (\<lambda>tstep. t_run (''step-'' @ tt_name tstep) (step_body now s tstep))"

section \<open>Outstanding workflows\<close>

definition outstanding_step :: step_config where
  "outstanding_step =
     test_step [''EnrollmentID-4'', ''EnrollmentID-5''] wf_test1 ''InstanceID-1'' []
       [test_command ''UUID-1'' device_information ''Command-1'']"

definition test_outstanding :: "('w, time) action \<Rightarrow> 'w storage \<Rightarrow> ('w, unit) test" where
  "test_outstanding now s =
     (let enq = outstanding_step; name = ctx_workflow_name enq in
      go_bind (t_must [] now) (\<lambda>t.
      go_bind (t_must ''StoreStep'' (st_store_step s (Some enq) t)) (\<lambda>_.
      go_bind (t_must ''outstanding'' (st_retrieve_outstanding s name (enq_ids enq))) (\<lambda>ids.
      go_bind (t_expect (length ids = 2) ''outstanding: want 2'') (\<lambda>_.
      go_bind (t_must ''response'' (st_store_command_response s (enq_ids enq ! 0)
                 (test_result ''UUID-1'' device_information ''Result-1''))) (\<lambda>_.
      go_bind (t_must ''outstanding'' (st_retrieve_outstanding s name (enq_ids enq))) (\<lambda>ids.
      go_bind (t_require (length ids = 1) ''outstanding: want 1'') (\<lambda>_.
      go_bind (t_must ''cancel'' (st_cancel_steps s (ids ! 0) ''invalid.workflow.name'')) (\<lambda>_.
      go_bind (t_must ''outstanding'' (st_retrieve_outstanding s name [ids ! 0])) (\<lambda>ids.
      go_bind (t_require (length ids = 1) ''outstanding: want 1'') (\<lambda>_.
      go_bind (t_must ''cancel'' (st_cancel_steps s (ids ! 0) name)) (\<lambda>_.
      go_bind (t_must ''outstanding'' (st_retrieve_outstanding s name [ids ! 0])) (\<lambda>ids.
      t_expect (length ids = 0) ''outstanding: want 0'')))))))))))))"

section \<open>The worker's operations\<close>

definition second :: int where "second = 1000000000"

record not_until_test =
  nt_name :: string
  nt_steps :: "step_config list"
  nt_wanted :: nat
  nt_wanted2 :: nat
  nt_req_type :: string

definition not_until_tests :: "time \<Rightarrow> not_until_test list" where
  "not_until_tests now =
     [\<lparr>nt_name = ''in-the-past'',
       nt_steps = [(test_step [''EnrollmentID-1'', ''EnrollmentID-2''] wf_test1 ''InstanceID-1'' []
                      [test_command ''UUID-1'' device_information ''Command-1''])\<lparr>cfg_not_until := now - minute\<rparr>],
       nt_wanted = 1, nt_wanted2 = 0, nt_req_type = device_information\<rparr>]"

definition not_until_body ::
  "('w, time) action \<Rightarrow> 'w storage \<Rightarrow> 'w worker_storage \<Rightarrow> not_until_test \<Rightarrow> ('w, unit) test" where
  "not_until_body now s ws test =
     go_bind (go_for (nt_steps test) (\<lambda>step.
        go_bind (t_must [] now) (\<lambda>t. t_must ''StoreStep'' (st_store_step s (Some step) t)))) (\<lambda>_.
     go_bind (t_must [] now) (\<lambda>t.
     go_bind (t_must ''RetrieveStepsToEnqueue'' (st_retrieve_steps_to_enqueue ws t)) (\<lambda>steps.
     go_bind (t_require (length steps = nt_wanted test) ''expected steps'') (\<lambda>_.
     go_bind (t_expect (\<not> (length steps \<ge> 1 \<and> nt_req_type test \<noteq> [] \<and> length (enq_commands (steps ! 0)) < 1))
                ''request type wanted, but no commands returned'') (\<lambda>_.
     go_bind (if length steps \<ge> 1 \<and> length (enq_commands (steps ! 0)) \<ge> 1
              then t_expect (raw_request_type (enq_commands (steps ! 0) ! 0) = nt_req_type test) ''expected request type''
              else go_ret ()) (\<lambda>_.
     go_bind (go_for steps (\<lambda>step.
        go_bind (go_for (enq_commands step) (\<lambda>cmd.
           t_expect (\<not> length (raw_command cmd) < 1) ''no command bytes for NotUntil command?'')) (\<lambda>_.
        t_expect (\<not> length (enq_ids step) < 1) ''no IDs for step''))) (\<lambda>_.
     go_bind (t_must [] now) (\<lambda>t.
     go_bind (t_must ''RetrieveStepsToEnqueue'' (st_retrieve_steps_to_enqueue ws t)) (\<lambda>steps.
     go_bind (t_require (length steps = nt_wanted2 test) ''expected steps (2nd)'') (\<lambda>_.
     go_for (nt_steps test) (\<lambda>step.
       go_for (enq_ids step) (\<lambda>i.
         go_bind (t_call (st_cancel_steps s i (ctx_workflow_name step))) (\<lambda>r.
         case r of Inl e \<Rightarrow> t_errorf ''cancelling steps'' | Inr _ \<Rightarrow> go_ret ())))))))))))))"

definition test_not_until ::
  "('w, time) action \<Rightarrow> 'w storage \<Rightarrow> 'w worker_storage \<Rightarrow> ('w, unit) test" where
  "test_not_until now s ws =
     go_bind (t_must [] now) (\<lambda>t.
     go_for (not_until_tests t) (\<lambda>test. t_run (nt_name test) (not_until_body now s ws test)))"

record timeout_test =
  ot_name :: string
  ot_steps :: "step_config list"
  ot_resps :: "(string \<times> command_result \<times> bool) list"
  ot_wanted :: nat
  ot_wanted2 :: nat
  ot_req_type :: string

definition timeout_tests :: "time \<Rightarrow> timeout_test list" where
  "timeout_tests now =
     [\<lparr>ot_name = ''timeout-test-1'',
       ot_steps = [(test_step [''EnrollmentID-1'', ''EnrollmentID-2'', ''EnrollmentID-3''] wf_test1 ''InstanceID-1'' []
                      [test_command ''Y-UUID-1'' device_information ''Y-UUID-1''])\<lparr>cfg_step_timeout := now - minute\<rparr>],
       ot_resps = [(''EnrollmentID-1'', test_result ''Y-UUID-1'' device_information ''Command-1'', True)],
       ot_wanted = 2, ot_wanted2 = 0, ot_req_type = device_information\<rparr>]"

definition timeout_body ::
  "('w, time) action \<Rightarrow> 'w storage \<Rightarrow> 'w worker_storage \<Rightarrow> timeout_test \<Rightarrow> ('w, unit) test" where
  "timeout_body now s ws test =
     go_bind (go_for (ot_steps test) (\<lambda>step.
        go_bind (t_must [] now) (\<lambda>t. t_must ''StoreStep'' (st_store_step s (Some step) t)))) (\<lambda>_.
     go_bind (go_for (ot_resps test) (\<lambda>(i, sc, completed).
        go_bind (t_must ''response'' (st_store_command_response s i sc)) (\<lambda>step.
        t_expect ((step \<noteq> None) = completed) ''mismatched completed''))) (\<lambda>_.
     go_bind (t_must ''RetrieveTimedOutSteps'' (st_retrieve_timed_out_steps ws)) (\<lambda>steps.
     go_bind (t_require (length steps = ot_wanted test) ''expected steps'') (\<lambda>_.
     go_bind (go_for steps (\<lambda>step. t_expect (ctx_workflow_name step \<noteq> []) ''empty workflow name'')) (\<lambda>_.
     go_bind (t_expect (\<not> (length steps \<ge> 1 \<and> ot_req_type test \<noteq> [] \<and> length (res_commands (steps ! 0)) < 1))
                ''request type wanted, but no commands returned'') (\<lambda>_.
     go_bind (if length steps \<ge> 1 \<and> length (res_commands (steps ! 0)) \<ge> 1
              then t_expect (cr_request_type (res_commands (steps ! 0) ! 0) = ot_req_type test) ''expected request type''
              else go_ret ()) (\<lambda>_.
     go_bind (t_must ''RetrieveTimedOutSteps'' (st_retrieve_timed_out_steps ws)) (\<lambda>steps.
     t_require (length steps = ot_wanted2 test) ''expected steps (2nd)''))))))))"

definition test_step_timeout ::
  "('w, time) action \<Rightarrow> 'w storage \<Rightarrow> 'w worker_storage \<Rightarrow> ('w, unit) test" where
  "test_step_timeout now s ws =
     go_bind (t_must [] now) (\<lambda>t.
     go_for (timeout_tests t) (\<lambda>test. t_run (ot_name test) (timeout_body now s ws test)))"

definition repush_step :: step_config where
  "repush_step =
     test_step [''EnrollmentID-1'', ''EnrollmentID-2''] wf_test1 ''InstanceID-1'' []
       [test_command ''W-UUID-1'' device_information ''Command-1'']"

definition repush_step2 :: "time \<Rightarrow> step_config" where
  "repush_step2 now =
     (test_step [''EnrollmentID-3''] wf_test1 ''InstanceID-1'' []
        [test_command ''UUID-1'' device_information ''Command-1''])\<lparr>cfg_not_until := now - minute\<rparr>"

definition test_repush :: "('w, time) action \<Rightarrow> 'w storage \<Rightarrow> 'w worker_storage \<Rightarrow> ('w, unit) test" where
  "test_repush clock s ws =
     (let enq = repush_step in
      go_bind (t_must [] clock) (\<lambda>now.
      go_bind (t_must ''StoreStep'' (st_store_step s (Some enq) now)) (\<lambda>_.
      go_bind (t_must ''response'' (st_store_command_response s (enq_ids enq ! 0)
                 (test_result ''W-UUID-1'' device_information ''Result-1''))) (\<lambda>_.
      let if_before = now + second * 2; now = if_before + second * 2 in
      go_bind (t_must ''RetrieveAndMarkRePushed'' (st_retrieve_and_mark_repushed ws if_before now)) (\<lambda>ids.
      go_bind (t_expect (ids = [enq_ids enq ! 1]) ''re-pushed'') (\<lambda>_.
      go_bind (t_must ''RetrieveAndMarkRePushed'' (st_retrieve_and_mark_repushed ws if_before now)) (\<lambda>ids.
      go_bind (t_expect (length ids = 0) ''re-pushed: want 0'') (\<lambda>_.
      let enq2 = repush_step2 now in
      go_bind (t_must ''StoreStep'' (st_store_step s (Some enq2) now)) (\<lambda>_.
      go_bind (t_must ''RetrieveAndMarkRePushed'' (st_retrieve_and_mark_repushed ws if_before now)) (\<lambda>ids.
      go_bind (t_expect (length ids = 0) ''re-pushed: want 0'') (\<lambda>_.
      go_bind (t_must ''RetrieveStepsToEnqueue'' (st_retrieve_steps_to_enqueue ws now)) (\<lambda>_.
      let if_before = now + second * 2; now = if_before + second * 2 in
      go_bind (t_must ''RetrieveAndMarkRePushed'' (st_retrieve_and_mark_repushed ws if_before now)) (\<lambda>ids.
      go_bind (t_expect (sort ids = sort [enq_ids enq ! 1, enq_ids enq2 ! 0]) ''re-pushed'') (\<lambda>_.
      go_bind (t_must ''RetrieveAndMarkRePushed'' (st_retrieve_and_mark_repushed ws if_before now)) (\<lambda>ids.
      t_expect (length ids = 0) ''re-pushed: want 0'')))))))))))))))"

section \<open>Event subscriptions and the whole suite\<close>

definition event_test :: event_subscription where
  "event_test = \<lparr>es_event = ''Enrollment'', es_workflow = ''wf'', es_context = ''ctx'', es_event_context = ''evCtx''\<rparr>"

definition test_event_data :: "event_subscription option \<Rightarrow> ('w, unit) test" where
  "test_event_data es =
     (case es of None \<Rightarrow> t_fatalf ''nil event subscription'' | Some es \<Rightarrow>
      go_bind (t_require (validate_event_subscription (Some es) = Inr ()) ''invalid test data'') (\<lambda>_.
      go_bind (t_expect (es_event es = es_event event_test) ''[event]'') (\<lambda>_.
      go_bind (t_expect (es_workflow es = es_workflow event_test) ''[workflow]'') (\<lambda>_.
      go_bind (t_expect (es_context es = es_context event_test) ''[context]'') (\<lambda>_.
      t_expect (es_event_context es = es_event_context event_test) ''[context]'')))))"

definition test_event_storage :: "'w full_event_storage \<Rightarrow> ('w, unit) test" where
  "test_event_storage es =
     go_bind (t_run ''testdata'' (test_event_data (Some event_test))) (\<lambda>_.
     go_bind (t_must ''store'' (es_store es ''test'' event_test)) (\<lambda>_.
     go_bind (t_must ''retrieve'' (es_retrieve es [''test''])) (\<lambda>events.
     go_bind (t_require (card (dom events) = 1) ''want 1'') (\<lambda>_.
     go_bind (t_run ''retrieve-by-name'' (test_event_data (events ''test''))) (\<lambda>_.
     go_bind (t_must ''retrieve'' (st_retrieve_event_subscriptions_by_event es event_enrollment)) (\<lambda>events.
     go_bind (t_require (length events = 1) ''want 1'') (\<lambda>_.
     t_run ''retrieve-by-event'' (test_event_data (Some (events ! 0))))))))))"

definition test_event_status_storage :: "'w storage \<Rightarrow> ('w, unit) test" where
  "test_event_status_storage s =
     go_bind (t_must ''RetrieveWorkflowStarted'' (st_retrieve_workflow_started s ''id.should.not.exist'' ''wfname.whaa''))
       (\<lambda>_. go_ret ())"

text \<open>\<open>fresh\<close> is the storage that the second call of \<open>newStorage\<close> returns.\<close>

definition test_engine_storage ::
  "('w, time) action \<Rightarrow> 'w engine_storage \<Rightarrow> 'w engine_storage \<Rightarrow> ('w, unit) test" where
  "test_engine_storage now s fresh =
     go_bind (main_test now (eg_storage s)) (\<lambda>_.
     go_bind (t_run ''testEngineStorageNotUntil'' (test_not_until now (eg_storage s) (eg_worker s))) (\<lambda>_.
     go_bind (t_run ''testEngineStepTimeout'' (test_step_timeout now (eg_storage s) (eg_worker s))) (\<lambda>_.
     go_bind (t_run ''testRepush'' (test_repush now (eg_storage fresh) (eg_worker fresh))) (\<lambda>_.
     go_bind (t_run ''testOutstanding'' (test_outstanding now (eg_storage s))) (\<lambda>_.
     go_bind (t_run ''testEvent'' (test_event_storage (eg_event s))) (\<lambda>_.
     t_run ''testEventStatus'' (test_event_status_storage (eg_storage s))))))))"

lemmas test_values [run_unfold] =
  test_step_def test_command_def test_result_def wf_test1_def device_information_def security_info_def response_of_def
  step_cmd_with_uuid_def truncate_second_def outstanding_step_def repush_step_def repush_step2_def not_until_tests_def
  timeout_tests_def second_def minute_def event_test_def

lemma enrollment_flag [run_unfold]:
  "event_flag_for_string ''Enrollment'' = 8" "event_enrollment = 8" "flag_int 8 = 8" "atoi (itoa 8) = Inr 8" "int_flag 8 = 8"
  "event_flag_string 8 = ''Enrollment''" "event_flag_valid 8"
  by (simp_all add: event_flag_for_string_def event_flag_values flag_int_def int_flag_def atoi_itoa min_int64_def max_int64_def
      event_flag_string_def event_flag_valid_def)

lemmas test_runs [run_rules] =
  step_body_def [THEN run_eq] check_started_def [THEN run_eq] response_body_def [THEN run_eq]
  check_completed_def [THEN run_eq] not_until_body_def [THEN run_eq] timeout_body_def [THEN run_eq]
  test_event_data_def [THEN run_eq]

end
