(* ===== verification/KVTests.thy ===== *)
theory KVTests
  imports StorageTests KVEventProps
begin

text \<open>
  The key-value storage passes the repository's conformance tests, evaluated in the kernel: in memory and on disk, from
  any number of IDs issued and at any instant.
\<close>

section \<open>The in-memory bucket\<close>

definition look :: "mem_bucket \<Rightarrow> string \<Rightarrow> bytes option" where "look b k = map_of b k"
definition pick :: "mem_bucket \<Rightarrow> string list \<Rightarrow> string \<rightharpoonup> bytes" where "pick b ks = map_of b |` set ks"

lemma look_simps [run_rules]: "look [] k = None" "look ((k', v) # b) k = (if k' = k then Some v else look b k)"
  by (simp_all add: look_def)
lemma pick_apply [run_rules]: "pick b ks k = (if k \<in> set ks then look b k else None)"
  by (simp add: pick_def look_def restrict_map_def)

lemma run_bucket [run_rules]:
  "run (b_has inmem_env k) b = (Inr (look b k \<noteq> None), b)"
  "run (b_get inmem_env k) b = (case look b k of None \<Rightarrow> (Inl ErrKeyNotFound, b) | Some v \<Rightarrow> (Inr v, b))"
  "run (bk_set inmem_env k v) b = (Inr (), AList.update k v b)"
  "run (bk_delete inmem_env k) b = (case look b k of None \<Rightarrow> (Inl ErrKeyNotFound, b) | Some v \<Rightarrow> (Inr (), AList.delete k b))"
  "run (bk_set_map inmem_env kvs) b = (Inr (), kvs @ b)"
  "run (b_get_map inmem_env ks) b = (if list_all (\<lambda>k. look b k \<noteq> None) ks then Inr (pick b ks) else Inl ErrKeyNotFound, b)"
  by (simp_all add: run_def b_has_def b_get_def b_get_map_def inmem_env_def look_def pick_def mem_set_map_def split: option.split)

lemma env_simps [run_rules]:
  "bk_keys inmem_env b = remdups (map fst b)"
  "new_uuid inmem_env n = CHR ''u'' # digits n"
  "go_time t \<Longrightarrow> marshal_time inmem_env t = Inr (itoa t)"
  "go_time t \<Longrightarrow> unmarshal_time inmem_env (itoa t) = Inr t"
  by (simp_all add: inmem_env_def itoa_def go_time_def)

lemma itoa_nonempty [run_rules]: "itoa t \<noteq> []" 
  by (simp add: itoa_def)

lemma AList_delete_simps [run_rules]:
  "AList.delete k [] = []" "AList.delete k ((k', v) # b) = (if k = k' then AList.delete k b else (k', v) # AList.delete k b)"
  by auto

lemma run_kv [run_rules]:
  "run (kv_find_workflow_steps_with_ids E name ids) b = run (go_fold (kv_find_workflow_steps_body E name ids) (bk_keys E b) []) b"
  "run (ider_id E) s = (Inr (new_uuid E (ids_issued s)), s\<lparr>ids_issued := Suc (ids_issued s)\<rparr>)"
  "run (kv_find_not_until_steps E now) b = run (go_fold (kv_due_body E ''.notuntil'' now) (bk_keys E b) []) b"
  "run (kv_find_timed_out_step_ids E now) b = run (go_fold (kv_due_body E ''.timeout'' now) (bk_keys E b) []) b"
  "run (\<lambda>b. go_fold (kv_re_push_body E if_before set_to) (bk_keys E b) ([], []) b) b = run (go_fold (kv_re_push_body E if_before set_to) (bk_keys E b) ([], [])) b"
  "run (kv_find_event_sub_names_by_event E f) b = run (go_fold (find_event_body E f) (bk_keys E b) []) b"
  by (simp_all add: run_def kv_find_workflow_steps_with_ids_def ider_id_def kv_find_not_until_steps_def
     kv_find_timed_out_step_ids_def kv_find_event_sub_names_by_event_def)

lemmas kv_runs [run_rules] =
  in_steps_def [THEN fun_cong, THEN run_eq]
  in_cmds_def [THEN fun_cong, THEN run_eq]
  in_steps_cmds_def [THEN fun_cong, THEN run_eq]
  in_events_def [THEN fun_cong, THEN run_eq]
  in_status_def [THEN fun_cong, THEN run_eq]
  time_now_def [THEN run_eq]
  retrieve_command_request_type_def [THEN run_eq]
  kv_command_result_def [THEN run_eq]
  kv_complete_step_def [THEN run_eq]
  store_command_response_def [THEN run_eq]
  check_duplicates_body_def [THEN run_eq]
  check_duplicates_def [THEN run_eq]
  store_step_command_def [THEN run_eq]
  store_step_def [THEN run_eq]
  outstanding_id_body_def [THEN run_eq]
  outstanding_step_body_def [THEN run_eq]
  retrieve_outstanding_workflow_status_def [THEN run_eq]
  cancel_step_def [THEN run_eq]
  cancel_steps_def [THEN run_eq]
  retrieve_workflow_started_def [THEN run_eq]
  record_workflow_started_def [THEN run_eq]
  kv_set_step_def [THEN run_eq]
  
  kv_get_step_cmds_def [THEN run_eq]
  kv_get_step_ids_def [THEN run_eq]
  kv_get_step_result_def [THEN run_eq]
  kv_get_id_cmd_req_type_def [THEN run_eq]
  
  kv_set_id_cmd_def [THEN run_eq]
  kv_id_cmd_exists_def [THEN run_eq]
  kv_id_cmd_is_complete_def [THEN run_eq]
  kv_get_id_cmd_result_def [THEN run_eq]
  kv_set_id_cmd_update_def [THEN run_eq]
  kv_get_id_cmd_step_id_def [THEN run_eq]
  kv_delete_keys_if_exists_def [THEN run_eq]
  kv_delete_id_cmd_def [THEN run_eq]
  kv_delete_step_def [THEN run_eq]
  kv_delete_step_not_until_def [THEN run_eq]
  kv_find_workflow_steps_body_def [THEN run_eq]
  kv_delete_step_if_all_ids_complete_def [THEN run_eq]
  kv_any_incomplete.simps [THEN run_eq] kv_collect_results.simps [THEN run_eq]

lemma run_collect [run_rules]:
  "run (kv_collect_complete_cmds E ps acc) w = run_with (\<lambda>ps. kv_collect_complete_cmds E ps acc) w ps"
  "run_with (\<lambda>ps. kv_collect_complete_cmds E ps acc) w [] = (Inr (Some acc), w)"
  "run_with (\<lambda>ps. kv_collect_complete_cmds E ps acc) w (p # ps) = run (go_bind (go_wrap ''checking command exists for %s: %w'' [snd p]
                (kv_id_cmd_exists E (fst p) (snd p))) (\<lambda>ok.
     if \<not> ok then kv_collect_complete_cmds E ps acc
     else
       go_bind (go_wrap ''checking command complete for %s: %w'' [snd p]
                  (kv_id_cmd_is_complete E (fst p) (snd p))) (\<lambda>ok.
       if \<not> ok then go_ret None
       else kv_collect_complete_cmds E ps (acc @ [p])))) w"
  by (simp_all add: run_def run_with_def go_ret_def)

lemmas value_defs [run_unfold] = workflow_status_key_def step_entries_def id_cmd_entries_def 
  step_suffixes_def cmd_suffixes_def marshal_strings_def unmarshal_strings_def meta_fields_def fst_upd_def snd_upd_def
  validate_step_config_def validate_step_enqueueing_def validate_step_context_def
  validate_command_result_def

lemma storage_runs [run_rules]:
  "run (st_retrieve_command_request_type (kv_storage E get put) i u) w = run (go_zoom get put (retrieve_command_request_type E i u)) w"
  "run (st_store_command_response (kv_storage E get put) i sc) w = run (go_zoom get put (store_command_response E i sc)) w"
  "run (st_store_step (kv_storage E get put) so t) w = run (go_zoom get put (store_step E so t)) w"
  "run (st_retrieve_outstanding (kv_storage E get put) name ids) w = run (go_zoom get put (retrieve_outstanding_workflow_status E name ids)) w"
  "run (st_cancel_steps (kv_storage E get put) i name) w = run (go_zoom get put (cancel_steps E i name)) w"
  "run (st_retrieve_workflow_started (kv_storage E get put) i name) w = run (go_zoom get put (retrieve_workflow_started E i name)) w"
  "run (st_record_workflow_started (kv_storage E get put) ids name t) w = run (go_zoom get put (record_workflow_started E ids name t)) w"
  by (simp_all add: kv_storage_def)


lemma worker_storage_runs [run_rules]:
  "run (st_retrieve_steps_to_enqueue (kv_worker_storage E get put) t) w = run (go_zoom get put (retrieve_steps_to_enqueue E t)) w"
  by (simp add: kv_worker_storage_def)
lemma worker_storage_runs2 [run_rules]:
  "run (st_retrieve_timed_out_steps (kv_worker_storage E get put)) w = run (go_zoom get put (retrieve_timed_out_steps E)) w"
  by (simp add: kv_worker_storage_def)
lemma worker_storage_runs3 [run_rules]:
  "run (st_retrieve_and_mark_repushed (kv_worker_storage E get put) t t') w = run (go_zoom get put (retrieve_and_mark_re_pushed E t t')) w"
  by (simp add: kv_worker_storage_def)

lemmas kv_worker_runs [run_rules] =
  kv_due_body_def [THEN run_eq] kv_get_id_cmd_raw_def [THEN run_eq] step_enqueueing_body_def [THEN run_eq]
  kv_get_step_enqueueing_def [THEN run_eq] kv_set_id_cmd_last_push_def [THEN run_eq] kv_get_id_cmd_step_result_def [THEN run_eq]
  kv_re_push_body_def [THEN run_eq] kv_find_commands_to_re_push_def [THEN run_eq] reset_pushes_body_def [THEN run_eq]
  steps_to_enqueue_body_def [THEN run_eq] retrieve_steps_to_enqueue_def [THEN run_eq] timed_out_cmd_body_def [THEN run_eq]
  timed_out_id_body_def [THEN run_eq] timed_out_step_body_def [THEN run_eq] retrieve_timed_out_steps_def [THEN run_eq]
  retrieve_and_mark_re_pushed_def [THEN run_eq]

fun starts_with :: "string \<Rightarrow> string \<Rightarrow> bool" where
  "starts_with [] s = True"
| "starts_with (c # p) s = (case s of [] \<Rightarrow> False | d # s \<Rightarrow> c = d \<and> starts_with p s)"

lemma has_suffix_rev [run_unfold]: "has_suffix s x = starts_with (rev x) (rev s)"
proof -
  have "starts_with p s = (\<exists>r. s = p @ r)" for p s
    by (induction p s rule: starts_with.induct) (auto split: list.split)
  then show ?thesis by (metis has_suffix_iff rev_append rev_rev_ident)
qed

lemma chop_suffix_rev [run_unfold]: "chop_suffix s x = rev (drop (length x) (rev s))"
  by (simp add: chop_suffix_def drop_rev)

lemma dot_no_digit: "\<not> is_digit CHR ''.''"
  by (simp add: is_digit_def)

lemma digits_dot [run_rules]:
  "digits n @ CHR ''.'' # x = digits m @ CHR ''.'' # y \<longleftrightarrow> n = m \<and> x = y"
proof -
  have no: "CHR ''.'' \<notin> set (digits k)" for k
    using digits_are_digits [of k] dot_no_digit by (auto simp: list_all_iff)
  have split: "a = c \<and> x = y" if "a @ CHR ''.'' # x = c @ CHR ''.'' # y" "CHR ''.'' \<notin> set a" "CHR ''.'' \<notin> set c" for a c :: string
    using that by (induction a arbitrary: c) (auto simp: append_eq_Cons_conv Cons_eq_append_conv)
  show ?thesis using split no digits_inj by (metis injD)
qed


section \<open>Event subscriptions\<close>

lemma event_storage_runs [run_rules]:
  "run (es_store (kv_full_event_storage E get put) name es) w = run (go_zoom get put (store_event_subscription E name (Some es))) w"
  by (simp add: kv_full_event_storage_def)
lemma event_storage_runs2 [run_rules]:
  "run (es_retrieve (kv_full_event_storage E get put) names) w = run (go_zoom get put (retrieve_event_subscriptions E names)) w"
  by (simp add: kv_full_event_storage_def)
lemma event_storage_runs3 [run_rules]:
  "run (st_retrieve_event_subscriptions_by_event (kv_full_event_storage E get put) f) w =
     run (go_zoom get put (retrieve_event_subscriptions_by_event E f)) w"
  by (simp add: kv_full_event_storage_def)

lemmas kv_event_runs [run_rules] =
  kv_event_set_def [THEN run_eq] kv_event_context_def [THEN run_eq] kv_event_get_def [THEN run_eq]
  event_subs_body_def [THEN run_eq] retrieve_event_subscriptions_def [THEN run_eq] find_event_body_def [THEN run_eq]
  event_by_name_body_def [THEN run_eq] retrieve_event_subscriptions_by_event_def [THEN run_eq]
  store_event_subscription_def [THEN run_eq]

section \<open>The tests, one by one\<close>

definition idle_store :: "mem_bucket \<Rightarrow> mem_bucket \<Rightarrow> nat \<Rightarrow> time \<Rightarrow> mem_bucket kv_store" where
  "idle_store c b n T =
     \<lparr>step_store = [], id_cmd_store = c, event_store = [], status_store = b, ids_issued = n, wall_clock = T\<rparr>"

definition late_status :: "time \<Rightarrow> mem_bucket" where
  "late_status T = [(''CCC222.workflow.name.test1'', itoa T)]"

text \<open>What cancelling for the first enrollment leaves of the second's command.\<close>

definition left_command :: "nat \<Rightarrow> time \<Rightarrow> mem_bucket" where
  "left_command n T =
     [(''EnrollmentID-2UUID-1.step'', CHR ''u'' # digits n), (''EnrollmentID-2UUID-1.reqtype'', ''DeviceInformation''),
      (''EnrollmentID-2UUID-1.id'', ''EnrollmentID-2''), (''EnrollmentID-2UUID-1.lastpush'', itoa T)]"

definition test_events :: mem_bucket where
  "test_events = [(''test.name'', ''wf''), (''test.flag'', itoa 8), (''test.ctx'', ''ctx''), (''test.evctx'', ''evCtx'')]"

text \<open>The two steps of the last test of the worker, both still open.\<close>

definition repush_store :: "nat \<Rightarrow> time \<Rightarrow> mem_bucket kv_store" where
  "repush_store n T =
     (let meta = ''InstanceID-1,workflow.name.test1,''; sid = (\<lambda>n. CHR ''u'' # digits n); t = 8000000000 + T in
      \<lparr>step_store =
         [(sid (Suc n) @ ''.meta'', meta), (sid (Suc n) @ ''.ids'', ''EnrollmentID-3''), (sid (Suc n) @ ''.cmds'', ''UUID-1''),
          (sid n @ ''.meta'', meta), (sid n @ ''.ids'', ''EnrollmentID-1,EnrollmentID-2''), (sid n @ ''.cmds'', ''W-UUID-1'')],
       id_cmd_store =
         [(''EnrollmentID-3UUID-1.lastpush'', itoa t), (''EnrollmentID-2W-UUID-1.lastpush'', itoa t),
          (''EnrollmentID-3UUID-1.step'', sid (Suc n)), (''EnrollmentID-3UUID-1.reqtype'', ''DeviceInformation''),
          (''EnrollmentID-3UUID-1.id'', ''EnrollmentID-3''), (''EnrollmentID-3UUID-1.lastpush'', itoa (4000000000 + T)),
          (''EnrollmentID-2W-UUID-1.lastpush'', itoa (4000000000 + T)), (''EnrollmentID-2W-UUID-1.step'', sid n),
          (''EnrollmentID-2W-UUID-1.reqtype'', ''DeviceInformation''), (''EnrollmentID-2W-UUID-1.id'', ''EnrollmentID-2''),
          (''EnrollmentID-2W-UUID-1.lastpush'', itoa T)],
       event_store = [], status_store = [], ids_issued = Suc (Suc n), wall_clock = T\<rparr>)"

lemmas test_states = idle_store_def late_status_def left_command_def test_events_def

definition test_time :: "time \<Rightarrow> bool" where
  "test_time T \<longleftrightarrow> go_time (T - minute) \<and> T \<noteq> minute \<and> go_time (T + minute)"

lemma test_times:
  assumes "test_time T"
  shows "go_time T" "T \<noteq> 0" "T \<noteq> 56000000000" "numeral j + T \<noteq> 0" "go_time (T - 60000000000)" "60000000000 < T" "T \<noteq> 60000000000" "go_time (T - 56000000000)"
    "(numeral k :: int) \<le> 60000000000 \<Longrightarrow> go_time (numeral k + T)" "(numeral k :: int) \<le> 60000000000 \<Longrightarrow> go_time (T + numeral k)"
proof -
  show "go_time T" "T \<noteq> 0" "T \<noteq> 56000000000" "numeral j + T \<noteq> 0" "go_time (T - 60000000000)" "60000000000 < T" "T \<noteq> 60000000000" "go_time (T - 56000000000)"
    using assms by (auto simp: test_time_def go_time_def minute_def add_eq_0_iff)
  have "go_time (j + T)" if "0 \<le> j" "j \<le> 60000000000" for j
    using that assms by (simp add: test_time_def go_time_def minute_def)
  from this [OF zero_le_numeral]
  show "(numeral k :: int) \<le> 60000000000 \<Longrightarrow> go_time (numeral k + T)" "(numeral k :: int) \<le> 60000000000 \<Longrightarrow> go_time (T + numeral k)"
    by (simp_all add: add.commute)
qed

text \<open>The tests' clock shows the time of the store.\<close>

definition shows_time :: "time \<Rightarrow> ('w \<Rightarrow> time) \<Rightarrow> ('b kv_store \<Rightarrow> 'w \<Rightarrow> 'w) \<Rightarrow> 'w \<Rightarrow> bool" where
  "shows_time T clk put w \<longleftrightarrow> (\<forall>s. wall_clock s = T \<longrightarrow> clk (put s w) = T)"

lemma shows_timeD: "shows_time T clk put w \<Longrightarrow> wall_clock s = T \<Longrightarrow> clk (put s w) = T"
  by (simp add: shows_time_def)

lemma main_run:
  assumes "lens get put" "shows_time T clk put w" "test_time T"
  shows "run (main_test (go_read clk) (kv_storage inmem_env get put)) (put (idle_store [] [] n T) w, fs) =
     (Inr (), put (idle_store [] (late_status T) (Suc (Suc (Suc (Suc (Suc (Suc n)))))) T) w, fs)"
  unfolding main_test_def main_tests_def
  by (simp add: lensD [OF assms(1)] shows_timeD [OF assms(2)] test_times [OF assms(3)] run_rules run_unfold test_states cong: run_congs)

lemma not_until_run:
  assumes "lens get put" "shows_time T clk put w" "test_time T"
  shows "run (test_not_until (go_read clk) (kv_storage inmem_env get put) (kv_worker_storage inmem_env get put))
       (put (idle_store [] b n T) w, fs) =
     (Inr (), put (idle_store (left_command n T) b (Suc n) T) w, fs)"
  unfolding test_not_until_def
  by (simp add: lensD [OF assms(1)] shows_timeD [OF assms(2)] test_times [OF assms(3)] run_rules run_unfold raw_of_map_def test_states cong: run_congs)

lemma timeout_run:
  assumes "lens get put" "shows_time T clk put w" "test_time T"
  shows "run (test_step_timeout (go_read clk) (kv_storage inmem_env get put) (kv_worker_storage inmem_env get put))
       (put (idle_store (left_command m T) b n T) w, fs) =
     (Inr (), put (idle_store (left_command m T) b (Suc n) T) w, fs)"
  unfolding test_step_timeout_def
  by (simp add: lensD [OF assms(1)] shows_timeD [OF assms(2)] test_times [OF assms(3)] run_rules run_unfold test_states cong: run_congs)

lemma repush_run:
  assumes "lens get put" "shows_time T clk put w" "test_time T"
  shows "run (test_repush (go_read clk) (kv_storage inmem_env get put) (kv_worker_storage inmem_env get put))
       (put (idle_store [] [] n T) w, fs) = (Inr (), put (repush_store n T) w, fs)"
  unfolding test_repush_def
  by (simp add: lensD [OF assms(1)] shows_timeD [OF assms(2)] test_times [OF assms(3)] inj_eq [OF digits_inj] run_rules run_unfold
      raw_of_map_def test_states repush_store_def Let_def cong: run_congs)

lemma outstanding_run:
  assumes "lens get put" "shows_time T clk put w" "test_time T"
  shows "run (test_outstanding (go_read clk) (kv_storage inmem_env get put)) (put (idle_store (left_command m T) b n T) w, fs) =
     (Inr (), put (idle_store (left_command m T) b (Suc n) T) w, fs)"
  unfolding test_outstanding_def
  by (simp add: lensD [OF assms(1)] shows_timeD [OF assms(2)] test_times [OF assms(3)] run_rules run_unfold test_states cong: run_congs)

lemma event_run:
  assumes "lens get put"
  shows "run (test_event_storage (kv_full_event_storage inmem_env get put)) (put (idle_store c b n T) w, fs) =
     (Inr (), put ((idle_store c b n T)\<lparr>event_store := test_events\<rparr>) w, fs)"
  unfolding test_event_storage_def
  by (simp add: lensD [OF assms] run_rules run_unfold event_entries_def or_empty_def validate_event_subscription_def
      test_states cong: run_congs)

lemma event_status_run:
  assumes "lens get put"
  shows "run (test_event_status_storage (kv_storage inmem_env get put))
       (put ((idle_store c (late_status T) n T)\<lparr>event_store := e\<rparr>) w, fs) =
     (Inr (), put ((idle_store c (late_status T) n T)\<lparr>event_store := e\<rparr>) w, fs)"
  unfolding test_event_status_storage_def
  by (simp add: lensD [OF assms(1)] run_rules run_unfold test_states cong: run_congs)

section \<open>The whole suite\<close>

text \<open>Two stores of a world, one for the suite and one for the test that starts afresh, that share IDs at most.\<close>

definition apart :: "time \<Rightarrow> ('w \<Rightarrow> 'b kv_store) \<Rightarrow> ('b kv_store \<Rightarrow> 'w \<Rightarrow> 'w) \<Rightarrow> ('w \<Rightarrow> 'b kv_store) \<Rightarrow> bool" where
  "apart T get put get' \<longleftrightarrow>
     (\<forall>s w. wall_clock s = T \<longrightarrow> wall_clock (get w) = T \<longrightarrow> wall_clock (get' w) = T \<longrightarrow>
        (\<exists>m. get' (put s w) = (get' w)\<lparr>ids_issued := m\<rparr>))"

lemma same_ids: "\<exists>m. s = s\<lparr>ids_issued := m\<rparr>"
  by (rule exI [of _ "ids_issued s"]) simp

lemma kv_suite:
  assumes l: "lens get put" "lens get' put'" and ap: "apart T get put get'" "apart T get' put' get"
    and clk: "\<And>w. clk w = T \<Longrightarrow> shows_time T clk put w" "\<And>w. clk w = T \<Longrightarrow> shows_time T clk put' w"
    and T: "test_time T" and w: "clk w = T" "get w = idle_store [] [] n T" "get' w = idle_store [] [] n' T"
  shows "passes (test_engine_storage (go_read clk) (kv_engine_new inmem_env get put) (kv_engine_new inmem_env get' put')) w"
proof -
  let ?S = "kv_storage inmem_env get put" and ?W = "kv_worker_storage inmem_env get put"
  note L = lensD [OF l(1)] and L' = lensD [OF l(2)]
  have time: "wall_clock (idle_store c b k T) = T" "wall_clock ((idle_store c b k T)\<lparr>ids_issued := m\<rparr>) = T"
    "(idle_store c b k T)\<lparr>ids_issued := m\<rparr> = idle_store c b m T" "wall_clock (repush_store k T) = T" for c b k m
    by (simp_all add: idle_store_def repush_store_def Let_def)
  let ?n = "Suc (Suc (Suc (Suc (Suc (Suc n)))))"
  have main: "run (main_test (go_read clk) ?S) (w, []) = (Inr (), put (idle_store [] (late_status T) ?n T) w, [])"
    using main_run [OF l(1) clk(1) [OF w(1)] T, where fs = "[]" and n = n] L(3) [of w] by (simp add: w(2))
  let ?c = "left_command ?n T"
  note delayed = not_until_run [OF l(1) clk(1) [OF w(1)] T, where fs = "[]" and n = "?n" and b = "late_status T"]
  note timed = timeout_run [OF l(1) clk(1) [OF w(1)] T, where fs = "[]" and n = "Suc ?n" and m = "?n" and b = "late_status T"]
  let ?s = "idle_store ?c (late_status T) (Suc (Suc ?n)) T"
  let ?w = "put ?s w"
  obtain k where k: "get' ?w = idle_store [] [] k T"
    using ap(1) w(2,3) unfolding apart_def by (metis time(1,3))
  have clk': "clk ?w = T" by (rule shows_timeD [OF clk(1) [OF w(1)] time(1)])
  let ?v = "put' (repush_store k T) ?w"
  have push: "run (test_repush (go_read clk) (kv_storage inmem_env get' put') (kv_worker_storage inmem_env get' put')) (?w, []) =
     (Inr (), ?v, [])"
    using repush_run [OF l(2) clk(2) [OF clk'] T, where fs = "[]" and n = k] L'(3) [of ?w] by (simp add: k)
  obtain m where "get ?v = ?s\<lparr>ids_issued := m\<rparr>"
    using ap(2) L(1) k unfolding apart_def by (metis time(1,4))
  then have v: "?v = put (idle_store ?c (late_status T) m T) ?v" using L(3) [of ?v] by (simp add: time(3))
  have clkv: "clk ?v = T" by (rule shows_timeD [OF clk(2) [OF clk'] time(4)])
  note outst = outstanding_run [OF l(1) clk(1) [OF clkv] T, where fs = "[]" and n = m and m = "?n" and b = "late_status T"]
  note event = event_run [OF l(1), where c = ?c and b = "late_status T" and n = "Suc m" and T = T and fs = "[]" and w = ?v]
  note status = event_status_run [OF l(1), where c = ?c and T = T and n = "Suc m" and e = test_events and fs = "[]" and w = ?v]
  have "run (test_engine_storage (go_read clk) (kv_engine_new inmem_env get put) (kv_engine_new inmem_env get' put')) (w, []) =
     (Inr (), put ((idle_store ?c (late_status T) (Suc m) T)\<lparr>event_store := test_events\<rparr>) ?v, [])"
    unfolding test_engine_storage_def kv_engine_new_def engine_storage.simps
    using outst [folded v]
    by (simp only: run_bind run_then_result run_sub main delayed timed push event status snd_conv)
  then show ?thesis by (auto simp: passes_def run_def)
qed

end
