(* ===== verification/MySQLTests.thy ===== *)
theory MySQLTests
  imports StorageTests MySQLProps
begin

text \<open>
  The MySQL storage passes the repository's conformance tests on a server that works, evaluated in the kernel, at any
  instant.
\<close>

section \<open>Runs on the server\<close>

text \<open>The instant that a column keeps, and the one that an argument carries.\<close>

definition kept :: "time \<Rightarrow> time" where "kept t = (t + 500000000) div 1000000000 * 1000000000"
definition carried :: "time \<Rightarrow> time" where "carried t = t div 1000 * 1000"

lemma plain_times [run_unfold]: "timestamp plain_server t = Some (kept t)" "time_arg plain_server t = carried t"
  by (simp_all add: kept_def carried_def)

lemma kept_shift: "kept (t + 1000000000 * k) = kept t + 1000000000 * k"
proof -
  have "(1000000000 * k + (t + 500000000)) div 1000000000 = k + (t + 500000000) div 1000000000"
    by (rule div_mult_self4) simp
  then show ?thesis by (simp add: kept_def algebra_simps)
qed

text \<open>How a transaction ends: with the tables that it began with, or with its own.\<close>

definition tx_end :: "tables \<Rightarrow> 'a result \<times> mysql \<Rightarrow> 'a result \<times> mysql" where
  "tx_end t p = (case p of (Inl e, s) \<Rightarrow> (Inl (Wrapf ''tx rolled back: %w'' [] e), tick (s\<lparr>db_tables := t\<rparr>))
                 | (Inr x, s) \<Rightarrow> (Inr x, tick s))"

lemma tx_end_result [run_rules]:
  "tx_end t (Inl e, s) = (Inl (Wrapf ''tx rolled back: %w'' [] e), tick (s\<lparr>db_tables := t\<rparr>))"
  "tx_end t (Inr x, s) = (Inr x, tick s)"
  by (simp_all add: tx_end_def)

lemma works_plain: "works plain_server"
  by simp

lemma tick_put: "(tick (s\<lparr>db_tables := t\<rparr>))\<lparr>db_tables := db_tables s\<rparr> = tick s"
  by (simp add: tick_def)

lemma run_tx [run_rules]: "run (tx plain_server g) s = tx_end (db_tables s) (run g (tick s))"
  by (auto simp: run_def tx_def call_works [OF works_plain] go_defs tx_end_def tick_put split: prod.split sum.split)

lemma run_query [run_rules]: "run (my_query plain_server q) s = (Inr (q (db_tables s)), tick s)"
  by (simp add: run_def my_query_def call_works [OF works_plain] go_read_def)

lemma run_one [run_rules]:
  "run (my_one plain_server q) s = (case q (db_tables s) of [] \<Rightarrow> (Inl err_no_rows, tick s) | r # _ \<Rightarrow> (Inr r, tick s))"
  by (simp add: run_def my_one_def my_query_def call_works [OF works_plain] go_defs split: list.split)

lemma run_exec [run_rules]:
  "run (my_exec plain_server f) s =
     (case f (server_clock s) (db_tables s) of Inl e \<Rightarrow> (Inl e, tick s) | Inr t \<Rightarrow> (Inr (), (tick s)\<lparr>db_tables := t\<rparr>))"
  by (simp add: run_def my_exec_def call_works [OF works_plain] split: sum.split)

definition new_step ::
  "string \<Rightarrow> string \<Rightarrow> string option \<Rightarrow> bytes \<Rightarrow> time option \<Rightarrow> time option \<Rightarrow> int \<Rightarrow> step_row result" where
  "new_step wname inst name ctx not_until timeout i =
     (if \<not> (length wname \<le> 255 \<and> length inst \<le> 255 \<and> accepts_null plain_server 255 name \<and> length ctx \<le> mediumtext)
      then Inl err_too_long
      else Inr \<lparr>row_id = i, row_workflow_name = wname, row_instance_id = inst, row_step_name = name,
                row_context = ctx, row_not_until = map_option kept not_until, row_timeout = map_option kept timeout,
                row_process_id = None\<rparr>)"

lemma run_create [run_rules]:
  "run (q_create_step plain_server wname inst name ctx not_until timeout) s =
     (case new_step wname inst name ctx not_until timeout (db_next_id s) of
        Inl e \<Rightarrow> (Inl e, (tick s)\<lparr>db_next_id := db_next_id s + 1\<rparr>)
      | Inr r \<Rightarrow> (Inr (db_next_id s), (tick s)\<lparr>db_next_id := db_next_id s + 1,
            db_tables := (db_tables s)\<lparr>t_steps := t_steps (db_tables s) @ [r]\<rparr>\<rparr>))"
  by (auto simp: run_def q_create_step_def call_works [OF works_plain] Let_def new_step_def tick_def timestamp_null_def kept_def
      split: option.split)

lemma run_rand [run_rules]:
  "run (rand_hex_string plain_server pre) s =
     (Inr (process_id plain_server pre (rand_reads s)), s\<lparr>rand_reads := Suc (rand_reads s)\<rparr>)"
  by (simp add: run_def rand_hex_string_def)

lemmas my_runs [run_rules] =
  my_retrieve_command_request_type_def [THEN run_eq]
  my_complete_step_def [THEN run_eq]
  my_count_outstanding_def [THEN run_eq]
  my_act_on_count_def [THEN run_eq]
  my_store_command_response_def [THEN run_eq]
  my_store_id_command_def [THEN run_eq]
  my_store_step_command_def [THEN run_eq]
  my_store_step_def [THEN run_eq]
  my_retrieve_outstanding_workflow_status_def [THEN run_eq]
  my_cancel_steps_def [THEN run_eq]
  my_retrieve_workflow_started_def [THEN run_eq]
  my_record_workflow_started_def [THEN run_eq]
  my_retrieve_steps_to_enqueue_def [THEN run_eq]
  my_retrieve_timed_out_steps_def [THEN run_eq]
  my_retrieve_and_mark_re_pushed_def [THEN run_eq]
  my_retrieve_event_subscriptions_def [THEN run_eq]
  my_retrieve_event_subscriptions_by_event_def [THEN run_eq]
  my_store_event_subscription_def [THEN run_eq]

lemmas my_queries [run_unfold] =
  q_get_request_type_def q_create_id_command_def q_delete_id_command_by_workflow_def q_delete_id_commands_def
  q_delete_unused_step_commands_def q_delete_workflow_step_having_no_commands_def
  q_delete_workflow_step_having_no_commands_by_workflow_name_def q_delete_workflow_step_having_no_commands_by_step_id_def
  q_update_id_command_timestamp_def q_update_id_command_def q_count_outstanding_id_workflow_step_commands_def
  q_get_step_by_id_def q_get_id_commands_by_step_id_and_lock_def q_remove_id_commands_by_step_id_def
  q_create_step_command_def q_get_outstanding_ids_def q_get_workflow_last_started_def
  q_update_step_after_not_until_def q_get_steps_by_process_id_def q_get_step_commands_by_process_id_def
  q_get_id_command_ids_by_process_id_def q_remove_step_commands_by_process_id_def q_update_last_push_by_process_id_def
  q_update_step_after_timeout_def q_get_steps_with_context_by_process_id_def q_get_id_command_details_by_process_id_def
  q_remove_id_commands_by_process_id_def q_remove_steps_by_process_id_def q_get_repush_ids_def q_update_repush_ids_def
  q_get_events_by_names_def q_get_events_by_type_def
  new_step_def sql_update_def sql_delete_def sql_in_def accepts_null_def timestamp_null_def mediumtext_def is_id_command_def
  ic_touch_def step_of_id_def has_id_commands_def has_step_commands_def delete_steps_def is_process_def pushed_before_def
  sql_null_string_def null_string_def sql_null_time_def db_result_def
  map_entry_at_def empty_enqueueing_def add_enrollment_def add_command_def released_steps_def result_of_row_def
  timed_out_body_def timed_out_steps_def subscription_of_row_def upsert_event_def upsert_status_def insert_statuses_def
  validate_step_config_def validate_step_enqueueing_def validate_step_context_def validate_command_result_def

lemma my_storage_runs [run_rules]:
  "run (st_retrieve_command_request_type (mysql_storage E get put) i u) w = run (go_zoom get put (my_retrieve_command_request_type E i u)) w"
  "run (st_store_command_response (mysql_storage E get put) i sc) w = run (go_zoom get put (my_store_command_response E i (Some sc))) w"
  "run (st_store_step (mysql_storage E get put) so t) w = run (go_zoom get put (my_store_step E so t)) w"
  "run (st_retrieve_outstanding (mysql_storage E get put) name ids) w = run (go_zoom get put (my_retrieve_outstanding_workflow_status E name ids)) w"
  "run (st_cancel_steps (mysql_storage E get put) i name) w = run (go_zoom get put (my_cancel_steps E i name)) w"
  "run (st_retrieve_workflow_started (mysql_storage E get put) i name) w = run (go_zoom get put (my_retrieve_workflow_started E i name)) w"
  "run (st_record_workflow_started (mysql_storage E get put) ids name t) w = run (go_zoom get put (my_record_workflow_started E ids name t)) w"
  by (simp_all add: mysql_storage_def)

lemma my_worker_runs [run_rules]:
  "run (st_retrieve_steps_to_enqueue (mysql_worker_storage E get put) t) w = run (go_zoom get put (my_retrieve_steps_to_enqueue E t)) w"
  by (simp add: mysql_worker_storage_def)
lemma my_worker_runs2 [run_rules]:
  "run (st_retrieve_timed_out_steps (mysql_worker_storage E get put)) w = run (go_zoom get put (my_retrieve_timed_out_steps E)) w"
  by (simp add: mysql_worker_storage_def)
lemma my_worker_runs3 [run_rules]:
  "run (st_retrieve_and_mark_repushed (mysql_worker_storage E get put) t t') w = run (go_zoom get put (my_retrieve_and_mark_re_pushed E t t')) w"
  by (simp add: mysql_worker_storage_def)

lemma my_event_runs [run_rules]:
  "run (es_store (mysql_full_event_storage E get put) name es) w = run (go_zoom get put (my_store_event_subscription E name es)) w"
  by (simp add: mysql_full_event_storage_def)
lemma my_event_runs2 [run_rules]:
  "run (es_retrieve (mysql_full_event_storage E get put) names) w = run (go_zoom get put (my_retrieve_event_subscriptions E names)) w"
  by (simp add: mysql_full_event_storage_def)
lemma my_event_runs3 [run_rules]:
  "run (st_retrieve_event_subscriptions_by_event (mysql_full_event_storage E get put) f) w =
     run (go_zoom get put (my_retrieve_event_subscriptions_by_event E f)) w"
  by (simp add: mysql_full_event_storage_def)

text \<open>The database of the tests after a number of calls.\<close>

definition test_db :: "tables \<Rightarrow> int \<Rightarrow> nat \<Rightarrow> nat \<Rightarrow> time \<Rightarrow> mysql" where
  "test_db t n c r T =
     \<lparr>db_tables = t, db_next_id = n, db_calls = c, rand_reads = r, server_clock = T, go_clock = T\<rparr>"

lemma tick_test_db [run_rules]: "tick \<lparr>db_tables = t, db_next_id = n, db_calls = c, rand_reads = r, server_clock = T, go_clock = T'\<rparr> =
   \<lparr>db_tables = t, db_next_id = n, db_calls = Suc c, rand_reads = r, server_clock = T, go_clock = T'\<rparr>"
  by (simp add: tick_def)

lemma two [run_rules]: "Suc (Suc 0) = 2" by simp

definition late_statuses :: "time \<Rightarrow> status_row list" where
  "late_statuses T = [\<lparr>ws_enrollment_id = ''CCC222'', ws_workflow_name = ''workflow.name.test1'', ws_last_created_unix = unix_seconds T\<rparr>]"

definition after_main :: "time \<Rightarrow> tables" where
  "after_main T = empty_tables\<lparr>t_status := late_statuses T\<rparr>"



lemma process_ids [run_rules]:
  "process_id plain_server ''notu'' 0 \<noteq> process_id plain_server ''notu'' (Suc 0)"
  "process_id plain_server ''tout'' 2 \<noteq> process_id plain_server ''tout'' 3"
  by code_simp+

text \<open>Rounding moves an instant by less than a second.\<close>

lemma kept_less:
  "kept (T - 60000000000) < carried T" "kept (T - 60000000000) \<le> carried T"
proof -
  have "kept (T - 60000000000) \<le> T - 60000000000 + 500000000" by (simp add: kept_def)
  moreover have "T < carried T + 1000" by (simp add: carried_def)
  ultimately show "kept (T - 60000000000) < carried T" "kept (T - 60000000000) \<le> carried T" by linarith+
qed

lemma no_rows [run_rules]: "errors_is err_no_rows err_no_rows"
  by (simp add: err_no_rows_def)

lemma whole_unix: "unix_time (unix_seconds T) = T - T mod 1000000000"
  by (simp add: unix_time_def unix_seconds_def algebra_simps flip: minus_mod_eq_div_mult)

lemma whole_unix_nonzero: "60000000000 < (T :: int) \<Longrightarrow> T - T mod 1000000000 \<noteq> 0"
  using pos_mod_bound [of 1000000000 T] by linarith

definition open_step :: "int \<Rightarrow> time option \<Rightarrow> string option \<Rightarrow> step_row" where
  "open_step i nu p =
     \<lparr>row_id = i, row_workflow_name = ''workflow.name.test1'', row_instance_id = ''InstanceID-1'', row_step_name = None,
      row_context = [], row_not_until = nu, row_timeout = None, row_process_id = p\<rparr>"

definition open_command :: "int \<Rightarrow> string \<Rightarrow> string \<Rightarrow> time \<Rightarrow> time \<Rightarrow> id_command_row" where
  "open_command i eid uuid lp T =
     \<lparr>ic_enrollment_id = eid, ic_command_uuid = uuid, ic_step_id = i, ic_request_type = ''DeviceInformation'',
      ic_completed = False, ic_result = [], ic_last_push = Some lp, ic_updated_at = T\<rparr>"

text \<open>The two steps of the last test of the worker, both still open.\<close>

definition after_repush :: "time \<Rightarrow> tables" where
  "after_repush T = (after_main T)\<lparr>
     t_steps := [open_step 7 None None,
                 open_step 8 (Some (kept (T - 56000000000))) (Some (process_id plain_server ''notu'' 4))],
     t_id_commands := [open_command 7 ''EnrollmentID-2'' ''W-UUID-1'' (kept (8000000000 + T)) T,
                       open_command 8 ''EnrollmentID-3'' ''UUID-1'' (kept (8000000000 + T)) T]\<rparr>"

definition test_event_rows :: "event_row list" where
  "test_event_rows =
     [\<lparr>er_event_name = ''test'', er_context = Some ''ctx'', er_event_context = Some ''evCtx'', er_workflow_name = ''wf'',
       er_event_type = ''Enrollment''\<rparr>]"

lemmas my_states = test_event_rows_def test_db_def late_statuses_def after_main_def empty_tables_def after_repush_def open_step_def open_command_def

text \<open>Rounding moves an instant by less than a second, which the worker's tests allow for.\<close>

lemma kept_bounds: "kept t \<le> t + 500000000" "t < kept t + 500000001" "carried t \<le> t" "t < carried t + 1000"
proof -
  have "kept t = t + 500000000 - (t + 500000000) mod 1000000000" "carried t = t - t mod 1000"
    by (simp_all add: kept_def carried_def minus_mod_eq_div_mult)
  moreover have "0 \<le> (t + 500000000) mod 1000000000" "(t + 500000000) mod 1000000000 < 1000000000" "0 \<le> t mod 1000" "t mod 1000 < 1000"
    by simp_all
  ultimately show "kept t \<le> t + 500000000" "t < kept t + 500000001" "carried t \<le> t" "t < carried t + 1000" by linarith+
qed

lemma test_pushes:
  "kept T < carried (T + 2000000000)" "\<not> kept (4000000000 + T) < carried (T + 2000000000)"
  "kept (T - 56000000000) < carried (4000000000 + T)" "kept (4000000000 + T) < carried (6000000000 + T)"
  "T < carried (6000000000 + T)" "\<not> kept (8000000000 + T) < carried (6000000000 + T)"
  "kept (4000000000 + T) \<noteq> kept T" "kept (8000000000 + T) \<noteq> kept (4000000000 + T)" "kept (8000000000 + T) \<noteq> T"
  using kept_bounds [of T] kept_bounds [of "T + 2000000000"] kept_bounds [of "4000000000 + T"] kept_bounds [of "6000000000 + T"]
    kept_bounds [of "8000000000 + T"] kept_bounds [of "T - 56000000000"] by linarith+

lemmas my_test_rules = run_rules run_unfold my_states step_context.defs step_result.defs kept_less whole_unix whole_unix_nonzero test_pushes

lemma my_main_run:
  assumes "lens get put" "minute < T"
  shows "run (main_test (go_read (\<lambda>w. go_clock (get w))) (mysql_storage plain_server get put)) (put (test_db empty_tables 1 0 0 T) w, fs) =
     (Inr (), put (test_db (after_main T) 5 74 0 T) w, fs)"
  unfolding main_test_def main_tests_def
  by (insert assms(2); simp add: lensD [OF assms(1)] minute_def my_test_rules del: plain_server_sel(3,4) cong: run_congs)

lemma my_outstanding_run:
  assumes "lens get put" "minute < T"
  shows "run (test_outstanding (go_read (\<lambda>w. go_clock (get w))) (mysql_storage plain_server get put)) (put (test_db (after_repush T) 9 180 r T) w, fs) =
     (Inr (), put (test_db (after_repush T) 10 206 r T) w, fs)"
  unfolding test_outstanding_def
  by (insert assms(2); simp add: lensD [OF assms(1)] minute_def my_test_rules del: plain_server_sel(3,4) cong: run_congs)

lemma my_not_until_run:
  assumes "lens get put" "minute < T"
  shows "run (test_not_until (go_read (\<lambda>w. go_clock (get w))) (mysql_storage plain_server get put) (mysql_worker_storage plain_server get put))
       (put (test_db (after_main T) 5 74 0 T) w, fs) =
     (Inr (), put (test_db (after_main T) 6 106 2 T) w, fs)"
  unfolding test_not_until_def
  by (insert assms(2); simp add: lensD [OF assms(1)] minute_def my_test_rules del: plain_server_sel(3,4) cong: run_congs)

lemma my_timeout_run:
  assumes "lens get put" "minute < T"
  shows "run (test_step_timeout (go_read (\<lambda>w. go_clock (get w))) (mysql_storage plain_server get put) (mysql_worker_storage plain_server get put))
       (put (test_db (after_main T) 6 106 2 T) w, fs) =
     (Inr (), put (test_db (after_main T) 7 135 4 T) w, fs)"
  unfolding test_step_timeout_def
  by (insert assms(2); simp add: lensD [OF assms(1)] minute_def my_test_rules del: plain_server_sel(3,4) cong: run_congs)

lemma my_repush_run:
  assumes "lens get put" "minute < T"
  shows "run (test_repush (go_read (\<lambda>w. go_clock (get w))) (mysql_storage plain_server get put) (mysql_worker_storage plain_server get put))
       (put (test_db (after_main T) 7 135 4 T) w, fs) =
     (Inr (), put (test_db (after_repush T) 9 180 5 T) w, fs)"
  unfolding test_repush_def
  by (insert assms(2); simp add: lensD [OF assms(1)] minute_def my_test_rules Let_def del: plain_server_sel(3,4) cong: run_congs)

lemma my_event_run:
  assumes "lens get put"
  shows "run (test_event_storage (mysql_full_event_storage plain_server get put)) (put (test_db (after_repush T) 10 206 5 T) w, fs) =
     (Inr (), put (test_db ((after_repush T)\<lparr>t_events := test_event_rows\<rparr>) 10 209 5 T) w, fs)"
  unfolding test_event_storage_def
  by (simp add: lensD [OF assms(1)] my_test_rules validate_event_subscription_def del: plain_server_sel(3,4) cong: run_congs)

lemma my_event_status_run:
  assumes "lens get put"
  shows "run (test_event_status_storage (mysql_storage plain_server get put)) (put (test_db ((after_repush T)\<lparr>t_events := es\<rparr>) 10 209 5 T) w, fs) =
     (Inr (), put (test_db ((after_repush T)\<lparr>t_events := es\<rparr>) 10 210 5 T) w, fs)"
  unfolding test_event_status_storage_def
  by (simp add: lensD [OF assms(1)] my_test_rules del: plain_server_sel(3,4) cong: run_congs)

section \<open>The whole suite\<close>

lemma mysql_suite:
  assumes "lens get put" "minute < T"
  shows "run (test_engine_storage (go_read (\<lambda>w. go_clock (get w)))
       \<lparr>eg_storage = mysql_storage plain_server get put, eg_worker = mysql_worker_storage plain_server get put,
        eg_event = mysql_full_event_storage plain_server get put\<rparr>
       \<lparr>eg_storage = mysql_storage plain_server get put, eg_worker = mysql_worker_storage plain_server get put,
        eg_event = mysql_full_event_storage plain_server get put\<rparr>) (put (database empty_tables 1 T) w, []) =
     (Inr (), put (test_db ((after_repush T)\<lparr>t_events := test_event_rows\<rparr>) 10 210 5 T) w, [])"
proof -
  have start: "database empty_tables 1 T = test_db empty_tables 1 0 0 T"
    by (simp add: database_def test_db_def)
  show ?thesis
    unfolding test_engine_storage_def engine_storage.simps start
    by (simp only: run_bind run_then_result run_sub snd_conv my_main_run [OF assms] my_not_until_run [OF assms]
      my_timeout_run [OF assms] my_repush_run [OF assms] my_outstanding_run [OF assms] my_event_run [OF assms(1)]
      my_event_status_run [OF assms(1)])
qed

end
