(* ===== verification/MySQLAgree.thy ===== *)
theory MySQLAgree
  imports MySQLProps KVStepProps
begin

text \<open>
  The MySQL backend beside its surroundings: cancelling steps, storing an event subscription and reading it
  back, the engine starting a workflow on this backend, and the two backends answering alike: storing a step
  keeps the enrollments that they report outstanding the same.
\<close>

section \<open>Cancelling\<close>

definition cancelled :: "mysql_env \<Rightarrow> string \<Rightarrow> string \<Rightarrow> tables \<Rightarrow> id_command_row \<Rightarrow> bool" where
  "cancelled E eid name t c \<longleftrightarrow>
     (name \<noteq> [] \<longrightarrow> step_of_id (\<lambda>r. sql_eq E (row_workflow_name r) name) (ic_step_id c) t) \<and>
     sql_eq E (ic_enrollment_id c) eid"

definition own_uuids :: "mysql_env \<Rightarrow> tables \<Rightarrow> bool" where
  "own_uuids E t \<longleftrightarrow>
     (\<forall>sc\<in>set (t_step_commands t). \<forall>c\<in>set (t_id_commands t).
        sql_eq E (sc_command_uuid sc) (ic_command_uuid c) \<longrightarrow> ic_step_id c = sc_step_id sc)"

text \<open>
  C18: Cancelling deletes the enrollment's commands of the named workflow, or all of them when no workflow is
  named, and then exactly the steps left without a command; the other enrollments of a step keep theirs.
  Steps that wait for their release do not share command UUIDs with other steps.
\<close>

theorem mysql_cancel:
  assumes w: "works E" and s: "intact E (db_next_id s) (db_tables s)" and own: "own_uuids E (db_tables s)"
    and eid: "eid \<noteq> []"
  shows "\<exists>s'. my_cancel_steps E eid name s = (Inr (), s') \<and>
     t_id_commands (db_tables s') = [c \<leftarrow> t_id_commands (db_tables s). \<not> cancelled E eid name (db_tables s) c] \<and>
     t_steps (db_tables s') =
       [r \<leftarrow> t_steps (db_tables s). \<exists>c\<in>set (t_id_commands (db_tables s')). ic_step_id c = row_id r]"
proof -
  let ?t = "db_tables s"
  define cs where "cs = sql_delete (cancelled E eid name ?t) (t_id_commands ?t)"
  define scs where "scs = sql_delete (\<lambda>sc. \<not> list_ex (\<lambda>c. sql_eq E (sc_command_uuid sc) (ic_command_uuid c)) cs) (t_step_commands ?t)"
  define u where "u = ?t\<lparr>t_id_commands := cs, t_step_commands := scs\<rparr>"
  define D where "D r \<longleftrightarrow> \<not> has_id_commands u (row_id r) \<and> (name \<noteq> [] \<longrightarrow> sql_eq E (row_workflow_name r) name)" for r :: step_row
  have step: "D r \<longleftrightarrow> \<not> (\<exists>c\<in>set cs. ic_step_id c = row_id r)" if r: "r \<in> set (t_steps ?t)" for r
  proof -
    obtain c where c: "c \<in> set (t_id_commands ?t)" "ic_step_id c = row_id r" using has_command_of [OF s r] .
    have "c \<in> set cs" if "name \<noteq> []" "\<not> sql_eq E (row_workflow_name r) name"
      using that c intact_unique_step [OF s r] by (simp add: cs_def cancelled_def)
    with c(2) show ?thesis by (auto simp: D_def u_def has_id_commands_iff)
  qed
  have "\<not> has_step_commands u (row_id r)" if r: "r \<in> set (t_steps ?t)" "D r" for r
  proof
    assume "has_step_commands u (row_id r)"
    then obtain sc c where sc: "sc \<in> set (t_step_commands ?t)" "sc_step_id sc = row_id r" "c \<in> set cs"
      "sql_eq E (sc_command_uuid sc) (ic_command_uuid c)"
      by (auto simp: u_def has_step_commands_iff scs_def list_ex_iff)
    then have "ic_step_id c = row_id r" using own by (auto simp: own_uuids_def cs_def)
    with sc(3) step [OF r(1)] r(2) show False by blast
  qed
  then have gone: "delete_steps D u = Inr (u\<lparr>t_steps := sql_delete D (t_steps ?t)\<rparr>)"
    by (auto simp: delete_steps_def list_ex_iff D_def) (simp_all add: u_def)
  have del: "(if name \<noteq> [] then q_delete_id_command_by_workflow E eid name now ?t else q_delete_id_commands E eid now ?t)
      = Inr (?t\<lparr>t_id_commands := cs\<rparr>)" for now
    by (simp add: q_delete_id_command_by_workflow_def q_delete_id_commands_def cs_def cancelled_def [abs_def])
  have unused: "q_delete_unused_step_commands E now (?t\<lparr>t_id_commands := cs\<rparr>) = Inr u" for now
    by (simp add: q_delete_unused_step_commands_def scs_def u_def)
  have steps: "(if name \<noteq> [] then q_delete_workflow_step_having_no_commands_by_workflow_name E name now u
        else q_delete_workflow_step_having_no_commands now u) = delete_steps D u" for now
    by (simp add: q_delete_workflow_step_having_no_commands_by_workflow_name_def
        q_delete_workflow_step_having_no_commands_def D_def [abs_def])
  have "wp (my_cancel_steps E eid name)
      (\<lambda>r s'. r = Inr () \<and> db_tables s' = u\<lparr>t_steps := sql_delete D (t_steps ?t)\<rparr>) s"
    using eid del [of "server_clock s"] unused [of "server_clock s"] steps [of "server_clock s"] gone
    by (cases "name = []"; simp add: my_cancel_steps_def wp_my [OF w])
  moreover have "sql_delete D (t_steps ?t) = [r \<leftarrow> t_steps ?t. \<exists>c\<in>set cs. ic_step_id c = row_id r]"
    using step by (auto simp: sql_delete_def intro!: filter_cong)
  ultimately show ?thesis by (auto simp: wp_ex u_def cs_def sql_delete_def)
qed

definition shared_step :: tables where
  "shared_step =
     plain_tables [plain_row 1 None None] [plain_command ''AAA'' ''U1'' 1 False, plain_command ''BBB'' ''U1'' 1 False] []"

lemma shared_step_facts [simp]:
  "intact plain_server 2 shared_step" "t_steps shared_step = [plain_row 1 None None]"
  "t_id_commands shared_step = [plain_command ''AAA'' ''U1'' 1 False, plain_command ''BBB'' ''U1'' 1 False]"
  "own_uuids plain_server shared_step"
  by (simp_all add: shared_step_def integrity_defs ic_key_def own_uuids_def)

theorem mysql_cancel_witness:
  "\<exists>s. my_cancel_steps plain_server ''AAA'' [] (database shared_step 2 7) = (Inr (), s) \<and>
     t_id_commands (db_tables s) = [plain_command ''BBB'' ''U1'' 1 False] \<and>
     t_steps (db_tables s) = [plain_row 1 None None]"
proof -
  let ?s = "database shared_step 2 7"
  obtain s where s: "my_cancel_steps plain_server ''AAA'' [] ?s = (Inr (), s)"
    "t_id_commands (db_tables s) = [c \<leftarrow> t_id_commands (db_tables ?s). \<not> cancelled plain_server ''AAA'' [] (db_tables ?s) c]"
    "t_steps (db_tables s) = [r \<leftarrow> t_steps (db_tables ?s). \<exists>c\<in>set (t_id_commands (db_tables s)). ic_step_id c = row_id r]"
    using mysql_cancel [of plain_server ?s "''AAA''" "[]"] by auto
  have "t_id_commands (db_tables s) = [plain_command ''BBB'' ''U1'' 1 False]"
    using s(2) by (simp add: cancelled_def)
  moreover from this have "t_steps (db_tables s) = [plain_row 1 None None]" using s(3) by simp
  ultimately show ?thesis using s(1) by (intro exI [of _ s]) simp
qed

section \<open>Event subscriptions\<close>

definition event_fits :: "mysql_env \<Rightarrow> string \<Rightarrow> event_subscription \<Rightarrow> bool" where
  "event_fits E name es \<longleftrightarrow>
     accepts E 255 name \<and> accepts E 63 (es_event es) \<and> accepts E 255 (es_workflow es) \<and>
     accepts_null E mediumtext (sql_null_string (es_event_context es)) \<and>
     accepts_null E mediumtext (sql_null_string (es_context es))"

lemma stored_event_row:
  assumes t: "intact E n t" and one: "inj (collation E)" and run: "upsert_event E new now t = Inr t'"
  shows "q_get_events_by_names E [er_event_name new] t' = [new]"
proof -
  have "distinct (map (er_key E) (t_events t'))"
    using intact_upsert_event [OF t run] by (simp add: intact_def primary_keys_def)
  moreover have "new \<in> set (t_events t')"
    using run one by (auto simp: upsert_event_def Let_def set_sql_update list_ex_iff sql_eq_def inj_eq split: if_splits)
  ultimately have "[r \<leftarrow> t_events t'. er_key E r = er_key E new] = [new]" by (rule filter_single)
  then show ?thesis
    by (simp add: q_get_events_by_names_def sql_in_iff sql_eq_def er_key_def)
qed

text \<open>
  An event subscription that fits its columns is read back under its name exactly as stored, in place of
  any subscription the name had before.
\<close>

theorem mysql_event_stored:
  assumes "works E" "inj (collation E)" "intact E (db_next_id s) (db_tables s)" "event_fits E name es"
  shows "\<exists>s' s''. my_store_event_subscription E name es s = (Inr (), s') \<and>
     my_retrieve_event_subscriptions E [name] s' = (Inr [name \<mapsto> es], s'') \<and> db_tables s'' = db_tables s'"
proof -
  let ?new = "\<lparr>er_event_name = name, er_context = sql_null_string (es_context es),
        er_event_context = sql_null_string (es_event_context es), er_workflow_name = es_workflow es,
        er_event_type = es_event es\<rparr>"
  obtain t' where t': "upsert_event E ?new (server_clock s) (db_tables s) = Inr t'"
    using assms(4) by (auto simp: upsert_event_def event_fits_def Let_def)
  have rows: "q_get_events_by_names E [name] t' = [?new]"
    using stored_event_row [OF assms(3,2) t'] by simp
  have sub: "subscription_of_row ?new = es" by (simp add: subscription_of_row_def)
  have "wp (my_store_event_subscription E name es) (\<lambda>r s'. r = Inr () \<and> db_tables s' = t') s"
    by (simp add: my_store_event_subscription_def wp_my [OF assms(1)] t')
  then obtain s' where s': "my_store_event_subscription E name es s = (Inr (), s')" "db_tables s' = t'"
    by (auto simp: wp_ex)
  have "wp (my_retrieve_event_subscriptions E [name]) (\<lambda>r s''. r = Inr [name \<mapsto> es] \<and> db_tables s'' = t') s'"
    by (simp add: sub my_retrieve_event_subscriptions_def wp_my [OF assms(1)] s'(2) rows)
  with s' show ?thesis by (auto simp: wp_ex)
qed

theorem mysql_event_stored_witness:
  "\<exists>s s'. my_retrieve_event_subscriptions plain_server [''ev''] s =
     (Inr [''ev'' \<mapsto> \<lparr>es_event = ''Enrollment'', es_workflow = ''wf'', es_context = [], es_event_context = []\<rparr>], s')"
proof -
  let ?es = "\<lparr>es_event = ''Enrollment'', es_workflow = ''wf'', es_context = [], es_event_context = []\<rparr>"
  have "event_fits plain_server ''ev'' ?es"
    by (simp add: event_fits_def accepts_null_def sql_null_string_def)
  from mysql_event_stored [OF _ _ _ this, of "database empty_tables 1 7"]
  show ?thesis by (auto simp: empty_intact)
qed

section \<open>The engine on this backend\<close>

context mysql_system
begin

lemma my_same_tables: "my_same w w' \<Longrightarrow> db_tables (get w') = db_tables (get w)"
  by (auto simp: my_same_def same_dbD(1))

lemma start_refused_my:
  assumes "en_storage e = mysql_storage E get put" "sound E (get w)" "distinct ids" "ids \<noteq> []"
    "engine_workflow e name = Some wk" "is_exclusive wk" "\<forall>i\<in>set ids. open_in_workflow (db_tables (get w)) name i"
  shows "\<exists>args w'. start_workflow e name ctx ids ev mctx w =
            (Inl (Wrapf ''%w on %d (of %d) ids'' args ErrWorkflowAlreadyStarted), w') \<and>
          db_tables (get w') = db_tables (get w)"
proof -
  have "\<forall>i\<in>set ids. my_outst w name ids i" using assms(7) by (simp add: my_outst_def)
  from mysto.start_all_outstanding [OF assms(1-6) this, of ctx ev mctx]
  obtain args w' where w': "my_same w w'" "start_workflow e name ctx ids ev mctx w =
      (Inl (Wrapf ''%w on %d (of %d) ids'' args ErrWorkflowAlreadyStarted), w')" by blast
  show ?thesis using w'(2) my_same_tables [OF w'(1)] by (intro exI [of _ args] exI [of _ w']) simp
qed

lemma start_runs_my:
  assumes "en_storage e = mysql_storage E get put" "sound E (get w)" "distinct ids"
    "engine_workflow e name = Some wk" "is_exclusive wk" "\<exists>i\<in>set ids. \<not> open_in_workflow (db_tables (get w)) name i"
  shows "\<exists>new w'. distinct new \<and> set new = {i \<in> set ids. \<not> open_in_workflow (db_tables (get w)) name i} \<and>
          db_tables (get w') = db_tables (get w) \<and>
          start_workflow e name ctx ids ev mctx w =
             go_bind (en_new_id e) (\<lambda>instanceID.
             go_bind (go_for (start_ids e new) (start_instance e wk name ctx ev mctx instanceID)) (\<lambda>_.
             go_ret instanceID)) w'"
proof -
  have "ids = [] \<or> (\<exists>i\<in>set ids. \<not> my_outst w name ids i)" using assms(6) by (simp add: my_outst_def)
  from mysto.start_not_outstanding [OF assms(1-5) this, of ctx ev mctx]
  obtain new w' where w': "my_same w w'" "distinct new" "set new = {i \<in> set ids. \<not> my_outst w name ids i}"
    "start_workflow e name ctx ids ev mctx w =
       go_bind (en_new_id e) (\<lambda>instanceID.
       go_bind (go_for (start_ids e new) (start_instance e wk name ctx ev mctx instanceID)) (\<lambda>_.
       go_ret instanceID)) w'" by blast
  show ?thesis
    using w'(2-4) my_same_tables [OF w'(1)] by (intro exI [of _ new] exI [of _ w']) (simp add: my_outst_def)
qed

end

text \<open>
  On the MySQL backend the engine starts an exclusive workflow for just those of the enrollments that have
  no open command of it, and when all have one it refuses with the already-started error; the check itself
  changes no table.
\<close>

theorem mysql_start:
  assumes "mysql_system E get put" "en_storage e = mysql_storage E get put"
    and "intact E (db_next_id (get w)) (db_tables (get w))"
    and "engine_workflow e name = Some wk" "is_exclusive wk" "distinct ids" "ids \<noteq> []"
  shows "\<exists>w'. db_tables (get w') = db_tables (get w) \<and>
     (if \<forall>i\<in>set ids. open_in_workflow (db_tables (get w)) name i
      then \<exists>args. start_workflow e name ctx ids ev mctx w =
             (Inl (Wrapf ''%w on %d (of %d) ids'' args ErrWorkflowAlreadyStarted), w')
      else \<exists>new. distinct new \<and> set new = {i \<in> set ids. \<not> open_in_workflow (db_tables (get w)) name i} \<and>
             start_workflow e name ctx ids ev mctx w =
               go_bind (en_new_id e) (\<lambda>instanceID.
               go_bind (go_for (start_ids e new) (start_instance e wk name ctx ev mctx instanceID)) (\<lambda>_.
               go_ret instanceID)) w')"
proof (cases "\<forall>i\<in>set ids. open_in_workflow (db_tables (get w)) name i")
  case True
  from mysql_system.start_refused_my [OF assms(1-3,6,7,4,5) True, of ctx ev mctx] True show ?thesis by auto
next
  case False
  then have "\<exists>i\<in>set ids. \<not> open_in_workflow (db_tables (get w)) name i" by blast
  from mysql_system.start_runs_my [OF assms(1-3,6,4,5) this, of ctx ev mctx] False show ?thesis by auto
qed

definition mysql_engine :: "(mysql, command_raw, string) engine" where
  "mysql_engine =
     register_workflow
       \<lparr>wf_name = ''wf'', wf_config = None, wf_new_context_value = (\<lambda>_. None), wf_start = (\<lambda>_. go_ret ()),
        wf_step_completed = (\<lambda>_. go_ret ()), wf_step_timeout = (\<lambda>_. go_ret ()), wf_event = (\<lambda>_ _ _. go_ret ())\<rparr>
       (new_engine (mysql_storage plain_server (\<lambda>s. s) (\<lambda>s _. s)) (\<lambda>_ _. go_ret ()) False (go_ret ''inst'')
          (go_read go_clock) demo_lib run_in_order AtReturn [])"

theorem mysql_start_witness:
  "\<exists>args s. start_workflow mysql_engine ''wf'' [] [''BBB'', ''AAA''] None None (database shared_step 2 7) =
            (Inl (Wrapf ''%w on %d (of %d) ids'' args ErrWorkflowAlreadyStarted), s)"
proof -
  let ?s = "database shared_step 2 7"
  obtain wk where wk: "engine_workflow mysql_engine ''wf'' = Some wk" "is_exclusive wk"
    by (auto simp: mysql_engine_def engine_workflow_def register_workflow_def new_engine_def is_exclusive_def)
  have sto: "en_storage mysql_engine = mysql_storage plain_server (\<lambda>s. s) (\<lambda>s _. s)"
    by (simp add: mysql_engine_def register_workflow_def new_engine_def)
  have "intact plain_server (db_next_id ?s) (db_tables ?s)" "distinct [''BBB'', ''AAA'']" "[''BBB'', ''AAA''] \<noteq> []" by simp_all
  from mysql_start [OF plain.mysql_system_axioms sto this(1) wk this(2,3), of "[]" None None]
  show ?thesis by (auto simp: open_in_workflow_def)
qed

section \<open>Two backends, one answer\<close>

text \<open>
  The two stores agree when they report the same enrollments outstanding, for queries with enrollment IDs, which
  the generator of step IDs does not hand out.
\<close>

definition same_outstanding :: "'b kv_env \<Rightarrow> astore \<Rightarrow> tables \<Rightarrow> bool" where
  "same_outstanding K a t \<longleftrightarrow>
     (\<forall>name ids i. (\<forall>j. new_uuid K j \<notin> set ids) \<longrightarrow>
        (outstanding a name ids i \<longleftrightarrow> i \<in> set ids \<and> open_in_workflow t name i))"

definition unused_uuids :: "step_config \<Rightarrow> astore \<Rightarrow> bool" where
  "unused_uuids st a \<longleftrightarrow>
     distinct (enq_ids st) \<and> distinct (map raw_uuid (enq_commands st)) \<and>
     (\<forall>c\<in>set (enq_commands st). (\<forall>i. a_cmds a (i, raw_uuid c) = None) \<and>
        (\<forall>x\<in>ran (a_steps a). raw_uuid c \<notin> set (as_uuids x)))"

lemma unused_fresh: "unused_uuids st a \<Longrightarrow> fresh_pairs st a"
  by (auto simp: unused_uuids_def fresh_pairs_def)

lemma incomplete_store:
  assumes un: "unused_uuids st a" and i: "i \<noteq> sid"
  shows "incomplete (spec_store_step sid now st a) i u \<longleftrightarrow>
     (if u \<in> raw_uuid ` set (enq_commands st) then i \<in> set (enq_ids st) else incomplete a i u)"
proof (cases "map_of (map (\<lambda>c. (raw_uuid c, c)) (enq_commands st)) u")
  case None
  then have "u \<notin> raw_uuid ` set (enq_commands st)" by (force simp: map_of_eq_None_iff)
  with None un show ?thesis by (simp add: incomplete_def spec_store_step_def foldl_store unused_uuids_def)
next
  case (Some c)
  then have c: "c \<in> set (enq_commands st)" "raw_uuid c = u" by (auto dest: map_of_SomeD)
  with un have "a_cmds a (i, u) = None" by (auto simp: unused_uuids_def)
  with Some c un i show ?thesis
    by (auto simp: incomplete_def spec_store_step_def foldl_store unused_uuids_def new_acmd_def)
qed

lemma outstanding_store:
  assumes un: "unused_uuids st a" and sid: "a_steps a sid = None" "sid \<notin> set ids" and ne: "enq_commands st \<noteq> []"
  shows "outstanding (spec_store_step sid now st a) name ids i \<longleftrightarrow>
     outstanding a name ids i \<or> i \<in> set ids \<and> i \<in> set (enq_ids st) \<and> name = ctx_workflow_name st"
proof (cases "i \<in> set ids")
  case True
  then have i: "i \<noteq> sid" using sid(2) by auto
  have steps: "a_steps (spec_store_step sid now st a) = (a_steps a)(sid \<mapsto> astep_of st)"
    by (simp add: spec_store_step_def)
  have old: "incomplete (spec_store_step sid now st a) i u \<longleftrightarrow> incomplete a i u"
    if "a_steps a q = Some x" "u \<in> set (as_uuids x)" for q x u
    using that un incomplete_store [OF un i] by (force simp: unused_uuids_def ran_def)
  have new: "(\<exists>u\<in>set (as_uuids (astep_of st)). incomplete (spec_store_step sid now st a) i u) \<longleftrightarrow> i \<in> set (enq_ids st)"
    using ne incomplete_store [OF un i] by (cases "enq_commands st") (auto simp: astep_of_def)
  have "outstanding (spec_store_step sid now st a) name ids i \<longleftrightarrow>
      (\<exists>q x. q \<noteq> sid \<and> a_steps a q = Some x \<and> wf_step_of a name ids q \<and>
         (\<exists>u\<in>set (as_uuids x). incomplete (spec_store_step sid now st a) i u)) \<or>
      ctx_workflow_name st = name \<and> set ids \<inter> set (enq_ids st) \<noteq> {} \<and>
         (\<exists>u\<in>set (as_uuids (astep_of st)). incomplete (spec_store_step sid now st a) i u)"
    using True by (auto simp: outstanding_def wf_step_of_def steps astep_of_def split: if_splits)
  also have "\<dots> \<longleftrightarrow> outstanding a name ids i \<or> i \<in> set (enq_ids st) \<and> name = ctx_workflow_name st"
    using True old new sid(1) unfolding outstanding_def by (metis (no_types, lifting) disjoint_iff option.distinct(1))
  finally show ?thesis using True by simp
qed (simp add: outstanding_def)

lemma open_with_step:
  assumes t: "intact E n t" and ne: "enq_commands st \<noteq> []"
  shows "open_in_workflow (with_step E st at now n t) name i \<longleftrightarrow>
     open_in_workflow t name i \<or> i \<in> set (enq_ids st) \<and> name = ctx_workflow_name st"
proof -
  have old: "ic_step_id c \<noteq> n" if c: "c \<in> set (t_id_commands t)" for c
  proof -
    obtain r where "r \<in> set (t_steps t)" "row_id r = ic_step_id c" using step_row_of [OF t c] .
    with t show ?thesis by (auto simp: intact_def ids_issued_by_def)
  qed
  have rows: "row_id r \<noteq> n" if "r \<in> set (t_steps t)" for r
    using that t by (auto simp: intact_def ids_issued_by_def)
  let ?t = "with_step E st at now n t"
  have cmds: "set (t_id_commands ?t) = set (t_id_commands t) \<union>
      {new_id_row E st at now n sc j |sc j. sc \<in> set (enq_commands st) \<and> j \<in> set (enq_ids st)}"
    and steps: "set (t_steps ?t) = insert (new_step_row E st n) (set (t_steps t))"
    by (auto simp: with_step_def add_commands_def new_id_rows_def)
  have old_open: "open_in_workflow t name i"
    if "c \<in> set (t_id_commands t)" "r \<in> set (t_steps ?t)" "row_id r = ic_step_id c" "ic_enrollment_id c = i"
      "\<not> ic_completed c" "row_workflow_name r = name" for c r
  proof -
    have "r \<noteq> new_step_row E st n" using that(3) old [OF that(1)] by (auto simp: new_step_row_def)
    with that show ?thesis unfolding open_in_workflow_def steps by blast
  qed
  have new_open: "i \<in> set (enq_ids st) \<and> name = ctx_workflow_name st"
    if "r \<in> set (t_steps ?t)" "row_id r = n" "ic_enrollment_id (new_id_row E st at now n sc j) = i"
      "j \<in> set (enq_ids st)" "row_workflow_name r = name" for r sc j
  proof -
    have "r = new_step_row E st n" using that(1,2) rows by (auto simp: steps)
    then have "row_workflow_name r = ctx_workflow_name st" by (simp add: new_step_row_def)
    with that(3-5) show ?thesis by (simp add: new_id_row_def)
  qed
  have "open_in_workflow ?t name i" if "i \<in> set (enq_ids st)" "name = ctx_workflow_name st"
  proof -
    obtain sc where "sc \<in> set (enq_commands st)" using ne by (cases "enq_commands st") auto
    with that have "new_id_row E st at now n sc i \<in> set (t_id_commands ?t)" by (auto simp: cmds)
    then show ?thesis unfolding open_in_workflow_def steps
      by (rule bexI [rotated]) (simp add: new_id_row_def new_step_row_def that(2))
  qed
  moreover have "open_in_workflow ?t name i" if "open_in_workflow t name i"
    using that unfolding open_in_workflow_def cmds steps by blast
  moreover have "open_in_workflow t name i \<or> i \<in> set (enq_ids st) \<and> name = ctx_workflow_name st"
    if "open_in_workflow ?t name i"
  proof -
    from that obtain c r where c: "c \<in> set (t_id_commands ?t)" "r \<in> set (t_steps ?t)" "row_id r = ic_step_id c"
      "ic_enrollment_id c = i" "\<not> ic_completed c" "row_workflow_name r = name" unfolding open_in_workflow_def by blast
    show ?thesis
    proof (cases "c \<in> set (t_id_commands t)")
      case True
      then show ?thesis using old_open [OF _ c(2-6)] by blast
    next
      case False
      then obtain sc j where j: "c = new_id_row E st at now n sc j" "j \<in> set (enq_ids st)" using c(1) by (auto simp: cmds)
      have "row_id r = n" using c(3) by (simp add: j(1) new_id_row_def)
      then show ?thesis using new_open [OF c(2) _ _ j(2) c(6), of sc] c(4) j(1) by blast
    qed
  qed
  ultimately show ?thesis by blast
qed

text \<open>
  C4: When both backends store the same step, one whose values fit both and whose command UUIDs are new, they
  still report the same enrollments outstanding for every workflow: the answers of the two afterwards hold the
  same IDs, each once.
\<close>

theorem backends_agree:
  assumes kv: "kv_laws K view" "kv_laws.rep K view n s a" "storable n K st" "go_time (wall_clock s)"
    and my: "works E" "inj (collation E)" "intact E (db_next_id d) (db_tables d)" "my_storable E st at (db_tables d)"
    and both: "unused_uuids st a" "same_outstanding K a (db_tables d)"
    and ids: "\<forall>j. new_uuid K j \<notin> set ids"
  shows "\<exists>s' d' a'. store_step K (Some st) at s = (Inr (), s') \<and> my_store_step E (Some st) at d = (Inr (), d') \<and>
     kv_laws.rep K view n s' a' \<and> same_outstanding K a' (db_tables d') \<and>
     (\<exists>xs ys. fst (retrieve_outstanding_workflow_status K name ids s') = Inr xs \<and>
        fst (my_retrieve_outstanding_workflow_status E name ids d') = Inr ys \<and>
        distinct xs \<and> distinct ys \<and> set xs = set ys)"
proof -
  let ?sid = "new_uuid K (ids_issued s)"
  let ?a = "spec_store_step ?sid (wall_clock s) st a"
  let ?t = "with_step E st at (server_clock d) (db_next_id d) (db_tables d)"
  have ne: "enq_commands st \<noteq> []" using kv(3) by (auto simp: storable_def validate_step_config_iff)
  have sid: "a_steps a ?sid = None" using kv_laws.rep_def [OF kv(1)] kv(2) by blast
  have agree: "same_outstanding K ?a ?t"
    using both outstanding_store [OF both(1) sid _ ne] open_with_step [OF my(3) ne]
    by (auto simp: same_outstanding_def)
  have "wp (store_step K (Some st) at) (\<lambda>r s'. r = Inr () \<and> kv_laws.rep K view n s' ?a) s"
    by (rule kv_laws.store_step_refines [OF kv(1,2,3) unused_fresh [OF both(1)] kv(4)]) simp_all
  then obtain s' where s': "store_step K (Some st) at s = (Inr (), s')" "kv_laws.rep K view n s' ?a"
    by (auto simp: wp_ex)
  have "wp (my_store_step E (Some st) at) (\<lambda>r d'. r = Inr () \<and> db_tables d' = ?t) d"
    by (rule wp_my_store_step [OF my(1,3)]) (use my(4) in simp_all)
  then obtain d' where d': "my_store_step E (Some st) at d = (Inr (), d')" "db_tables d' = ?t" by (auto simp: wp_ex)
  have "wp (retrieve_outstanding_workflow_status K name ids)
      (\<lambda>r _. \<exists>xs. r = Inr xs \<and> distinct xs \<and> set xs = {i. outstanding ?a name ids i}) s'"
    by (rule kv_laws.outstanding_exact [OF kv(1) s'(2)]) simp
  then obtain xs where xs: "fst (retrieve_outstanding_workflow_status K name ids s') = Inr xs" "distinct xs"
    "set xs = {i. outstanding ?a name ids i}" by (auto simp: wp_ex)
  have ys: "fst (my_retrieve_outstanding_workflow_status E name ids d') = Inr (q_get_outstanding_ids E ids name ?t)"
    using wp_my [OF my(1)]
    by (simp add: my_retrieve_outstanding_workflow_status_def fst_wrap my_query_def call_works [OF my(1)] go_read_def d'(2))
  have "set xs = set (q_get_outstanding_ids E ids name ?t)"
    using agree ids by (auto simp: xs(3) outstanding_ids [OF my(2)] same_outstanding_def)
  with xs(1,2) ys outstanding_ids(1) [OF my(2), of ids name ?t] s' d' agree show ?thesis by auto
qed

lemma sample_my_storable: "my_storable plain_server sample_step 5 empty_tables"
  using storable_sample
  by (simp add: my_storable_def storable_def sample_step_def accepts_null_def mediumtext_def timestamp_null_def
      sql_null_string_def sql_null_time_def commands_ok_def command_ok_def id_row_ok_def push_arg_def new_keys_def
      empty_tables_def)

theorem backends_agree_witness:
  "\<exists>s d xs ys. store_step inmem_env (Some sample_step) 5 (empty_mem 7) = (Inr (), s) \<and>
     my_store_step plain_server (Some sample_step) 5 (database empty_tables 1 7) = (Inr (), d) \<and>
     fst (retrieve_outstanding_workflow_status inmem_env ''wf'' [''BBB'', ''CCC''] s) = Inr xs \<and>
     fst (my_retrieve_outstanding_workflow_status plain_server ''wf'' [''BBB'', ''CCC''] d) = Inr ys \<and>
     set xs = set ys"
proof -
  have "go_time (wall_clock (empty_mem 7))" by (simp add: go_time_def max_go_time_def empty_mem_def)
  moreover have "works plain_server" "inj (collation plain_server)"
    "intact plain_server (db_next_id (database empty_tables 1 7)) (db_tables (database empty_tables 1 7))"
    "my_storable plain_server sample_step 5 (db_tables (database empty_tables 1 7))"
    by (simp_all add: empty_intact sample_my_storable)
  moreover have "unused_uuids sample_step empty_astore"
    by (simp add: unused_uuids_def sample_step_def empty_astore_def)
  moreover have "same_outstanding inmem_env empty_astore (db_tables (database empty_tables 1 7))"
    by (simp add: same_outstanding_def outstanding_def open_in_workflow_def empty_astore_def empty_tables_def)
  moreover have "\<forall>j. new_uuid inmem_env j \<notin> set [''BBB'', ''CCC'']" by (simp add: new_uuid_mem)
  ultimately show ?thesis
    using backends_agree [OF inmem.kv_laws_axioms rep_empty [of 2 7] storable_sample,
        where at = 5 and name = "''wf''" and ids = "[''BBB'', ''CCC'']"
          and E = plain_server and d = "database empty_tables 1 7"]
    by metis
qed

end
