(* ===== verification/ServerProps.thy ===== *)
theory ServerProps
  imports Server MySQLAgree
begin

text \<open>
  The properties of the HTTP API and of the server as it is put together: uploading, reading and deleting
  profiles on any store that keeps the contract, storing event subscriptions, the two profile backends side by
  side, the registry of the server's engine, and the routes.
\<close>

section \<open>Profiles over HTTP\<close>

lemma or_error_run:
  "or_error C code m k w =
     (case m w of (Inl e, w') \<Rightarrow> (Inr (json_error C e code), w') | (Inr x, w') \<Rightarrow> k x w')"
  by (auto simp: or_error_def go_defs split: prod.split sum.split)

context profile_contract
begin

lemma put_profile_run:
  assumes "pok w" "hr_name rq \<noteq> []" "hr_body rq = (raw, None)" "raw \<noteq> []"
    and "parse_mobileconfig L raw = Inr (p, sg)"
    and "fits (hr_name rq) \<lparr>pi_identifier = pl_identifier p, pi_uuid = pl_uuid p\<rparr> raw"
  shows "\<exists>w'. store_profile_handler C L PS rq w = (Inr no_content, w') \<and> pok w' \<and>
     profs w' = (profs w)(hr_name rq \<mapsto> (\<lparr>pi_identifier = pl_identifier p, pi_uuid = pl_uuid p\<rparr>, raw))"
proof -
  obtain w' where w': "ps_store PS (hr_name rq) \<lparr>pi_identifier = pl_identifier p, pi_uuid = pl_uuid p\<rparr> raw w = (Inr (), w')"
    "pok w'" "profs w' = (profs w)(hr_name rq \<mapsto> (\<lparr>pi_identifier = pl_identifier p, pi_uuid = pl_uuid p\<rparr>, raw))"
    using store_law [OF assms(1,6)] by blast
  then show ?thesis
    using assms(2-5) by (simp add: store_profile_handler_def read_all_def or_error_run w'(1) go_ret_def Suc_le_eq)
qed

lemma get_profile_run:
  assumes "pok w" "hr_name rq \<noteq> []"
  shows "\<exists>r w'. get_profile_handler C PS rq w = (Inr r, w') \<and> pok w' \<and> profs w' = profs w \<and>
     (case profs w (hr_name rq) of
        Some (_, raw) \<Rightarrow> r = \<lparr>rs_status = 200, rs_type = Some aspen_config, rs_body = raw\<rparr>
      | None \<Rightarrow> \<exists>e. r = json_error C e 500 \<and> errors_is e ErrProfileNotFound)"
proof -
  obtain w' where w': "psame w w'"
    "case profs w (hr_name rq) of
        None \<Rightarrow> \<exists>e. ps_retrieve_raw PS [hr_name rq] w = (Inl e, w') \<and> errors_is e ErrProfileNotFound
      | Some (info, raw) \<Rightarrow> ps_retrieve_raw PS [hr_name rq] w = (Inr [hr_name rq \<mapsto> raw], w')"
    using raw_of_name [OF assms(1)] by blast
  show ?thesis
  proof (cases "profs w (hr_name rq)")
    case None
    with w'(2) obtain e where e: "ps_retrieve_raw PS [hr_name rq] w = (Inl e, w')" "errors_is e ErrProfileNotFound" by auto
    then show ?thesis
      using None assms(2) psame_law [OF w'(1) assms(1)]
      by (auto simp: get_profile_handler_def or_error_run e(1) json_error_def)
  next
    case (Some p)
    obtain info raw where p: "p = (info, raw)" by fastforce
    with Some w'(2) have r: "ps_retrieve_raw PS [hr_name rq] w = (Inr [hr_name rq \<mapsto> raw], w')" by simp
    then show ?thesis
      using Some p assms(2) psame_law [OF w'(1) assms(1)]
      by (auto simp: get_profile_handler_def or_error_run r go_ret_def)
  qed
qed

lemma delete_profile_run:
  assumes "pok w" "hr_name rq \<noteq> []" "profs w (hr_name rq) \<noteq> None"
  shows "\<exists>w'. delete_profile_handler C PS rq w = (Inr no_content, w') \<and> pok w' \<and>
     profs w' = (profs w)(hr_name rq := None)"
proof -
  obtain w' where w': "ps_delete PS (hr_name rq) w = (Inr (), w')" "pok w'" "profs w' = (profs w)(hr_name rq := None)"
    using delete_law [OF assms(1,3)] by blast
  then show ?thesis using assms(2) by (simp add: delete_profile_handler_def or_error_run w'(1) go_ret_def)
qed

end

text \<open>
  C25: On any profile store that keeps the contract (the key-value and the MySQL backend do), a profile that is
  uploaded under a name, parses and fits is answered 204, the name then reads back byte for byte, and after it
  is deleted reading it is answered with the error of a missing profile and status 500.
\<close>

theorem http_profile_lifecycle:
  assumes "profile_contract PS profs pok fits psame" "pok w"
    and "hr_name rq \<noteq> []" "hr_body rq = (raw, None)" "raw \<noteq> []" "parse_mobileconfig L raw = Inr (p, sg)"
    and "fits (hr_name rq) \<lparr>pi_identifier = pl_identifier p, pi_uuid = pl_uuid p\<rparr> raw"
  shows "\<exists>w1 w2 w3 w4 e. store_profile_handler C L PS rq w = (Inr no_content, w1) \<and>
     get_profile_handler C PS rq w1 = (Inr \<lparr>rs_status = 200, rs_type = Some aspen_config, rs_body = raw\<rparr>, w2) \<and>
     delete_profile_handler C PS rq w2 = (Inr no_content, w3) \<and>
     get_profile_handler C PS rq w3 = (Inr (json_error C e 500), w4) \<and> errors_is e ErrProfileNotFound \<and>
     profs w4 = (profs w)(hr_name rq := None)"
proof -
  note run = profile_contract.put_profile_run [OF assms(1-6,7), of C]
    and read = profile_contract.get_profile_run [OF assms(1) _ assms(3), of _ C]
    and delete = profile_contract.delete_profile_run [OF assms(1) _ assms(3), of _ C]
  let ?v = "(\<lparr>pi_identifier = pl_identifier p, pi_uuid = pl_uuid p\<rparr>, raw)"
  obtain w1 where w1: "store_profile_handler C L PS rq w = (Inr no_content, w1)" "pok w1"
    "profs w1 = (profs w)(hr_name rq \<mapsto> ?v)" using run by blast
  obtain w2 where w2: "get_profile_handler C PS rq w1 = (Inr \<lparr>rs_status = 200, rs_type = Some aspen_config, rs_body = raw\<rparr>, w2)"
    "pok w2" "profs w2 = profs w1" using read [OF w1(2)] by (auto simp: w1(3))
  obtain w3 where w3: "delete_profile_handler C PS rq w2 = (Inr no_content, w3)" "pok w3"
    "profs w3 = (profs w2)(hr_name rq := None)" using delete [OF w2(2)] by (auto simp: w2(3) w1(3))
  obtain e w4 where w4: "get_profile_handler C PS rq w3 = (Inr (json_error C e 500), w4)" "errors_is e ErrProfileNotFound"
    "profs w4 = profs w3" using read [OF w3(2)] by (auto simp: w3(3))
  show ?thesis
    using w1 w2 w3 w4
    by (intro exI [of _ w1] exI [of _ w2] exI [of _ w3] exI [of _ w4] exI [of _ e]) simp
qed

definition demo_codec :: http_codec where
  "demo_codec =
     \<lparr>hc_error = (\<lambda>_. ''error''), hc_instance = (\<lambda>i. Inr i), hc_infos = (\<lambda>_. Inr ''infos''),
      hc_event = (\<lambda>es. Inr (case es of None \<Rightarrow> ''null'' | Some es \<Rightarrow> es_context es)),
      hc_event_decode = (\<lambda>b. Inr \<lparr>es_event = ''Enrollment'', es_workflow = ''wf'', es_context = fst b, es_event_context = []\<rparr>),
      hc_values = (\<lambda>_. Inr ''values''), hc_plan = (\<lambda>_. Inr ''plan''), hc_plan_decode = (\<lambda>_. Inr empty_cmd_plan)\<rparr>"

lemma demo_codec_sel [simp]:
  "hc_event demo_codec = (\<lambda>es. Inr (case es of None \<Rightarrow> ''null'' | Some es \<Rightarrow> es_context es))"
  "hc_event_decode demo_codec =
     (\<lambda>b. Inr \<lparr>es_event = ''Enrollment'', es_workflow = ''wf'', es_context = fst b, es_event_context = []\<rparr>)"
  by (simp_all add: demo_codec_def)

definition demo_mobileconfig :: "unit mobileconfig_lib" where
  "demo_mobileconfig =
     \<lparr>ml_pkcs7 = (\<lambda>_. Inl (Errorf ''not signed'' [])), ml_verify = (\<lambda>_. Inr ()), ml_content = (\<lambda>_. []),
      ml_plist = (\<lambda>mc. Inr \<lparr>pl_description = [], pl_display_name = [], pl_identifier = ''com.example'',
                             pl_organization = [], pl_uuid = ''1'', pl_type = ''Configuration'', pl_version = 1\<rparr>)\<rparr>"

definition put_request :: "string \<Rightarrow> bytes \<Rightarrow> request" where
  "put_request name raw = \<lparr>hr_name = name, hr_query = (\<lambda>_. []), hr_body = (raw, None)\<rparr>"

lemma put_request_sel [simp]:
  "hr_name (put_request n b) = n" "hr_body (put_request n b) = (b, None)"
  by (simp_all add: put_request_def)

definition no_profiles :: profile_db where "no_profiles = \<lparr>pdb_rows = [], pdb_calls = 0\<rparr>"

theorem http_profile_lifecycle_witness:
  "\<exists>d d'. store_profile_handler demo_codec demo_mobileconfig (mysql_profile_storage plain_server (\<lambda>d. d) (\<lambda>d _. d))
       (put_request ''wifi'' ''<?xml>'') no_profiles = (Inr no_content, d) \<and>
     get_profile_handler demo_codec (mysql_profile_storage plain_server (\<lambda>d. d) (\<lambda>d _. d)) (put_request ''wifi'' ''<?xml>'') d =
       (Inr \<lparr>rs_status = 200, rs_type = Some aspen_config, rs_body = ''<?xml>''\<rparr>, d')"
proof -
  have "distinct (map pr_name (pdb_rows no_profiles))" by (simp add: no_profiles_def)
  moreover have "parse_mobileconfig demo_mobileconfig ''<?xml>'' =
      Inr (\<lparr>pl_description = [], pl_display_name = [], pl_identifier = ''com.example'', pl_organization = [],
            pl_uuid = ''1'', pl_type = ''Configuration'', pl_version = 1\<rparr>, False)"
    by (simp add: parse_mobileconfig_def has_prefix_def parse_plist_payload_def demo_mobileconfig_def validate_payload_def)
  ultimately show ?thesis
    using http_profile_lifecycle [OF plain_profiles.myps.profile_contract_axioms, of no_profiles
        "put_request ''wifi'' ''<?xml>''" "''<?xml>''" demo_mobileconfig _ _ demo_codec]
    by (force simp: profile_fits_def mediumtext_def)
qed

section \<open>The two profile backends side by side\<close>

text \<open>Equal answers: equal values, or on both sides the error of a missing profile, or that of no names.\<close>

definition same_answer :: "'a result \<Rightarrow> 'a result \<Rightarrow> bool" where
  "same_answer r q \<longleftrightarrow>
     (case (r, q) of
        (Inr x, Inr y) \<Rightarrow> x = y
      | (Inl e, Inl f) \<Rightarrow> errors_is e ErrProfileNotFound \<and> errors_is f ErrProfileNotFound \<or> e = ErrNoNames \<and> f = ErrNoNames
      | _ \<Rightarrow> False)"

lemma same_answer_simps [simp]: "same_answer (Inr x) (Inr y) \<longleftrightarrow> x = y" "same_answer (Inl ErrNoNames) (Inl ErrNoNames)"
  by (simp_all add: same_answer_def)

lemma found_all_same: "found_all M ns r \<Longrightarrow> found_all M ns q \<Longrightarrow> same_answer r q"
  by (auto simp: found_all_def same_answer_def split: if_splits)

text \<open>Two runs answer alike and leave worlds that both hold the profiles \<open>P\<close>.\<close>

definition alike ::
  "('w \<Rightarrow> (string \<rightharpoonup> profile_info \<times> bytes) \<Rightarrow> bool) \<Rightarrow> ('v \<Rightarrow> (string \<rightharpoonup> profile_info \<times> bytes) \<Rightarrow> bool)
    \<Rightarrow> (string \<rightharpoonup> profile_info \<times> bytes) \<Rightarrow> 'a result \<times> 'w \<Rightarrow> 'a result \<times> 'v \<Rightarrow> bool" where
  "alike holds holds' P x y \<longleftrightarrow> same_answer (fst x) (fst y) \<and> holds (snd x) P \<and> holds' (snd y) P"

lemma contracts_alike:
  assumes c: "profile_contract PS profs pok fits psame" and c': "profile_contract PS' profs' pok' fits' psame'"
    and w: "pok w" "pok' w'" "profs' w' = profs w"
  defines "h \<equiv> \<lambda>w P. pok w \<and> profs w = P" and "h' \<equiv> \<lambda>w P. pok' w \<and> profs' w = P"
  shows "alike h h' (profs w) (ps_retrieve_raw PS names w) (ps_retrieve_raw PS' names w')"
    and "alike h h' (profs w) (ps_retrieve_infos PS names w) (ps_retrieve_infos PS' names w')"
    and "fits name info raw \<Longrightarrow> fits' name info raw \<Longrightarrow>
       alike h h' ((profs w)(name \<mapsto> (info, raw))) (ps_store PS name info raw w) (ps_store PS' name info raw w')"
    and "profs w name \<noteq> None \<Longrightarrow>
       alike h h' ((profs w)(name := None)) (ps_delete PS name w) (ps_delete PS' name w')"
proof -
  note kept = profile_contract.psame_law [OF c _ w(1)] profile_contract.psame_law [OF c' _ w(2)]
  show "alike h h' (profs w) (ps_retrieve_raw PS names w) (ps_retrieve_raw PS' names w')"
  proof (cases "names = []")
    case True
    with profile_contract.no_names_law [OF c w(1)] profile_contract.no_names_law [OF c' w(2)] kept
    show ?thesis by (auto simp: alike_def h_def h'_def w(3))
  next
    case False
    with profile_contract.raw_law [OF c w(1) False] profile_contract.raw_law [OF c' w(2) False] kept
    show ?thesis by (auto simp: alike_def h_def h'_def w(3) intro: found_all_same)
  qed
  show "alike h h' (profs w) (ps_retrieve_infos PS names w) (ps_retrieve_infos PS' names w')"
  proof (cases "names = []")
    case True
    with profile_contract.all_infos_law [OF c w(1)] profile_contract.all_infos_law [OF c' w(2)] kept
    show ?thesis by (auto simp: alike_def h_def h'_def w(3))
  next
    case False
    with profile_contract.infos_law [OF c w(1) False] profile_contract.infos_law [OF c' w(2) False] kept
    show ?thesis by (auto simp: alike_def h_def h'_def w(3) intro: found_all_same)
  qed
  show "alike h h' ((profs w)(name \<mapsto> (info, raw))) (ps_store PS name info raw w) (ps_store PS' name info raw w')"
    if "fits name info raw" "fits' name info raw"
    using profile_contract.store_law [OF c w(1) that(1)] profile_contract.store_law [OF c' w(2) that(2)]
    by (auto simp: alike_def h_def h'_def w(3))
  show "alike h h' ((profs w)(name := None)) (ps_delete PS name w) (ps_delete PS' name w')" if "profs w name \<noteq> None"
    using profile_contract.delete_law [OF c w(1) that] profile_contract.delete_law [OF c' w(2), of name] that
    by (auto simp: alike_def h_def h'_def w(3))
qed

text \<open>Which profiles a bucket and a database hold.\<close>

definition kv_holds :: "('b \<Rightarrow> string \<rightharpoonup> bytes) \<Rightarrow> 'b \<Rightarrow> (string \<rightharpoonup> profile_info \<times> bytes) \<Rightarrow> bool" where
  "kv_holds view b P \<longleftrightarrow> kv_laws.prof_rep view b P"

definition my_holds :: "profile_db \<Rightarrow> (string \<rightharpoonup> profile_info \<times> bytes) \<Rightarrow> bool" where
  "my_holds d P \<longleftrightarrow> distinct (map pr_name (pdb_rows d)) \<and> rows_profs (pdb_rows d) = P"

context kv_profiles
begin

lemma keeps_contract:
  "profile_contract (kv_full_profile_storage E get put) kv_profs (\<lambda>w. prof_rep (get w) (kv_profs w)) (\<lambda>_ _ _. True) (=)"
  by (rule kvps.profile_contract_axioms)

end

context mysql_profiles
begin

lemma keeps_contract:
  "profile_contract (mysql_profile_storage E get put) my_profs (\<lambda>w. distinct (map pr_name (pdb_rows (get w))))
     (profile_fits E) my_psame"
  by (rule myps.profile_contract_axioms)

end

lemma backends_alike:
  assumes kv: "kv_laws E view" and my: "works F" "inj (collation F)" and held: "kv_holds view b P" "my_holds d P"
  defines "KV \<equiv> kv_full_profile_storage E (\<lambda>b. b) (\<lambda>b _. b)" and "MY \<equiv> mysql_profile_storage F (\<lambda>d. d) (\<lambda>d _. d)"
  shows "alike (kv_holds view) my_holds P (ps_retrieve_raw KV names b) (ps_retrieve_raw MY names d)"
    and "alike (kv_holds view) my_holds P (ps_retrieve_infos KV names b) (ps_retrieve_infos MY names d)"
    and "profile_fits F name info raw \<Longrightarrow>
       alike (kv_holds view) my_holds (P(name \<mapsto> (info, raw))) (ps_store KV name info raw b) (ps_store MY name info raw d)"
    and "P name \<noteq> None \<Longrightarrow>
       alike (kv_holds view) my_holds (P(name := None)) (ps_delete KV name b) (ps_delete MY name d)"
proof -
  have k: "kv_profiles E view (\<lambda>b. b) (\<lambda>b _. b)" using kv by (simp add: kv_profiles_def kv_profiles_axioms_def)
  have m: "mysql_profiles F (\<lambda>d. d) (\<lambda>d _. d)" using my by (simp add: mysql_profiles_def)
  let ?k = "kv_profiles.kv_profs view (\<lambda>b. b)" and ?m = "mysql_profiles.my_profs (\<lambda>d. d)"
  note rep = kv_profiles.kv_profs_rep [OF k] and profs = mysql_profiles.my_profs_def [OF m]
  have h: "(kv_laws.prof_rep view b (?k b) \<and> ?k b = P) = kv_holds view b P" for b P
    using rep [of b P] by (auto simp: kv_holds_def)
  have h': "(distinct (map pr_name (pdb_rows d)) \<and> ?m d = P) = my_holds d P" for d P
    by (simp add: my_holds_def profs)
  from held h h' have at: "kv_laws.prof_rep view b (?k b)" "?k b = P" "distinct (map pr_name (pdb_rows d))" "?m d = P"
    by blast+
  note both = contracts_alike [OF kv_profiles.keeps_contract [OF k] mysql_profiles.keeps_contract [OF m] at(1,3),
      folded KV_def MY_def, unfolded h h' at(2,4)]
  show "alike (kv_holds view) my_holds P (ps_retrieve_raw KV names b) (ps_retrieve_raw MY names d)"
    "alike (kv_holds view) my_holds P (ps_retrieve_infos KV names b) (ps_retrieve_infos MY names d)"
    by (rule both, rule refl)+
  show "alike (kv_holds view) my_holds (P(name \<mapsto> (info, raw))) (ps_store KV name info raw b) (ps_store MY name info raw d)"
    if "profile_fits F name info raw" by (rule both(3), rule refl, rule TrueI, rule that)
  show "alike (kv_holds view) my_holds (P(name := None)) (ps_delete KV name b) (ps_delete MY name d)" if "P name \<noteq> None"
    by (rule both(4), rule refl, rule that)
qed

text \<open>
  C26: The key-value and the MySQL backend of the profile store are equivalent: while both hold the same
  profiles, they answer every query for raw profiles or infos alike (the same map, or on both sides the error of
  a missing profile or of no names), and storing the same profile or deleting a stored one answers alike and
  leaves them with the same profiles.
\<close>

theorem profile_backends_agree:
  assumes "kv_laws E view" "works F" "inj (collation F)" "kv_holds view b P" "my_holds d P"
    and "profile_fits F name info raw" "P old \<noteq> None"
  defines "KV \<equiv> kv_full_profile_storage E (\<lambda>b. b) (\<lambda>b _. b)" and "MY \<equiv> mysql_profile_storage F (\<lambda>d. d) (\<lambda>d _. d)"
  shows "alike (kv_holds view) my_holds P (ps_retrieve_raw KV names b) (ps_retrieve_raw MY names d) \<and>
     alike (kv_holds view) my_holds P (ps_retrieve_infos KV names b) (ps_retrieve_infos MY names d) \<and>
     alike (kv_holds view) my_holds (P(name \<mapsto> (info, raw))) (ps_store KV name info raw b) (ps_store MY name info raw d) \<and>
     alike (kv_holds view) my_holds (P(old := None)) (ps_delete KV old b) (ps_delete MY old d)"
  unfolding KV_def MY_def by (intro conjI backends_alike assms(1-7))

definition wifi :: "profile_info \<times> bytes" where
  "wifi = (\<lparr>pi_identifier = ''com.example'', pi_uuid = ''1''\<rparr>, ''<?xml>'')"

definition kv_wifi :: "(string \<times> bytes) list" where
  "kv_wifi = [(key_pfx_id @ ''wifi'', ''com.example''), (key_pfx_uuid @ ''wifi'', ''1''), (key_pfx_raw @ ''wifi'', ''<?xml>'')]"

definition my_wifi :: profile_db where
  "my_wifi = \<lparr>pdb_rows = [\<lparr>pr_name = ''wifi'', pr_identifier = ''com.example'', pr_uuid = ''1'', pr_raw = ''<?xml>''\<rparr>],
              pdb_calls = 0\<rparr>"

lemma both_hold_wifi: "kv_holds map_of kv_wifi [''wifi'' \<mapsto> wifi]" "my_holds my_wifi [''wifi'' \<mapsto> wifi]"
  by (auto simp: kv_holds_def inmem.prof_rep_def kv_wifi_def wifi_def key_pfx_id_def key_pfx_uuid_def key_pfx_raw_def
      my_holds_def my_wifi_def rows_profs_def row_profile_def)

theorem profile_backends_agree_witness:
  "same_answer (fst (ps_retrieve_raw (kv_full_profile_storage inmem_env (\<lambda>b. b) (\<lambda>b _. b)) [''wifi''] kv_wifi))
     (fst (ps_retrieve_raw (mysql_profile_storage plain_server (\<lambda>d. d) (\<lambda>d _. d)) [''wifi''] my_wifi)) \<and>
   alike (kv_holds map_of) my_holds Map.empty
     (ps_delete (kv_full_profile_storage inmem_env (\<lambda>b. b) (\<lambda>b _. b)) ''wifi'' kv_wifi)
     (ps_delete (mysql_profile_storage plain_server (\<lambda>d. d) (\<lambda>d _. d)) ''wifi'' my_wifi)"
proof -
  have "profile_fits plain_server ''vpn'' (fst wifi) (snd wifi)"
    by (simp add: profile_fits_def mediumtext_def wifi_def)
  from profile_backends_agree [OF inmem.kv_laws_axioms _ _ both_hold_wifi this, of "''wifi''" "[''wifi'']"]
  show ?thesis by (simp add: alike_def)
qed

section \<open>Event subscriptions over HTTP\<close>

text \<open>
  C29: A PUT of an event subscription on the key-value backend answers 400 and changes nothing when the
  subscription does not validate or names a workflow that is not registered; otherwise it answers 204, the
  subscription is merged into what the name held (an empty context keeps the old one), and a GET of the name
  answers with the merged subscription.
\<close>

theorem http_event_put:
  assumes "kv_laws E view" "\<And>s w. get (put s w) = s" "\<And>w. put (get w) w = w"
    and "erep (view (event_store (get w))) m" "hr_name rq \<noteq> []" "hc_event_decode C (hr_body rq) = Inr es"
  defines "S \<equiv> Some (kv_full_event_storage E get put)" and "merged_es \<equiv> merge_event (m (hr_name rq)) es"
  shows "case validate_event_subscription (Some es) of
       Inl e \<Rightarrow> put_event_handler C S registered rq w = (Inr (json_error C e 400), w)
     | Inr _ \<Rightarrow>
         if \<not> registered (es_workflow es)
         then put_event_handler C S registered rq w = (Inr (json_error C err_workflow_not_registered 400), w)
         else \<exists>w'. put_event_handler C S registered rq w = (Inr no_content, w') \<and>
                erep (view (event_store (get w'))) (m(hr_name rq \<mapsto> merged_es)) \<and>
                get_event_handler C S rq w' =
                  (Inr (encoded (Some application_json) (hc_event C (Some merged_es))), w')"
proof (cases "validate_event_subscription (Some es)")
  case (Inl e)
  then show ?thesis using assms(5,6) by (simp add: put_event_handler_def S_def go_ret_def)
next
  case (Inr u)
  let ?n = "hr_name rq"
  from Inr have ok: "event_ok es" by (simp add: event_ok_def)
  obtain s' where s': "store_event_subscription E ?n (Some es) (get w) = (Inr (), s')"
    "erep (view (event_store s')) (m(?n \<mapsto> merged_es))"
    using run_of_wp [OF kv_laws.store_event_refines [OF assms(1,4,5) ok,
      where Q = "\<lambda>x s'. x = Inr () \<and> erep (view (event_store s')) (m(?n \<mapsto> merged_es))"]]
    by (auto simp: merged_es_def)
  have read: "retrieve_event_subscriptions E [?n] s' = (Inr [?n \<mapsto> merged_es], s')"
    using kv_laws.retrieve_event_subscriptions_run [OF assms(1) s'(2), of "[?n]"]
    by (simp add: restrict_map_def fun_eq_iff)
  have refresh: "put s' (put s' w) = put s' w" using assms(2) [of s' w] assms(3) [of "put s' w"] by simp
  show ?thesis
    using Inr assms(5,6) s' read
    by (auto simp: put_event_handler_def get_event_handler_def S_def kv_full_event_storage_def or_error_run go_zoom_def
        go_ret_def assms(2) refresh intro!: exI [of _ "put s' w"])
qed

theorem http_event_put_witness:
  "\<exists>w. put_event_handler demo_codec (Some (kv_full_event_storage inmem_env (\<lambda>s. s) (\<lambda>s _. s))) (\<lambda>n. n = ''wf'')
         (put_request ''ev'' ''ctx'') (empty_mem 7) = (Inr no_content, w) \<and>
       get_event_handler demo_codec (Some (kv_full_event_storage inmem_env (\<lambda>s. s) (\<lambda>s _. s)))
         (put_request ''ev'' ''ctx'') w = (Inr \<lparr>rs_status = 200, rs_type = Some application_json, rs_body = ''ctx''\<rparr>, w)"
proof -
  have "erep (map_of (event_store (empty_mem 7))) Map.empty" by (simp add: empty_mem_def erep_empty [simplified])
  moreover have "validate_event_subscription
      (Some \<lparr>es_event = ''Enrollment'', es_workflow = ''wf'', es_context = ''ctx'', es_event_context = []\<rparr>) = Inr ()"
    by code_simp
  ultimately show ?thesis
    using http_event_put [OF inmem.kv_laws_axioms, of "\<lambda>s. s" "\<lambda>s _. s" "empty_mem 7" Map.empty
        "put_request ''ev'' ''ctx''" demo_codec _ "\<lambda>n. n = ''wf''"]
    by (auto simp: merge_event_def encoded_def)
qed

section \<open>The registry and the routes of the server\<close>

lemma set_AList_update: "set (AList.update k v al) \<subseteq> insert (k, v) (set al)"
  by (induction al) (auto split: if_splits)

lemma fold_register_set:
  "snd ` set (en_workflows (fold register_workflow ws e)) \<subseteq> set ws \<union> snd ` set (en_workflows e)"
proof (induction ws arbitrary: e)
  case (Cons w ws)
  have "en_workflows (register_workflow w e) = AList.update (wf_name w) w (en_workflows e)"
    by (simp add: register_workflow_def Let_def split: option.split)
  then have "snd ` set (en_workflows (register_workflow w e)) \<subseteq> insert w (snd ` set (en_workflows e))"
    using set_AList_update [of "wf_name w" w "en_workflows e"] by auto
  with Cons.IH [of "register_workflow w e"] show ?case by auto
qed simp

lemma full_engine_events: "event_workflows (full_engine L fl m s) ev = []"
proof -
  have "en_workflows (server_engine L fl m s) = []"
    by (simp add: server_engine_def new_engine_def with_default_timeout_def with_event_storage_def split: option.split)
  then have known: "snd ` set (en_workflows (full_engine L fl m s)) \<subseteq>
      set (builtin_workflows (env_of L (full_engine L fl m s)) (sl_not_after L) s)"
    by (subst full_engine_fold) (rule subset_trans [OF fold_register_set], simp)
  have configs: "wf_config w = Some inventory_config \<or> wf_config w = None"
    if "w \<in> set (builtin_workflows E na s)" for w and E :: "'a wf_env" and na
    using imageI [OF that, of wf_config] unfolding list.set_map [symmetric] builtin_configs by auto
  have "wf_config w = Some inventory_config \<or> wf_config w = None"
    if "w \<in> snd ` set (en_workflows (full_engine L fl m s))" for w
    by (rule configs) (use that known in blast)
  then show ?thesis
    by (fastforce simp: event_workflows_def filter_empty_conv inventory_config_def split: option.split)
qed

lemma find_nth:
  assumes "distinct (map k xs)" "i < length xs"
  shows "find (\<lambda>x. k x = k (xs ! i)) xs = Some (xs ! i)"
  using assms
proof (induction xs arbitrary: i)
  case (Cons x xs)
  have "k x \<noteq> k (xs ! j)" if "j < length xs" for j
    using imageI [OF nth_mem [OF that], of k] Cons.prems(1) by auto
  with Cons show ?case by (cases i) auto
qed simp

text \<open>
  C23: The engine of the server knows exactly its eight workflows, under names of their own, each built with that
  engine as its enqueuer. No workflow subscribes to events through its configuration, and the responses to other
  workflows' commands reach only the inventory, and only those to \<open>SecurityInfo\<close>.
\<close>

theorem builtin_registry:
  fixes L :: "('w, 'u, 'p) server_lib" and fl m s
  defines "e \<equiv> full_engine L fl m s"
  defines "ws \<equiv> builtin_workflows ((sl_wf_env L)\<lparr>we_enqueue := enqueue_step e\<rparr>) (sl_not_after L) s"
  shows "{n. engine_workflow e n \<noteq> None} = set builtin_names \<and> distinct builtin_names \<and> length builtin_names = 8 \<and>
     map (engine_workflow e) builtin_names = map Some ws \<and>
     (\<forall>ev. event_workflows e ev = []) \<and>
     (\<forall>rt. all_resp_workflows e rt = (if rt = ''SecurityInfo'' then [ws ! 0] else []))"
proof -
  have ws: "ws = builtin_workflows (env_of L e) (sl_not_after L) s" by (simp add: ws_def env_of_def)
  have names: "map wf_name ws = builtin_names" by (simp add: ws builtin_workflow_names)
  have len: "length builtin_names = 8" by (simp add: builtin_names_def)
  with names have lws: "length ws = 8" by (metis length_map)
  have look: "engine_workflow e n = find (\<lambda>w. wf_name w = n) ws" for n
    unfolding e_def ws by (rule full_engine_workflow)
  have nth: "engine_workflow e (builtin_names ! i) = Some (ws ! i)" if "i < 8" for i
  proof -
    have "wf_name (ws ! i) = builtin_names ! i" using that lws by (simp flip: names)
    then show ?thesis
      using find_nth [of wf_name ws i] that lws by (simp add: look names builtin_names_distinct)
  qed
  have "engine_workflow e n \<noteq> None \<longleftrightarrow> n \<in> set builtin_names" for n
    unfolding look names [symmetric] by (auto simp: find_None_iff)
  moreover have "all_resp_workflows e rt = (if rt = ''SecurityInfo'' then [ws ! 0] else [])" for rt
  proof -
    have "engine_workflow e inventory_name = Some (ws ! 0)"
      using nth [of 0] by (simp add: builtin_names_def)
    then show ?thesis
      unfolding all_resp_workflows_def
      by (simp add: e_def full_engine_names List.map_filter_simps)
  qed
  ultimately show ?thesis
    using nth by (auto simp: builtin_names_distinct len lws e_def full_engine_events intro!: nth_equalityI)
qed

text \<open>
  The server's routes are the version and the webhook and, only when an API key is set, the eleven of the API,
  that of the inventory without the prefix of the others; a request that the basic authentication of the API's
  user and key refuses gets that refusal on every route but the first two, and changes nothing.
\<close>

theorem api_routes_guarded:
  assumes "\<And>h w. sl_basic_auth L api_username (fl_api_key fl) api_realm h rq w = (Inr refusal, w)"
  shows "map (\<lambda>(pattern, methods, _). (pattern, methods)) (server_routes L fl s e) =
       [(''/version'', []), (''/webhook'', [])] @
       (if fl_api_key fl = [] then []
        else [(''/v1/workflow/:name/start'', [''POST'']), (''/v1/event/:name'', [''GET'']), (''/v1/event/:name'', [''PUT'']),
              (''/inventory'', [''GET'']),
              (''/v1/profile/:name'', [''PUT'']), (''/v1/profile/:name'', [''GET'']), (''/v1/profile/:name'', [''DELETE'']),
              (''/v1/profiles'', [''GET'']), (''/v1/fvenable/profiletemplate'', [''GET'']),
              (''/v1/cmdplan/:name'', [''GET'']), (''/v1/cmdplan/:name'', [''PUT''])]) \<and>
     list_all (\<lambda>(_, _, h). h rq w = (Inr refusal, w)) (drop 2 (server_routes L fl s e))"
  by (simp add: server_routes_def api_routes_def engine_api_v1_def inventory_api_v1_def profile_api_v1_def
      filevault_api_v1_def cmd_plan_api_v1_def mux_handle_def assms)

text \<open>An authentication that looks for the key in the query.\<close>

definition demo_auth :: "string \<Rightarrow> string \<Rightarrow> string \<Rightarrow> 'w handler \<Rightarrow> 'w handler" where
  "demo_auth user key realm h rq w =
     (if hr_query rq ''key'' = [key] then h rq w
      else (Inr \<lparr>rs_status = 401, rs_type = None, rs_body = ''Unauthorized''\<rparr>, w))"

definition demo_flags :: flags where
  "demo_flags =
     \<lparr>fl_api_key = ''secret'', fl_enqueue_url = ''/e'', fl_push_url = ''/p'', fl_enqueue_api = ''k'', fl_storage = ''inmem'',
      fl_dsn = [], fl_micro = False, fl_dump = False, fl_worker_sec = 300, fl_re_push_sec = 86400, fl_step_timeout_sec = 0\<rparr>"

theorem api_routes_guarded_witness:
  "\<forall>(L :: (nat, unit, unit) server_lib) s e.
     length (drop 2 (server_routes (L\<lparr>sl_basic_auth := demo_auth\<rparr>) demo_flags s e)) = 11 \<and>
     list_all (\<lambda>(_, _, h). h (put_request ''ev'' ''ctx'') 0 =
         (Inr \<lparr>rs_status = 401, rs_type = None, rs_body = ''Unauthorized''\<rparr>, 0))
       (drop 2 (server_routes (L\<lparr>sl_basic_auth := demo_auth\<rparr>) demo_flags s e))"
proof (intro allI)
  fix L :: "(nat, unit, unit) server_lib" and s e
  let ?L = "L\<lparr>sl_basic_auth := demo_auth\<rparr>" and ?no = "\<lparr>rs_status = 401, rs_type = None, rs_body = ''Unauthorized''\<rparr>"
  have "sl_basic_auth ?L api_username (fl_api_key demo_flags) api_realm h (put_request ''ev'' ''ctx'') w = (Inr ?no, w)"
    for h and w :: nat by (simp add: demo_auth_def put_request_def)
  note api_routes_guarded [where L = ?L and fl = demo_flags, OF this, of s e 0]
  moreover from arg_cong [OF conjunct1 [OF this], of length]
  have "length (server_routes ?L demo_flags s e) = 13" by (simp add: demo_flags_def)
  ultimately show "length (drop 2 (server_routes ?L demo_flags s e)) = 11 \<and>
      list_all (\<lambda>(_, _, h). h (put_request ''ev'' ''ctx'') 0 = (Inr ?no, 0)) (drop 2 (server_routes ?L demo_flags s e))"
    by simp
qed

end
