(* ===== verification/SubsystemTests.thy ===== *)
theory SubsystemTests
  imports StorageTests ServerProps
begin

text \<open>
  The conformance tests of the subsystems' storages (\<open>subsystem/*/storage/test\<close>), and what passes them: any profile
  store that keeps the contract of profile stores, and the inventory and the command plan store on any bucket.
\<close>

section \<open>Profiles\<close>

definition test_profile_info :: profile_info where
  "test_profile_info = \<lparr>pi_identifier = ''com.test'', pi_uuid = ''01AB''\<rparr>"

text \<open>A missing entry of a map reads as the zero value.\<close>

definition info_or_zero :: "profile_info option \<Rightarrow> profile_info" where
  "info_or_zero i = (case i of None \<Rightarrow> \<lparr>pi_identifier = [], pi_uuid = []\<rparr> | Some i \<Rightarrow> i)"

definition is_error :: "'a result \<Rightarrow> error \<Rightarrow> bool" where
  "is_error r target = (case r of Inl e \<Rightarrow> errors_is e target | Inr _ \<Rightarrow> False)"

definition test_profile_storage :: "'w full_profile_storage \<Rightarrow> ('w, unit) test" where
  "test_profile_storage s =
     (let info = test_profile_info; raw = ''23CD'' in
      go_bind (t_must ''StoreProfile'' (ps_store s ''test'' info raw)) (\<lambda>_.
      go_bind (t_must ''RetrieveProfileInfos'' (ps_retrieve_infos s [''test''])) (\<lambda>infos.
      go_bind (t_expect (infos ''test'' \<noteq> None) ''key not found after retrieval'') (\<lambda>_.
      go_bind (t_expect (info = info_or_zero (infos ''test'')) ''info not equal'') (\<lambda>_.
      go_bind (t_must ''RetrieveProfileInfos'' (ps_retrieve_infos s [])) (\<lambda>infos.
      go_bind (t_expect (infos ''test'' \<noteq> None) ''key not found after retrieval (retrieving all keys)'') (\<lambda>_.
      go_bind (t_expect (info = info_or_zero (infos ''test'')) ''info not equal'') (\<lambda>_.
      go_bind (t_must ''RetrieveRawProfiles'' (ps_retrieve_raw s [''test''])) (\<lambda>raws.
      go_bind (t_expect (raws ''test'' \<noteq> None) ''key not found after retrieval'') (\<lambda>_.
      go_bind (t_expect (raw = (case raws ''test'' of None \<Rightarrow> [] | Some raw2 \<Rightarrow> raw2)) ''raw not equal'') (\<lambda>_.
      go_bind (t_call (ps_retrieve_raw s [])) (\<lambda>r.
      go_bind (t_expect (case r of Inl e \<Rightarrow> True | Inr raws \<Rightarrow> dom raws = {})
                 ''should not return any profiles when using no names'') (\<lambda>_.
      go_bind (t_require (is_error r ErrNoNames) ''expected ErrNoNames'') (\<lambda>_.
      go_bind (t_must ''DeleteProfile'' (ps_delete s ''test'')) (\<lambda>_.
      go_bind (t_call (ps_retrieve_infos s [''test''])) (\<lambda>r.
      t_require (is_error r ErrProfileNotFound) ''expected ErrProfileNotFound''))))))))))))))))"

context profile_contract
begin

lemma profile_test_run:
  assumes "pok w" "fits ''test'' test_profile_info ''23CD''"
  shows "passes (test_profile_storage PS) w"
proof -
  obtain w1 where w1: "run (ps_store PS ''test'' test_profile_info ''23CD'') w = (Inr (), w1)" "pok w1"
    "profs w1 = (profs w)(''test'' \<mapsto> (test_profile_info, ''23CD''))"
    using store_law [OF assms] unfolding run_def by blast
  obtain w2 where w2: "run (ps_retrieve_infos PS [''test'']) w1 = (Inr ((map_option fst \<circ> profs w1) |` {''test''}), w2)" "psame w1 w2"
    using infos_law [OF w1(2), of "[''test'']"] w1(3) by (auto simp: found_all_def run_def)
  note s2 = psame_law [OF w2(2) w1(2)]
  obtain w3 where w3: "run (ps_retrieve_infos PS []) w2 = (Inr (map_option fst \<circ> profs w1), w3)" "psame w2 w3"
    using all_infos_law [of w2] s2 by (auto simp: run_def)
  note s3 = psame_law [OF w3(2) conjunct1 [OF s2]]
  obtain w4 where w4: "run (ps_retrieve_raw PS [''test'']) w3 = (Inr ((map_option snd \<circ> profs w1) |` {''test''}), w4)" "psame w3 w4"
    using raw_law [of w3 "[''test'']"] s3 s2 w1(3) by (auto simp: found_all_def run_def)
  note s4 = psame_law [OF w4(2) conjunct1 [OF s3]]
  obtain w5 where w5: "run (ps_retrieve_raw PS []) w4 = (Inl ErrNoNames, w5)" "psame w4 w5"
    using no_names_law [of w4] s4 unfolding run_def by blast
  note s5 = psame_law [OF w5(2) conjunct1 [OF s4]]
  obtain w6 where w6: "run (ps_delete PS ''test'') w5 = (Inr (), w6)" "pok w6" "profs w6 ''test'' = None"
    using delete_law [of w5 "''test''"] s2 s3 s4 s5 w1(3) by (auto simp: run_def)
  obtain e w7 where w7: "run (ps_retrieve_infos PS [''test'']) w6 = (Inl e, w7)" "errors_is e ErrProfileNotFound"
    using infos_law [OF w6(2), of "[''test'']"] w6(3) by (auto simp: found_all_def run_def)
  have "run (test_profile_storage PS) (w, []) = (Inr (), w7, [])"
    unfolding test_profile_storage_def
    by (simp add: run_rules w1(1) w1(3) w2(1) w3(1) w4(1)
      w5(1) w6(1) w7(1) w7(2) info_or_zero_def is_error_def cong: run_congs)
  then show ?thesis by (simp add: passes_def run_def)
qed

end

section \<open>Inventory\<close>

definition t_no_error :: "string \<Rightarrow> 'a result \<Rightarrow> ('w, unit) test" where
  "t_no_error msg r = (case r of Inl e \<Rightarrow> t_errorf msg | Inr _ \<Rightarrow> go_ret ())"

definition test_inventory_storage :: "'w inventory_storage \<Rightarrow> ('w, unit) test" where
  "test_inventory_storage s =
     (let i = ''AA11BB22''; upd_values = [''a'' \<mapsto> InvString ''hi''] in
      go_bind (t_call (is_store s i upd_values)) (\<lambda>r.
      go_bind (t_no_error ''StoreInventoryValues'' r) (\<lambda>_.
      go_bind (t_call (is_retrieve s (Some [i]))) (\<lambda>r.
      go_bind (t_no_error ''RetrieveInventory'' r) (\<lambda>_.
      let vals = (case r of Inl e \<Rightarrow> None | Inr id_vals \<Rightarrow> id_vals i) in
      go_bind (t_expect (vals \<noteq> None) ''expected id in id values map'') (\<lambda>_.
      go_bind (case (case vals of None \<Rightarrow> None | Some vals \<Rightarrow> vals ''a'') of
                 None \<Rightarrow> t_errorf ''expected map key exists''
               | Some test_val \<Rightarrow>
                   let (have, is_string) = (case test_val of InvString x \<Rightarrow> (x, True) | _ \<Rightarrow> ([], False)) in
                   go_bind (t_expect is_string ''test value incorrect'') (\<lambda>_.
                   t_expect (Some (InvString have) = upd_values ''a'') ''want: %v, have: %v'')) (\<lambda>_.
      go_bind (t_must ''DeleteInventory'' (is_delete s i)) (\<lambda>_.
      go_bind (t_call (is_retrieve s (Some [i]))) (\<lambda>r.
      go_bind (t_no_error ''RetrieveInventory'' r) (\<lambda>_.
      t_expect ((case r of Inl e \<Rightarrow> None | Inr id_vals \<Rightarrow> id_vals i) = None)
        ''expected id to be missing in id values map''))))))))))"

lemma inventory_runs [run_rules]:
  "run (is_store (kv_inventory_storage E J get put) i v) w = run (go_zoom get put (store_inventory_values E J i v)) w"
  "run (is_delete (kv_inventory_storage E J get put) i) w = run (go_zoom get put (delete_inventory E i)) w"
  by (simp_all add: kv_inventory_storage_def)
lemma inventory_runs2 [run_rules]:
  "run (is_retrieve (kv_inventory_storage E J get put) ids) w = run (go_zoom get put (retrieve_inventory E J ids)) w"
  by (simp add: kv_inventory_storage_def)

context kv_inventory
begin

lemma inv_rep_delete:
  assumes "inv_rep b I" "view b' = (view b)(i := None)"
  shows "inv_rep b' (I(i := None))"
  unfolding inv_rep_def
proof
  fix k
  show "case view b' k of None \<Rightarrow> (I(i := None)) k = None
      | Some j \<Rightarrow> j \<noteq> [] \<and> (\<exists>v. (I(i := None)) k = Some v \<and> finite (dom v) \<and> ij_unmarshal J j = Inr v)"
    using assms(1) [unfolded inv_rep_def, rule_format, of k] assms(2) by (cases "k = i") (auto split: option.splits)
qed

lemma inventory_test_run:
  assumes "lens get put" "inv_rep (get w) I"
  shows "passes (test_inventory_storage (kv_inventory_storage E J get put)) w"
proof -
  let ?i = "''AA11BB22''" and ?new = "[''a'' \<mapsto> InvString ''hi'']"
  let ?I = "I(?i \<mapsto> map_option norm \<circ> merge_values (I ?i) ?new)"
  obtain b where b: "run (store_inventory_values E J ?i ?new) (get w) = (Inr (), b)" "inv_rep b ?I"
    using store_inventory_refines [OF assms(2), of ?i ?new] by (auto simp: wp_ex run_def)
  have r: "run (retrieve_inventory E J (Some [?i])) b = (Inr (?I |` {?i}), b)"
    using retrieve_inventory_refines [OF b(2), of "[?i]"] by (simp add: wp_ex run_def)
  have a: "merge_values (I ?i) ?new ''a'' = Some (InvString ''hi'')"
    by (simp add: merge_values_def split: option.split)
  have "view b ?i \<noteq> None" using inv_rep_None [OF b(2), of ?i] by simp
  then obtain b' where b': "run (delete_inventory E ?i) b = (Inr (), b')" "view b' = (view b)(?i := None)"
    using delete_law [of b ?i] by (auto simp: delete_inventory_def run_def)
  have r': "run (retrieve_inventory E J (Some [?i])) b' = (Inr ((?I(?i := None)) |` {?i}), b')"
    using retrieve_inventory_refines [OF inv_rep_delete [OF b(2) b'(2)], of "[?i]"] by (simp add: wp_ex run_def)
  have "run (test_inventory_storage (kv_inventory_storage E J get put)) (w, []) = (Inr (), put b' w, [])"
    unfolding test_inventory_storage_def
    by (simp add: run_rules a norm_string b(1) r b'(1) r' lensD [OF assms(1)] t_no_error_def [THEN run_eq] cong: run_congs)
  then show ?thesis by (simp add: passes_def run_def)
qed

end

section \<open>Command plans\<close>

definition test_plan :: cmd_plan where
  "test_plan = \<lparr>cpl_profile_names = [''hello''], cpl_manifest_urls = [''gopher://example.com/1/news''],
     cpl_device_configured = None\<rparr>"

definition test_cmd_plan_storage :: "'w cmd_plan_storage \<Rightarrow> ('w, unit) test" where
  "test_cmd_plan_storage s =
     go_bind (t_must ''StoreCMDPlan'' (cs_store s ''test1'' test_plan)) (\<lambda>_.
     go_bind (t_must ''RetrieveCMDPlan'' (cs_retrieve s ''test1'')) (\<lambda>plan2.
     go_bind (t_expect (test_plan = plan2) ''not equal'') (\<lambda>_.
     go_bind (t_must ''DeleteCMDPlan'' (cs_delete s ''test1'')) (\<lambda>_.
     go_bind (t_call (cs_retrieve s ''test1'')) (\<lambda>r.
     t_require (\<exists>e. r = Inl e) ''expected error'')))))"

text \<open>What the JSON codec does with the plan of the test.\<close>

definition keeps_plan :: "plan_json \<Rightarrow> cmd_plan \<Rightarrow> bool" where
  "keeps_plan J p \<longleftrightarrow> (case pj_marshal J (Some p) of Inl e \<Rightarrow> False | Inr raw \<Rightarrow> pj_unmarshal J raw empty_cmd_plan = Inr p)"

lemma plan_runs [run_rules]:
  "run (cs_store (kv_cmd_plan_storage E J get put) n p) w = run (go_zoom get put (store_cmd_plan E J n (Some p))) w"
  "run (cs_delete (kv_cmd_plan_storage E J get put) n) w = run (go_zoom get put (delete_cmd_plan E n)) w"
  by (simp_all add: kv_cmd_plan_storage_def)
lemma plan_runs2 [run_rules]:
  "run (cs_retrieve (kv_cmd_plan_storage E J get put) n) w = run (go_zoom get put (retrieve_cmd_plan E J n)) w"
  by (simp add: kv_cmd_plan_storage_def)

context kv_laws
begin

lemma plan_test_run:
  assumes "lens get put" "keeps_plan J test_plan"
  shows "passes (test_cmd_plan_storage (kv_cmd_plan_storage E J get put)) w"
proof -
  obtain raw where raw: "pj_marshal J (Some test_plan) = Inr raw" "pj_unmarshal J raw empty_cmd_plan = Inr test_plan"
    using assms(2) by (auto simp: keeps_plan_def split: sum.splits)
  obtain b where b: "run (store_cmd_plan E J ''test1'' (Some test_plan)) (get w) = (Inr (), b)" "view b ''test1'' = Some raw"
  proof -
    have "wp (store_cmd_plan E J ''test1'' (Some test_plan)) (\<lambda>r b. r = Inr () \<and> view b ''test1'' = Some raw) (get w)"
      by (simp add: store_cmd_plan_def raw)
    then show ?thesis using that by (auto simp: wp_ex run_def)
  qed
  have r: "run (retrieve_cmd_plan E J ''test1'') b = (Inr test_plan, b)"
  proof -
    have "wp (retrieve_cmd_plan E J ''test1'') (\<lambda>r b'. r = Inr test_plan \<and> b' = b) b"
      by (simp add: retrieve_cmd_plan_def raw b)
    then show ?thesis by (simp add: wp_ex run_def)
  qed
  obtain b' where b': "run (delete_cmd_plan E ''test1'') b = (Inr (), b')" "view b' = (view b)(''test1'' := None)"
    using delete_law [of b "''test1''"] b(2) by (auto simp: delete_cmd_plan_def run_def)
  have r': "run (retrieve_cmd_plan E J ''test1'') b' = (Inl ErrKeyNotFound, b')"
  proof -
    have "wp (retrieve_cmd_plan E J ''test1'') (\<lambda>r b. r = Inl ErrKeyNotFound \<and> b = b') b'"
      by (simp add: retrieve_cmd_plan_def b')
    then show ?thesis by (simp add: wp_ex run_def)
  qed
  have "run (test_cmd_plan_storage (kv_cmd_plan_storage E J get put)) (w, []) = (Inr (), put b' w, [])"
    unfolding test_cmd_plan_storage_def
    by (simp add: run_rules b(1) r b'(1) r' lensD [OF assms(1)] cong: run_congs)
  then show ?thesis by (simp add: passes_def run_def)
qed

end

end
