(* ===== verification/SystemProps.thy ===== *)
theory SystemProps
  imports Backends ServerProps PartProps
begin

text \<open>
  Properties of the server as a whole: the directories of the file storage, the contracts of whatever storage is
  chosen, profiles through the routes, and starting workflows over HTTP.
\<close>

section \<open>The directories of the file storage\<close>

definition file_dirs :: "string \<Rightarrow> string list" where
  "file_dirs dsn =
     map (engine_dir dsn) [''step'', ''idcmd'', ''eventsubs'', ''wfstatus''] @
     map (\<lambda>n. path_join [dsn, n]) [''inventory'', ''fvkey'', ''profile'', ''cmdplan'']"

lemma file_dirs_distinct:
  assumes "dsn \<noteq> []"
  shows "distinct (file_dirs dsn)"
proof -
  let ?names = "map (\<lambda>n. [''engine'', n]) [''step'', ''idcmd'', ''eventsubs'', ''wfstatus''] @
     map (\<lambda>n. [n]) [''inventory'', ''fvkey'', ''profile'', ''cmdplan'']"
  have dirs: "file_dirs dsn = map (\<lambda>ns. path_join (dsn # ns)) ?names" by (simp add: file_dirs_def engine_dir_def)
  have names: "\<forall>ns\<in>set ?names. ns \<noteq> [] \<and> (\<forall>p\<in>set ns. is_name p)" by (simp add: is_name_def slash_def)
  have "inj_on (\<lambda>ns. path_join (dsn # ns)) (set ?names)"
    unfolding inj_on_def using names path_join_inject [OF assms] by blast
  then show ?thesis unfolding dirs by (simp add: distinct_map)
qed

text \<open>An action that writes no directory but those given.\<close>

definition writes_only :: "string set \<Rightarrow> ('b backend_world, 'a) action \<Rightarrow> bool" where
  "writes_only D m \<longleftrightarrow> (\<forall>w p. p \<notin> D \<longrightarrow> bw_disk (snd (m w)) p = bw_disk w p)"

lemma writes_only_dir: "path \<in> D \<Longrightarrow> writes_only D (go_zoom get (dir_put path) m)"
  by (auto simp: writes_only_def go_zoom_def dir_put_def split: prod.split)

lemma writes_only_engine:
  "engine_dir path ` {''step'', ''idcmd'', ''eventsubs'', ''wfstatus''} \<subseteq> D \<Longrightarrow>
     writes_only D (go_zoom get (disk_store_put path) m)"
  by (auto simp: writes_only_def go_zoom_def disk_store_put_def split: prod.split)

lemma writes_only_steps:
  "writes_only D (go_ret x)" "writes_only D (go_lift r)" "writes_only D (go_read f)"
  "writes_only D m \<Longrightarrow> writes_only D (go_wrap msg args m)"
  "writes_only D m \<Longrightarrow> (\<And>x. writes_only D (k x)) \<Longrightarrow> writes_only D (go_bind m k)"
  "writes_only D m \<Longrightarrow> writes_only D (go_try m)"
  by (auto simp: writes_only_def go_defs split: prod.split sum.split) (metis snd_conv)+

text \<open>An action on a bucket that leaves it as it is.\<close>

definition reads_only :: "('b, 'a) action \<Rightarrow> bool" where
  "reads_only m \<longleftrightarrow> (\<forall>b. snd (m b) = b)"

lemma reads_only_steps:
  "reads_only (go_ret x)" "reads_only (go_lift r)" "reads_only (go_read f)" "reads_only (go_fail e)"
  "reads_only (b_get E key)"
  "reads_only m \<Longrightarrow> reads_only (go_wrap msg args m)"
  "reads_only m \<Longrightarrow> (\<And>x. reads_only (k x)) \<Longrightarrow> reads_only (go_bind m k)"
  "reads_only m \<Longrightarrow> reads_only (go_try m)"
  by (auto simp: reads_only_def go_defs b_get_def split: prod.split sum.split) (metis snd_conv)+

lemma reads_only_fold: "(\<And>x acc. reads_only (f x acc)) \<Longrightarrow> reads_only (go_fold f xs acc)"
  by (induction xs arbitrary: acc) (simp_all add: reads_only_steps)

lemma writes_only_read: "reads_only m \<Longrightarrow> writes_only D (go_zoom (\<lambda>w. bw_disk w path) (dir_put path) m)"
  by (auto simp: writes_only_def reads_only_def go_zoom_def dir_put_def split: prod.split) (metis snd_conv)

lemma reads_only_keypair: "reads_only (get_keypair E C)"
  unfolding get_keypair_def by (auto intro!: reads_only_steps split: prod.split)

lemma reads_only_inventory: "reads_only (retrieve_inventory E J opt)"
  unfolding retrieve_inventory_def retrieve_inventory_body_def
  by (auto intro!: reads_only_steps reads_only_fold split: option.split sum.split)

section \<open>The engine's storage on disk\<close>

lemma disk_system:
  assumes "kv_laws E view" "path \<noteq> []"
  shows "kv_system E view (disk_store_get path) (disk_store_put path)"
proof -
  have d: "distinct (map (engine_dir path) [''step'', ''idcmd'', ''eventsubs'', ''wfstatus''])"
    using file_dirs_distinct [OF assms(2)] unfolding file_dirs_def distinct_append by (rule conjunct1)
  have "disk_store_get path (disk_store_put path s w) = s" for s :: "'a kv_store" and w
    using d by (simp add: disk_store_get_def disk_store_put_def)
  moreover have "disk_store_put path (disk_store_get path w) w = w" for w :: "'a backend_world"
    by (simp add: disk_store_get_def disk_store_put_def fun_eq_iff)
  moreover have "disk_store_put path s (disk_store_put path t w) = disk_store_put path s w" for s t :: "'a kv_store" and w
    by (simp add: disk_store_put_def fun_eq_iff)
  ultimately show ?thesis using assms(1) by (simp add: kv_system_def kv_system_axioms_def)
qed

lemma disk_profiles:
  "kv_laws E view \<Longrightarrow> kv_profiles E view (\<lambda>w. bw_disk w path) (dir_put path)"
  by (simp add: kv_profiles_def kv_profiles_axioms_def dir_put_def)

section \<open>A server on the file storage\<close>

definition file_dsn :: "flags \<Rightarrow> string" where
  "file_dsn fl = (if fl_dsn fl = [] then ''db'' else fl_dsn fl)"

lemma file_dsn_nonempty [simp]: "file_dsn fl \<noteq> []"
  by (simp add: file_dsn_def)

lemma file_server:
  assumes run: "make_server L (all_backends E J P C seed M Q) fl w = (Inr sv, w')"
    and on_disk: "fl_storage fl = ''file'' \<or> fl_storage fl = ''diskv''"
  obtains s m where "sv_engine sv = full_engine L fl m s" "sv_routes sv = server_routes L fl s (full_engine L fl m s)"
    "sc_engine s = diskv_engine E (file_dsn fl)" "sc_profile s = diskv_profile E (path_join [file_dsn fl, ''profile''])"
    "sc_event s = Some (eg_event (diskv_engine E (file_dsn fl)))"
proof -
  have ps: "parse_storage (all_backends E J P C seed M Q) (fl_storage fl) (fl_dsn fl) w = (r, w1) \<Longrightarrow>
     (\<exists>e. r = Inl e) \<or> (\<exists>s. r = Inr s \<and> sc_engine s = diskv_engine E (file_dsn fl) \<and>
        sc_profile s = diskv_profile E (path_join [file_dsn fl, ''profile'']) \<and>
        sc_event s = Some (eg_event (diskv_engine E (file_dsn fl))))" for r w1
    using on_disk by (auto simp: parse_storage_def all_backends_def file_dsn_def Let_def go_defs split: prod.splits sum.splits)
  from run obtain s w1 where s: "parse_storage (all_backends E J P C seed M Q) (fl_storage fl) (fl_dsn fl) w = (Inr s, w1)"
    by (auto simp: make_server_def go_defs split: if_splits prod.splits sum.splits)
  from run obtain m where "sv_engine sv = full_engine L fl m s" "sv_routes sv = server_routes L fl s (full_engine L fl m s)"
    by (auto simp: make_server_def go_defs s Let_def split: if_splits prod.splits sum.splits)
  with ps [OF s] that show ?thesis by auto
qed

lemma full_engine_storage: "en_storage (full_engine L fl m s) = eg_storage (sc_engine s)"
proof -
  have "en_storage (server_engine L fl m s) = eg_storage (sc_engine s)"
    by (simp add: server_engine_def new_engine_def with_default_timeout_def with_event_storage_def split: option.split)
  then show ?thesis by (subst full_engine_fold) simp
qed

text \<open>All the server's workflows are exclusive.\<close>

lemma builtin_exclusive:
  assumes "name \<in> set builtin_names"
  obtains wk where "engine_workflow (full_engine L fl m s) name = Some wk" "is_exclusive wk"
proof -
  let ?ws = "builtin_workflows (env_of L (full_engine L fl m s)) (sl_not_after L) s"
  have "name \<in> wf_name ` set ?ws" using assms builtin_workflow_names [of _ _ s] by (metis list.set_map)
  then obtain wk where wk: "find (\<lambda>w. wf_name w = name) ?ws = Some wk"
    by (cases "find (\<lambda>w. wf_name w = name) ?ws") (auto simp: find_None_iff)
  then have "wk \<in> set ?ws" by (auto simp: find_Some_iff in_set_conv_nth)
  then have "wf_config wk = Some inventory_config \<or> wf_config wk = None"
    using imageI [of wk "set ?ws" wf_config] unfolding list.set_map [symmetric] builtin_configs by auto
  then have "is_exclusive wk" by (auto simp: is_exclusive_def inventory_config_def)
  with wk that show ?thesis by (simp add: full_engine_workflow)
qed

lemma json_error_0: "json_error C e 0 = json_error C e 500"
  by (simp add: json_error_def)

section \<open>Stores that share nothing\<close>

definition writes_of_engine :: "string set \<Rightarrow> 'b backend_world engine_storage \<Rightarrow> bool" where
  "writes_of_engine D eg \<longleftrightarrow>
     (\<forall>i u. writes_only D (st_retrieve_command_request_type (eg_storage eg) i u)) \<and>
     (\<forall>i sc. writes_only D (st_store_command_response (eg_storage eg) i sc)) \<and>
     (\<forall>st t. writes_only D (st_store_step (eg_storage eg) st t)) \<and>
     (\<forall>name ids. writes_only D (st_retrieve_outstanding (eg_storage eg) name ids)) \<and>
     (\<forall>i name. writes_only D (st_cancel_steps (eg_storage eg) i name)) \<and>
     (\<forall>i name. writes_only D (st_retrieve_workflow_started (eg_storage eg) i name)) \<and>
     (\<forall>ids name t. writes_only D (st_record_workflow_started (eg_storage eg) ids name t)) \<and>
     (\<forall>i. writes_only D (st_clear_workflow_status (eg_storage eg) i)) \<and>
     (\<forall>t. writes_only D (st_retrieve_steps_to_enqueue (eg_worker eg) t)) \<and>
     writes_only D (st_retrieve_timed_out_steps (eg_worker eg)) \<and>
     (\<forall>t t'. writes_only D (st_retrieve_and_mark_repushed (eg_worker eg) t t')) \<and>
     (\<forall>f. writes_only D (st_retrieve_event_subscriptions_by_event (eg_event eg) f)) \<and>
     (\<forall>names. writes_only D (es_retrieve (eg_event eg) names)) \<and>
     (\<forall>name es. writes_only D (es_store (eg_event eg) name es)) \<and>
     (\<forall>name. writes_only D (es_delete (eg_event eg) name))"

definition writes_of_profiles :: "string set \<Rightarrow> 'b backend_world full_profile_storage \<Rightarrow> bool" where
  "writes_of_profiles D ps \<longleftrightarrow>
     (\<forall>names. writes_only D (ps_retrieve_infos ps names)) \<and> (\<forall>names. writes_only D (ps_retrieve_raw ps names)) \<and>
     (\<forall>name info raw. writes_only D (ps_store ps name info raw)) \<and> (\<forall>name. writes_only D (ps_delete ps name))"

definition writes_of_inventory :: "string set \<Rightarrow> 'b backend_world inventory_storage \<Rightarrow> bool" where
  "writes_of_inventory D sto \<longleftrightarrow>
     (\<forall>opt. writes_only D (is_retrieve sto opt)) \<and>
     (\<forall>i v. writes_only D (is_store sto i v)) \<and> (\<forall>i. writes_only D (is_delete sto i))"

definition writes_of_cmd_plans :: "string set \<Rightarrow> 'b backend_world cmd_plan_storage \<Rightarrow> bool" where
  "writes_of_cmd_plans D cs \<longleftrightarrow>
     (\<forall>name. writes_only D (cs_retrieve cs name)) \<and>
     (\<forall>name p. writes_only D (cs_store cs name p)) \<and> (\<forall>name. writes_only D (cs_delete cs name))"

definition writes_of_filevault :: "string set \<Rightarrow> 'b backend_world fv_storage \<Rightarrow> bool" where
  "writes_of_filevault D fv \<longleftrightarrow>
     (\<forall>i. writes_only {} (fv_retrieve_cert fv i)) \<and> (\<forall>i. writes_only {} (fv_retrieve_prk fv i)) \<and>
     (\<forall>i cms. writes_only D (fv_escrow fv i cms))"

text \<open>A server to run: libraries that answer, empty stores, the file storage in its default directory.\<close>

definition demo_net :: "('w, string) http_lib" where
  "demo_net =
     \<lparr>ht_parse = Inr, ht_resolve = (\<lambda>a b. a @ b), ht_string = id, ht_new_request = (\<lambda>m u. Inr ()),
      ht_do = (\<lambda>rq w. ((Inr (), []), w))\<rparr>"

definition demo_plans :: plan_json where
  "demo_plans = \<lparr>pj_marshal = (\<lambda>_. Inr ''plan''), pj_unmarshal = (\<lambda>_ p. Inr p)\<rparr>"

definition demo_sql :: "('w, unit) sql_lib" where
  "demo_sql = \<lparr>sq_open = (\<lambda>_ _. Inr ()), sq_ping = (\<lambda>_. go_ret ())\<rparr>"

definition demo_backends :: "(string \<times> bytes) list backend_world backends" where
  "demo_backends = all_backends inmem_env any_json demo_plans demo_crypto 0 plain_server demo_sql"

definition fresh_world :: "(string \<times> bytes) list backend_world" where
  "fresh_world =
     \<lparr>bw_engine = empty_mem 7, bw_inventory = [], bw_filevault = [], bw_profile = [], bw_cmd_plan = [], bw_disk = (\<lambda>_. []),
      bw_disk_ids = 0, bw_disk_clock = 7, bw_mysql = database empty_tables 1 7, bw_profile_db = no_profiles, bw_clock = 7\<rparr>"

type_synonym demo_lib = "((string \<times> bytes) list backend_world, string, unit) server_lib"

definition demo_libs :: "demo_lib \<Rightarrow> demo_lib" where
  "demo_libs L = L\<lparr>sl_http := demo_net, sl_codec := demo_codec, sl_mobileconfig := demo_mobileconfig, sl_basic_auth := demo_auth\<rparr>"

definition file_flags :: flags where "file_flags = demo_flags\<lparr>fl_storage := ''file''\<rparr>"

definition api_request :: "string \<Rightarrow> string list \<Rightarrow> bytes \<Rightarrow> request" where
  "api_request name ids raw =
     \<lparr>hr_name = name, hr_query = (\<lambda>k. if k = ''key'' then [''secret''] else if k = ''id'' then ids else []), hr_body = (raw, None)\<rparr>"

lemma api_request_sel [simp]:
  "hr_name (api_request n ids raw) = n" "hr_query (api_request n ids raw) ''id'' = ids" "hr_body (api_request n ids raw) = (raw, None)"
  by (simp_all add: api_request_def)

lemma file_flags_sel [simp]: "fl_storage file_flags = ''file''" "fl_api_key file_flags = ''secret''" "file_dsn file_flags = ''db''"
  by (simp_all add: file_flags_def demo_flags_def file_dsn_def)

lemma demo_libs_sel [simp]:
  "sl_codec (demo_libs L) = demo_codec" "sl_mobileconfig (demo_libs L) = demo_mobileconfig"
  "sl_basic_auth (demo_libs L) api_username ''secret'' api_realm h (api_request n ids raw) = h (api_request n ids raw)"
  by (simp_all add: demo_libs_def demo_auth_def api_request_def fun_eq_iff)

lemma demo_prems:
  "fl_storage file_flags = ''file'' \<or> fl_storage file_flags = ''diskv''" "fl_api_key file_flags \<noteq> []"
  "sl_basic_auth (demo_libs L) api_username (fl_api_key file_flags) api_realm h (api_request n ids raw) = h (api_request n ids raw)"
  by simp_all

lemma demo_keypair: "\<exists>b. assure_keypair_exists inmem_env demo_crypto 0 [] = (Inr (), b)"
  by (simp add: assure_keypair_exists_def b_has_def inmem_env_def demo_crypto_def go_defs kv_key_key_def kv_key_cert_def)

lemma demo_storage: "\<exists>s w. parse_storage demo_backends ''file'' [] fresh_world = (Inr s, w)"
  using demo_keypair
  by (auto simp: parse_storage_def demo_backends_def all_backends_def diskv_filevault_def kv_filevault_new_def go_defs
      go_zoom_def fresh_world_def Let_def)

lemma demo_server: "\<exists>sv w. make_server (demo_libs L) demo_backends file_flags fresh_world = (Inr sv, w)"
proof -
  obtain s w where "parse_storage demo_backends ''file'' [] fresh_world = (Inr s, w)" using demo_storage by blast
  moreover have "\<exists>m. server_mdm (demo_libs L) file_flags = Inr m"
    by (simp add: server_mdm_def new_foss_mdm_def prep_url_def with_push_def demo_libs_def demo_net_def file_flags_def demo_flags_def)
  ultimately show ?thesis by (auto simp: make_server_def go_defs file_flags_def demo_flags_def Let_def)
qed

lemma disk_filevault_writes:
  assumes "path_join [d, ''inventory''] \<in> D"
  shows "writes_of_filevault D (kv_fv_storage E C (\<lambda>w. bw_disk w key) (dir_put key)
     (inv_prk (diskv_inventory E J (path_join [d, ''inventory''])) (go_read bw_clock)))"
  unfolding writes_of_filevault_def
proof (intro conjI allI)
  let ?prk = "inv_prk (diskv_inventory E J (path_join [d, ''inventory''])) (go_read bw_clock)"
  let ?fv = "kv_fv_storage E C (\<lambda>w. bw_disk w key) (dir_put key) ?prk"
  fix i
  show "writes_only {} (fv_retrieve_cert ?fv i)"
    by (simp add: kv_fv_storage_def retrieve_prk_cert_raw_def writes_only_read reads_only_steps)
  show "writes_only {} (fv_retrieve_prk ?fv i)"
    by (simp add: kv_fv_storage_def inv_prk_def inv_retrieve_prk_def diskv_inventory_def kv_inventory_storage_def
        writes_only_steps writes_only_read reads_only_inventory)
next
  fix i cms
  have "writes_only D (pk_store (inv_prk (diskv_inventory E J (path_join [d, ''inventory''])) (go_read bw_clock)) i prk)" for prk
    using assms
    by (simp add: inv_prk_def inv_store_prk_def writes_only_steps diskv_inventory_def kv_inventory_storage_def writes_only_dir)
  then show "writes_only D (fv_escrow (kv_fv_storage E C (\<lambda>w. bw_disk w key) (dir_put key)
      (inv_prk (diskv_inventory E J (path_join [d, ''inventory''])) (go_read bw_clock))) i cms)"
    by (auto simp: kv_fv_storage_def escrow_prk_def writes_only_read reads_only_keypair split: prod.split
        intro!: writes_only_steps)
qed

text \<open>
  C21: The stores of the file storage share no directory: the eight directories are different, whatever the
  path given, and every operation of a store, whether it reads or writes, changes at most the store's own
  directories: the engine's four, the inventory's, the profiles' and the command plans'. The FileVault store
  keeps the recovery keys in the inventory: escrowing changes at most the inventory's directory and reading a
  certificate or a key changes nothing, so the directory of its key pair changes only when the storage is
  made, which changes no other directory.
\<close>

theorem file_stores_apart:
  assumes "parse_storage (all_backends E J P C seed M Q) ''file'' dsn w = (Inr s, w')"
  defines "d \<equiv> (if dsn = [] then ''db'' else dsn)"
  shows "distinct (file_dirs d) \<and>
     writes_of_engine (set (take 4 (file_dirs d))) (sc_engine s) \<and> sc_event s = Some (eg_event (sc_engine s)) \<and>
     writes_of_inventory {path_join [d, ''inventory'']} (sc_inventory s) \<and>
     writes_of_filevault {path_join [d, ''inventory'']} (sc_filevault s) \<and>
     writes_of_profiles {path_join [d, ''profile'']} (sc_profile s) \<and>
     writes_of_cmd_plans {path_join [d, ''cmdplan'']} (sc_cmd_plan s) \<and>
     (\<forall>p. p \<noteq> path_join [d, ''fvkey''] \<longrightarrow> bw_disk w' p = bw_disk w p)"
proof -
  have "d \<noteq> []" by (simp add: d_def)
  let ?inv = "diskv_inventory E J (path_join [d, ''inventory''])" and ?key = "path_join [d, ''fvkey'']"
  let ?prk = "inv_prk ?inv (go_read bw_clock)"
  have s: "sc_engine s = diskv_engine E d" "sc_inventory s = ?inv" "sc_profile s = diskv_profile E (path_join [d, ''profile''])"
    "sc_cmd_plan s = diskv_cmd_plan E P (path_join [d, ''cmdplan''])" "sc_event s = Some (eg_event (diskv_engine E d))"
    "sc_filevault s = kv_fv_storage E C (\<lambda>w. bw_disk w ?key) (dir_put ?key) ?prk"
    and made: "\<exists>b. w' = dir_put ?key b w"
    using assms(1) by (auto simp: parse_storage_def all_backends_def d_def Let_def go_defs diskv_filevault_def
        kv_filevault_new_def split: prod.splits sum.splits)
  have eng: "writes_of_engine (set (take 4 (file_dirs d))) (sc_engine s)"
    by (simp add: s(1) writes_of_engine_def diskv_engine_def kv_engine_new_def kv_storage_def kv_worker_storage_def
        kv_full_event_storage_def writes_only_engine file_dirs_def)
  have inv: "writes_of_inventory {path_join [d, ''inventory'']} (sc_inventory s)"
    by (simp add: s(2) writes_of_inventory_def diskv_inventory_def kv_inventory_storage_def writes_only_dir)
  have fv: "writes_of_filevault {path_join [d, ''inventory'']} (sc_filevault s)"
    unfolding s(6) by (rule disk_filevault_writes) simp
  have other: "bw_disk w' p = bw_disk w p" if "p \<noteq> ?key" for p
    using made that by (auto simp: dir_put_def)
  show ?thesis
    using file_dirs_distinct [OF \<open>d \<noteq> []\<close>] eng inv fv other
    by (simp add: s(1,3,4,5) writes_of_profiles_def writes_of_cmd_plans_def diskv_profile_def
        kv_full_profile_storage_def diskv_cmd_plan_def kv_cmd_plan_storage_def writes_only_dir)
qed

theorem file_stores_apart_witness:
  "\<exists>s w. parse_storage demo_backends ''file'' [] fresh_world = (Inr s, w) \<and>
     writes_of_cmd_plans {path_join [''db'', ''cmdplan'']} (sc_cmd_plan s) \<and>
     bw_disk w (path_join [''db'', ''cmdplan'']) = [] \<and>
     path_join [''db'', ''cmdplan''] \<notin> set (take 7 (file_dirs ''db''))"
proof -
  obtain s w where s: "parse_storage demo_backends ''file'' [] fresh_world = (Inr s, w)" using demo_storage by blast
  note apart = file_stores_apart [OF s [unfolded demo_backends_def], simplified]
  have "path_join [''db'', ''cmdplan''] \<notin> set (take 7 (file_dirs ''db''))"
    "path_join [''db'', ''cmdplan''] \<noteq> path_join [''db'', ''fvkey'']"
    using conjunct1 [OF apart] by (auto simp: file_dirs_def)
  moreover have "bw_disk fresh_world p = []" for p by (simp add: fresh_world_def)
  ultimately show ?thesis using s apart by (intro exI [of _ s] exI [of _ w]) auto
qed

section \<open>Starting workflows over HTTP\<close>

text \<open>
  C19: On a server with the file storage, a POST to start one of its workflows that all the enrollments given
  have outstanding is answered 500 with the already-started error and changes nothing; otherwise the workflow
  starts for exactly those that do not have it outstanding, and the answer is the new instance ID or the error of
  a start that fails.
\<close>

theorem file_server_starts:
  fixes fl :: flags
  assumes "kv_laws E view" and run: "make_server L (all_backends E J P C seed M Q) fl w0 = (Inr sv, w0')"
    and "fl_storage fl = ''file'' \<or> fl_storage fl = ''diskv''" "fl_api_key fl \<noteq> []"
    and auth: "\<And>h. sl_basic_auth L api_username (fl_api_key fl) api_realm h rq = h rq"
    and "kv_laws.rep E view n (disk_store_get (file_dsn fl) w) a"
    and "kv_laws.trep E (view (status_store (disk_store_get (file_dsn fl) w))) T"
    and "hr_name rq \<in> set builtin_names" "distinct (hr_query rq ''id'')" "hr_query rq ''id'' \<noteq> []"
  shows "\<exists>h. (''/v1/workflow/:name/start'', [''POST''], h) \<in> set (sv_routes sv) \<and>
     (if \<forall>i\<in>set (hr_query rq ''id''). outstanding a (hr_name rq) (hr_query rq ''id'') i
      then \<exists>e. h rq w = (Inr (json_error (sl_codec L) e 500), w) \<and> errors_is e ErrWorkflowAlreadyStarted
      else \<exists>new wk. distinct new \<and>
             set new = {i \<in> set (hr_query rq ''id''). \<not> outstanding a (hr_name rq) (hr_query rq ''id'') i} \<and>
             engine_workflow (sv_engine sv) (hr_name rq) = Some wk \<and>
             h rq w = or_error (sl_codec L) 500
               (go_bind (en_new_id (sv_engine sv)) (\<lambda>inst.
                go_bind (go_for (start_ids (sv_engine sv) new)
                  (start_instance (sv_engine sv) wk (hr_name rq) (query_get rq ''context'') None None inst)) (\<lambda>_.
                go_ret inst)))
               (\<lambda>inst. go_ret (encoded None (hc_instance (sl_codec L) inst))) w)"
proof -
  obtain s m where s: "sv_engine sv = full_engine L fl m s" "sv_routes sv = server_routes L fl s (full_engine L fl m s)"
    "sc_engine s = diskv_engine E (file_dsn fl)" using file_server [OF run assms(3)] by metis
  let ?e = "full_engine L fl m s" and ?ids = "hr_query rq ''id''" and ?name = "hr_name rq"
  let ?h = "sl_basic_auth L api_username (fl_api_key fl) api_realm (start_workflow_handler (sl_codec L) (Some (engine_starter ?e)))"
  have route: "(''/v1/workflow/:name/start'', [''POST''], ?h) \<in> set (sv_routes sv)"
    using assms(4) by (simp add: s(2) server_routes_def api_routes_def engine_api_v1_def inventory_api_v1_def
        profile_api_v1_def filevault_api_v1_def cmd_plan_api_v1_def mux_handle_def)
  have sys: "kv_system E view (disk_store_get (file_dsn fl)) (disk_store_put (file_dsn fl))"
    by (rule disk_system [OF assms(1)]) simp
  have sto: "en_storage ?e = kv_storage E (disk_store_get (file_dsn fl)) (disk_store_put (file_dsn fl))"
    by (simp add: full_engine_storage s(3) diskv_engine_def kv_engine_new_def)
  obtain wk where wk: "engine_workflow ?e ?name = Some wk" "is_exclusive wk" by (rule builtin_exclusive [OF assms(8)])
  have h: "?h rq w = or_error (sl_codec L) 0 (start_workflow ?e ?name (query_get rq ''context'') ?ids None None)
      (\<lambda>inst. go_ret (encoded None (hc_instance (sl_codec L) inst))) w"
    using assms(10) by (cases ?ids) (simp_all add: auth start_workflow_handler_def engine_starter_def)
  show ?thesis
  proof (cases "\<forall>i\<in>set ?ids. outstanding a ?name ?ids i")
    case True
    obtain args where "start_workflow ?e ?name (query_get rq ''context'') ?ids None None w =
        (Inl (Wrapf ''%w on %d (of %d) ids'' args ErrWorkflowAlreadyStarted), w)"
      using kv_system.start_refused_kv [OF sys sto assms(6,7,9,10) wk True] by blast
    then have "\<exists>e. ?h rq w = (Inr (json_error (sl_codec L) e 500), w) \<and> errors_is e ErrWorkflowAlreadyStarted"
      unfolding h by (auto simp: or_error_run json_error_0)
    with route True show ?thesis by (intro exI [of _ ?h]) simp
  next
    case False
    then have some: "\<exists>i\<in>set ?ids. \<not> outstanding a ?name ?ids i" by blast
    obtain new where new: "distinct new" "set new = {i \<in> set ?ids. \<not> outstanding a ?name ?ids i}"
      "start_workflow ?e ?name (query_get rq ''context'') ?ids None None w =
             go_bind (en_new_id ?e) (\<lambda>inst.
             go_bind (go_for (start_ids ?e new) (start_instance ?e wk ?name (query_get rq ''context'') None None inst)) (\<lambda>_.
             go_ret inst)) w"
      using kv_system.start_runs_kv [OF sys sto assms(6,7,9) wk some] by blast
    have "?h rq w = or_error (sl_codec L) 500
               (go_bind (en_new_id ?e) (\<lambda>inst.
                go_bind (go_for (start_ids ?e new) (start_instance ?e wk ?name (query_get rq ''context'') None None inst)) (\<lambda>_.
                go_ret inst)))
               (\<lambda>inst. go_ret (encoded None (hc_instance (sl_codec L) inst))) w"
      unfolding h or_error_run new(3) by (simp only: json_error_0)
    with route False new(1,2) wk(1) show ?thesis
      by (intro exI [of _ ?h] conjI) (simp_all only: if_False s(1), blast)
  qed
qed

theorem file_server_starts_witness:
  "\<forall>L. \<exists>sv w h new. make_server (demo_libs L) demo_backends file_flags fresh_world = (Inr sv, w) \<and>
     (''/v1/workflow/:name/start'', [''POST''], h) \<in> set (sv_routes sv) \<and> set new = {''AAA'', ''BBB''} \<and>
     (\<exists>wk. h (api_request lock_workflow_name [''AAA'', ''BBB''] []) fresh_world =
        or_error demo_codec 500
          (go_bind (en_new_id (sv_engine sv)) (\<lambda>inst.
           go_bind (go_for (start_ids (sv_engine sv) new) (start_instance (sv_engine sv) wk lock_workflow_name [] None None inst)) (\<lambda>_.
           go_ret inst)))
          (\<lambda>inst. go_ret (encoded None (hc_instance demo_codec inst))) fresh_world)"
proof
  fix L
  let ?rq = "api_request lock_workflow_name [''AAA'', ''BBB''] []"
  obtain sv w where run: "make_server (demo_libs L) demo_backends file_flags fresh_world = (Inr sv, w)"
    using demo_server by blast
  have st: "disk_store_get ''db'' fresh_world = empty_mem 7"
    by (simp add: disk_store_get_def fresh_world_def empty_mem_def)
  have rep: "inmem.rep 2 (disk_store_get ''db'' fresh_world) empty_astore"
    unfolding st by (rule rep_empty)
  have trep: "inmem.trep (map_of (status_store (disk_store_get ''db'' fresh_world))) Map.empty"
    unfolding st by (simp add: inmem.trep_def empty_mem_def fun_eq_iff)
  have none: "\<not> outstanding empty_astore name ids i" for name ids i
    by (simp add: outstanding_def empty_astore_def wf_step_of_def)
  have all: "(\<forall>i\<in>set (hr_query ?rq ''id''). outstanding empty_astore (hr_name ?rq) (hr_query ?rq ''id'') i) = False"
    "{i \<in> set (hr_query ?rq ''id''). \<not> outstanding empty_astore (hr_name ?rq) (hr_query ?rq ''id'') i} = {''AAA'', ''BBB''}"
    using none by auto
  have ctx: "query_get ?rq ''context'' = []" by (simp add: query_get_def api_request_def)
  have dsn: "file_dsn file_flags = ''db''" by simp
  have ids: "hr_name ?rq \<in> set builtin_names" "distinct (hr_query ?rq ''id'')" "hr_query ?rq ''id'' \<noteq> []"
    by (simp_all add: builtin_names_def)
  note starts = file_server_starts [OF inmem.kv_laws_axioms run [unfolded demo_backends_def] demo_prems
      rep [folded dsn] trep [folded dsn] ids, unfolded ctx demo_libs_sel(1), unfolded all if_False, unfolded api_request_sel(1)]
  from starts obtain h new wk where "(''/v1/workflow/:name/start'', [''POST''], h) \<in> set (sv_routes sv)"
    "set new = {''AAA'', ''BBB''}"
    "h ?rq fresh_world = or_error demo_codec 500
          (go_bind (en_new_id (sv_engine sv)) (\<lambda>inst.
           go_bind (go_for (start_ids (sv_engine sv) new) (start_instance (sv_engine sv) wk lock_workflow_name [] None None inst)) (\<lambda>_.
           go_ret inst)))
          (\<lambda>inst. go_ret (encoded None (hc_instance demo_codec inst))) fresh_world"
    by (elim exE conjE) (rule that)
  with run show "\<exists>sv w h new. make_server (demo_libs L) demo_backends file_flags fresh_world = (Inr sv, w) \<and>
     (''/v1/workflow/:name/start'', [''POST''], h) \<in> set (sv_routes sv) \<and> set new = {''AAA'', ''BBB''} \<and>
     (\<exists>wk. h ?rq fresh_world =
        or_error demo_codec 500
          (go_bind (en_new_id (sv_engine sv)) (\<lambda>inst.
           go_bind (go_for (start_ids (sv_engine sv) new) (start_instance (sv_engine sv) wk lock_workflow_name [] None None inst)) (\<lambda>_.
           go_ret inst)))
          (\<lambda>inst. go_ret (encoded None (hc_instance demo_codec inst))) fresh_world)"
    by blast
qed

section \<open>Profiles through the server\<close>

text \<open>
  C20: On a server with the file storage, a profile that is uploaded through its routes and parses is answered
  204, is read back byte for byte through them, is the one that the directory of profiles holds from then on
  under its name, and leaves every other directory as it was.
\<close>

theorem file_server_profiles:
  assumes "kv_laws E view" and run: "make_server L (all_backends E J P C seed M Q) fl w0 = (Inr sv, w0')"
    and "fl_storage fl = ''file'' \<or> fl_storage fl = ''diskv''" "fl_api_key fl \<noteq> []"
    and auth: "\<And>h. sl_basic_auth L api_username (fl_api_key fl) api_realm h rq = h rq"
    and "kv_holds view (bw_disk w (path_join [file_dsn fl, ''profile''])) held"
    and "hr_name rq \<noteq> []" "hr_body rq = (raw, None)" "raw \<noteq> []"
    and "parse_mobileconfig (sl_mobileconfig L) raw = Inr (p, sg)"
  shows "\<exists>up down w1 w2. (''/v1/profile/:name'', [''PUT''], up) \<in> set (sv_routes sv) \<and>
     (''/v1/profile/:name'', [''GET''], down) \<in> set (sv_routes sv) \<and>
     up rq w = (Inr no_content, w1) \<and>
     down rq w1 = (Inr \<lparr>rs_status = 200, rs_type = Some aspen_config, rs_body = raw\<rparr>, w2) \<and>
     kv_holds view (bw_disk w2 (path_join [file_dsn fl, ''profile'']))
       (held(hr_name rq \<mapsto> (\<lparr>pi_identifier = pl_identifier p, pi_uuid = pl_uuid p\<rparr>, raw))) \<and>
     (\<forall>path. path \<noteq> path_join [file_dsn fl, ''profile''] \<longrightarrow> bw_disk w1 path = bw_disk w path)"
proof -
  obtain s m where s: "sv_routes sv = server_routes L fl s (full_engine L fl m s)"
    "sc_profile s = diskv_profile E (path_join [file_dsn fl, ''profile''])" using file_server [OF run assms(3)] by metis
  let ?dir = "path_join [file_dsn fl, ''profile'']"
  let ?PS = "diskv_profile E ?dir"
  let ?up = "store_profile_handler (sl_codec L) (sl_mobileconfig L) ?PS" and ?down = "get_profile_handler (sl_codec L) ?PS"
  let ?auth = "sl_basic_auth L api_username (fl_api_key fl) api_realm"
  let ?v = "(\<lparr>pi_identifier = pl_identifier p, pi_uuid = pl_uuid p\<rparr>, raw)"
  have routes: "(''/v1/profile/:name'', [''PUT''], ?auth ?up) \<in> set (sv_routes sv)"
    "(''/v1/profile/:name'', [''GET''], ?auth ?down) \<in> set (sv_routes sv)"
    using assms(4) by (simp_all add: s server_routes_def api_routes_def engine_api_v1_def inventory_api_v1_def
        profile_api_v1_def filevault_api_v1_def cmd_plan_api_v1_def mux_handle_def)
  have k: "kv_profiles E view (\<lambda>w. bw_disk w ?dir) (dir_put ?dir)" by (rule disk_profiles [OF assms(1)])
  let ?profs = "kv_profiles.kv_profs view (\<lambda>w. bw_disk w ?dir)"
  let ?ok = "\<lambda>w. kv_laws.prof_rep view (bw_disk w ?dir) (?profs w)"
  note contract = kv_profiles.keeps_contract [OF k, folded diskv_profile_def]
  have w: "?ok w" "?profs w = held" using assms(6) kv_profiles.kv_profs_rep [OF k] by (auto simp: kv_holds_def)
  obtain w1 where w1: "?up rq w = (Inr no_content, w1)" "?ok w1" "?profs w1 = held(hr_name rq \<mapsto> ?v)"
    using profile_contract.put_profile_run [OF contract, where w = w and rq = rq and raw = raw and p = p and sg = sg
        and L = "sl_mobileconfig L" and C = "sl_codec L"] assms(7-10) w by auto
  obtain w2 where w2: "?down rq w1 = (Inr \<lparr>rs_status = 200, rs_type = Some aspen_config, rs_body = raw\<rparr>, w2)"
    "?ok w2" "?profs w2 = held(hr_name rq \<mapsto> ?v)"
    using profile_contract.get_profile_run [OF contract, where w = w1 and rq = rq and C = "sl_codec L"] assms(7) w1(2,3)
    by auto
  have "writes_only {?dir} (?up rq)"
    by (auto simp: store_profile_handler_def read_all_def assms(8) assms(10) or_error_def diskv_profile_def
        kv_full_profile_storage_def writes_only_dir split: sum.split intro!: writes_only_steps)
  then have "\<forall>path. path \<noteq> ?dir \<longrightarrow> bw_disk w1 path = bw_disk w path"
    using w1(1) by (auto simp: writes_only_def) (metis snd_conv)
  with routes w1 w2 show ?thesis
    by (intro exI [of _ "?auth ?up"] exI [of _ "?auth ?down"] exI [of _ w1] exI [of _ w2])
      (simp add: auth kv_holds_def)
qed

theorem file_server_profiles_witness:
  "\<forall>L. \<exists>sv w up down w1 w2. make_server (demo_libs L) demo_backends file_flags fresh_world = (Inr sv, w) \<and>
     (''/v1/profile/:name'', [''PUT''], up) \<in> set (sv_routes sv) \<and>
     (''/v1/profile/:name'', [''GET''], down) \<in> set (sv_routes sv) \<and>
     up (api_request ''wifi'' [] ''<?xml>'') fresh_world = (Inr no_content, w1) \<and>
     down (api_request ''wifi'' [] ''<?xml>'') w1 =
       (Inr \<lparr>rs_status = 200, rs_type = Some aspen_config, rs_body = ''<?xml>''\<rparr>, w2)"
proof
  fix L
  obtain sv w where run: "make_server (demo_libs L) demo_backends file_flags fresh_world = (Inr sv, w)"
    using demo_server by blast
  let ?rq = "api_request ''wifi'' [] ''<?xml>''"
  have parsed: "parse_mobileconfig demo_mobileconfig ''<?xml>'' =
      Inr (\<lparr>pl_description = [], pl_display_name = [], pl_identifier = ''com.example'', pl_organization = [],
            pl_uuid = ''1'', pl_type = ''Configuration'', pl_version = 1\<rparr>, False)"
    by (simp add: parse_mobileconfig_def has_prefix_def parse_plist_payload_def demo_mobileconfig_def validate_payload_def)
  have holds: "kv_holds map_of (bw_disk fresh_world (path_join [''db'', ''profile''])) Map.empty"
    by (simp add: kv_holds_def inmem.prof_rep_def fresh_world_def)
  have dir: "path_join [file_dsn file_flags, ''profile''] = path_join [''db'', ''profile'']" by simp
  have raw: "hr_name ?rq \<noteq> []" "hr_body ?rq = (''<?xml>'', None)" "''<?xml>'' \<noteq> []" by simp_all
  note served = file_server_profiles [OF inmem.kv_laws_axioms run [unfolded demo_backends_def] demo_prems
      holds [folded dir] raw parsed [folded demo_libs_sel(2) [of L]], unfolded demo_libs_sel(1)]
  from served obtain up down w1 w2 where "(''/v1/profile/:name'', [''PUT''], up) \<in> set (sv_routes sv)"
    "(''/v1/profile/:name'', [''GET''], down) \<in> set (sv_routes sv)" "up ?rq fresh_world = (Inr no_content, w1)"
    "down ?rq w1 = (Inr \<lparr>rs_status = 200, rs_type = Some aspen_config, rs_body = ''<?xml>''\<rparr>, w2)"
    by blast
  with run show "\<exists>sv w up down w1 w2. make_server (demo_libs L) demo_backends file_flags fresh_world = (Inr sv, w) \<and>
     (''/v1/profile/:name'', [''PUT''], up) \<in> set (sv_routes sv) \<and>
     (''/v1/profile/:name'', [''GET''], down) \<in> set (sv_routes sv) \<and>
     up ?rq fresh_world = (Inr no_content, w1) \<and>
     down ?rq w1 = (Inr \<lparr>rs_status = 200, rs_type = Some aspen_config, rs_body = ''<?xml>''\<rparr>, w2)"
    by blast
qed

end
