(* ===== verification/ConformanceProps.thy ===== *)
theory ConformanceProps
  imports KVTests MySQLTests SubsystemTests SystemProps
begin

text \<open>
  The repository's conformance tests pass on every storage backend: the engine's storages, the profile stores, the
  inventory and the command plans.
\<close>

section \<open>The key-value storage\<close>

lemmas distinct_dirs =
  list.map append.simps distinct.simps list.set insert_iff empty_iff simp_thms de_Morgan_disj

lemma disk_lens:
  assumes "distinct (map (engine_dir d) [''step'', ''idcmd'', ''eventsubs'', ''wfstatus''])"
  shows "lens (disk_store_get d) (disk_store_put d)"
  using assms unfolding distinct_dirs
  by (elim conjE) (simp add: lens_def disk_store_get_def disk_store_put_def fun_upd_twist)

lemma disk_put_other:
  "p \<notin> engine_dir d ` {''step'', ''idcmd'', ''eventsubs'', ''wfstatus''} \<Longrightarrow> bw_disk (disk_store_put d s w) p = bw_disk w p"
  by (simp add: disk_store_put_def)

lemma disk_get_other:
  assumes "engine_dir d ` {''step'', ''idcmd'', ''eventsubs'', ''wfstatus''} \<inter>
     engine_dir d' ` {''step'', ''idcmd'', ''eventsubs'', ''wfstatus''} = {}"
  shows "disk_store_get d' (disk_store_put d s w) =
     (disk_store_get d' w)\<lparr>ids_issued := ids_issued s, wall_clock := wall_clock s\<rparr>"
proof -
  have "bw_disk (disk_store_put d s w) (engine_dir d' n) = bw_disk w (engine_dir d' n)"
    if "n \<in> {''step'', ''idcmd'', ''eventsubs'', ''wfstatus''}" for n
    by (rule disk_put_other) (use assms that in blast)
  then show ?thesis by (simp add: disk_store_get_def) (simp add: disk_store_put_def)
qed

lemma disk_apart:
  assumes "engine_dir d ` {''step'', ''idcmd'', ''eventsubs'', ''wfstatus''} \<inter>
     engine_dir d' ` {''step'', ''idcmd'', ''eventsubs'', ''wfstatus''} = {}"
  shows "apart T (disk_store_get d) (disk_store_put d) (disk_store_get d')"
  unfolding apart_def disk_get_other [OF assms]
  by (auto simp: disk_store_get_def)

text \<open>
  C5: The key-value storage passes the repository's conformance tests of engine storages, in memory and on disk (in
  two directories that share none of the engine's), from empty buckets, whatever the number of IDs issued and at any
  instant that is a minute away from the ends of the range of instants.
\<close>

theorem kv_passes_tests:
  assumes "test_time T"
  shows "passes (test_engine_storage (go_read (\<lambda>w. wall_clock (fst w)))
             (kv_engine_new inmem_env fst (\<lambda>s w. (s, snd w))) (kv_engine_new inmem_env snd (\<lambda>s w. (fst w, s))))
           (idle_store [] [] n T, idle_store [] [] m T) \<and>
     (\<forall>d d' w. distinct (map (engine_dir d) [''step'', ''idcmd'', ''eventsubs'', ''wfstatus''] @
                       map (engine_dir d') [''step'', ''idcmd'', ''eventsubs'', ''wfstatus'']) \<longrightarrow>
        (\<forall>p. bw_disk w p = []) \<longrightarrow> bw_disk_clock w = T \<longrightarrow>
        passes (test_engine_storage (go_read bw_disk_clock) (diskv_engine inmem_env d) (diskv_engine inmem_env d')) w)"
proof (intro conjI allI impI)
  show "passes (test_engine_storage (go_read (\<lambda>w. wall_clock (fst w)))
             (kv_engine_new inmem_env fst (\<lambda>s w. (s, snd w))) (kv_engine_new inmem_env snd (\<lambda>s w. (fst w, s))))
           (idle_store [] [] n T, idle_store [] [] m T)"
    by (rule kv_suite [OF _ _ _ _ _ _ assms]) (auto simp: lens_def apart_def shows_time_def idle_store_def intro: same_ids)
next
  fix d d' and w :: "mem_bucket backend_world"
  assume dirs: "distinct (map (engine_dir d) [''step'', ''idcmd'', ''eventsubs'', ''wfstatus''] @
                       map (engine_dir d') [''step'', ''idcmd'', ''eventsubs'', ''wfstatus''])"
    and w: "\<forall>p. bw_disk w p = []" "bw_disk_clock w = T"
  have idle: "disk_store_get p w = idle_store [] [] (bw_disk_ids w) T" for p
    using w by (simp add: disk_store_get_def idle_store_def)
  show "passes (test_engine_storage (go_read bw_disk_clock) (diskv_engine inmem_env d) (diskv_engine inmem_env d')) w"
    unfolding diskv_engine_def
  proof (rule kv_suite)
    show "lens (disk_store_get d) (disk_store_put d)" "lens (disk_store_get d') (disk_store_put d')"
      using dirs by (simp_all add: disk_lens)
    show "apart T (disk_store_get d) (disk_store_put d) (disk_store_get d')"
      "apart T (disk_store_get d') (disk_store_put d') (disk_store_get d)"
      by (rule disk_apart; use dirs in auto)+
    show "shows_time T bw_disk_clock (disk_store_put d) w" "shows_time T bw_disk_clock (disk_store_put d') w" for w :: "mem_bucket backend_world"
      by (simp_all add: shows_time_def disk_store_put_def)
  qed (use w idle assms in auto)
qed

theorem kv_passes_tests_witness:
  "passes (test_engine_storage (go_read (\<lambda>w. wall_clock (fst w)))
      (kv_engine_new inmem_env fst (\<lambda>s w. (s, snd w))) (kv_engine_new inmem_env snd (\<lambda>s w. (fst w, s))))
      (idle_store [] [] 0 (2 * minute), idle_store [] [] 0 (2 * minute)) \<and>
   passes (test_engine_storage (go_read bw_disk_clock) (diskv_engine inmem_env ''a'') (diskv_engine inmem_env ''b''))
      (fresh_world\<lparr>bw_disk_clock := 2 * minute\<rparr>)"
proof -
  have T: "test_time (2 * minute)" by (simp add: test_time_def go_time_def max_go_time_def minute_def)
  have "distinct (map (engine_dir ''a'') [''step'', ''idcmd'', ''eventsubs'', ''wfstatus''] @
      map (engine_dir ''b'') [''step'', ''idcmd'', ''eventsubs'', ''wfstatus''])" by code_simp
  then show ?thesis using kv_passes_tests [OF T, of 0 0] by (simp add: fresh_world_def)
qed

section \<open>The MySQL storage\<close>

lemma bw_mysql_lens: "lens bw_mysql (\<lambda>s w. w\<lparr>bw_mysql := s\<rparr>)"
  by (simp add: lens_def)

text \<open>
  C6: The MySQL storage passes the repository's conformance tests of engine storages from an empty database, at any
  instant, on a server that answers every call, compares bytes and keeps instants to the second: the offsets of two
  seconds that the worker's tests use are enough for the rounding.
\<close>

theorem mysql_passes_tests:
  assumes "minute < T"
  shows "passes (test_engine_storage (go_read (\<lambda>w. go_clock (bw_mysql w)))
             (mysql_engine_storage plain_server) (mysql_engine_storage plain_server))
           (w\<lparr>bw_mysql := database empty_tables 1 T\<rparr>)"
  using mysql_suite [OF bw_mysql_lens assms, where w = w]
  by (auto simp: passes_def run_def mysql_engine_storage_def)

theorem mysql_passes_tests_witness:
  "passes (test_engine_storage (go_read (\<lambda>w. go_clock (bw_mysql w)))
       (mysql_engine_storage plain_server) (mysql_engine_storage plain_server))
     (fresh_world\<lparr>bw_mysql := database empty_tables 1 (2 * minute)\<rparr>)"
  by (rule mysql_passes_tests) (simp add: minute_def)

section \<open>The subsystems' stores\<close>

lemma dir_lens: "lens (\<lambda>w. bw_disk w d) (dir_put d)"
  by (simp add: lens_def dir_put_def)

lemma bw_lenses:
  "lens bw_profile (\<lambda>b w. w\<lparr>bw_profile := b\<rparr>)" "lens bw_inventory (\<lambda>b w. w\<lparr>bw_inventory := b\<rparr>)"
  "lens bw_cmd_plan (\<lambda>b w. w\<lparr>bw_cmd_plan := b\<rparr>)"
  by (simp_all add: lens_def)

lemma kv_profiles_pass:
  assumes "kv_laws E view" "lens get put" "kv_laws.prof_rep view (get w) P"
  shows "passes (test_profile_storage (kv_full_profile_storage E get put)) w"
proof -
  have x: "kv_profiles E view get put"
    by (intro kv_profiles.intro assms(1) kv_profiles_axioms.intro) (simp_all add: lensD [OF assms(2)])
  show ?thesis
    by (rule profile_contract.profile_test_run [OF kv_profiles.keeps_contract [OF x]])
      (simp_all add: kv_profiles.kv_profs_rep [OF x assms(3)] assms(3))
qed

text \<open>
  C27: The profile store of every backend (in memory, on disk, MySQL) passes the repository's conformance test whatever
  profiles it holds already, on any bucket with the library's laws and any server that answers and tells strings apart.
\<close>

theorem profile_stores_pass_tests:
  assumes "kv_laws E view" "kv_laws.prof_rep view (bw_profile w) P" "kv_laws.prof_rep view (bw_disk w d) P'"
    and "works M" "inj (collation M)" "distinct (map pr_name (pdb_rows (bw_profile_db w)))"
    and "profile_fits M ''test'' test_profile_info ''23CD''"
  shows "passes (test_profile_storage (inmem_profile E)) w \<and> passes (test_profile_storage (diskv_profile E d)) w \<and>
     passes (test_profile_storage (mysql_profile M)) w"
proof (intro conjI)
  show "passes (test_profile_storage (inmem_profile E)) w"
    unfolding inmem_profile_def by (rule kv_profiles_pass [OF assms(1) bw_lenses(1) assms(2)])
  show "passes (test_profile_storage (diskv_profile E d)) w"
    unfolding diskv_profile_def by (rule kv_profiles_pass [OF assms(1) dir_lens assms(3)])
  have "mysql_profiles M bw_profile_db (\<lambda>x w. w\<lparr>bw_profile_db := x\<rparr>)"
    by unfold_locales (simp_all add: assms)
  from profile_contract.profile_test_run [OF mysql_profiles.keeps_contract [OF this], of w] assms(6,7)
  show "passes (test_profile_storage (mysql_profile M)) w" unfolding mysql_profile_def by simp
qed

theorem profile_stores_pass_tests_witness:
  "passes (test_profile_storage (inmem_profile inmem_env)) fresh_world \<and>
   passes (test_profile_storage (diskv_profile inmem_env ''db'')) fresh_world \<and>
   passes (test_profile_storage (mysql_profile plain_server)) fresh_world"
proof -
  have "kv_laws.prof_rep map_of ([] :: mem_bucket) Map.empty" by (simp add: inmem.prof_rep_def)
  then show ?thesis
    using profile_stores_pass_tests [OF inmem.kv_laws_axioms, of fresh_world Map.empty "''db''" Map.empty plain_server]
    by (simp add: fresh_world_def no_profiles_def profile_fits_def test_profile_info_def mediumtext_def)
qed

lemma kv_inventory_laws: "kv_inventory E view J norm \<Longrightarrow> kv_laws E view"
  by (rule kv_inventory.axioms)

text \<open>
  C28: The inventory passes its conformance test whatever inventory it holds already, in memory and on disk, and so does
  the store of command plans when the JSON codec reads the test's plan as it wrote it.
\<close>

theorem bucket_stores_pass_tests:
  assumes "kv_inventory E view J norm" "kv_inventory.inv_rep view J (bw_inventory w) I"
    and "kv_inventory.inv_rep view J (bw_disk w d) I'" "keeps_plan Q test_plan"
  shows "passes (test_inventory_storage (inmem_inventory E J)) w \<and> passes (test_inventory_storage (diskv_inventory E J d)) w \<and>
     passes (test_cmd_plan_storage (inmem_cmd_plan E Q)) w \<and> passes (test_cmd_plan_storage (diskv_cmd_plan E Q d)) w"
  unfolding inmem_inventory_def diskv_inventory_def inmem_cmd_plan_def diskv_cmd_plan_def
  using kv_inventory.inventory_test_run [OF assms(1) bw_lenses(2) assms(2)]
    kv_inventory.inventory_test_run [OF assms(1) dir_lens assms(3)]
    kv_laws.plan_test_run [OF kv_inventory_laws [OF assms(1)] bw_lenses(3) assms(4)]
    kv_laws.plan_test_run [OF kv_inventory_laws [OF assms(1)] dir_lens assms(4)]
  by blast

text \<open>A codec that keeps every plan.\<close>

definition number_plans :: plan_json where
  "number_plans =
     \<lparr>pj_marshal = (\<lambda>p. Inr (case p of None \<Rightarrow> ''null''
         | Some p \<Rightarrow> digits (to_nat (cpl_profile_names p, cpl_manifest_urls p, cpl_device_configured p)))),
      pj_unmarshal = (\<lambda>j p. if j = ''null'' then Inr p else
         (case from_nat (digits_value j) of (names, urls, conf) \<Rightarrow>
            Inr \<lparr>cpl_profile_names = names, cpl_manifest_urls = urls, cpl_device_configured = conf\<rparr>))\<rparr>"

lemma number_plans_keep: "keeps_plan number_plans p"
proof -
  have "digits n \<noteq> ''null''" for n using digits_are_digits [of n] by (auto simp: is_digit_def)
  then show ?thesis by (simp add: keeps_plan_def number_plans_def)
qed

theorem bucket_stores_pass_tests_witness:
  "passes (test_inventory_storage (inmem_inventory inmem_env any_json)) fresh_world \<and>
   passes (test_inventory_storage (diskv_inventory inmem_env any_json ''db'')) fresh_world \<and>
   passes (test_cmd_plan_storage (inmem_cmd_plan inmem_env number_plans)) fresh_world \<and>
   passes (test_cmd_plan_storage (diskv_cmd_plan inmem_env number_plans ''db'')) fresh_world"
proof (rule bucket_stores_pass_tests [OF _ _ _ number_plans_keep])
  show "kv_inventory inmem_env map_of any_json id"
    by (intro kv_inventory.intro inmem.kv_laws_axioms any_codec.inv_codec_axioms)
  show "kv_inventory.inv_rep map_of any_json (bw_inventory fresh_world) Map.empty"
    "kv_inventory.inv_rep map_of any_json (bw_disk fresh_world ''db'') Map.empty"
    by (simp_all add: fresh_world_def mem_prk.inv_rep_def)
qed

end
