(* ===== verification/TestHelpers.thy ===== *)
theory TestHelpers
  imports Engine WfBase
begin

text \<open>
  What the repository's tests of workflows use: generators of given IDs (\<open>utils/uuid\<close>), an enqueuer that does nothing,
  one that collects the steps and hands them on, and the sending of a response that a file holds (\<open>workflow/test\<close>).
\<close>

section \<open>Given IDs\<close>

record static_ids =
  sid_ids :: "string list"
  sid_i :: nat

definition new_static_ids :: "string list \<Rightarrow> static_ids" where
  "new_static_ids ids = \<lparr>sid_ids = ids, sid_i = 0\<rparr>"

text \<open>The remainder by the length panics when there are no IDs.\<close>

definition static_id :: "(static_ids, string) action" where
  "static_id = (\<lambda>s.
     if sid_ids s = [] then (Inl (Errorf ''panic: integer divide by zero'' []), s)
     else (Inr (sid_ids s ! (sid_i s mod length (sid_ids s))), s\<lparr>sid_i := sid_i s + 1\<rparr>))"

fun take_ids :: "nat \<Rightarrow> (static_ids, string list) action" where
  "take_ids 0 = go_ret []"
| "take_ids (Suc n) = go_bind static_id (\<lambda>i. go_bind (take_ids n) (\<lambda>is. go_ret (i # is)))"

lemma take_ids_from:
  assumes "ids \<noteq> []"
  shows "take_ids n \<lparr>sid_ids = ids, sid_i = k\<rparr> =
     (Inr (map (\<lambda>j. ids ! (j mod length ids)) [k..<k + n]), \<lparr>sid_ids = ids, sid_i = k + n\<rparr>)"
proof (induction n arbitrary: k)
  case (Suc n)
  have "[k..<k + Suc n] = k # [Suc k..<Suc k + n]" by (simp add: upt_conv_Cons)
  with Suc assms show ?case by (simp add: static_id_def go_bind_def go_ret_def)
qed (simp add: go_ret_def)

text \<open>The IDs come round in their order.\<close>

lemma static_ids_cycle:
  "ids \<noteq> [] \<Longrightarrow> fst (take_ids (m * length ids) (new_static_ids ids)) = Inr (concat (replicate m ids))"
proof -
  assume ids: "ids \<noteq> []"
  have "map (\<lambda>j. ids ! (j mod length ids)) [0..<m * length ids] = concat (replicate m ids)"
  proof (induction m)
    case (Suc m)
    let ?f = "\<lambda>j. ids ! (j mod length ids)"
    have "[0..<Suc m * length ids] = [0..<m * length ids] @ map (\<lambda>j. j + m * length ids) [0..<length ids]"
      using upt_add_eq_append [of 0 "m * length ids" "length ids"] by (simp add: map_add_upt add.commute)
    moreover have "map (\<lambda>j. ?f (j + m * length ids)) [0..<length ids] = ids"
      using ids by (intro nth_equalityI) auto
    moreover have "concat (replicate (Suc m) ids) = concat (replicate m ids) @ ids"
      by (simp flip: replicate_append_same)
    ultimately show ?case using Suc by (simp add: o_def)
  qed simp
  with take_ids_from [OF ids, of "m * length ids" 0] show ?thesis by (simp add: new_static_ids_def)
qed

section \<open>Enqueuers\<close>

definition null_enqueue :: "string list \<Rightarrow> bytes \<Rightarrow> ('w, unit) action" where "null_enqueue ids raw = go_ret ()"
definition null_supports_multi_commands :: bool where "null_supports_multi_commands = True"

record 'c collected_step =
  cst_workflow_name :: string
  cst_step :: "'c wf_step_enqueueing"

text \<open>The collector keeps its steps beside the world of the enqueuer that it hands them on to.\<close>

definition collect_step ::
  "(string \<Rightarrow> 'c wf_step_enqueueing \<Rightarrow> ('w, unit) action) \<Rightarrow> string \<Rightarrow> 'c wf_step_enqueueing
    \<Rightarrow> ('w \<times> 'c collected_step list, unit) action" where
  "collect_step next_enqueue name es =
     go_bind (\<lambda>(w, steps). (Inr (), w, steps @ [\<lparr>cst_workflow_name = name, cst_step = es\<rparr>])) (\<lambda>_.
     go_zoom fst (\<lambda>w s. (w, snd s)) (next_enqueue name es))"

definition collected_steps :: "'w \<times> 'c collected_step list \<Rightarrow> 'c collected_step list" where
  "collected_steps s = snd s"

text \<open>A collector changes nothing of what its enqueuer does, and keeps every step, also one that is refused.\<close>

lemma collect_step_run:
  "collect_step next_enqueue name es (w, steps) =
     (fst (next_enqueue name es w), snd (next_enqueue name es w), steps @ [\<lparr>cst_workflow_name = name, cst_step = es\<rparr>])"
  by (simp add: collect_step_def go_bind_def go_zoom_def split: prod.split)

section \<open>Responses from files\<close>

text \<open>
  The parser of property lists gives a response's command UUID and its \<open>UDID\<close>, which is a pointer. A response without
  a UDID makes the comparison panic.
\<close>

definition send_command_event ::
  "(string \<Rightarrow> string \<Rightarrow> bytes \<Rightarrow> params option \<Rightarrow> ('w, unit) action) \<Rightarrow> (bytes \<Rightarrow> (string \<times> string option) result)
    \<Rightarrow> (string \<Rightarrow> ('w, bytes) action) \<Rightarrow> string \<Rightarrow> string \<Rightarrow> string \<Rightarrow> ('w, unit) action" where
  "send_command_event eventer parse read_file path i command_uuid =
     go_bind (go_wrap ''reading raw command: %w'' [] (read_file path)) (\<lambda>raw.
     go_bind (go_wrap ''parsing generic command response: %w'' [] (go_lift (parse raw))) (\<lambda>(uuid, udid).
     if command_uuid \<noteq> uuid then go_fail (Errorf ''command UUIDs do not match: %s != %s'' [command_uuid, uuid])
     else case udid of
       None \<Rightarrow> go_fail (Errorf ''panic: nil pointer dereference'' [])
     | Some udid \<Rightarrow>
         if i \<noteq> udid then go_fail (Errorf ''response UDIDs do not match: %s != %s'' [i, udid])
         else eventer i command_uuid raw None))"

text \<open>The engine gets the file's bytes, and only when they answer the command for the enrollment.\<close>

lemma send_command_event_run:
  assumes "read_file path w = (Inr raw, w)" "parse raw = Inr (uuid, Some udid)"
  shows "send_command_event (mdm_command_response_event e) parse read_file path i command_uuid w =
     (if command_uuid = uuid \<and> i = udid then mdm_command_response_event e i command_uuid raw None w
      else if command_uuid \<noteq> uuid then (Inl (Errorf ''command UUIDs do not match: %s != %s'' [command_uuid, uuid]), w)
      else (Inl (Errorf ''response UDIDs do not match: %s != %s'' [i, udid]), w))"
  using assms by (simp add: send_command_event_def go_defs)

end
