(* ===== verification/Spec2Isabelle.thy ===== *)
theory Spec2Isabelle
  imports WorkerProps WfProps MySQLTypes ConformanceProps TestHelpers
begin

text \<open>
  NanoCMD is a workflow engine for Apple device management. Workflows enqueue steps of MDM commands for
  enrollments (devices); the engine stores a step, sends its commands to the MDM server, collects the
  responses, and calls the workflow again when an enrollment has answered every command of the step, or
  when the step times out. This development models the engine, its key-value and its MySQL storage, the client of
  the MDM server, the stores of the subsystems, the workflows that come with the program, the HTTP API and the server
  command that puts them together.

  \<^bold>\<open>The parts and their theories.\<close>
  \<^item> \<open>Prelude\<close>: Go's errors (\<open>error\<close>, wrapped with \<open>%w\<close>), results, actions that pass a state
    (\<open>go_bind\<close>, \<open>go_for\<close>, \<open>go_fold\<close>, \<open>go_wrap\<close>, \<open>go_try\<close>) and the calculus \<open>wp\<close> that proves what an action
    does; \<open>Strconv\<close>: decimal numbers as \<open>strconv\<close> reads and writes them, 64-bit range included.
  \<^item> \<open>Mdm\<close> (\<open>mdm/mdm.go\<close>), \<open>WorkflowTypes\<close> (\<open>workflow/*.go\<close>: event flags as 64-bit words, contexts, steps,
    the workflow interface as a record of actions), \<open>StorageTypes\<close> (\<open>engine/storage/storage.go\<close>).
  \<^item> \<open>KVBucket\<close>: the bucket library (outside the repository) as the locale \<open>kv_laws\<close>, interpreted by an
    in-memory bucket; \<open>KVPrim\<close> (\<open>engine/storage/kv/prim.go\<close>), \<open>KVStore\<close> (\<open>kv.go\<close>), \<open>KVWorker\<close>
    (\<open>worker_prim.go\<close>, \<open>worker.go\<close>), \<open>KVEvent\<close> (\<open>event.go\<close>). Keys are built as the code builds them, by
    concatenation.
  \<^item> \<open>KVSpec\<close>: the abstract store, a map of steps and a map of commands, and the relation \<open>rep\<close> that says
    which buckets represent it; \<open>KVRefine\<close>, \<open>KVResponse\<close>, \<open>KVQuery\<close> (and the second half of \<open>KVWorker\<close> and
    \<open>KVEvent\<close>) prove that each operation refines an abstract one.
  \<^item> \<open>EngineConvert\<close> (\<open>engine/convert.go\<close>), \<open>EngineReg\<close> (\<open>reg.go\<close>), \<open>EngineLock\<close> (the read-write lock of the
    registry as a step relation), \<open>Engine\<close> (\<open>engine.go\<close>), \<open>EngineWorker\<close> (\<open>worker.go\<close>).
  \<^item> \<open>EngineContract\<close>: what the engine needs of its storage (\<open>storage_contract\<close>) and of a wait group
    (\<open>wait_group\<close>: the goroutines run one after the other in any order); \<open>KVEngine\<close> and \<open>EngineFacts\<close> give the
    key-value storage as such a storage and put the engine on it: \<open>sys_world\<close> is the store together with what was
    sent, pushed and called.
  \<^item> \<open>MySQLTables\<close> (\<open>engine/storage/mysql/mysql.go\<close>, \<open>sqlc/models.go\<close>): rows, tables, transactions, and the server
    as a record of parameters; \<open>MySQLQueries\<close> (\<open>sqlc/query*.go\<close>): each query as a function on tables;
    \<open>MySQLStorage\<close> (\<open>storage.go\<close>, \<open>worker.go\<close>, \<open>event.go\<close>): the operations.
  \<^item> \<open>MySQLFacts\<close>: failing calls and what transactions make of them; \<open>MySQLInv\<close> and \<open>MySQLSound\<close>: the database
    invariant \<open>intact\<close> and that every operation keeps it; \<open>MySQLEffect\<close>: what the operations do to the rows;
    \<open>MySQLEngine\<close>: the MySQL storage keeps the \<open>storage_contract\<close> of the engine; \<open>MySQLTypes\<close>: column types.
  \<^item> \<open>Foss\<close> (\<open>mdm/foss/*.go\<close>), \<open>SubStores\<close> (\<open>subsystem/*/storage\<close>, key-value backends);
    \<open>ProfileStores\<close>: the profile store with its MySQL backend (\<open>subsystem/profile/storage/mysql\<close>) and the contract
    \<open>profile_contract\<close> that both backends keep.
  \<^item> \<open>WfBase\<close> (MDM commands and responses, the environment of a workflow, traces), \<open>WfLock\<close>, \<open>WfFileVault\<close>,
    \<open>WfProfile\<close>, \<open>WfCmdPlan\<close>, \<open>WfCertProf\<close>, \<open>WfInventory\<close> (\<open>workflow/*/workflow.go\<close>).
  \<^item> \<open>Http\<close> (\<open>http\<close>, \<open>engine/http\<close>, \<open>subsystem/*/http\<close>, \<open>utils/mobileconfig\<close>): handlers from requests to responses and
    the routes they are registered under; \<open>Server\<close> (\<open>cmd/nanocmd\<close>): the choice of the backends, the registration of
    the workflows, the engine, its worker and the routes; \<open>Backends\<close> (\<open>*/storage/inmem\<close>, \<open>*/storage/diskv\<close>, the
    constructors of \<open>*/storage/mysql\<close>, \<open>utils/cryptoutil\<close>): every backend on one world, \<open>backend_world\<close>, which holds
    the buckets in memory, those on disk by directory, and the databases; \<open>GoPath\<close>: \<open>filepath.Join\<close>, which names the
    directories, and when joined paths are equal.
  \<^item> \<open>StorageTests\<close> (\<open>engine/storage/test\<close>) and \<open>SubsystemTests\<close> (\<open>subsystem/*/storage/test\<close>): the conformance tests that
    the repository runs on every storage, as runs that collect failures; \<open>Runs\<close>: the calculus \<open>run\<close> that evaluates an
    action step by step; \<open>KVTests\<close>, \<open>MySQLTests\<close>: the tests evaluated on the two storages of the engine;
    \<open>ConformanceProps\<close>: every backend passes its tests. \<open>TestHelpers\<close> (\<open>workflow/test\<close>, \<open>utils/uuid\<close>): what the tests of
    the workflows use.
  \<^item> \<open>KVProps\<close>, \<open>KVStepProps\<close>, \<open>KVEventProps\<close>, \<open>EngineProps\<close>, \<open>EngineStepProps\<close>, \<open>WorkerProps\<close>, \<open>PartProps\<close>,
    \<open>WfProps\<close>, \<open>MySQLProps\<close>, \<open>MySQLTypes\<close>, \<open>MySQLAgree\<close>, \<open>ServerProps\<close>, \<open>SystemProps\<close>, \<open>ConformanceProps\<close>: the properties
    C1 to C40, each with hypotheses with its witness, among further theorems of the same kind.

  \<^bold>\<open>Correspondence.\<close> A Go struct is a record, a pointer or interface that may be nil an option, a map a function to
  an option (an association list where its entries are iterated), \<open>error\<close> the left summand of \<open>error + 'a\<close>. A
  method that does I/O is an action \<open>'w \<Rightarrow> (error + 'a) \<times> 'w\<close> on a world that the definitions leave open; a
  method of an interface is a field of a record of actions. Times are nanoseconds since Go's zero time, which is
  0. The iteration order of Go maps is left open: it is that of the list of keys the bucket returns, and no property
  depends on it. Contexts (\<open>context.Context\<close>), logging and the mutex of the key-value store are left out. The methods for
  steps, commands and the worker hold the mutex from beginning to end, so they are the steps of any interleaving. The
  methods for the started workflows (\<open>RetrieveWorkflowStarted\<close>, \<open>RecordWorkflowStarted\<close>, \<open>ClearWorkflowStatus\<close>) and
  those of \<open>event.go\<close> take no lock: the model runs each as a whole, and says nothing of two that run at the same time.
  Go's map and slice are never shared between the modelled values in a way that a property could see.

  \<^bold>\<open>The database.\<close> A table is the list of its rows in the order they were inserted, in which queries without an
  order return them; the maps that the Go code folds rows into keep that order where Go iterates in an unspecified one.
  The record \<open>mysql_env\<close> leaves open the collation, which values a column takes, how it keeps a timestamp, the random
  source, and for each call whether the server works, fails before it acts, or acts and loses its reply; the
  properties say which of these they need (\<open>works\<close>: every call works). A transaction is one step of any interleaving;
  the count of open commands, which the code makes outside its transaction, is a step of its own. The columns
  \<open>created_at\<close> are left out, and \<open>updated_at\<close> except for commands, where a query reads it.

  \<^bold>\<open>What the lemmas show.\<close> The refinement lemmas have the form: if the buckets represent \<open>a\<close> and the continuation
  holds of every store that represents the abstract result, then it holds after the operation. The properties
  restate them as runs: which result the operation returns and what the store represents afterwards. They hold for
  every environment that obeys \<open>kv_laws\<close>, for command UUIDs of one length and enrollment IDs that are not step IDs and
  have no comma (\<open>storable\<close>), which is what makes the concatenated keys unambiguous. For MySQL the lemmas say that every
  operation keeps the invariant whatever calls fail, that it happens as a whole or not at all, and which rows it adds,
  changes and deletes; the column types (C9) are kept when the server's clock shows instants that a TIMESTAMP column keeps. The engine's properties are proved from \<open>storage_contract\<close>, which both backends keep, and those of
  the profile handlers from \<open>profile_contract\<close>; two further theorems compare the backends with each other. \<open>SystemProps\<close>
  puts the parts together: the server that \<open>make_server\<close> builds on the file storage, its routes, and what a request
  does to the directories. \<open>ConformanceProps\<close> evaluates the repository's own tests in the kernel: on the key-value
  storage at any instant and with any number of IDs issued, on MySQL at any instant, and for the subsystems' stores
  from any state, by their contracts and refinement lemmas instead of evaluation.

  \<^bold>\<open>Termination.\<close> All loops of the program are over finite lists and are structural recursion, except \<open>chunk\<close>
  of \<open>mdm/foss/foss.go\<close>, whose step is a configured number and which loops forever when that is zero: it is a
  \<open>partial_function (option)\<close>, and C36 and C37 show that it returns for the clients the package can make, whatever the libraries for URLs and requests answer. The worker's
  endless loop is a function of the list of its ticks. Text replacement and \<open>os.Expand\<close> are recursive functions with
  termination proofs. No fuel is used.

  \<^bold>\<open>What is not modelled.\<close> The parsing of flags, the listener, request logging and trace IDs of the server command;
  the router's matching of paths; the buckets, the database driver, cryptography and random UUIDs, parameters
  where they are called; the names of log keys; the \<open>_test.go\<close> files.
\<close>

end
